(* ===== verification/Prelude.thy ===== *)
theory Prelude
  imports Main "HOL-Library.Product_Lexorder"
begin

text \<open>
  Shared vocabulary of the development.

  \<^item> \<open>exn\<close> has one constructor per exception class the modelled Python code raises (or
    lets through from a library call), carrying the data the exception is built from.
  \<^item> \<open>('s, 'a) act\<close> is a Python call: it reads and updates a state \<open>'s\<close> and either returns
    a value (\<open>Inr\<close>) or raises (\<open>Inl\<close>).  The state survives a raise, as mutations made before a
    Python exception do; undoing them (a database rollback) is never assumed.
  \<^item> \<open>valid\<close> and \<open>keeps\<close> are the partial-correctness judgements the component theories prove
    their invariants with; the rules in the collection \<open>act_rules\<close> compose them along the
    structure of a definition.  Nothing here can diverge, so they are total as well.
  \<^item> Python truthiness of strings and optional strings, dictionaries as association lists.
\<close>

section \<open>Exceptions\<close>

text \<open>The classes below \<open>NetAppManagerError\<close>, which the code tells apart by name.\<close>

datatype netapp_class =
    PlainManagerError
  | ConfigurationError
  | SvmOperationError
  | VolumeOperationError

datatype exn =
    PyException string "string list"
  | ValueError string
  | RuntimeError string
  | TypeError string
  | KeyError string
  | IndexError
  | AttributeError string
  | BadRequest string string
  | SubportSegmentationIDError int string string
  | UnderstackVNIInvalidRange string string
  | UnderstackVNINotInRange int string
  | UnderstackVNIInUse int string
  | UnderstackVNIRouterHasVNI string int int
  | UnderstackVNINoAvailable string
  | NoNetdevNodeAvailable string string
  | PaloAltoFlavorMisconfigured string string
  | UndersyncError
  | NotFound string
  | TopologyError string
  | NoMatchError
  | InvalidNodeInventory string string
  | IronicException string
  | RedfishRequestError string
  | AuthException string
  | RequestError int string
  | NautobotRequestError
  | DeviceNotReadyError string
  | NetAppRestError int string
  | NetAppManagerError netapp_class string
  | Foreign string

section \<open>Calls that may raise\<close>

type_synonym ('s, 'a) act = "'s \<Rightarrow> (exn + 'a) \<times> 's"

named_theorems act_rules \<open>composition rules of the judgement on calls\<close>

definition ret :: "'a \<Rightarrow> ('s, 'a) act" where
  "ret x = (\<lambda>s. (Inr x, s))"

definition raise_exn :: "exn \<Rightarrow> ('s, 'a) act" where
  "raise_exn e = (\<lambda>s. (Inl e, s))"

definition bnd :: "('s, 'a) act \<Rightarrow> ('a \<Rightarrow> ('s, 'b) act) \<Rightarrow> ('s, 'b) act" where
  "bnd m f = (\<lambda>s. case m s of (Inl e, s') \<Rightarrow> (Inl e, s') | (Inr x, s') \<Rightarrow> f x s')"

definition andthen :: "('s, 'a) act \<Rightarrow> ('s, 'b) act \<Rightarrow> ('s, 'b) act" where
  "andthen m k = bnd m (\<lambda>_. k)"

definition reads :: "('s \<Rightarrow> 'a) \<Rightarrow> ('s, 'a) act" where
  "reads f = (\<lambda>s. (Inr (f s), s))"

definition updates :: "('s \<Rightarrow> 's) \<Rightarrow> ('s, unit) act" where
  "updates f = (\<lambda>s. (Inr (), f s))"

definition of_sum :: "exn + 'a \<Rightarrow> ('s, 'a) act" where
  "of_sum r = (\<lambda>s. (r, s))"

definition try_except :: "('s, 'a) act \<Rightarrow> (exn \<Rightarrow> ('s, 'a) act) \<Rightarrow> ('s, 'a) act" where
  "try_except m h = (\<lambda>s. case m s of (Inl e, s') \<Rightarrow> h e s' | (Inr x, s') \<Rightarrow> (Inr x, s'))"

definition finally_act :: "('s, 'a) act \<Rightarrow> ('s, unit) act \<Rightarrow> ('s, 'a) act" where
  "finally_act m f = (\<lambda>s. case m s of (r, s') \<Rightarrow> (case f s' of (Inl e, s'') \<Rightarrow> (Inl e, s'') | (Inr _, s'') \<Rightarrow> (r, s'')))"

definition when_act :: "bool \<Rightarrow> ('s, unit) act \<Rightarrow> ('s, unit) act" where
  "when_act b m = (if b then m else ret ())"

fun for_each :: "('a \<Rightarrow> ('s, unit) act) \<Rightarrow> 'a list \<Rightarrow> ('s, unit) act" where
  "for_each f [] = ret ()"
| "for_each f (x # xs) = andthen (f x) (for_each f xs)"

fun map_act :: "('a \<Rightarrow> ('s, 'b) act) \<Rightarrow> 'a list \<Rightarrow> ('s, 'b list) act" where
  "map_act f [] = ret []"
| "map_act f (x # xs) = bnd (f x) (\<lambda>y. bnd (map_act f xs) (\<lambda>ys. ret (y # ys)))"

lemma ret_apply [simp]: "ret x s = (Inr x, s)"
  by (simp add: ret_def)

lemma raise_exn_apply [simp]: "raise_exn e s = (Inl e, s)"
  by (simp add: raise_exn_def)

lemma bnd_apply [simp]:
  "bnd m f s = (case m s of (Inl e, s') \<Rightarrow> (Inl e, s') | (Inr x, s') \<Rightarrow> f x s')"
  by (simp add: bnd_def)

lemma andthen_apply [simp]:
  "andthen m k s = (case m s of (Inl e, s') \<Rightarrow> (Inl e, s') | (Inr x, s') \<Rightarrow> k s')"
  by (simp add: andthen_def)

lemma reads_apply [simp]: "reads f s = (Inr (f s), s)"
  by (simp add: reads_def)

lemma updates_apply [simp]: "updates f s = (Inr (), f s)"
  by (simp add: updates_def)

lemma of_sum_apply [simp]: "of_sum r s = (r, s)"
  by (simp add: of_sum_def)

lemma try_except_apply [simp]:
  "try_except m h s = (case m s of (Inl e, s') \<Rightarrow> h e s' | (Inr x, s') \<Rightarrow> (Inr x, s'))"
  by (simp add: try_except_def)

lemma finally_act_apply [simp]:
  "finally_act m f s = (case m s of (r, s') \<Rightarrow> (case f s' of (Inl e, s'') \<Rightarrow> (Inl e, s'') | (Inr _, s'') \<Rightarrow> (r, s'')))"
  by (simp add: finally_act_def)

lemma when_act_apply [simp]: "when_act b m s = (if b then m s else (Inr (), s))"
  by (simp add: when_act_def)

text \<open>Inversion of a call that returned.\<close>

lemma bnd_Inr: "bnd m f s = (Inr y, s') \<longleftrightarrow> (\<exists>x s1. m s = (Inr x, s1) \<and> f x s1 = (Inr y, s'))"
  by (auto split: prod.split sum.split)

lemma andthen_Inr: "andthen m k s = (Inr y, s') \<longleftrightarrow> (\<exists>x s1. m s = (Inr x, s1) \<and> k s1 = (Inr y, s'))"
  by (auto split: prod.split sum.split)

lemma andthen_Inr_unit:
  "andthen (m :: ('s, unit) act) k s = (Inr y, s') \<longleftrightarrow> (\<exists>s1. m s = (Inr (), s1) \<and> k s1 = (Inr y, s'))"
  unfolding andthen_Inr by (metis (full_types) old.unit.exhaust)

lemmas act_Inr = bnd_Inr andthen_Inr

text \<open>Two calls that agree on what their first part returns agree.\<close>

lemma bnd_cong_at: "(\<And>x s1. m s = (Inr x, s1) \<Longrightarrow> f x s1 = g x s1) \<Longrightarrow> bnd m f s = bnd m g s"
  by (auto split: prod.split sum.split)

lemma andthen_cong_at: "(\<And>x s1. m s = (Inr x, s1) \<Longrightarrow> k s1 = k' s1) \<Longrightarrow> andthen m k s = andthen m k' s"
  by (auto split: prod.split sum.split)

lemma andthen_cong_left: "m s = m' s \<Longrightarrow> andthen m k s = andthen m' k s"
  by simp

text \<open>Calls that have no state of their own.\<close>

definition sbnd :: "exn + 'a \<Rightarrow> ('a \<Rightarrow> exn + 'b) \<Rightarrow> exn + 'b" where
  "sbnd m f = (case m of Inl e \<Rightarrow> Inl e | Inr x \<Rightarrow> f x)"

lemma sbnd_simps [simp]: "sbnd (Inl e) f = Inl e" "sbnd (Inr x) f = f x"
  by (simp_all add: sbnd_def)

lemma sbnd_Inr: "sbnd m f = Inr y \<longleftrightarrow> (\<exists>x. m = Inr x \<and> f x = Inr y)"
  by (cases m) simp_all

fun smap :: "('a \<Rightarrow> exn + 'b) \<Rightarrow> 'a list \<Rightarrow> exn + 'b list" where
  "smap f [] = Inr []"
| "smap f (x # xs) = sbnd (f x) (\<lambda>y. sbnd (smap f xs) (\<lambda>ys. Inr (y # ys)))"

lemma smap_Inr: "smap f xs = Inr ys \<longleftrightarrow> map f xs = map Inr ys"
  by (induction xs arbitrary: ys) (auto simp: sbnd_Inr)

lemma smap_total: "(\<And>x. x \<in> set xs \<Longrightarrow> f x = Inr (g x)) \<Longrightarrow> smap f xs = Inr (map g xs)"
  by (induction xs) simp_all

lemma smap_Inl: "smap f xs = Inl e \<Longrightarrow> \<exists>x \<in> set xs. f x = Inl e"
  by (induction xs) (auto simp: sbnd_def split: sum.splits)

section \<open>Judgements on calls\<close>

definition valid ::
  "('s \<Rightarrow> bool) \<Rightarrow> ('s, 'a) act \<Rightarrow> ('a \<Rightarrow> 's \<Rightarrow> bool) \<Rightarrow> (exn \<Rightarrow> 's \<Rightarrow> bool) \<Rightarrow> bool"
where
  "valid P m Q E \<longleftrightarrow>
     (\<forall>s. P s \<longrightarrow> (case m s of (Inl e, s') \<Rightarrow> E e s' | (Inr x, s') \<Rightarrow> Q x s'))"

definition keeps :: "('s \<Rightarrow> bool) \<Rightarrow> ('s, 'a) act \<Rightarrow> bool" where
  "keeps I m \<longleftrightarrow> (\<forall>s. I s \<longrightarrow> I (snd (m s)))"

lemma validI:
  assumes "\<And>s x s'. P s \<Longrightarrow> m s = (Inr x, s') \<Longrightarrow> Q x s'"
    and "\<And>s e s'. P s \<Longrightarrow> m s = (Inl e, s') \<Longrightarrow> E e s'"
  shows "valid P m Q E"
  using assms by (auto simp: valid_def split: prod.split sum.split)

lemma validD:
  "valid P m Q E \<Longrightarrow> P s \<Longrightarrow> m s = (Inr x, s') \<Longrightarrow> Q x s'"
  "valid P m Q E \<Longrightarrow> P s \<Longrightarrow> m s = (Inl e, s') \<Longrightarrow> E e s'"
  by (auto simp: valid_def)

lemma keeps_valid: "keeps I m \<longleftrightarrow> valid I m (\<lambda>_. I) (\<lambda>_. I)"
  by (simp add: keeps_def valid_def split_beta split: sum.split)

lemma keepsD: "keeps I m \<Longrightarrow> I s \<Longrightarrow> I (snd (m s))"
  by (simp add: keeps_def)

lemma valid_conseq:
  assumes "valid P' m Q' E'"
    and "\<And>s. P s \<Longrightarrow> P' s"
    and "\<And>x s. Q' x s \<Longrightarrow> Q x s" and "\<And>e s. E' e s \<Longrightarrow> E e s"
  shows "valid P m Q E"
  using assms by (fastforce simp: valid_def split: prod.splits sum.splits)

lemma valid_bnd:
  assumes "valid P m R E" and "\<And>x. valid (R x) (f x) Q E"
  shows "valid P (bnd m f) Q E"
  using assms by (fastforce simp: valid_def split: prod.splits sum.splits)

lemma valid_andthen:
  assumes "valid P m (\<lambda>_. R) E" and "valid R k Q E"
  shows "valid P (andthen m k) Q E"
  using assms by (fastforce simp: valid_def split: prod.splits sum.splits)

lemma valid_ret: "(\<And>s. P s \<Longrightarrow> Q x s) \<Longrightarrow> valid P (ret x) Q E"
  by (simp add: valid_def)

lemma keeps_ret [act_rules, simp]: "keeps I (ret x)"
  by (simp add: keeps_def)

lemma keeps_raise [act_rules, simp]: "keeps I (raise_exn e)"
  by (simp add: keeps_def)

lemma keeps_reads [act_rules, simp]: "keeps I (reads f)"
  by (simp add: keeps_def)

lemma keeps_of_sum [act_rules, simp]: "keeps I (of_sum r)"
  by (simp add: keeps_def)

lemma keeps_updates [act_rules]: "(\<And>s. I s \<Longrightarrow> I (f s)) \<Longrightarrow> keeps I (updates f)"
  by (simp add: keeps_def)

lemma keeps_bnd [act_rules]: "keeps I m \<Longrightarrow> (\<And>x. keeps I (f x)) \<Longrightarrow> keeps I (bnd m f)"
  by (fastforce simp: keeps_def split: prod.splits sum.splits)

lemma keeps_andthen [act_rules]: "keeps I m \<Longrightarrow> keeps I k \<Longrightarrow> keeps I (andthen m k)"
  by (fastforce simp: keeps_def split: prod.splits sum.splits)

lemma keeps_try [act_rules]: "keeps I m \<Longrightarrow> (\<And>e. keeps I (h e)) \<Longrightarrow> keeps I (try_except m h)"
  by (fastforce simp: keeps_def split: prod.splits sum.splits)

lemma keeps_finally [act_rules]: "keeps I m \<Longrightarrow> keeps I f \<Longrightarrow> keeps I (finally_act m f)"
  by (fastforce simp: keeps_def split: prod.splits sum.splits)

lemma keeps_if [act_rules]: "(b \<Longrightarrow> keeps I m) \<Longrightarrow> (\<not> b \<Longrightarrow> keeps I k) \<Longrightarrow> keeps I (if b then m else k)"
  by simp

lemma keeps_when [act_rules]: "(b \<Longrightarrow> keeps I m) \<Longrightarrow> keeps I (when_act b m)"
  by (simp add: when_act_def)

lemma keeps_case_option [act_rules]:
  "(x = None \<Longrightarrow> keeps I m) \<Longrightarrow> (\<And>y. x = Some y \<Longrightarrow> keeps I (f y)) \<Longrightarrow>
   keeps I (case x of None \<Rightarrow> m | Some y \<Rightarrow> f y)"
  by (cases x) simp_all

lemma keeps_case_list [act_rules]:
  "(xs = [] \<Longrightarrow> keeps I m) \<Longrightarrow> (\<And>y ys. xs = y # ys \<Longrightarrow> keeps I (f y ys)) \<Longrightarrow>
   keeps I (case xs of [] \<Rightarrow> m | y # ys \<Rightarrow> f y ys)"
  by (cases xs) simp_all

lemma keeps_case_prod [act_rules]:
  "(\<And>a b. x = (a, b) \<Longrightarrow> keeps I (f a b)) \<Longrightarrow> keeps I (case x of (a, b) \<Rightarrow> f a b)"
  by (cases x) simp

lemma keeps_for_each [act_rules]:
  "(\<And>x. x \<in> set xs \<Longrightarrow> keeps I (f x)) \<Longrightarrow> keeps I (for_each f xs)"
  by (induction xs) (auto intro: keeps_andthen)

lemma keeps_map_act [act_rules]:
  "(\<And>x. x \<in> set xs \<Longrightarrow> keeps I (f x)) \<Longrightarrow> keeps I (map_act f xs)"
  by (induction xs) (auto intro!: keeps_bnd)

lemma for_each_append: "for_each f (xs @ ys) s = andthen (for_each f xs) (for_each f ys) s"
  by (induction xs arbitrary: s) (auto split: prod.split sum.split)

lemma for_each_map_act: "for_each f xs s = (Inr (), s') \<longleftrightarrow> (\<exists>rs. map_act f xs s = (Inr rs, s'))"
proof (induction xs arbitrary: s)
  case (Cons x xs)
  show ?case unfolding for_each.simps map_act.simps andthen_Inr bnd_Inr Cons.IH by auto
qed simp

subsection \<open>Calls that return\<close>

definition returns :: "('s \<Rightarrow> bool) \<Rightarrow> ('s, 'a) act \<Rightarrow> ('a \<Rightarrow> 's \<Rightarrow> bool) \<Rightarrow> bool" where
  "returns P m Q \<longleftrightarrow> (\<forall>s. P s \<longrightarrow> (\<exists>x s'. m s = (Inr x, s') \<and> Q x s'))"

lemma returnsI: "(\<And>s. P s \<Longrightarrow> \<exists>x s'. m s = (Inr x, s') \<and> Q x s') \<Longrightarrow> returns P m Q"
  by (simp add: returns_def)

lemma returnsD: "returns P m Q \<Longrightarrow> P s \<Longrightarrow> \<exists>x s'. m s = (Inr x, s') \<and> Q x s'"
  by (simp add: returns_def)

lemma returns_conseq: "returns P' m Q' \<Longrightarrow> (\<And>s. P s \<Longrightarrow> P' s) \<Longrightarrow> (\<And>x s. Q' x s \<Longrightarrow> Q x s) \<Longrightarrow> returns P m Q"
  unfolding returns_def by blast

lemma returns_bnd: "returns P m R \<Longrightarrow> (\<And>x. returns (R x) (f x) Q) \<Longrightarrow> returns P (bnd m f) Q"
  by (fastforce simp: returns_def)

lemma returns_andthen: "returns P m (\<lambda>_. R) \<Longrightarrow> returns R k Q \<Longrightarrow> returns P (andthen m k) Q"
  by (fastforce simp: returns_def)

lemma returns_ret: "(\<And>s. P s \<Longrightarrow> Q x s) \<Longrightarrow> returns P (ret x) Q"
  by (simp add: returns_def)

lemma returns_pure: "(\<And>s. P s \<Longrightarrow> r = Inr y \<and> Q y s) \<Longrightarrow> returns P (of_sum r) Q"
  by (auto simp: returns_def)

lemma returns_reads: "(\<And>s. P s \<Longrightarrow> Q (f s) s) \<Longrightarrow> returns P (reads f) Q"
  by (simp add: returns_def)

lemma returns_finally: "returns P m (\<lambda>_. R) \<Longrightarrow> returns R f (\<lambda>_. Q) \<Longrightarrow> returns P (finally_act m f) (\<lambda>_. Q)"
  by (fastforce simp: returns_def)

subsection \<open>Calls that behave alike\<close>

text \<open>
  From the states in \<open>P\<close>, \<open>m'\<close> does what \<open>m\<close> does, and \<open>m\<close> returns into \<open>Q\<close> or raises into \<open>E\<close>: the
  judgement with which a call is shown not to notice a change of the functions it calls.
\<close>

definition alike :: "('s \<Rightarrow> bool) \<Rightarrow> ('s, 'a) act \<Rightarrow> ('s, 'a) act \<Rightarrow> ('a \<Rightarrow> 's \<Rightarrow> bool) \<Rightarrow> (exn \<Rightarrow> 's \<Rightarrow> bool) \<Rightarrow> bool" where
  "alike P m m' Q E \<longleftrightarrow> (\<forall>s. P s \<longrightarrow> m' s = m s) \<and> valid P m Q E"

named_theorems alike_rules \<open>composition rules of calls that behave alike\<close>

lemma alikeI:
  "(\<And>s. P s \<Longrightarrow> m' s = m s) \<Longrightarrow> valid P m Q E \<Longrightarrow> alike P m m' Q E"
  by (simp add: alike_def)

lemma alike_eq: "alike P m m' Q E \<Longrightarrow> P s \<Longrightarrow> m' s = m s"
  by (simp add: alike_def)

lemma alike_same: "valid P m Q E \<Longrightarrow> alike P m m Q E"
  by (simp add: alike_def)

lemma alike_ret [alike_rules]: "(\<And>s. P s \<Longrightarrow> Q x s) \<Longrightarrow> alike P (ret x) (ret x) Q E"
  by (simp add: alike_def valid_def)

lemma alike_raise [alike_rules]: "(\<And>s. P s \<Longrightarrow> E e s) \<Longrightarrow> alike P (raise_exn e) (raise_exn e) Q E"
  by (simp add: alike_def valid_def)

lemma alike_bnd:
  assumes "alike P m m' R E" and "\<And>x. alike (R x) (f x) (f' x) Q E"
  shows "alike P (bnd m f) (bnd m' f') Q E"
proof (rule alikeI)
  show "valid P (bnd m f) Q E" using assms by (auto simp: alike_def intro: valid_bnd)
  fix s assume "P s"
  then show "bnd m' f' s = bnd m f s"
    using assms unfolding alike_def valid_def by (cases "m s") (fastforce split: sum.splits)
qed

lemma alike_andthen:
  assumes "alike P m m' (\<lambda>_. R) E" and "alike R k k' Q E"
  shows "alike P (andthen m k) (andthen m' k') Q E"
  unfolding andthen_def using assms by (intro alike_bnd [where R = "\<lambda>_. R"])

lemma alike_try:
  assumes "alike P m m' Q F" and "\<And>e. alike (F e) (h e) (h' e) Q E"
  shows "alike P (try_except m h) (try_except m' h') Q E"
proof -
  have "try_except m' h' s = try_except m h s \<and>
      (case try_except m h s of (Inl e, s') \<Rightarrow> E e s' | (Inr x, s') \<Rightarrow> Q x s')" if "P s" for s
    using assms that unfolding alike_def valid_def by (cases "m s") (fastforce split: sum.splits)
  then show ?thesis by (simp add: alike_def valid_def)
qed

lemma alike_when [alike_rules]:
  "(b \<Longrightarrow> alike P m m' Q E) \<Longrightarrow> (\<And>s. \<not> b \<Longrightarrow> P s \<Longrightarrow> Q () s) \<Longrightarrow> alike P (when_act b m) (when_act b m') Q E"
  by (cases b) (auto simp: when_act_def intro: alike_ret)

lemma alike_for_each:
  "(\<And>x. x \<in> set xs \<Longrightarrow> alike I (f x) (f' x) (\<lambda>_. I) E) \<Longrightarrow> alike I (for_each f xs) (for_each f' xs) (\<lambda>_. I) E"
  by (induction xs) (auto intro: alike_ret alike_andthen)

lemma alike_conseq:
  "alike P' m m' Q' E' \<Longrightarrow> (\<And>s. P s \<Longrightarrow> P' s) \<Longrightarrow> (\<And>x s. Q' x s \<Longrightarrow> Q x s) \<Longrightarrow> (\<And>e s. E' e s \<Longrightarrow> E e s) \<Longrightarrow> alike P m m' Q E"
  unfolding alike_def by (auto intro: valid_conseq)

subsection \<open>Calls that only read\<close>

definition pure_act :: "('s, 'a) act \<Rightarrow> bool" where
  "pure_act m \<longleftrightarrow> (\<forall>s. snd (m s) = s)"

lemma pure_actD: "pure_act m \<Longrightarrow> m s = (r, s') \<Longrightarrow> s' = s"
  by (metis pure_act_def snd_conv)

lemma pure_act_snd: "pure_act m \<Longrightarrow> snd (m s) = s"
  by (simp add: pure_act_def)

lemma pure_act_Pair: "pure_act m \<Longrightarrow> m s = (fst (m s), s)"
  by (simp add: pure_act_def prod_eq_iff)

lemma keeps_pure: "pure_act m \<Longrightarrow> keeps I m"
  by (simp add: pure_act_def keeps_def)

lemma pure_iff_keeps: "pure_act m \<longleftrightarrow> (\<forall>s. keeps (\<lambda>x. x = s) m)"
  by (auto simp: pure_act_def keeps_def)

lemma pureI [intro?]: "(\<And>s. keeps (\<lambda>x. x = s) m) \<Longrightarrow> pure_act m"
  by (simp add: pure_iff_keeps)

section \<open>Lists\<close>

lemma find_SomeD: "find P xs = Some x \<Longrightarrow> x \<in> set xs \<and> P x"
  by (induction xs) (auto split: if_splits)

lemma find_unique:
  "x \<in> set xs \<Longrightarrow> P x \<Longrightarrow> (\<And>y. y \<in> set xs \<Longrightarrow> P y \<Longrightarrow> y = x) \<Longrightarrow> find P xs = Some x"
  by (metis find_None_iff find_SomeD not_Some_eq)

lemma find_map_pres: "(\<And>x. P (g x) = P x) \<Longrightarrow> find P (map g xs) = map_option g (find P xs)"
  by (induction xs) auto

lemma find_append: "find P (xs @ ys) = (case find P xs of None \<Rightarrow> find P ys | Some x \<Rightarrow> Some x)"
  by (induction xs) auto

lemma filter_ConsD: "filter P xs = y # ys \<Longrightarrow> y \<in> set xs \<and> P y"
  by (metis filter_eq_ConsD in_set_conv_decomp)

lemma set_the_filter_Some:
  "set (map the (filter (\<lambda>p. p \<noteq> None) (map f xs))) = {y. \<exists>x \<in> set xs. f x = Some y}"
  by (induction xs) auto

section \<open>Python values\<close>

text \<open>
  A \<open>str\<close> is true when non-empty; an optional one when it is present and non-empty.  A
  \<open>dict\<close> is an association list read with \<open>map_of\<close> (insertion order kept, first entry of a
  key counts) and is true when non-empty.
\<close>

type_synonym 'v dict = "(string \<times> 'v) list"

definition truthy :: "string option \<Rightarrow> bool" where
  "truthy x = (case x of None \<Rightarrow> False | Some t \<Rightarrow> t \<noteq> [])"

definition py_or :: "string option \<Rightarrow> string \<Rightarrow> string" where
  "py_or x d = (case x of None \<Rightarrow> d | Some t \<Rightarrow> if t = [] then d else t)"

definition dget :: "'v dict \<Rightarrow> string \<Rightarrow> 'v option" where
  "dget d k = map_of d k"

lemma truthy_simps [simp]: "truthy None = False" "truthy (Some t) = (t \<noteq> [])"
  by (simp_all add: truthy_def)

lemma truthyE: "truthy x \<Longrightarrow> (\<And>t. x = Some t \<Longrightarrow> t \<noteq> [] \<Longrightarrow> R) \<Longrightarrow> R"
  by (cases x) auto

lemma not_truthy: "\<not> truthy x \<longleftrightarrow> x = None \<or> x = Some []"
  by (cases x) auto

lemma py_or_simps [simp]:
  "py_or None d = d" "py_or (Some t) d = (if t = [] then d else t)"
  by (simp_all add: py_or_def)

text \<open>\<open>d[k] = v\<close>: an existing key keeps its position.\<close>

fun dput :: "'k \<Rightarrow> 'v \<Rightarrow> ('k \<times> 'v) list \<Rightarrow> ('k \<times> 'v) list" where
  "dput k v [] = [(k, v)]"
| "dput k v ((k', v') # d) = (if k = k' then (k, v) # d else (k', v') # dput k v d)"

lemma map_of_dput [simp]: "map_of (dput k v d) = (map_of d)(k \<mapsto> v)"
  by (induction d) (auto simp: fun_eq_iff)

lemma dget_dput: "dget (dput k v d) = (dget d)(k \<mapsto> v)"
  by (simp add: dget_def fun_eq_iff)

lemma keys_dput: "fst ` set (dput k v d) = insert k (fst ` set d)"
proof (induction d)
  case (Cons e d)
  then show ?case by (cases e) (simp add: insert_commute)
qed simp

lemma distinct_dput: "distinct (map fst d) \<Longrightarrow> distinct (map fst (dput k v d))"
  by (induction d) (auto simp: keys_dput)

lemma map_of_drop: "map_of (filter (\<lambda>(k', _). k' \<noteq> k) d) k = None"
  by (induction d) auto

lemma map_of_fold_dput:
  "distinct (map f xs) \<Longrightarrow> map_of (fold (\<lambda>x. dput (f x) (h x)) xs []) k = Some v \<longleftrightarrow> (\<exists>x \<in> set xs. f x = k \<and> h x = v)"
proof -
  have "map_of (fold (\<lambda>x. dput (f x) (h x)) xs d) k = Some v \<longleftrightarrow>
      (\<exists>x \<in> set xs. f x = k \<and> h x = v) \<or> k \<notin> f ` set xs \<and> map_of d k = Some v" if "distinct (map f xs)" for d
    using that by (induction xs arbitrary: d) auto
  from this [of "[]"] show "distinct (map f xs) \<Longrightarrow> ?thesis" by simp
qed

lemma set_dput: "e \<in> set (dput k v d) \<Longrightarrow> e = (k, v) \<or> e \<in> set d"
  by (induction d) (auto split: if_splits)

text \<open>\<open>d.setdefault (k, []).append (v)\<close>, and what grouping a list by a key amounts to.\<close>

definition dappend :: "'k \<Rightarrow> 'v \<Rightarrow> ('k \<times> 'v list) list \<Rightarrow> ('k \<times> 'v list) list" where
  "dappend k v d = dput k ((case map_of d k of None \<Rightarrow> [] | Some g \<Rightarrow> g) @ [v]) d"

lemma fold_dappend_with:
  "distinct (map fst d) \<Longrightarrow> distinct (map fst (fold (\<lambda>x. dappend (f x) (h x)) xs d)) \<and>
   fst ` set (fold (\<lambda>x. dappend (f x) (h x)) xs d) = fst ` set d \<union> f ` set xs \<and>
   (\<forall>k. (case map_of (fold (\<lambda>x. dappend (f x) (h x)) xs d) k of None \<Rightarrow> [] | Some g \<Rightarrow> g) =
        (case map_of d k of None \<Rightarrow> [] | Some g \<Rightarrow> g) @ map h (filter (\<lambda>x. f x = k) xs))"
proof (induction xs arbitrary: d)
  case (Cons x xs)
  have "distinct (map fst (dappend (f x) (h x) d))" using Cons.prems by (simp add: dappend_def distinct_dput)
  from Cons.IH [OF this] show ?case by (auto simp: dappend_def keys_dput split: option.split)
qed simp

lemma fold_dappend_with_spec:
  "distinct (map fst (fold (\<lambda>x. dappend (f x) (h x)) xs []))"
  "fst ` set (fold (\<lambda>x. dappend (f x) (h x)) xs []) = f ` set xs"
  "(k, g) \<in> set (fold (\<lambda>x. dappend (f x) (h x)) xs []) \<longleftrightarrow> k \<in> f ` set xs \<and> g = map h (filter (\<lambda>x. f x = k) xs)"
proof -
  let ?d = "fold (\<lambda>x. dappend (f x) (h x)) xs []"
  note all = fold_dappend_with [of "[]" f h xs, simplified]
  show d: "distinct (map fst ?d)" and k: "fst ` set ?d = f ` set xs" using all by simp_all
  have v: "(case map_of ?d k of None \<Rightarrow> [] | Some g \<Rightarrow> g) = map h (filter (\<lambda>x. f x = k) xs)" using all by blast
  have "(k, g) \<in> set ?d \<longleftrightarrow> map_of ?d k = Some g" using d by simp
  also have "\<dots> \<longleftrightarrow> k \<in> fst ` set ?d \<and> g = map h (filter (\<lambda>x. f x = k) xs)"
    using v map_of_eq_None_iff [of ?d k] by (cases "map_of ?d k") auto
  finally show "(k, g) \<in> set ?d \<longleftrightarrow> k \<in> f ` set xs \<and> g = map h (filter (\<lambda>x. f x = k) xs)" by (simp only: k)
qed

lemmas fold_dappend_spec = fold_dappend_with_spec [where h = "\<lambda>x. x", unfolded list.map_ident]
lemmas fold_dappend = fold_dappend_with [where h = "\<lambda>x. x", unfolded list.map_ident]

section \<open>Reconciliation\<close>

text \<open>
  What a re-runnable reconciliation of one object needs: no operation is planned exactly when the
  object is as desired, and applying the planned operations makes it so.
\<close>

locale converging_patch =
  fixes ops :: "'d \<Rightarrow> 'o \<Rightarrow> 'q list"
    and patch1 :: "'q \<Rightarrow> 'o \<Rightarrow> 'o"
    and settled :: "'d \<Rightarrow> 'o \<Rightarrow> bool"
    and sound :: "'d \<Rightarrow> bool"
  assumes ops_Nil_iff: "sound d \<Longrightarrow> ops d x = [] \<longleftrightarrow> settled d x"
    and ops_settle: "sound d \<Longrightarrow> settled d (fold patch1 (ops d x) x)"
begin

lemma second_run_empty: "sound d \<Longrightarrow> ops d (fold patch1 (ops d x) x) = []"
  by (simp add: ops_Nil_iff ops_settle)

lemma settled_fixpoint: "sound d \<Longrightarrow> settled d x \<Longrightarrow> fold patch1 (ops d x) x = x"
  by (simp add: ops_Nil_iff [THEN iffD2])

end

end
