(* ===== verification/Py_Str.thy ===== *)
theory Py_Str
  imports Prelude
begin

text \<open>
  The string functions of Python's standard library that the modelled code uses, on ASCII text:
  \<open>str (n)\<close> of an integer, \<open>str.strip\<close>, \<open>str.split\<close>, \<open>str.rsplit (sep, 1)\<close>, \<open>str.join\<close>, \<open>str.replace\<close>, \<open>str.lower\<close>, \<open>str.upper\<close>,
  \<open>int (s)\<close>, \<open>int (s, 16)\<close>, \<open>uuid.UUID (s)\<close> and the one substitution by a regular expression.
\<close>

section \<open>strip and int\<close>

definition is_space :: "char \<Rightarrow> bool" where
  "is_space c = (let n = (of_char c :: nat) in (9 \<le> n \<and> n \<le> 13) \<or> (28 \<le> n \<and> n \<le> 32))"

definition strip :: "string \<Rightarrow> string" where
  "strip s = rev (dropWhile is_space (rev (dropWhile is_space s)))"

definition is_digit :: "char \<Rightarrow> bool" where
  "is_digit c = (let n = (of_char c :: nat) in 48 \<le> n \<and> n \<le> 57)"

definition digit_val :: "char \<Rightarrow> int" where
  "digit_val c = int (of_char c) - 48"

text \<open>The rest of a decimal literal after a digit: single underscores may separate digits.\<close>

fun digits_rest :: "int \<Rightarrow> string \<Rightarrow> int option" where
  "digits_rest acc [] = Some acc"
| "digits_rest acc (c # cs) =
     (if is_digit c then digits_rest (acc * 10 + digit_val c) cs
      else if c = CHR ''_'' then
        (case cs of [] \<Rightarrow> None
         | d # ds \<Rightarrow> if is_digit d then digits_rest (acc * 10 + digit_val d) ds else None)
      else None)"

definition digits :: "string \<Rightarrow> int option" where
  "digits s = (case s of [] \<Rightarrow> None
     | c # cs \<Rightarrow> if is_digit c then digits_rest (digit_val c) cs else None)"

definition py_int :: "string \<Rightarrow> int option" where
  "py_int s = (let t = strip s in
     case t of [] \<Rightarrow> None
     | c # cs \<Rightarrow> if c = CHR ''+'' then digits cs
               else if c = CHR ''-'' then map_option uminus (digits cs)
               else digits t)"

fun split1 :: "char \<Rightarrow> string \<Rightarrow> string \<times> string" where
  "split1 sep [] = ([], [])"
| "split1 sep (c # cs) =
     (if c = sep then ([], cs) else (case split1 sep cs of (a, b) \<Rightarrow> (c # a, b)))"

fun split_on :: "char \<Rightarrow> string \<Rightarrow> string list" where
  "split_on sep [] = [[]]"
| "split_on sep (c # cs) =
     (if c = sep then [] # split_on sep cs
      else case split_on sep cs of [] \<Rightarrow> [[c]] | w # ws \<Rightarrow> (c # w) # ws)"

lemma split_on_not_Nil [simp]: "split_on sep s \<noteq> []"
  by (induction s) (auto split: list.split)

lemma split_on_append: "\<exists>w ws. split_on sep (s @ sep # t) = w # ws @ split_on sep t"
proof (induction s)
  case (Cons c s)
  then obtain w ws where "split_on sep (s @ sep # t) = w # ws @ split_on sep t" by blast
  then show ?case by (cases "c = sep") auto
qed simp

lemma last_split_on: "last (split_on sep (s @ sep # t)) = last (split_on sep t)"
  using split_on_append [of sep s t] by auto

lemma split_on_none: "sep \<notin> set s \<Longrightarrow> split_on sep s = [s]"
  by (induction s) auto

text \<open>\<open>s.rsplit (sep, maxsplit=1)\<close>: at the last separator, if there is one.\<close>

definition rsplit1 :: "char \<Rightarrow> string \<Rightarrow> string list" where
  "rsplit1 sep s =
     (if sep \<notin> set s then [s]
      else [rev (tl (dropWhile (\<lambda>c. c \<noteq> sep) (rev s))), rev (takeWhile (\<lambda>c. c \<noteq> sep) (rev s))])"

fun join :: "string \<Rightarrow> string list \<Rightarrow> string" where
  "join sep [] = []"
| "join sep [x] = x"
| "join sep (x # y # xs) = x @ sep @ join sep (y # xs)"

text \<open>Decimal rendering of a Python \<open>int\<close> (\<open>str(n)\<close>).\<close>

fun show_nat :: "nat \<Rightarrow> string" where
  "show_nat n =
     (if n < 10 then [char_of (48 + n)] else show_nat (n div 10) @ [char_of (48 + n mod 10)])"

declare show_nat.simps [simp del]

definition show_int :: "int \<Rightarrow> string" where
  "show_int i = (if i < 0 then CHR ''-'' # show_nat (nat (- i)) else show_nat (nat i))"

text \<open>\<open>s.split (sep)\<close> for a non-empty separator, and \<open>sub in s\<close>.\<close>

function split_str :: "string \<Rightarrow> string \<Rightarrow> string list" where
  "split_str sep s =
     (if sep \<noteq> [] \<and> take (length sep) s = sep then [] # split_str sep (drop (length sep) s)
      else (case s of [] \<Rightarrow> [[]] | c # cs \<Rightarrow> (case split_str sep cs of [] \<Rightarrow> [[c]] | w # ws \<Rightarrow> (c # w) # ws)))"
  by pat_completeness auto

termination
proof (relation "measure (\<lambda>(_, s). length s)")
  show "((sep, drop (length sep) s), (sep, s)) \<in> measure (\<lambda>(_, s). length s)"
    if "sep \<noteq> [] \<and> take (length sep) s = sep" for sep s :: string
    using that by (cases s; cases sep) auto
qed auto

declare split_str.simps [simp del]

fun contains :: "string \<Rightarrow> string \<Rightarrow> bool" where
  "contains sub [] = (sub = [])"
| "contains sub (c # cs) = (take (length sub) (c # cs) = sub \<or> contains sub cs)"

text \<open>The \<open>$\<close> of a regular expression matches at the end and before a final newline.\<close>

definition chomp :: "string \<Rightarrow> string" where
  "chomp s = (if s \<noteq> [] \<and> last s = CHR 10 then butlast s else s)"

definition rstrip_char :: "char \<Rightarrow> string \<Rightarrow> string" where
  "rstrip_char c s = rev (dropWhile (\<lambda>x. x = c) (rev s))"

section \<open>lower, replace, UUID\<close>

definition lower_char :: "char \<Rightarrow> char" where
  "lower_char c = (let n = (of_char c :: nat) in if 65 \<le> n \<and> n \<le> 90 then char_of (n + 32) else c)"

definition py_lower :: "string \<Rightarrow> string" where
  "py_lower = map lower_char"

definition upper_char :: "char \<Rightarrow> char" where
  "upper_char c = (let n = (of_char c :: nat) in if 97 \<le> n \<and> n \<le> 122 then char_of (n - 32) else c)"

definition py_upper :: "string \<Rightarrow> string" where
  "py_upper = map upper_char"

text \<open>\<open>s.replace (pat, '')\<close> for a non-empty pattern: occurrences from the left, not overlapping.\<close>

function remove_sub :: "string \<Rightarrow> string \<Rightarrow> string" where
  "remove_sub pat [] = []"
| "remove_sub pat (c # cs) =
     (if pat \<noteq> [] \<and> take (length pat) (c # cs) = pat then remove_sub pat (drop (length pat - 1) cs)
      else c # remove_sub pat cs)"
  by pat_completeness auto

termination
  by (relation "measure (\<lambda>(_, s). length s)") auto

definition hex_val :: "char \<Rightarrow> int option" where
  "hex_val c = (let n = (of_char c :: nat) in
     if 48 \<le> n \<and> n \<le> 57 then Some (int n - 48)
     else if 65 \<le> n \<and> n \<le> 70 then Some (int n - 55)
     else if 97 \<le> n \<and> n \<le> 102 then Some (int n - 87)
     else None)"

fun hex_rest :: "int \<Rightarrow> string \<Rightarrow> int option" where
  "hex_rest acc [] = Some acc"
| "hex_rest acc (c # cs) =
     (case hex_val c of
        Some v \<Rightarrow> hex_rest (acc * 16 + v) cs
      | None \<Rightarrow>
          if c = CHR ''_'' then
            (case cs of [] \<Rightarrow> None
             | d # ds \<Rightarrow> (case hex_val d of Some v \<Rightarrow> hex_rest (acc * 16 + v) ds | None \<Rightarrow> None))
          else None)"

definition hex_digits :: "string \<Rightarrow> int option" where
  "hex_digits s = (case s of [] \<Rightarrow> None
     | c # cs \<Rightarrow> (case hex_val c of None \<Rightarrow> None | Some v \<Rightarrow> hex_rest v cs))"

definition hex_literal :: "string \<Rightarrow> int option" where
  "hex_literal s = (case s of
     c # x # cs \<Rightarrow>
       if c = CHR ''0'' \<and> (x = CHR ''x'' \<or> x = CHR ''X'')
       then hex_digits (case cs of [] \<Rightarrow> [] | d # ds \<Rightarrow> if d = CHR ''_'' then ds else cs)
       else hex_digits s
   | _ \<Rightarrow> hex_digits s)"

definition py_int16 :: "string \<Rightarrow> int option" where
  "py_int16 s = (let t = strip s in
     case t of [] \<Rightarrow> None
     | c # cs \<Rightarrow> if c = CHR ''+'' then hex_literal cs
               else if c = CHR ''-'' then map_option uminus (hex_literal cs)
               else hex_literal t)"

definition strip_braces :: "string \<Rightarrow> string" where
  "strip_braces s = (let b = (\<lambda>c. c = CHR ''{'' \<or> c = CHR ''}'') in
     rev (dropWhile b (rev (dropWhile b s))))"

definition uuid_ok :: "string \<Rightarrow> bool" where
  "uuid_ok s = (let h = filter (\<lambda>c. c \<noteq> CHR ''-'')
        (strip_braces (remove_sub ''uuid:'' (remove_sub ''urn:'' s))) in
     length h = 32 \<and> (case py_int16 h of None \<Rightarrow> False | Some i \<Rightarrow> 0 \<le> i \<and> i < 2 ^ 128))"

section \<open>re.sub\<close>

text \<open>\<open>re.sub (r" \(.*\)", "", s)\<close>: from a blank and an opening parenthesis to the last closing one of the line.\<close>

function sub_parens :: "string \<Rightarrow> string" where
  "sub_parens [] = []"
| "sub_parens (c # cs) =
     (let line = takeWhile (\<lambda>x. x \<noteq> CHR 10) (tl cs) in
      if c = CHR '' '' \<and> cs \<noteq> [] \<and> hd cs = CHR ''('' \<and> CHR '')'' \<in> set line
      then sub_parens (rev (takeWhile (\<lambda>x. x \<noteq> CHR '')'') (rev line)) @ dropWhile (\<lambda>x. x \<noteq> CHR 10) (tl cs))
      else c # sub_parens cs)"
  by pat_completeness auto

lemma sub_parens_shorter:
  "length (rev (takeWhile P (rev (takeWhile Q xs))) @ dropWhile Q xs) \<le> length xs"
proof -
  have "length (takeWhile P (rev (takeWhile Q xs))) \<le> length (takeWhile Q xs)"
    by (metis length_rev length_takeWhile_le)
  moreover have "length (takeWhile Q xs) + length (dropWhile Q xs) = length xs"
    by (metis length_append takeWhile_dropWhile_id)
  ultimately show ?thesis by simp
qed

termination sub_parens
proof (relation "measure length")
  fix c cs and line :: string
  assume "line = takeWhile (\<lambda>x. x \<noteq> CHR 10) (tl cs)"
  then have "length (rev (takeWhile (\<lambda>x. x \<noteq> CHR '')'') (rev line)) @ dropWhile (\<lambda>x. x \<noteq> CHR 10) (tl cs)) \<le> length (tl cs)"
    using sub_parens_shorter by blast
  then show "(rev (takeWhile (\<lambda>x. x \<noteq> CHR '')'') (rev line)) @ dropWhile (\<lambda>x. x \<noteq> CHR 10) (tl cs), c # cs) \<in> measure length"
    by simp
qed auto

end
