(* ===== verification/Vlan_Ranges.thy ===== *)
theory Vlan_Ranges
  imports Py_Str
begin

text \<open>
  The VLAN range arithmetic of \<open>neutron_understack/utils.py\<close> (lines 520 to 570): merging the
  network segment ranges, the gaps that remain inside the configured tenant range, the
  membership test and the printed form.  Python integers are unbounded, hence \<open>int\<close>.

  \<open>cover\<close> (the set of identifiers a range list stands for), \<open>wf_ranges\<close> and \<open>canonical\<close> are
  the specification vocabulary.  The locale \<open>range_normaliser\<close> is the contract of a merge; it is
  interpreted here on \<open>merge_overlapped_ranges\<close> and in \<open>Vni_Db\<close> on the second implementation the
  code base has (\<open>_merge_ranges\<close> of \<open>l3_router/understack_vni_db.py\<close>).
\<close>

section \<open>Definitions\<close>

type_synonym range = "int \<times> int"

text \<open>\<open>merge_overlapped_ranges\<close>: the loop appends to or widens the last merged range.\<close>

fun merge_loop :: "range list \<Rightarrow> range list \<Rightarrow> range list" where
  "merge_loop merged [] = merged"
| "merge_loop merged ((start, stop) # rs) =
     (if merged = [] \<or> start > snd (last merged) + 1
      then merge_loop (merged @ [(start, stop)]) rs
      else merge_loop
             (butlast merged @ [(fst (last merged), max (snd (last merged)) stop)]) rs)"

definition merge_overlapped_ranges :: "range list \<Rightarrow> range list" where
  "merge_overlapped_ranges ranges = merge_loop [] (sort ranges)"

text \<open>\<open>fetch_gaps_in_ranges\<close>: the loop carries \<open>free_ranges\<close> and \<open>prev_end\<close>.\<close>

fun gaps_loop :: "range list \<Rightarrow> int \<Rightarrow> range list \<Rightarrow> range list \<times> int" where
  "gaps_loop free prev_end [] = (free, prev_end)"
| "gaps_loop free prev_end ((start, stop) # rs) =
     gaps_loop (if start > prev_end + 1 then free @ [(prev_end + 1, start - 1)] else free) stop rs"

definition fetch_gaps_in_ranges :: "range list \<Rightarrow> range \<Rightarrow> range list" where
  "fetch_gaps_in_ranges ranges default_range =
     (case gaps_loop [] (fst default_range - 1) ranges of
        (free, prev_end) \<Rightarrow>
          if prev_end < snd default_range then free @ [(prev_end + 1, snd default_range)] else free)"

definition segmentation_id_in_ranges :: "int \<Rightarrow> range list \<Rightarrow> bool" where
  "segmentation_id_in_ranges segmentation_id ranges =
     (\<exists>r \<in> set ranges. fst r \<le> segmentation_id \<and> segmentation_id \<le> snd r)"

definition printable_ranges :: "range list \<Rightarrow> string" where
  "printable_ranges ranges =
     join '','' (map (\<lambda>tpl. if fst tpl \<noteq> snd tpl
                            then show_int (fst tpl) @ ''-'' @ show_int (snd tpl)
                            else show_int (fst tpl)) ranges)"

section \<open>Specification vocabulary\<close>

definition cover :: "range list \<Rightarrow> int set" where
  "cover rs = (\<Union>r \<in> set rs. {fst r .. snd r})"

definition wf_ranges :: "range list \<Rightarrow> bool" where
  "wf_ranges rs = list_all (\<lambda>r. fst r \<le> snd r) rs"

definition apart :: "range \<Rightarrow> range \<Rightarrow> bool" where
  "apart r q = (snd r + 1 < fst q)"

definition canonical :: "range list \<Rightarrow> bool" where
  "canonical rs = (wf_ranges rs \<and> sorted_wrt apart rs)"

section \<open>Basic facts\<close>

lemma cover_simps [simp]:
  "cover [] = {}" "cover (r # rs) = {fst r .. snd r} \<union> cover rs"
  "cover (rs @ qs) = cover rs \<union> cover qs"
  by (auto simp: cover_def)

lemma wf_ranges_simps [simp]:
  "wf_ranges []" "wf_ranges (r # rs) = (fst r \<le> snd r \<and> wf_ranges rs)"
  "wf_ranges (rs @ qs) = (wf_ranges rs \<and> wf_ranges qs)"
  by (auto simp: wf_ranges_def)

lemma wf_rangesD: "wf_ranges rs \<Longrightarrow> r \<in> set rs \<Longrightarrow> fst r \<le> snd r"
  by (auto simp: wf_ranges_def list_all_iff)

lemma cover_cong_set: "set rs = set qs \<Longrightarrow> cover rs = cover qs"
  by (simp add: cover_def)

lemma wf_ranges_cong_set: "set rs = set qs \<Longrightarrow> wf_ranges rs = wf_ranges qs"
  by (simp add: wf_ranges_def list_all_iff)

lemma segmentation_id_in_ranges_cover:
  "segmentation_id_in_ranges i rs \<longleftrightarrow> i \<in> cover rs"
  by (auto simp: segmentation_id_in_ranges_def cover_def)

lemma canonical_simps [simp]:
  "canonical []"
  "canonical (r # rs) = (fst r \<le> snd r \<and> (\<forall>q \<in> set rs. apart r q) \<and> canonical rs)"
  by (auto simp: canonical_def)

lemma canonical_snoc:
  "canonical (rs @ [q]) \<longleftrightarrow> canonical rs \<and> fst q \<le> snd q \<and> (\<forall>r \<in> set rs. apart r q)"
  by (auto simp: canonical_def sorted_wrt_append)

lemma cover_Nil_iff: "wf_ranges rs \<Longrightarrow> cover rs = {} \<longleftrightarrow> rs = []"
  by (cases rs) auto

lemma cover_ge: "x \<in> cover rs \<Longrightarrow> (\<And>q. q \<in> set rs \<Longrightarrow> b \<le> fst q) \<Longrightarrow> b \<le> x"
  by (force simp: cover_def)

lemma apart_cover: "\<forall>q \<in> set rs. apart r q \<Longrightarrow> x \<in> cover rs \<Longrightarrow> snd r + 2 \<le> x"
  by (erule cover_ge) (auto simp: apart_def dest!: bspec)

text \<open>A canonical list is determined by the set it covers.\<close>

lemma canonical_Cons_eq:
  assumes r: "canonical (r # rs)" and q: "canonical (q # qs)"
    and eq: "cover (r # rs) = cover (q # qs)"
  shows "r = q"
proof -
  have low: "fst p \<le> x" if "canonical (p # ps)" "x \<in> cover (p # ps)" for p ps and x :: int
    using that apart_cover [of ps p x] by auto
  have "fst r \<in> cover (q # qs)" "fst q \<in> cover (r # rs)"
    using r q eq [symmetric] by auto
  then have f: "fst r = fst q"
    by (intro antisym low [OF r] low [OF q])
  have high: "snd p' \<le> snd p" if "canonical (p # ps)" "canonical (p' # ps')"
      "cover (p # ps) = cover (p' # ps')" "fst p = fst p'" for p ps p' ps'
  proof (rule ccontr)
    assume "\<not> snd p' \<le> snd p"
    with that have "snd p + 1 \<in> cover (p' # ps')" by auto
    then have "snd p + 1 \<in> cover (p # ps)" by (simp only: that(3))
    then have "snd p + 1 \<in> cover ps" by simp
    with that apart_cover [of ps p "snd p + 1"] show False by simp
  qed
  have "snd r = snd q"
    using high [OF r q eq f] high [OF q r eq [symmetric] f [symmetric]] by simp
  with f show ?thesis by (simp add: prod_eq_iff)
qed

lemma cover_tl:
  assumes "canonical (r # rs)" shows "cover rs = cover (r # rs) - {fst r .. snd r}"
proof -
  have "cover rs \<inter> {fst r .. snd r} = {}"
    using assms apart_cover [of rs r] by force
  then show ?thesis by auto
qed

lemma canonical_unique:
  "canonical rs \<Longrightarrow> canonical qs \<Longrightarrow> cover rs = cover qs \<Longrightarrow> rs = qs"
proof (induction rs arbitrary: qs)
  case Nil
  then show ?case by (auto simp: canonical_def cover_Nil_iff dest: sym)
next
  case (Cons r rs)
  then obtain q qs' where qs: "qs = q # qs'"
    by (cases qs) (auto simp: canonical_def)
  have "r = q" using Cons.prems canonical_Cons_eq unfolding qs by blast
  moreover have "cover rs = cover qs'"
    using cover_tl [of r rs] cover_tl [of q qs'] Cons.prems \<open>r = q\<close> unfolding qs by metis
  ultimately show ?case using Cons unfolding qs by simp
qed

section \<open>Merging\<close>

lemma merge_loop_cover:
  assumes "sorted_wrt (\<lambda>r q. fst r \<le> fst q) rs"
    and "merged \<noteq> [] \<Longrightarrow> \<forall>r \<in> set rs. fst (last merged) \<le> fst r"
  shows "cover (merge_loop merged rs) = cover merged \<union> cover rs"
  using assms
proof (induction merged rs rule: merge_loop.induct)
  case (1 merged)
  then show ?case by simp
next
  case (2 merged start stop rs)
  show ?case
  proof (cases "merged = [] \<or> start > snd (last merged) + 1")
    case True
    with 2 show ?thesis by auto
  next
    case False
    then obtain ms a b where m: "merged = ms @ [(a, b)]"
      by (metis append_butlast_last_id surj_pair)
    with False "2.prems" have le: "a \<le> start" "start \<le> b + 1" by auto
    then have "{a .. max b stop} = {a .. b} \<union> {start .. stop}" by auto
    moreover have "cover (merge_loop (ms @ [(a, max b stop)]) rs)
        = cover (ms @ [(a, max b stop)]) \<union> cover rs"
      using "2.IH"(2) "2.prems" False m by auto
    ultimately show ?thesis using False m by auto
  qed
qed

lemma merge_loop_canonical:
  assumes "sorted_wrt (\<lambda>r q. fst r \<le> fst q) rs"
    and "merged \<noteq> [] \<Longrightarrow> \<forall>r \<in> set rs. fst (last merged) \<le> fst r"
    and "canonical merged" and "wf_ranges rs"
  shows "canonical (merge_loop merged rs)"
  using assms
proof (induction merged rs rule: merge_loop.induct)
  case (1 merged)
  then show ?case by simp
next
  case (2 merged start stop rs)
  show ?case
  proof (cases "merged = [] \<or> start > snd (last merged) + 1")
    case True
    have "apart r (start, stop)" if "r \<in> set merged" for r
    proof -
      from that True obtain ms q where m: "merged = ms @ [q]"
        by (metis append_butlast_last_id empty_iff empty_set)
      with "2.prems"(3) True have q: "fst q \<le> snd q" "snd q + 1 < start"
        by (auto simp: canonical_snoc)
      from m that have "r = q \<or> r \<in> set ms" by auto
      then have "r = q \<or> apart r q"
        using "2.prems"(3) m by (auto simp: canonical_snoc)
      with q show ?thesis by (auto simp: apart_def)
    qed
    then have "canonical (merged @ [(start, stop)])"
      using "2.prems" by (simp add: canonical_snoc)
    with 2 True show ?thesis by auto
  next
    case False
    then obtain ms a b where m: "merged = ms @ [(a, b)]"
      by (metis append_butlast_last_id surj_pair)
    then have "canonical (ms @ [(a, max b stop)])"
      using "2.prems"(3) by (auto simp: canonical_snoc apart_def)
    with 2 False m show ?thesis by auto
  qed
qed

lemma sorted_imp_fst_sorted: "sorted rs \<Longrightarrow> sorted_wrt (\<lambda>r q. fst r \<le> fst q) (rs :: range list)"
  by (rule sorted_wrt_mono_rel [of _ "(\<le>)"]) (auto simp: less_eq_prod_def)

lemma merge_loop_sort_cover: "cover (merge_loop [] (sort rs)) = cover rs"
  by (subst merge_loop_cover) (auto intro: sorted_imp_fst_sorted simp: cover_def)

lemma merge_loop_sort_canonical: "wf_ranges rs \<Longrightarrow> canonical (merge_loop [] (sort rs))"
  by (rule merge_loop_canonical)
     (auto intro: sorted_imp_fst_sorted simp: wf_ranges_def list_all_iff)

section \<open>Gaps\<close>

text \<open>The loop in closed form: what it adds to \<open>free\<close> does not depend on \<open>free\<close>.\<close>

fun gaps_from :: "int \<Rightarrow> range list \<Rightarrow> range list" where
  "gaps_from prev [] = []"
| "gaps_from prev ((start, stop) # rs) =
     (if start > prev + 1 then [(prev + 1, start - 1)] else []) @ gaps_from stop rs"

lemma gaps_loop_closed:
  "gaps_loop free prev rs = (free @ gaps_from prev rs, if rs = [] then prev else snd (last rs))"
  by (induction free prev rs rule: gaps_loop.induct) auto

lemma fetch_gaps_closed:
  "fetch_gaps_in_ranges rs (lo, hi) =
     (let prev = (if rs = [] then lo - 1 else snd (last rs))
      in gaps_from (lo - 1) rs @ (if prev < hi then [(prev + 1, hi)] else []))"
  by (simp add: fetch_gaps_in_ranges_def gaps_loop_closed Let_def)

lemma gaps_from_above:
  "canonical ((start, stop) # rs) \<Longrightarrow> x \<in> cover (gaps_from stop rs) \<Longrightarrow> stop < x"
proof (induction rs arbitrary: start stop)
  case Nil
  then show ?case by simp
next
  case (Cons q rs)
  obtain a b where q: "q = (a, b)" by (cases q)
  with Cons.prems have "stop < b" by (auto simp: apart_def)
  moreover have "b < x" if "x \<in> cover (gaps_from b rs)"
    using Cons.IH [of a b] Cons.prems that q by auto
  ultimately show ?case using Cons.prems q by (auto split: if_splits)
qed

lemma gaps_from_disjoint:
  "canonical rs \<Longrightarrow> x \<in> cover (gaps_from prev rs) \<Longrightarrow> x \<notin> cover rs"
proof (induction prev rs rule: gaps_from.induct)
  case (1 prev)
  then show ?case by simp
next
  case (2 prev start stop rs)
  have "x \<notin> cover rs" if "x < start"
    using that "2.prems"(1) apart_cover [of rs "(start, stop)" x] by auto
  with 2 gaps_from_above [OF "2.prems"(1), of x] show ?case by (auto split: if_splits)
qed

lemma gaps_complete:
  "canonical rs \<Longrightarrow> prev < x \<Longrightarrow> x \<notin> cover rs \<Longrightarrow>
   x \<in> cover (gaps_from prev rs) \<or> x > (if rs = [] then prev else snd (last rs))"
proof (induction prev rs rule: gaps_from.induct)
  case (1 prev)
  then show ?case by simp
next
  case (2 prev start stop rs)
  then show ?case by (cases "x < start") (auto split: if_splits)
qed

lemma gaps_last_above:
  "canonical rs \<Longrightarrow> rs \<noteq> [] \<Longrightarrow> x \<in> cover rs \<Longrightarrow> x \<le> snd (last rs)"
  by (induction rs rule: rev_induct) (force simp: canonical_snoc apart_def cover_def)+

text \<open>
  What the function guarantees for any canonical input: no gap touches a range, and every
  identifier of the default range that is outside all ranges is in a gap.
\<close>

lemma fetch_gaps_disjoint:
  assumes "canonical rs" shows "cover (fetch_gaps_in_ranges rs (lo, hi)) \<inter> cover rs = {}"
  using assms gaps_from_disjoint [OF assms] gaps_last_above [OF assms]
  by (cases "rs = []") (force simp: fetch_gaps_closed Let_def split: if_splits)+

lemma fetch_gaps_complete:
  assumes "canonical rs" shows "{lo .. hi} - cover rs \<subseteq> cover (fetch_gaps_in_ranges rs (lo, hi))"
proof
  fix x assume "x \<in> {lo .. hi} - cover rs"
  then show "x \<in> cover (fetch_gaps_in_ranges rs (lo, hi))"
    using gaps_complete [OF assms, of "lo - 1" x]
    by (auto simp: fetch_gaps_closed Let_def split: if_splits)
qed

text \<open>The gaps stay inside the default range exactly when every range reaches it.\<close>

lemma gaps_from_bounds:
  "canonical rs \<Longrightarrow> \<forall>r \<in> set rs. fst r \<le> hi + 1 \<and> lo - 1 \<le> snd r \<Longrightarrow> lo - 1 \<le> prev \<Longrightarrow>
   cover (gaps_from prev rs) \<subseteq> {lo .. hi}"
  by (induction prev rs rule: gaps_from.induct) (auto split: if_splits)

lemma fetch_gaps_exact:
  assumes "canonical rs" "\<forall>r \<in> set rs. fst r \<le> hi + 1 \<and> lo - 1 \<le> snd r"
  shows "cover (fetch_gaps_in_ranges rs (lo, hi)) = {lo .. hi} - cover rs"
proof -
  have "lo - 1 \<le> snd (last rs)" if "rs \<noteq> []" using assms that by simp
  then have "cover (fetch_gaps_in_ranges rs (lo, hi)) \<subseteq> {lo .. hi}"
    using gaps_from_bounds [OF assms, of "lo - 1"]
    by (auto simp: fetch_gaps_closed Let_def split: if_splits)
  with fetch_gaps_disjoint [OF assms(1)] fetch_gaps_complete [OF assms(1)]
  show ?thesis by blast
qed

text \<open>Merging keeps the outer bounds of the ranges it joins.\<close>

lemma canonical_gaps_around:
  "canonical rs \<Longrightarrow> r \<in> set rs \<Longrightarrow> fst r - 1 \<notin> cover rs \<and> snd r + 1 \<notin> cover rs"
proof (induction rs)
  case (Cons q rs)
  have ap: "\<forall>x \<in> set rs. apart q x" and can: "canonical rs" using Cons.prems(1) by simp_all
  show ?case
  proof (cases "r \<in> set rs")
    case True
    moreover have "snd q + 2 \<le> fst r" "fst r \<le> snd r" "fst q \<le> snd q"
      using ap True Cons.prems(1) wf_rangesD [of rs r] by (auto simp: apart_def canonical_def)
    ultimately show ?thesis using Cons.IH [OF can] by auto
  next
    case False
    then have "r = q" using Cons.prems(2) by simp
    then show ?thesis using apart_cover [OF ap] Cons.prems(1) by force
  qed
qed simp

lemma canonical_touches:
  assumes "canonical rs" "cover rs = cover qs"
    "\<forall>q \<in> set qs. fst q \<le> b \<and> a \<le> snd q" "r \<in> set rs"
  shows "fst r \<le> b \<and> a \<le> snd r"
proof -
  have r: "fst r \<le> snd r" using assms(1,4) wf_rangesD by (auto simp: canonical_def)
  then have "fst r \<in> cover qs" "snd r \<in> cover qs"
    unfolding assms(2) [symmetric] using assms(4) by (force simp: cover_def)+
  then obtain p q where p: "p \<in> set qs" "fst p \<le> fst r" "fst r \<le> snd p"
    and q: "q \<in> set qs" "fst q \<le> snd r" "snd r \<le> snd q"
    by (auto simp: cover_def)
  note out = canonical_gaps_around [OF assms(1,4)]
  have "fst r - 1 \<notin> {fst p .. snd p}" "snd r + 1 \<notin> {fst q .. snd q}"
    using out p(1) q(1) unfolding assms(2) by (auto simp: cover_def)
  then have "fst p = fst r" "snd q = snd r" using p q by auto
  then show ?thesis using assms(3) p(1) q(1) by metis
qed

section \<open>The contract of a range merge\<close>

locale range_normaliser =
  fixes norm :: "range list \<Rightarrow> range list"
  assumes norm_cover: "cover (norm rs) = cover rs"
    and norm_canonical: "wf_ranges rs \<Longrightarrow> canonical (norm rs)"
begin

lemma norm_unique:
  "wf_ranges rs \<Longrightarrow> canonical ms \<Longrightarrow> cover ms = cover rs \<Longrightarrow> norm rs = ms"
  by (rule canonical_unique) (simp_all add: norm_canonical norm_cover)

lemma norm_canonical_id: "canonical rs \<Longrightarrow> norm rs = rs"
  by (rule norm_unique) (simp_all add: canonical_def)

lemma norm_idem: "wf_ranges rs \<Longrightarrow> norm (norm rs) = norm rs"
  by (simp add: norm_canonical_id norm_canonical)

lemma norm_cover_cong:
  "wf_ranges rs \<Longrightarrow> wf_ranges qs \<Longrightarrow> cover rs = cover qs \<Longrightarrow> norm rs = norm qs"
  by (simp add: norm_unique norm_canonical norm_cover)

lemma norm_mem: "segmentation_id_in_ranges i (norm rs) = segmentation_id_in_ranges i rs"
  by (simp add: segmentation_id_in_ranges_cover norm_cover)

lemma gaps_avoid:
  assumes "wf_ranges rs" "segmentation_id_in_ranges i (fetch_gaps_in_ranges (norm rs) (lo, hi))"
  shows "\<not> segmentation_id_in_ranges i rs"
  using fetch_gaps_disjoint [OF norm_canonical [OF assms(1)], of lo hi] assms(2)
  by (auto simp: segmentation_id_in_ranges_cover norm_cover)

lemma gaps_reach:
  assumes "wf_ranges rs" "lo \<le> i" "i \<le> hi" "\<not> segmentation_id_in_ranges i rs"
  shows "segmentation_id_in_ranges i (fetch_gaps_in_ranges (norm rs) (lo, hi))"
  using fetch_gaps_complete [OF norm_canonical [OF assms(1)], of lo hi] assms(2-4)
  by (auto simp: segmentation_id_in_ranges_cover norm_cover)

end

interpretation merge_overlapped: range_normaliser merge_overlapped_ranges
  by unfold_locales
     (simp_all add: merge_overlapped_ranges_def merge_loop_sort_cover merge_loop_sort_canonical)

end
