(* ===== verification/Vni_Db.thy ===== *)
theory Vni_Db
  imports Vlan_Ranges Py_Str
begin

text \<open>
  \<open>neutron_understack/l3_router/understack_vni_db.py\<close>: the VNI pool of the router service
  plugin, over the table \<open>understack_router_vni_allocations\<close> declared in
  \<open>neutron_understack/db/understack_vni.py\<close>.

  The state is the table, a list of rows in any order: the queries the code writes are
  filters and sorts of that list, and as every statement holds for every list, nothing depends
  on the order the database returns unordered rows in.  \<open>flush\<close> checks the two constraints the
  model declares (primary key \<open>vni\<close>, unique \<open>router_id\<close>); the foreign key's \<open>SET NULL\<close> is the
  step \<open>fk_set_null\<close>.  Timestamps are naturals and are arguments.  Strings are ASCII.
\<close>

section \<open>Ranges\<close>

definition MIN_VNI :: int where "MIN_VNI = 1"

definition MAX_VNI :: int where "MAX_VNI = 2 ^ 24 - 1"

datatype vni_request = AttrNotSpecified | VniNone | Vni int

definition is_auto_vni :: "vni_request \<Rightarrow> bool" where
  "is_auto_vni r = (case r of AttrNotSpecified \<Rightarrow> True | VniNone \<Rightarrow> True | Vni n \<Rightarrow> n = 0)"

definition format_range :: "range \<Rightarrow> string" where
  "format_range r = show_int (fst r) @ '':'' @ show_int (snd r)"

definition format_vni_ranges :: "range list \<Rightarrow> string" where
  "format_vni_ranges ranges = join '','' (map format_range ranges)"

text \<open>One iteration of the loop of \<open>parse_vni_ranges\<close>.\<close>

definition parse_entry :: "string \<Rightarrow> exn + range" where
  "parse_entry raw =
    (let entry = strip raw in
     if entry = [] then Inl (UnderstackVNIInvalidRange entry ''empty range'')
     else
       let (start_text, end_text) =
         (if CHR '':'' \<in> set entry then split1 CHR '':'' entry else (entry, entry)) in
       case (py_int start_text, py_int end_text) of
         (Some start, Some stop) \<Rightarrow>
           if start > stop then
             Inl (UnderstackVNIInvalidRange entry ''range start must be less than or equal to end'')
           else if start < MIN_VNI \<or> stop > MAX_VNI then
             Inl (UnderstackVNIInvalidRange entry
                   (''range must be within '' @ show_int MIN_VNI @ '':'' @ show_int MAX_VNI))
           else Inr (start, stop)
       | _ \<Rightarrow> Inl (UnderstackVNIInvalidRange entry ''range bounds must be integers''))"

fun parse_entries :: "range list \<Rightarrow> string list \<Rightarrow> exn + range list" where
  "parse_entries parsed [] = Inr parsed"
| "parse_entries parsed (e # es) =
     (case parse_entry e of Inl x \<Rightarrow> Inl x | Inr r \<Rightarrow> parse_entries (parsed @ [r]) es)"

text \<open>\<open>_merge_ranges\<close>: tuples are replaced where \<open>utils.merge_overlapped_ranges\<close> updates a list.\<close>

fun merge_ranges_loop :: "range list \<Rightarrow> range list \<Rightarrow> range list" where
  "merge_ranges_loop merged [] = merged"
| "merge_ranges_loop merged (r # rs) =
     (if merged = [] \<or> fst r > snd (last merged) + 1 then merge_ranges_loop (merged @ [r]) rs
      else merge_ranges_loop
        (merged[length merged - 1 := (fst (last merged), max (snd (last merged)) (snd r))]) rs)"

definition merge_ranges :: "range list \<Rightarrow> range list" where
  "merge_ranges ranges = merge_ranges_loop [] (sort ranges)"

definition parse_vni_ranges :: "string list \<Rightarrow> exn + range list" where
  "parse_vni_ranges vni_ranges =
     (case parse_entries [] vni_ranges of
        Inl x \<Rightarrow> Inl x
      | Inr parsed \<Rightarrow>
          if parsed = [] then
            Inl (UnderstackVNIInvalidRange (join '','' vni_ranges) ''at least one range is required'')
          else Inr (merge_ranges parsed))"

section \<open>The allocation table\<close>

record vni_allocation =
  va_vni :: int
  va_router_id :: "string option"
  va_allocated_at :: nat
  va_released_at :: "nat option"

type_synonym vni_table = "vni_allocation list"

text \<open>The constraints of the table, checked by \<open>session.flush()\<close>.\<close>

definition table_ok :: "vni_table \<Rightarrow> bool" where
  "table_ok t = (distinct (map va_vni t) \<and>
                 distinct (map va_router_id (filter (\<lambda>a. va_router_id a \<noteq> None) t)))"

definition flush :: "(vni_table, unit) act" where
  "flush = (\<lambda>t. if table_ok t then (Inr (), t) else (Inl (Foreign ''DBDuplicateEntry''), t))"

definition new_allocation :: "nat \<Rightarrow> int \<Rightarrow> string \<Rightarrow> vni_allocation" where
  "new_allocation now vni router_id =
     \<lparr>va_vni = vni, va_router_id = Some router_id, va_allocated_at = now, va_released_at = None\<rparr>"

text \<open>Assigning attributes of a mapped row updates the row with its primary key.\<close>

definition set_row :: "int \<Rightarrow> (vni_allocation \<Rightarrow> vni_allocation) \<Rightarrow> vni_table \<Rightarrow> vni_table" where
  "set_row vni f t = map (\<lambda>a. if va_vni a = vni then f a else a) t"

definition claim_row :: "string \<Rightarrow> vni_allocation \<Rightarrow> vni_allocation" where
  "claim_row router_id a = a\<lparr>va_router_id := Some router_id, va_released_at := None\<rparr>"

definition free_row :: "nat \<Rightarrow> vni_allocation \<Rightarrow> vni_allocation" where
  "free_row now a = a\<lparr>va_router_id := None, va_released_at := Some now\<rparr>"

definition get_router_allocation :: "string \<Rightarrow> vni_table \<Rightarrow> vni_allocation option" where
  "get_router_allocation router_id t = find (\<lambda>a. va_router_id a = Some router_id) t"

definition get_vni_for_router :: "string \<Rightarrow> vni_table \<Rightarrow> int option" where
  "get_vni_for_router router_id t = map_option va_vni (get_router_allocation router_id t)"

text \<open>\<open>_find_never_used_vni\<close>: \<open>Inl\<close> is the early return, \<open>Inr\<close> the candidate after the loop.\<close>

fun scan_rows :: "int \<Rightarrow> int \<Rightarrow> int list \<Rightarrow> int + int" where
  "scan_rows stop candidate [] = Inr candidate"
| "scan_rows stop candidate (vni # rows) =
     (if vni > candidate then Inl candidate
      else let candidate' = (if vni = candidate then candidate + 1 else candidate) in
        if candidate' > stop then Inr candidate' else scan_rows stop candidate' rows)"

definition rows_between :: "int \<Rightarrow> int \<Rightarrow> vni_table \<Rightarrow> int list" where
  "rows_between start stop t =
     sort (filter (\<lambda>v. v \<le> stop) (filter (\<lambda>v. v \<ge> start) (map va_vni t)))"

fun find_never_used_vni :: "range list \<Rightarrow> vni_table \<Rightarrow> int option" where
  "find_never_used_vni [] t = None"
| "find_never_used_vni ((start, stop) # rs) t =
     (case scan_rows stop start (rows_between start stop t) of
        Inl c \<Rightarrow> Some c
      | Inr c \<Rightarrow> if c \<le> stop then Some c else find_never_used_vni rs t)"

text \<open>\<open>ORDER BY released_at, vni\<close>, where a null sorts first (MariaDB, SQLite).\<close>

definition release_key :: "vni_allocation \<Rightarrow> nat \<times> int" where
  "release_key a = (case va_released_at a of None \<Rightarrow> 0 | Some n \<Rightarrow> Suc n, va_vni a)"

definition find_released_allocation :: "range list \<Rightarrow> vni_table \<Rightarrow> vni_allocation option" where
  "find_released_allocation ranges t =
     (case sort_key release_key
             (filter (\<lambda>a. segmentation_id_in_ranges (va_vni a) ranges)
               (filter (\<lambda>a. va_router_id a = None) t)) of
        [] \<Rightarrow> None | a # _ \<Rightarrow> Some a)"

definition allocate_auto_vni :: "nat \<Rightarrow> string \<Rightarrow> range list \<Rightarrow> (vni_table, int) act" where
  "allocate_auto_vni now router_id ranges =
     bnd (reads (find_never_used_vni ranges)) (\<lambda>never_used_vni.
       case never_used_vni of
         Some vni \<Rightarrow>
           andthen (updates (\<lambda>t. t @ [new_allocation now vni router_id])) (andthen flush (ret vni))
       | None \<Rightarrow>
           bnd (reads (find_released_allocation ranges)) (\<lambda>released.
             case released of
               Some a \<Rightarrow>
                 andthen (updates (set_row (va_vni a) (claim_row router_id)))
                   (andthen flush (ret (va_vni a)))
             | None \<Rightarrow> raise_exn (UnderstackVNINoAvailable (format_vni_ranges ranges))))"

definition allocate_specific_vni :: "nat \<Rightarrow> string \<Rightarrow> int \<Rightarrow> (vni_table, int) act" where
  "allocate_specific_vni now router_id vni =
     bnd (reads (find (\<lambda>a. va_vni a = vni))) (\<lambda>allocation.
       andthen
         (case allocation of
            Some a \<Rightarrow>
              (if truthy (va_router_id a)
               then raise_exn (UnderstackVNIInUse vni (the (va_router_id a)))
               else updates (set_row vni (claim_row router_id)))
          | None \<Rightarrow> updates (\<lambda>t. t @ [new_allocation now vni router_id]))
         (andthen flush (ret vni)))"

definition validate_vni_in_ranges :: "int \<Rightarrow> range list \<Rightarrow> (vni_table, unit) act" where
  "validate_vni_in_ranges vni ranges =
     when_act (\<not> segmentation_id_in_ranges vni ranges)
       (raise_exn (UnderstackVNINotInRange vni (format_vni_ranges ranges)))"

definition requested_int :: "vni_request \<Rightarrow> int" where
  "requested_int r = (case r of Vni n \<Rightarrow> n | _ \<Rightarrow> 0)"

definition allocate_vni_for_router ::
  "string list \<Rightarrow> nat \<Rightarrow> string \<Rightarrow> vni_request \<Rightarrow> (vni_table, int) act"
where
  "allocate_vni_for_router vni_ranges now router_id requested_vni =
     bnd (of_sum (parse_vni_ranges vni_ranges)) (\<lambda>ranges.
     bnd (reads (get_router_allocation router_id)) (\<lambda>existing.
       case existing of
         Some a \<Rightarrow>
           if is_auto_vni requested_vni \<or> requested_vni = Vni (va_vni a) then ret (va_vni a)
           else raise_exn (UnderstackVNIRouterHasVNI router_id (va_vni a) (requested_int requested_vni))
       | None \<Rightarrow>
           if is_auto_vni requested_vni then allocate_auto_vni now router_id ranges
           else
             andthen (validate_vni_in_ranges (requested_int requested_vni) ranges)
               (allocate_specific_vni now router_id (requested_int requested_vni))))"

definition release_vni_for_router :: "nat \<Rightarrow> string \<Rightarrow> (vni_table, unit) act" where
  "release_vni_for_router now router_id =
     bnd (reads (get_router_allocation router_id)) (\<lambda>allocation.
       case allocation of
         None \<Rightarrow> ret ()
       | Some a \<Rightarrow> andthen (updates (set_row (va_vni a) (free_row now))) flush)"

text \<open>Deleting a router row without the plugin: the foreign key nulls its allocation.\<close>

definition fk_set_null :: "string \<Rightarrow> vni_table \<Rightarrow> vni_table" where
  "fk_set_null router_id t =
     map (\<lambda>a. if va_router_id a = Some router_id then a\<lparr>va_router_id := None\<rparr> else a) t"

section \<open>The second merge agrees with the first\<close>

lemma list_update_last: "xs \<noteq> [] \<Longrightarrow> xs[length xs - Suc 0 := y] = butlast xs @ [y]"
  by (cases xs rule: rev_cases) simp_all

lemma merge_ranges_loop_eq: "merge_ranges_loop merged rs = merge_loop merged rs"
  by (induction merged rs rule: merge_ranges_loop.induct)
     (auto simp: list_update_last split: prod.split)

lemma merge_ranges_eq: "merge_ranges rs = merge_overlapped_ranges rs"
  by (simp add: merge_ranges_def merge_overlapped_ranges_def merge_ranges_loop_eq)

interpretation vni_merge: range_normaliser merge_ranges
  unfolding merge_ranges_eq by unfold_locales

section \<open>Parsing\<close>

lemma parse_entry_bounds:
  "parse_entry e = Inr (a, b) \<Longrightarrow> MIN_VNI \<le> a \<and> a \<le> b \<and> b \<le> MAX_VNI"
  by (auto simp: parse_entry_def Let_def split: if_splits option.splits prod.splits)

lemma parse_entries_Inr:
  "parse_entries acc es = Inr rs \<longleftrightarrow>
   (\<exists>qs. rs = acc @ qs \<and> list_all2 (\<lambda>e r. parse_entry e = Inr r) es qs)"
proof (induction acc es rule: parse_entries.induct)
  case (1 acc)
  then show ?case by auto
next
  case (2 acc e es)
  then show ?case by (auto simp: list_all2_Cons1 split: sum.split)
qed

lemma parse_entries_bounds:
  assumes "parse_entries [] es = Inr rs" "r \<in> set rs"
  shows "MIN_VNI \<le> fst r \<and> fst r \<le> snd r \<and> snd r \<le> MAX_VNI"
proof -
  from assms obtain e where "parse_entry e = Inr r"
    by (auto simp: parse_entries_Inr list_all2_conv_all_nth in_set_conv_nth)
  then show ?thesis using parse_entry_bounds [of e "fst r" "snd r"] by simp
qed

lemma parse_vni_ranges_Inr:
  assumes "parse_vni_ranges es = Inr rs"
  obtains parsed where "parse_entries [] es = Inr parsed" "parsed \<noteq> []" "wf_ranges parsed"
    "rs = merge_ranges parsed"
proof -
  from assms obtain parsed where p: "parse_entries [] es = Inr parsed" "parsed \<noteq> []"
      "rs = merge_ranges parsed"
    by (auto simp: parse_vni_ranges_def split: sum.splits if_splits)
  then have "wf_ranges parsed"
    using parse_entries_bounds by (auto simp: wf_ranges_def list_all_iff)
  with p that show ?thesis by blast
qed

lemma parse_vni_ranges_canonical: "parse_vni_ranges es = Inr rs \<Longrightarrow> canonical rs"
  by (erule parse_vni_ranges_Inr) (simp add: vni_merge.norm_canonical)

lemma parse_vni_ranges_cover:
  assumes "parse_vni_ranges es = Inr rs"
  shows "cover rs \<subseteq> {MIN_VNI .. MAX_VNI}" "cover rs \<noteq> {}"
proof -
  from assms obtain parsed where p: "parse_entries [] es = Inr parsed" "parsed \<noteq> []"
      "wf_ranges parsed" "rs = merge_ranges parsed"
    by (rule parse_vni_ranges_Inr)
  from p have eq: "cover rs = cover parsed" by (simp add: vni_merge.norm_cover)
  show "cover rs \<subseteq> {MIN_VNI .. MAX_VNI}"
    unfolding eq using parse_entries_bounds [OF p(1)] by (force simp: cover_def)
  show "cover rs \<noteq> {}" unfolding eq using p by (simp add: cover_Nil_iff)
qed

section \<open>Printing and reading back\<close>

lemma show_nat_digits: "c \<in> set (show_nat n) \<Longrightarrow> is_digit c"
  by (induction n rule: show_nat.induct)
     (subst (asm) (2) show_nat.simps, auto simp: is_digit_def split: if_splits)

lemma show_nat_ne [simp]: "show_nat n \<noteq> []"
  by (subst show_nat.simps) simp

lemma digit_val_char: "n < 10 \<Longrightarrow> digit_val (char_of (48 + n)) = int n"
  by (simp add: digit_val_def)

lemma digits_rest_append:
  "\<forall>c \<in> set cs. is_digit c \<Longrightarrow>
   digits_rest acc (cs @ ds) = digits_rest (foldl (\<lambda>a c. a * 10 + digit_val c) acc cs) ds"
  by (induction cs arbitrary: acc) auto

lemma digits_foldl:
  "cs \<noteq> [] \<Longrightarrow> \<forall>c \<in> set cs. is_digit c \<Longrightarrow>
   digits cs = Some (foldl (\<lambda>a c. a * 10 + digit_val c) 0 cs)"
  using digits_rest_append [of "tl cs" "digit_val (hd cs)" "[]"]
  by (cases cs) (auto simp: digits_def)

lemma foldl_show_nat: "foldl (\<lambda>a c. a * 10 + digit_val c) 0 (show_nat n) = int n"
proof (induction n rule: show_nat.induct)
  case (1 n)
  show ?case
  proof (cases "n < 10")
    case True
    then show ?thesis by (simp add: show_nat.simps [of n] digit_val_char)
  next
    case False
    have "int (n div 10) * 10 + int (n mod 10) = int n"
      by (metis div_mult_mod_eq of_nat_add of_nat_mult of_nat_numeral)
    with False 1 show ?thesis by (simp add: show_nat.simps [of n] digit_val_char)
  qed
qed

lemma digit_not: "is_digit c \<Longrightarrow> c \<noteq> CHR ''+'' \<and> c \<noteq> CHR ''-'' \<and> c \<noteq> CHR '':'' \<and> \<not> is_space c"
  by (auto simp: is_digit_def is_space_def Let_def)

lemma dropWhile_none: "xs \<noteq> [] \<Longrightarrow> \<not> P (hd xs) \<Longrightarrow> dropWhile P xs = xs"
  by (cases xs) auto

lemma strip_id: "cs \<noteq> [] \<Longrightarrow> \<not> is_space (hd cs) \<Longrightarrow> \<not> is_space (last cs) \<Longrightarrow> strip cs = cs"
  by (simp add: strip_def dropWhile_none hd_rev)

lemma strip_digits: "cs \<noteq> [] \<Longrightarrow> \<forall>c \<in> set cs. is_digit c \<Longrightarrow> strip cs = cs"
  using digit_not by (intro strip_id) (auto simp: hd_in_set)

lemma py_int_show_nat: "py_int (show_nat n) = Some (int n)"
proof -
  have d: "\<forall>c \<in> set (show_nat n). is_digit c" using show_nat_digits by blast
  obtain c cs where s: "show_nat n = c # cs" by (cases "show_nat n") auto
  with d have "c \<noteq> CHR ''+''" "c \<noteq> CHR ''-''" using digit_not by auto
  with d s show ?thesis
    using digits_foldl [of "show_nat n"] foldl_show_nat [of n] strip_digits [of "show_nat n"]
    by (simp add: py_int_def)
qed

lemma py_int_show_int: "0 \<le> i \<Longrightarrow> py_int (show_int i) = Some i"
  by (simp add: show_int_def py_int_show_nat)

lemma split1_at: "sep \<notin> set a \<Longrightarrow> split1 sep (a @ sep # b) = (a, b)"
  by (induction a) auto

lemma parse_entry_format:
  assumes "MIN_VNI \<le> a" "a \<le> b" "b \<le> MAX_VNI"
  shows "parse_entry (format_range (a, b)) = Inr (a, b)"
proof -
  have nn: "0 \<le> a" "0 \<le> b" using assms by (auto simp: MIN_VNI_def)
  let ?a = "show_int a" and ?b = "show_int b"
  have d: "\<forall>c \<in> set ?a \<union> set ?b. is_digit c" and ne: "?a \<noteq> []" "?b \<noteq> []"
    using nn show_nat_digits by (auto simp: show_int_def)
  have fmt: "format_range (a, b) = ?a @ CHR '':'' # ?b" by (simp add: format_range_def)
  have "strip (format_range (a, b)) = format_range (a, b)"
    unfolding fmt using d ne digit_not by (intro strip_id) (auto simp: hd_append)
  moreover have "split1 CHR '':'' (?a @ CHR '':'' # ?b) = (?a, ?b)"
    using d digit_not by (intro split1_at) blast
  ultimately show ?thesis
    using assms nn ne by (simp add: parse_entry_def fmt py_int_show_int)
qed

lemma parse_entries_format:
  assumes "\<forall>r \<in> set rs. MIN_VNI \<le> fst r \<and> fst r \<le> snd r \<and> snd r \<le> MAX_VNI"
  shows "parse_entries acc (map format_range rs) = Inr (acc @ rs)"
  using assms parse_entry_format by (induction rs arbitrary: acc) auto

section \<open>Searching for a free VNI\<close>

definition used_vnis :: "vni_table \<Rightarrow> int set" where
  "used_vnis t = va_vni ` set t"

lemma set_rows_between: "set (rows_between a b t) = used_vnis t \<inter> {a .. b}"
  by (auto simp: rows_between_def used_vnis_def)

lemma rows_between_sorted: "distinct (map va_vni t) \<Longrightarrow> sorted_wrt (<) (rows_between a b t)"
  by (simp add: rows_between_def strict_sorted_iff)

lemma scan_rows_spec:
  assumes "sorted_wrt (<) vs" "\<forall>v \<in> set vs. c \<le> v \<and> v \<le> stop"
    and "scan_rows stop c vs = Inl x \<or> scan_rows stop c vs = Inr x"
  shows "c \<le> x \<and> {c ..< x} \<subseteq> set vs \<and> (x \<le> stop \<longrightarrow> x \<notin> set vs)
    \<and> (scan_rows stop c vs = Inl x \<longrightarrow> x \<le> stop)"
  using assms
proof (induction stop c vs rule: scan_rows.induct)
  case (1 stop c)
  then show ?case by auto
next
  case (2 stop c v vs)
  show ?case
  proof (cases "v > c")
    case True
    with 2 show ?thesis by force
  next
    case False
    with "2.prems"(2) have v: "v = c" by auto
    show ?thesis
    proof (cases "c + 1 > stop")
      case True
      with 2 v show ?thesis by auto
    next
      case False
      have "\<forall>w \<in> set vs. c + 1 \<le> w \<and> w \<le> stop" using "2.prems"(1,2) v by auto
      with 2 v False have ih: "c + 1 \<le> x \<and> {c + 1 ..< x} \<subseteq> set vs \<and> (x \<le> stop \<longrightarrow> x \<notin> set vs)
          \<and> (scan_rows stop (c + 1) vs = Inl x \<longrightarrow> x \<le> stop)"
        by (auto simp: Let_def)
      moreover have "{c ..< x} \<subseteq> insert c {c + 1 ..< x}" by auto
      ultimately show ?thesis using v False by (auto simp: Let_def)
    qed
  qed
qed

lemma scan_rows_between:
  assumes "distinct (map va_vni t)"
    and "scan_rows b a (rows_between a b t) = Inl x \<or> scan_rows b a (rows_between a b t) = Inr x"
  shows "a \<le> x" "{a ..< x} \<subseteq> used_vnis t" "x \<le> b \<Longrightarrow> x \<notin> used_vnis t"
    and "scan_rows b a (rows_between a b t) = Inl x \<Longrightarrow> x \<le> b"
  using scan_rows_spec [OF rows_between_sorted [OF assms(1)] _ assms(2)]
  by (auto simp: set_rows_between)

lemma find_never_used_Some:
  assumes "distinct (map va_vni t)" "canonical rs" "find_never_used_vni rs t = Some v"
  shows "v \<in> cover rs \<and> v \<notin> used_vnis t \<and> (\<forall>w \<in> cover rs. w < v \<longrightarrow> w \<in> used_vnis t)"
  using assms(2,3)
proof (induction rs)
  case Nil
  then show ?case by simp
next
  case (Cons r rs)
  obtain a b where r: "r = (a, b)" by (cases r)
  obtain x where x: "scan_rows b a (rows_between a b t) = Inl x \<or> scan_rows b a (rows_between a b t) = Inr x"
    by (cases "scan_rows b a (rows_between a b t)") auto
  note scan = scan_rows_between [OF assms(1) x]
  have later: "b + 2 \<le> w" if "w \<in> cover rs" for w
    using Cons.prems(1) r that apart_cover [of rs r w] by auto
  show ?case
  proof (cases "x \<le> b")
    case True
    with Cons.prems(2) r x have "v = x" by auto
    with True scan r show ?thesis using later by force
  next
    case False
    with x scan(4) have "scan_rows b a (rows_between a b t) = Inr x" by auto
    with False Cons.prems r have "find_never_used_vni rs t = Some v" by auto
    with Cons have ih: "v \<in> cover rs \<and> v \<notin> used_vnis t \<and> (\<forall>w \<in> cover rs. w < v \<longrightarrow> w \<in> used_vnis t)"
      by simp
    have "{a .. b} \<subseteq> used_vnis t" using scan(2) False by auto
    with ih r show ?thesis by auto
  qed
qed

lemma find_never_used_None:
  assumes "distinct (map va_vni t)" "find_never_used_vni rs t = None"
  shows "cover rs \<subseteq> used_vnis t"
  using assms(2)
proof (induction rs)
  case Nil
  then show ?case by simp
next
  case (Cons r rs)
  obtain a b where r: "r = (a, b)" by (cases r)
  obtain x where x: "scan_rows b a (rows_between a b t) = Inl x \<or> scan_rows b a (rows_between a b t) = Inr x"
    by (cases "scan_rows b a (rows_between a b t)") auto
  with Cons.prems r have "b < x" by (auto split: if_splits)
  with scan_rows_between(2) [OF assms(1) x] have "{a .. b} \<subseteq> used_vnis t" by auto
  with Cons r x \<open>b < x\<close> show ?case by (auto split: if_splits)
qed

definition released_before :: "vni_allocation \<Rightarrow> vni_allocation \<Rightarrow> bool" where
  "released_before a b \<longleftrightarrow>
     va_released_at a = None \<and> va_released_at b \<noteq> None \<or>
     (\<exists>m n. va_released_at a = Some m \<and> va_released_at b = Some n \<and> m < n) \<or>
     va_released_at a = va_released_at b \<and> va_vni a \<le> va_vni b"

lemma release_key_le: "release_key a \<le> release_key b \<longleftrightarrow> released_before a b"
  by (auto simp: release_key_def released_before_def split: option.splits)

lemma find_released_Some:
  assumes "find_released_allocation rs t = Some a"
  shows "a \<in> set t" "va_router_id a = None" "va_vni a \<in> cover rs"
    and "\<And>b. b \<in> set t \<Longrightarrow> va_router_id b = None \<Longrightarrow> va_vni b \<in> cover rs \<Longrightarrow>
           release_key a \<le> release_key b"
proof -
  let ?xs = "filter (\<lambda>a. segmentation_id_in_ranges (va_vni a) rs) (filter (\<lambda>a. va_router_id a = None) t)"
  from assms obtain as where s: "sort_key release_key ?xs = a # as"
    by (auto simp: find_released_allocation_def split: list.splits)
  then have set: "set ?xs = insert a (set as)" by (metis list.simps(15) set_sort)
  then have "a \<in> set ?xs" by blast
  then show "a \<in> set t" "va_router_id a = None" "va_vni a \<in> cover rs"
    by (simp_all add: segmentation_id_in_ranges_cover)
  have "sorted (map release_key (a # as))" by (metis s sorted_sort_key)
  then have min: "release_key a \<le> release_key b" if "b \<in> set ?xs" for b
    using that set by auto
  then show "release_key a \<le> release_key b"
    if "b \<in> set t" "va_router_id b = None" "va_vni b \<in> cover rs" for b
    using that by (simp add: segmentation_id_in_ranges_cover)
qed

lemma sort_key_Nil_iff: "sort_key f xs = [] \<longleftrightarrow> xs = []"
  by (metis length_0_conv length_sort)

lemma find_released_None:
  assumes "find_released_allocation rs t = None" "a \<in> set t" "va_vni a \<in> cover rs"
  shows "va_router_id a \<noteq> None"
proof -
  let ?xs = "filter (\<lambda>a. segmentation_id_in_ranges (va_vni a) rs) (filter (\<lambda>a. va_router_id a = None) t)"
  from assms(1) have "sort_key release_key ?xs = []"
    unfolding find_released_allocation_def by (cases "sort_key release_key ?xs") simp_all
  then have "a \<notin> set ?xs" by (simp only: sort_key_Nil_iff) simp
  with assms(2,3) show ?thesis by (simp add: segmentation_id_in_ranges_cover)
qed

section \<open>The table constraints\<close>

lemma table_ok_iff:
  "table_ok t \<longleftrightarrow> distinct (map va_vni t) \<and>
     (\<forall>a \<in> set t. \<forall>b \<in> set t. \<forall>r. va_router_id a = Some r \<longrightarrow> va_router_id b = Some r \<longrightarrow> a = b)"
proof -
  have "distinct t" if "distinct (map va_vni t)" using that by (simp add: distinct_map)
  then show ?thesis by (auto simp: table_ok_def distinct_map inj_on_def)
qed

lemma table_ok_vni: "table_ok t \<Longrightarrow> a \<in> set t \<Longrightarrow> b \<in> set t \<Longrightarrow> va_vni a = va_vni b \<Longrightarrow> a = b"
  by (auto simp: table_ok_def distinct_map inj_on_def)

lemma table_ok_router:
  "table_ok t \<Longrightarrow> a \<in> set t \<Longrightarrow> b \<in> set t \<Longrightarrow> va_router_id a = Some r \<Longrightarrow>
   va_router_id b = Some r \<Longrightarrow> a = b"
  by (auto simp: table_ok_iff)

lemma get_router_allocation_Some:
  "table_ok t \<Longrightarrow> get_router_allocation r t = Some a \<longleftrightarrow> a \<in> set t \<and> va_router_id a = Some r"
  unfolding get_router_allocation_def
  by (auto dest: find_SomeD intro!: find_unique intro: table_ok_router)

lemma get_router_allocation_None:
  "get_router_allocation r t = None \<longleftrightarrow> (\<forall>a \<in> set t. va_router_id a \<noteq> Some r)"
  by (auto simp: get_router_allocation_def find_None_iff)

lemma row_vni [simp]:
  "va_vni (claim_row r a) = va_vni a" "va_vni (free_row n a) = va_vni a"
  "va_router_id (claim_row r a) = Some r" "va_router_id (free_row n a) = None"
  "va_released_at (claim_row r a) = None" "va_released_at (free_row n a) = Some n"
  by (simp_all add: claim_row_def free_row_def)

lemma new_allocation_simps [simp]:
  "va_vni (new_allocation n v r) = v" "va_router_id (new_allocation n v r) = Some r"
  by (simp_all add: new_allocation_def)

text \<open>Rewriting rows in place keeps the constraints when no two rows end up with one router.\<close>

lemma table_ok_map:
  assumes "table_ok t" "\<And>a. va_vni (g a) = va_vni a"
    and "\<And>a b q. a \<in> set t \<Longrightarrow> b \<in> set t \<Longrightarrow> va_router_id (g a) = Some q \<Longrightarrow>
           va_router_id (g b) = Some q \<Longrightarrow> a = b"
  shows "table_ok (map g t)"
proof -
  have "distinct (map va_vni (map g t))"
    using assms(1,2) by (simp add: table_ok_def comp_def)
  moreover have "g a = g b" if "a \<in> set t" "b \<in> set t" "va_router_id (g a) = Some q"
      "va_router_id (g b) = Some q" for a b q
    using assms(3) that by metis
  ultimately show ?thesis using assms(1) unfolding table_ok_iff by auto
qed

lemma set_row_mem:
  "b \<in> set (set_row v f t) \<longleftrightarrow> (\<exists>a \<in> set t. b = (if va_vni a = v then f a else a))"
  by (auto simp only: set_row_def set_map image_iff)

lemma map_vni_set_row: "(\<And>a. va_vni (f a) = va_vni a) \<Longrightarrow> map va_vni (set_row v f t) = map va_vni t"
  by (induction t) (auto simp: set_row_def)

lemma used_vnis_set_row: "(\<And>a. va_vni (f a) = va_vni a) \<Longrightarrow> used_vnis (set_row v f t) = used_vnis t"
  unfolding used_vnis_def set_map [symmetric] by (simp only: map_vni_set_row)

lemma table_ok_append:
  assumes "table_ok t" "v \<notin> used_vnis t" "get_router_allocation r t = None"
  shows "table_ok (t @ [new_allocation n v r])"
  using assms by (auto simp: table_ok_iff used_vnis_def get_router_allocation_None)

lemma table_ok_claim:
  assumes "table_ok t" "get_router_allocation r t = None"
  shows "table_ok (set_row v (claim_row r) t)"
  unfolding set_row_def
proof (rule table_ok_map [OF assms(1)])
  fix a b q
  assume "a \<in> set t" "b \<in> set t"
    "va_router_id (if va_vni a = v then claim_row r a else a) = Some q"
    "va_router_id (if va_vni b = v then claim_row r b else b) = Some q"
  then show "a = b"
    using assms(2) table_ok_vni [OF assms(1), of a b] table_ok_router [OF assms(1), of a b q]
    by (auto simp: get_router_allocation_None split: if_splits)
qed simp

lemma table_ok_free: "table_ok t \<Longrightarrow> table_ok (set_row v (free_row n) t)"
  unfolding set_row_def by (rule table_ok_map) (auto split: if_splits dest: table_ok_router)

lemma table_ok_fk: "table_ok t \<Longrightarrow> table_ok (fk_set_null r t)"
  unfolding fk_set_null_def by (rule table_ok_map) (auto split: if_splits dest: table_ok_router)

lemma flush_ok [simp]: "table_ok t \<Longrightarrow> flush t = (Inr (), t)"
  by (simp add: flush_def)

section \<open>The pool as a map from VNIs to routers\<close>

definition held :: "vni_table \<Rightarrow> int \<Rightarrow> string option" where
  "held t v = (case find (\<lambda>a. va_vni a = v) t of None \<Rightarrow> None | Some a \<Rightarrow> va_router_id a)"

definition pool_ok :: "vni_table \<Rightarrow> bool" where
  "pool_ok t = (table_ok t \<and> list_all (\<lambda>a. va_router_id a \<noteq> Some []) t)"

lemma pool_okD: "pool_ok t \<Longrightarrow> table_ok t" "pool_ok t \<Longrightarrow> a \<in> set t \<Longrightarrow> va_router_id a \<noteq> Some []"
  by (simp_all add: pool_ok_def list_all_iff)

lemma find_vni: "table_ok t \<Longrightarrow> a \<in> set t \<Longrightarrow> find (\<lambda>b. va_vni b = va_vni a) t = Some a"
  by (rule find_unique) (auto intro: table_ok_vni)

lemma held_row: "table_ok t \<Longrightarrow> a \<in> set t \<Longrightarrow> held t (va_vni a) = va_router_id a"
  by (simp add: held_def find_vni)

lemma held_Some: "table_ok t \<Longrightarrow> held t v = Some r \<longleftrightarrow> (\<exists>a \<in> set t. va_vni a = v \<and> va_router_id a = Some r)"
  by (auto simp: held_row) (auto simp: held_def dest: find_SomeD split: option.splits)

lemma held_unused: "v \<notin> used_vnis t \<Longrightarrow> held t v = None"
  by (auto simp: held_def used_vnis_def dest: find_SomeD split: option.split)

lemma lookup_held: "table_ok t \<Longrightarrow> get_vni_for_router r t = Some v \<longleftrightarrow> held t v = Some r"
  by (auto simp: get_vni_for_router_def get_router_allocation_Some held_Some)

lemma lookup_None: "table_ok t \<Longrightarrow> get_vni_for_router r t = None \<longleftrightarrow> (\<forall>v. held t v \<noteq> Some r)"
  using lookup_held [of t r] by (cases "get_vni_for_router r t") auto

lemma held_append: "v \<notin> used_vnis t \<Longrightarrow> held (t @ [new_allocation n v r]) = (held t)(v \<mapsto> r)"
  using held_unused [of v t]
  by (auto simp: held_def find_append fun_eq_iff split: option.splits) (auto simp: used_vnis_def dest: find_SomeD)

lemma held_set_row:
  assumes "table_ok t" "a \<in> set t" "\<And>b. va_vni (f b) = va_vni b"
  shows "held (set_row (va_vni a) f t) = (held t)(va_vni a := va_router_id (f a))"
proof
  fix w
  have "held (set_row (va_vni a) f t) w =
      (case find (\<lambda>b. va_vni b = w) t of None \<Rightarrow> None
       | Some b \<Rightarrow> va_router_id (if va_vni b = va_vni a then f b else b))"
    using assms(3)
    by (simp add: held_def set_row_def find_map_pres option.case_eq_if option.map_sel)
  also have "\<dots> = ((held t)(va_vni a := va_router_id (f a))) w"
    using find_vni [OF assms(1,2)]
    by (cases "w = va_vni a") (auto simp: held_def dest: find_SomeD split: option.split)
  finally show "held (set_row (va_vni a) f t) w = ((held t)(va_vni a := va_router_id (f a))) w" .
qed

lemma pool_ok_append:
  "pool_ok t \<Longrightarrow> v \<notin> used_vnis t \<Longrightarrow> get_router_allocation r t = None \<Longrightarrow> r \<noteq> [] \<Longrightarrow>
   pool_ok (t @ [new_allocation n v r])"
  by (simp add: pool_ok_def table_ok_append)

lemma pool_ok_claim:
  "pool_ok t \<Longrightarrow> get_router_allocation r t = None \<Longrightarrow> r \<noteq> [] \<Longrightarrow> pool_ok (set_row v (claim_row r) t)"
  by (auto simp: pool_ok_def table_ok_claim list_all_iff set_row_mem split: if_splits)

lemma pool_ok_free: "pool_ok t \<Longrightarrow> pool_ok (set_row v (free_row n) t)"
  by (auto simp: pool_ok_def table_ok_free list_all_iff set_row_mem split: if_splits)

lemma pool_ok_fk: "pool_ok t \<Longrightarrow> pool_ok (fk_set_null r t)"
  using table_ok_fk [of t r] by (auto simp: pool_ok_def list_all_iff fk_set_null_def)

section \<open>What each operation does to the pool\<close>

lemma allocate_auto_Inr:
  assumes "pool_ok t" "r \<noteq> []" "get_router_allocation r t = None" "canonical rs"
    and "allocate_auto_vni n r rs t = (Inr v, t')"
  shows "pool_ok t' \<and> held t' = (held t)(v \<mapsto> r) \<and> held t v = None \<and> v \<in> cover rs"
proof (cases "find_never_used_vni rs t")
  case (Some w)
  have d: "distinct (map va_vni t)" using assms(1) by (simp add: pool_ok_def table_ok_def)
  note w = find_never_used_Some [OF d assms(4) Some]
  then have "pool_ok (t @ [new_allocation n w r])" using assms by (simp add: pool_ok_append)
  with assms(5) Some w show ?thesis
    by (auto simp: allocate_auto_vni_def pool_okD held_append held_unused)
next
  case None
  then obtain a where a: "find_released_allocation rs t = Some a"
    using assms(5) by (cases "find_released_allocation rs t") (auto simp: allocate_auto_vni_def)
  have "pool_ok (set_row (va_vni a) (claim_row r) t)" using assms by (simp add: pool_ok_claim)
  with assms(1,5) None a find_released_Some [OF a] show ?thesis
    by (auto simp: allocate_auto_vni_def pool_okD held_set_row held_row)
qed

lemma allocate_auto_Inl:
  assumes "pool_ok t" "r \<noteq> []" "get_router_allocation r t = None" "canonical rs"
  shows "allocate_auto_vni n r rs t = (Inl e, t') \<longleftrightarrow>
    e = UnderstackVNINoAvailable (format_vni_ranges rs) \<and> t' = t \<and> (\<forall>v \<in> cover rs. held t v \<noteq> None)"
proof (cases "find_never_used_vni rs t")
  case (Some w)
  have d: "distinct (map va_vni t)" using assms(1) by (simp add: pool_ok_def table_ok_def)
  note w = find_never_used_Some [OF d assms(4) Some]
  then have "table_ok (t @ [new_allocation n w r])" using assms by (simp add: table_ok_append pool_okD)
  moreover have "\<exists>v \<in> cover rs. held t v = None" using w held_unused by blast
  ultimately show ?thesis using Some by (auto simp: allocate_auto_vni_def)
next
  case None
  have d: "distinct (map va_vni t)" using assms(1) by (simp add: pool_ok_def table_ok_def)
  have used: "cover rs \<subseteq> used_vnis t" by (rule find_never_used_None [OF d None])
  show ?thesis
  proof (cases "find_released_allocation rs t")
    case None2: None
    have "\<forall>v \<in> cover rs. held t v \<noteq> None"
      using used find_released_None [OF None2] assms(1)
      by (fastforce simp: used_vnis_def held_row pool_okD)
    with None None2 show ?thesis by (auto simp: allocate_auto_vni_def)
  next
    case (Some a)
    note a = find_released_Some [OF Some]
    have "table_ok (set_row (va_vni a) (claim_row r) t)"
      using assms by (simp add: table_ok_claim pool_okD)
    moreover have "held t (va_vni a) = None" using a assms(1) by (simp add: held_row pool_okD)
    ultimately show ?thesis using None Some a by (auto simp: allocate_auto_vni_def)
  qed
qed

lemma allocate_specific_cases:
  assumes "pool_ok t" "r \<noteq> []" "get_router_allocation r t = None"
  shows "case held t v of
      Some q \<Rightarrow> allocate_specific_vni n r v t = (Inl (UnderstackVNIInUse v q), t)
    | None \<Rightarrow> \<exists>t'. allocate_specific_vni n r v t = (Inr v, t') \<and> pool_ok t' \<and> held t' = (held t)(v \<mapsto> r)"
proof (cases "find (\<lambda>a. va_vni a = v) t")
  case None
  then have v: "v \<notin> used_vnis t" by (auto simp: find_None_iff used_vnis_def)
  then have "pool_ok (t @ [new_allocation n v r])" using assms by (simp add: pool_ok_append)
  with None v show ?thesis
    by (simp add: allocate_specific_vni_def held_unused held_append pool_okD)
next
  case (Some a)
  then have a: "a \<in> set t" "va_vni a = v" by (auto dest: find_SomeD)
  then have h: "held t v = va_router_id a" "va_router_id a \<noteq> Some []"
    using assms(1) held_row [of t a] by (auto simp: pool_okD)
  have "pool_ok (set_row v (claim_row r) t)" using assms by (simp add: pool_ok_claim)
  moreover have "held (set_row v (claim_row r) t) = (held t)(v \<mapsto> r)"
    using assms(1) a held_set_row [of t a "claim_row r"] by (simp add: pool_okD)
  ultimately show ?thesis
    using Some h by (cases "va_router_id a") (auto simp: allocate_specific_vni_def pool_okD)
qed

lemma allocate_Inr:
  assumes "pool_ok t" "r \<noteq> []"
    and "allocate_vni_for_router cfg n r q t = (Inr v, t')"
  shows "pool_ok t'" "held t' = (held t)(v \<mapsto> r)"
    and "\<exists>rs. parse_vni_ranges cfg = Inr rs \<and> (held t v = Some r \<or> held t v = None \<and> v \<in> cover rs)"
proof -
  from assms(3) obtain rs where rs: "parse_vni_ranges cfg = Inr rs"
    by (cases "parse_vni_ranges cfg") (auto simp: allocate_vni_for_router_def)
  note can = parse_vni_ranges_canonical [OF rs]
  have "pool_ok t' \<and> held t' = (held t)(v \<mapsto> r) \<and>
      (held t v = Some r \<or> held t v = None \<and> v \<in> cover rs)"
  proof (cases "get_router_allocation r t")
    case (Some a)
    with assms rs have "v = va_vni a" "t' = t"
      by (auto simp: allocate_vni_for_router_def split: if_splits)
    moreover have "held t v = Some r"
      using Some assms(1) \<open>v = va_vni a\<close> by (auto simp: get_router_allocation_Some pool_okD held_row)
    ultimately show ?thesis using assms(1) by (simp add: fun_upd_idem)
  next
    case None
    show ?thesis
    proof (cases "is_auto_vni q")
      case True
      with assms rs None show ?thesis
        using allocate_auto_Inr [OF assms(1,2) None can] by (auto simp: allocate_vni_for_router_def)
    next
      case False
      with assms rs None show ?thesis
        using allocate_specific_cases [OF assms(1,2) None, of n "requested_int q"]
        by (auto simp: allocate_vni_for_router_def validate_vni_in_ranges_def
            segmentation_id_in_ranges_cover split: if_splits option.splits)
    qed
  qed
  with rs show "pool_ok t'" "held t' = (held t)(v \<mapsto> r)"
    "\<exists>rs. parse_vni_ranges cfg = Inr rs \<and> (held t v = Some r \<or> held t v = None \<and> v \<in> cover rs)"
    by auto
qed

lemma allocate_Inl_state:
  assumes "pool_ok t" "r \<noteq> []" "allocate_vni_for_router cfg n r q t = (Inl e, t')"
  shows "t' = t"
proof (cases "parse_vni_ranges cfg")
  case (Inl x)
  with assms show ?thesis by (simp add: allocate_vni_for_router_def)
next
  case (Inr rs)
  note can = parse_vni_ranges_canonical [OF Inr]
  show ?thesis
  proof (cases "get_router_allocation r t")
    case (Some a)
    with assms Inr show ?thesis by (auto simp: allocate_vni_for_router_def split: if_splits)
  next
    case None
    with assms Inr show ?thesis
      using allocate_auto_Inl [OF assms(1,2) None can] allocate_specific_cases [OF assms(1,2) None, of n "requested_int q"]
      by (auto simp: allocate_vni_for_router_def validate_vni_in_ranges_def
          split: if_splits option.splits)
  qed
qed

lemma release_result:
  assumes "pool_ok t"
  obtains t' where "release_vni_for_router n r t = (Inr (), t')" "pool_ok t'"
    "held t' = (\<lambda>v. if held t v = Some r then None else held t v)" "used_vnis t' = used_vnis t"
proof (cases "get_router_allocation r t")
  case None
  with assms have "held t = (\<lambda>v. if held t v = Some r then None else held t v)"
    using lookup_None [of t r] by (auto simp: get_vni_for_router_def pool_okD fun_eq_iff)
  with None assms that [of t] show ?thesis by (simp add: release_vni_for_router_def)
next
  case (Some a)
  then have a: "a \<in> set t" "va_router_id a = Some r"
    using assms by (auto simp: get_router_allocation_Some pool_okD)
  let ?t = "set_row (va_vni a) (free_row n) t"
  have ok: "pool_ok ?t" using assms by (rule pool_ok_free)
  have "held ?t = (held t)(va_vni a := None)"
    using assms a by (simp add: held_set_row pool_okD)
  moreover have "held t v = Some r \<longleftrightarrow> v = va_vni a" for v
    using assms a lookup_held [of t r v] Some
    by (auto simp: get_vni_for_router_def pool_okD)
  ultimately have "held ?t = (\<lambda>v. if held t v = Some r then None else held t v)"
    by (auto simp: fun_eq_iff)
  moreover have "used_vnis ?t = used_vnis t" by (simp add: used_vnis_set_row)
  ultimately show ?thesis
    using that [of ?t] ok Some by (simp add: release_vni_for_router_def pool_okD)
qed

section \<open>The contract the router plugin relies on\<close>

locale vni_pool =
  fixes alloc :: "string \<Rightarrow> vni_request \<Rightarrow> ('t, int) act"
    and release :: "string \<Rightarrow> ('t, unit) act"
    and lookup :: "string \<Rightarrow> 't \<Rightarrow> int option"
    and ok :: "'t \<Rightarrow> bool"
  assumes alloc_ok: "ok t \<Longrightarrow> r \<noteq> [] \<Longrightarrow> alloc r q t = (Inr v, t') \<Longrightarrow> ok t'"
    and alloc_lookup: "ok t \<Longrightarrow> r \<noteq> [] \<Longrightarrow> alloc r q t = (Inr v, t') \<Longrightarrow> lookup r t' = Some v"
    and alloc_frame: "ok t \<Longrightarrow> r \<noteq> [] \<Longrightarrow> alloc r q t = (Inr v, t') \<Longrightarrow> r' \<noteq> r \<Longrightarrow>
        lookup r' t' = lookup r' t"
    and alloc_raise: "ok t \<Longrightarrow> r \<noteq> [] \<Longrightarrow> alloc r q t = (Inl e, t') \<Longrightarrow> t' = t"
    and alloc_explicit: "ok t \<Longrightarrow> r \<noteq> [] \<Longrightarrow> \<not> is_auto_vni (Vni w) \<Longrightarrow>
        alloc r (Vni w) t = (Inr v, t') \<Longrightarrow> v = w"
    and release_returns: "ok t \<Longrightarrow> \<exists>t'. release r t = (Inr (), t') \<and> ok t' \<and> lookup r t' = None"
    and release_frame: "ok t \<Longrightarrow> release r t = (Inr (), t') \<Longrightarrow> r' \<noteq> r \<Longrightarrow> lookup r' t' = lookup r' t"
    and lookup_inj: "ok t \<Longrightarrow> lookup r t = Some v \<Longrightarrow> lookup r' t = Some v \<Longrightarrow> r = r'"
begin

text \<open>Allocation and release are inverse on the routers' view of the pool.\<close>

lemma alloc_release_view:
  assumes "ok t" "r \<noteq> []" "lookup r t = None" "alloc r q t = (Inr v, t')" "release r t' = (Inr (), t'')"
  shows "lookup r' t'' = lookup r' t"
proof (cases "r' = r")
  case True
  have "ok t'" using alloc_ok [OF assms(1,2,4)] .
  with True assms(3,5) show ?thesis using release_returns [of t' r] by auto
next
  case False
  have "ok t'" using alloc_ok [OF assms(1,2,4)] .
  with False assms show ?thesis
    using release_frame [of t' r t'' r'] alloc_frame [OF assms(1,2,4), of r'] by simp
qed

lemma alloc_fresh: "ok t \<Longrightarrow> r \<noteq> [] \<Longrightarrow> alloc r q t = (Inr v, t') \<Longrightarrow> lookup r' t = Some v \<Longrightarrow> r' = r"
  using alloc_ok alloc_lookup alloc_frame lookup_inj by metis

end

lemma held_upd_lookup:
  assumes "pool_ok t" "pool_ok t'" "held t' = (held t)(v \<mapsto> r)" "held t v = Some r \<or> held t v = None"
  shows "r' \<noteq> r \<Longrightarrow> get_vni_for_router r' t' = get_vni_for_router r' t"
proof -
  assume ne: "r' \<noteq> r"
  have "get_vni_for_router r' t' = Some w \<longleftrightarrow> get_vni_for_router r' t = Some w" for w
    using assms ne by (auto simp: lookup_held pool_okD)
  then show ?thesis by (metis option.exhaust)
qed

lemma allocate_explicit:
  assumes "pool_ok t" "r \<noteq> []" "\<not> is_auto_vni (Vni w)"
    "allocate_vni_for_router cfg n r (Vni w) t = (Inr v, t')"
  shows "v = w"
  using assms
  by (auto simp: allocate_vni_for_router_def allocate_specific_vni_def validate_vni_in_ranges_def
      requested_int_def flush_def
      split: sum.splits option.splits if_splits)

lemma held_inj: "pool_ok t \<Longrightarrow> get_vni_for_router r t = Some v \<Longrightarrow> get_vni_for_router r' t = Some v \<Longrightarrow> r = r'"
  by (auto simp: lookup_held pool_okD)

interpretation vni_db: vni_pool "allocate_vni_for_router cfg n" "release_vni_for_router n"
  get_vni_for_router pool_ok for cfg n
proof (unfold_locales, goal_cases)
  case (1 t r q v t')
  then show ?case by (rule allocate_Inr)
next
  case (2 t r q v t')
  then show ?case using allocate_Inr [OF 2] by (simp add: lookup_held pool_okD)
next
  case (3 t r q v t' r')
  then show ?case using held_upd_lookup allocate_Inr [OF 3(1-3)] by blast
next
  case (4 t r q e t')
  then show ?case by (rule allocate_Inl_state)
next
  case (5 t r w v t')
  then show ?case by (rule allocate_explicit)
next
  case (6 t r)
  then show ?case by (rule release_result [of t n r]) (auto simp: lookup_None pool_okD)
next
  case (7 t r t' r')
  obtain u where u: "release_vni_for_router n r t = (Inr (), u)" "pool_ok u"
      "held u = (\<lambda>v. if held t v = Some r then None else held t v)"
    by (rule release_result [OF 7(1), of n r]) blast
  then have "get_vni_for_router r' u = Some w \<longleftrightarrow> get_vni_for_router r' t = Some w" for w
    using 7 by (auto simp: lookup_held pool_okD)
  then have "get_vni_for_router r' u = get_vni_for_router r' t" by (metis option.exhaust)
  with u 7 show ?case by simp
next
  case (8 t r v r')
  then show ?case by (rule held_inj)
qed

section \<open>Runs of the allocator\<close>

text \<open>
  Any interleaving of the plugin's two operations and of the foreign key's action; the
  configured ranges may differ from call to call (a service restarted with another
  configuration), and a raising call may leave the table in whatever state the model computes.
\<close>

inductive vni_step :: "vni_table \<Rightarrow> vni_table \<Rightarrow> bool" where
  allocate: "r \<noteq> [] \<Longrightarrow> vni_step t (snd (allocate_vni_for_router cfg n r q t))"
| release: "vni_step t (snd (release_vni_for_router n r t))"
| fk_null: "vni_step t (fk_set_null r t)"

inductive vni_reachable :: "vni_table \<Rightarrow> bool" where
  start: "vni_reachable []"
| step: "vni_reachable t \<Longrightarrow> vni_step t t' \<Longrightarrow> vni_reachable t'"

definition in_vni_bounds :: "vni_table \<Rightarrow> bool" where
  "in_vni_bounds t = list_all (\<lambda>a. MIN_VNI \<le> va_vni a \<and> va_vni a \<le> MAX_VNI) t"

lemma in_vni_bounds_used: "in_vni_bounds t \<longleftrightarrow> used_vnis t \<subseteq> {MIN_VNI .. MAX_VNI}"
  by (auto simp: in_vni_bounds_def used_vnis_def list_all_iff)

lemma used_fk [simp]: "used_vnis (fk_set_null r t) = used_vnis t"
proof -
  have "map va_vni (fk_set_null r t) = map va_vni t" by (induction t) (auto simp: fk_set_null_def)
  then show ?thesis unfolding used_vnis_def set_map [symmetric] by simp
qed

lemma allocate_used:
  assumes "pool_ok t" "r \<noteq> []" "allocate_vni_for_router cfg n r q t = (Inr v, t')"
  shows "used_vnis t' \<subseteq> insert v (used_vnis t)"
  using assms
  by (auto simp: allocate_vni_for_router_def allocate_auto_vni_def allocate_specific_vni_def
      validate_vni_in_ranges_def flush_def used_vnis_set_row
      split: sum.splits option.splits if_splits)
     (auto simp: used_vnis_def)

lemma vni_step_inv:
  "vni_step t t' \<Longrightarrow> pool_ok t \<and> in_vni_bounds t \<Longrightarrow> pool_ok t' \<and> in_vni_bounds t'"
proof (induction rule: vni_step.induct)
  case (allocate r t cfg n q)
  show ?case
  proof (cases "allocate_vni_for_router cfg n r q t")
    case (Pair res t')
    show ?thesis
    proof (cases res)
      case (Inl e)
      with Pair allocate show ?thesis using allocate_Inl_state [of t r cfg n q e t'] by simp
    next
      case (Inr v)
      note a = allocate_Inr [of t r cfg n q v t']
      have "v \<in> used_vnis t \<or> v \<in> {MIN_VNI .. MAX_VNI}"
        using a(3) Pair Inr allocate parse_vni_ranges_cover(1) held_unused [of v t] by force
      with Pair Inr allocate a(1) allocate_used [of t r cfg n q v t']
      show ?thesis by (auto simp: in_vni_bounds_used)
    qed
  qed
next
  case (release t n r)
  then obtain t' where "release_vni_for_router n r t = (Inr (), t')" "pool_ok t'"
      "used_vnis t' = used_vnis t"
    by (blast intro: release_result [of t n r])
  with release show ?case by (simp add: in_vni_bounds_used)
next
  case (fk_null t r)
  then show ?case by (simp add: in_vni_bounds_used pool_ok_fk)
qed

lemma vni_reachable_inv: "vni_reachable t \<Longrightarrow> pool_ok t \<and> in_vni_bounds t"
proof (induction rule: vni_reachable.induct)
  case start
  show ?case by (simp add: pool_ok_def table_ok_def in_vni_bounds_def)
next
  case (step t t')
  then show ?case using vni_step_inv by blast
qed

section \<open>Properties\<close>

text \<open>
  C1: In every table the plugin and the database can produce, a VNI belongs to at most one
  router, and every allocated VNI lies between \<open>MIN_VNI\<close> and \<open>MAX_VNI\<close>.
\<close>
theorem vni_allocations_exclusive:
  assumes "vni_reachable t" "get_vni_for_router r t = Some v"
  shows "MIN_VNI \<le> v \<and> v \<le> MAX_VNI \<and> (\<forall>r'. get_vni_for_router r' t = Some v \<longrightarrow> r' = r)"
proof -
  have inv: "pool_ok t" "in_vni_bounds t" using assms(1) vni_reachable_inv by auto
  moreover have "v \<in> used_vnis t"
    using assms(2) inv held_unused [of v t] by (auto simp: lookup_held pool_okD)
  ultimately show ?thesis
    using assms(2) held_inj [OF inv(1)] by (auto simp: in_vni_bounds_used)
qed

definition vni_example :: vni_table where
  "vni_example = snd (allocate_vni_for_router ['' 10:20 '', ''15:30''] 7 ''r1'' AttrNotSpecified [])"

lemma vni_example_eval: "vni_example = [new_allocation 7 10 ''r1'']"
  by code_simp

theorem vni_allocations_exclusive_witness:
  "vni_reachable vni_example \<and> get_vni_for_router ''r1'' vni_example = Some 10 \<and>
   get_vni_for_router ''r2'' vni_example \<noteq> Some 10"
proof -
  have r: "vni_reachable vni_example"
    unfolding vni_example_def by (rule vni_reachable.step [OF vni_reachable.start vni_step.allocate]) simp
  have g: "get_vni_for_router ''r1'' vni_example = Some 10"
    by (simp add: vni_example_eval get_vni_for_router_def get_router_allocation_def)
  have "get_vni_for_router ''r2'' vni_example = Some 10 \<longrightarrow> ''r2'' = ''r1''"
    using vni_allocations_exclusive [OF r g] by blast
  moreover have "''r2'' \<noteq> ''r1''" by simp
  ultimately show ?thesis using r g by blast
qed

text \<open>
  C5: A successful \<open>allocate_vni_for_router\<close> refines one update of the abstract pool (the
  map from VNIs to routers): the returned VNI is mapped to the router and nothing else
  changes; the VNI was either already the router's or free and inside the configured ranges.
\<close>
theorem allocate_refines_pool_update:
  assumes "pool_ok t" "r \<noteq> []" "allocate_vni_for_router cfg n r q t = (Inr v, t')"
  shows "pool_ok t' \<and> held t' = (held t)(v \<mapsto> r) \<and>
    (held t v = Some r \<or>
     held t v = None \<and> (\<exists>rs. parse_vni_ranges cfg = Inr rs \<and> segmentation_id_in_ranges v rs))"
  using allocate_Inr [OF assms] by (auto simp: segmentation_id_in_ranges_cover)

theorem allocate_refines_pool_update_witness:
  "pool_ok [] \<and> allocate_vni_for_router ['' 10:20 '', ''15:30''] 7 ''r1'' AttrNotSpecified []
     = (Inr 10, vni_example) \<and> held vni_example = (held [])(10 \<mapsto> ''r1'')"
proof -
  have ok: "pool_ok []" by (simp add: pool_ok_def table_ok_def)
  have e: "allocate_vni_for_router ['' 10:20 '', ''15:30''] 7 ''r1'' AttrNotSpecified []
     = (Inr 10, vni_example)"
    unfolding vni_example_eval by code_simp
  show ?thesis using ok e allocate_refines_pool_update [OF ok _ e] by simp
qed

text \<open>
  C6: For a router without an allocation, automatic allocation succeeds exactly when some
  VNI of the configured ranges is not held by a router; otherwise it raises
  \<open>UnderstackVNINoAvailable\<close> and leaves the table as it was.
\<close>
theorem auto_allocation_succeeds_iff_free:
  assumes "pool_ok t" "r \<noteq> []" "get_vni_for_router r t = None"
    and "parse_vni_ranges cfg = Inr rs" "is_auto_vni q"
  shows "if (\<exists>v. segmentation_id_in_ranges v rs \<and> held t v = None)
    then (\<exists>v t'. allocate_vni_for_router cfg n r q t = (Inr v, t'))
    else allocate_vni_for_router cfg n r q t = (Inl (UnderstackVNINoAvailable (format_vni_ranges rs)), t)"
proof -
  have none: "get_router_allocation r t = None" using assms(3) by (simp add: get_vni_for_router_def)
  have eq: "allocate_vni_for_router cfg n r q t = allocate_auto_vni n r rs t"
    using assms none by (simp add: allocate_vni_for_router_def)
  note inl = allocate_auto_Inl [OF assms(1,2) none parse_vni_ranges_canonical [OF assms(4)], of n]
  show ?thesis
  proof (cases "allocate_auto_vni n r rs t")
    case (Pair res t')
    show ?thesis
      using inl [of "UnderstackVNINoAvailable (format_vni_ranges rs)" t] inl [of "projl res" t'] Pair
      by (cases res) (auto simp: eq segmentation_id_in_ranges_cover)
  qed
qed

theorem auto_allocation_succeeds_iff_free_witness:
  "allocate_vni_for_router [''10''] 8 ''r2'' VniNone vni_example
     = (Inl (UnderstackVNINoAvailable ''10:10''), vni_example)"
proof -
  have ok: "pool_ok vni_example" by (simp add: vni_example_eval pool_ok_def table_ok_def)
  have p: "parse_vni_ranges [''10''] = Inr [(10, 10)]" by code_simp
  have f: "format_vni_ranges [(10, 10)] = ''10:10''" by code_simp
  have none: "get_vni_for_router ''r2'' vni_example = None"
    by (simp add: vni_example_eval get_vni_for_router_def get_router_allocation_def)
  have h: "held vni_example 10 = Some ''r1''" by (simp add: vni_example_eval held_def)
  have "\<not> (\<exists>v. segmentation_id_in_ranges v [(10, 10)] \<and> held vni_example v = None)"
    using h by (auto simp: segmentation_id_in_ranges_def)
  then show ?thesis
    using auto_allocation_succeeds_iff_free [OF ok _ none p, of VniNone 8]
    by (simp add: is_auto_vni_def f)
qed

text \<open>
  Automatic allocation prefers VNIs that were never used, lowest first; only when every
  VNI of the ranges has a row does it reuse a released one, the longest-released first: rows without
  a release time, then by that time, and among equals the lowest VNI.
\<close>
lemma auto_allocation_order:
  assumes "pool_ok t" "canonical rs" "allocate_auto_vni n r rs t = (Inr v, t')"
  shows "if (\<exists>w. segmentation_id_in_ranges w rs \<and> w \<notin> used_vnis t)
    then segmentation_id_in_ranges v rs \<and> v \<notin> used_vnis t \<and>
      (\<forall>w. segmentation_id_in_ranges w rs \<and> w < v \<longrightarrow> w \<in> used_vnis t)
    else (\<exists>a. a \<in> set t \<and> va_vni a = v \<and> va_router_id a = None \<and>
      (\<forall>b. b \<in> set t \<and> va_router_id b = None \<and> segmentation_id_in_ranges (va_vni b) rs
         \<longrightarrow> released_before a b))"
proof -
  have d: "distinct (map va_vni t)" using assms(1) by (simp add: pool_ok_def table_ok_def)
  show ?thesis
  proof (cases "find_never_used_vni rs t")
    case (Some w)
    with assms(3) have "w = v" by (auto simp: allocate_auto_vni_def flush_def split: if_splits)
    with find_never_used_Some [OF d assms(2) Some] show ?thesis
      by (auto simp: segmentation_id_in_ranges_cover)
  next
    case None
    then obtain a where a: "find_released_allocation rs t = Some a" "va_vni a = v"
      using assms(3) by (auto simp: allocate_auto_vni_def flush_def split: option.splits if_splits)
    with find_never_used_None [OF d None] find_released_Some [OF a(1)] show ?thesis
      by (auto simp: segmentation_id_in_ranges_cover release_key_le)
  qed
qed

text \<open>
  \<open>release_vni_for_router\<close> always returns; afterwards the router holds nothing, every other
  router holds what it held, and the row stays in the table (its VNI counts as used).
\<close>
lemma release_vni_total:
  assumes "pool_ok t"
  shows "\<exists>t'. release_vni_for_router n r t = (Inr (), t') \<and> pool_ok t' \<and>
    get_vni_for_router r t' = None \<and> used_vnis t' = used_vnis t \<and>
    (\<forall>v. held t' v = (if held t v = Some r then None else held t v))"
  by (rule release_result [OF assms, of n r]) (auto simp: lookup_None pool_okD)

text \<open>
  Round trip: the entries \<open>format_vni_ranges\<close> prints for a non-empty canonical range list
  inside the VNI bounds parse back to that list.
\<close>
lemma parse_format_roundtrip:
  assumes "canonical rs" "rs \<noteq> []" "\<forall>r \<in> set rs. MIN_VNI \<le> fst r \<and> snd r \<le> MAX_VNI"
  shows "parse_vni_ranges (map format_range rs) = Inr rs"
proof -
  have "\<forall>r \<in> set rs. MIN_VNI \<le> fst r \<and> fst r \<le> snd r \<and> snd r \<le> MAX_VNI"
    using assms wf_rangesD by (auto simp: canonical_def)
  then show ?thesis
    using assms parse_entries_format [of rs "[]"]
    by (simp add: parse_vni_ranges_def vni_merge.norm_canonical_id)
qed

text \<open>
  The two range-merging routines of the code base compute the same function.
\<close>
lemma merge_implementations_agree: "merge_ranges rs = merge_overlapped_ranges rs"
  by (rule merge_ranges_eq)

end
