(* ===== verification/Vrf.thy ===== *)
theory Vrf
  imports Vni_Db
begin

text \<open>
  \<open>neutron_understack/l3_router/vrf.py\<close> and \<open>neutron_understack/evpn_compat.py\<close>: the service
  plugin that allocates a VNI when a router is created and releases it when the router is
  deleted.

  The flavors plugin and the JSON parser are parameters, the fields of \<open>flavor_env\<close>.  Values
  of a metainfo dictionary are kept as the text \<open>str\<close> gives for them, the only use the code
  makes of them.  The plugin's calls to \<open>UnderstackVniDbHelper\<close> are the definitions of
  \<open>Vni_Db\<close>, used through the contract \<open>vni_pool\<close>.
\<close>

section \<open>Flavors and service profiles\<close>

datatype metainfo = MetaNone | MetaText string | MetaDict "string dict"

datatype json_top = JDict "string dict" | JNonDict

record flavor_env =
  fe_flavor_profiles :: "string \<Rightarrow> exn + string list"
  fe_profile_metainfo :: "string \<Rightarrow> exn + metainfo"
  fe_json_loads :: "string \<Rightarrow> exn + json_top"

datatype vni_alloc_mode = VNI_ALLOC_OFF | VNI_ALLOC_ON | VNI_ALLOC_AUTO

datatype flavor_attr = FlavorNone | FlavorNotSpecified | FlavorId string

definition is_json_error :: "exn \<Rightarrow> bool" where
  "is_json_error e = (case e of ValueError _ \<Rightarrow> True | TypeError _ \<Rightarrow> True | _ \<Rightarrow> False)"

fun service_profile_metainfo :: "flavor_env \<Rightarrow> string list \<Rightarrow> exn + string dict" where
  "service_profile_metainfo env [] = Inr []"
| "service_profile_metainfo env (sp_id # rest) =
     (case fe_profile_metainfo env sp_id of
        Inl e \<Rightarrow> Inl e
      | Inr MetaNone \<Rightarrow> service_profile_metainfo env rest
      | Inr (MetaDict d) \<Rightarrow> if d = [] then service_profile_metainfo env rest else Inr d
      | Inr (MetaText raw) \<Rightarrow>
          if raw = [] then service_profile_metainfo env rest
          else (case fe_json_loads env raw of
                  Inl e \<Rightarrow> if is_json_error e then service_profile_metainfo env rest else Inl e
                | Inr (JDict d) \<Rightarrow> Inr d
                | Inr JNonDict \<Rightarrow> service_profile_metainfo env rest))"

definition parse_mode :: "string \<Rightarrow> vni_alloc_mode" where
  "parse_mode m = (if m = ''off'' then VNI_ALLOC_OFF
     else if m = ''on'' then VNI_ALLOC_ON
     else if m = ''auto'' then VNI_ALLOC_AUTO
     else VNI_ALLOC_OFF)"

definition router_vni_alloc :: "flavor_env \<Rightarrow> flavor_attr \<Rightarrow> exn + vni_alloc_mode" where
  "router_vni_alloc env flavor_id =
     (case flavor_id of
        FlavorNone \<Rightarrow> Inr VNI_ALLOC_OFF
      | FlavorNotSpecified \<Rightarrow> Inr VNI_ALLOC_OFF
      | FlavorId fid \<Rightarrow>
          (case fe_flavor_profiles env fid of
             Inl e \<Rightarrow> Inl e
           | Inr profiles \<Rightarrow>
               (case service_profile_metainfo env profiles of
                  Inl e \<Rightarrow> Inl e
                | Inr info \<Rightarrow>
                    Inr (parse_mode (py_lower
                      (case dget info ''vni_alloc'' of None \<Rightarrow> ''off'' | Some t \<Rightarrow> t))))))"

section \<open>The router callbacks\<close>

text \<open>
  The state of a callback: the allocation table and the router dictionary of the event's
  payload, of which the plugin reads \<open>flavor_id\<close> and \<open>evpn_vni\<close> (which may be absent).
\<close>

record router_dict =
  rd_flavor_id :: flavor_attr
  rd_evpn_vni :: "vni_request option"

record vrf_state =
  vs_table :: vni_table
  vs_router :: router_dict

definition on_table :: "(vni_table, 'a) act \<Rightarrow> (vrf_state, 'a) act" where
  "on_table m = (\<lambda>s. case m (vs_table s) of (r, t) \<Rightarrow> (r, s\<lparr>vs_table := t\<rparr>))"

definition requested_vni :: "router_dict \<Rightarrow> vni_request" where
  "requested_vni router = (case rd_evpn_vni router of None \<Rightarrow> AttrNotSpecified | Some q \<Rightarrow> q)"

definition process_router_create ::
  "flavor_env \<Rightarrow> string list \<Rightarrow> nat \<Rightarrow> string \<Rightarrow> (vrf_state, unit) act"
where
  "process_router_create env vni_ranges now resource_id =
     bnd (reads vs_router) (\<lambda>router.
     let requested = requested_vni router; explicit = \<not> is_auto_vni requested in
     bnd (of_sum (router_vni_alloc env (rd_flavor_id router))) (\<lambda>mode.
       if mode = VNI_ALLOC_OFF then
         when_act explicit
           (raise_exn (BadRequest ''router'' ''evpn_vni cannot be set on routers of this flavor''))
       else if mode = VNI_ALLOC_ON \<and> \<not> explicit then ret ()
       else
         bnd (on_table (allocate_vni_for_router vni_ranges now resource_id requested)) (\<lambda>vni.
           updates (\<lambda>s. s\<lparr>vs_router := (vs_router s)\<lparr>rd_evpn_vni := Some (Vni vni)\<rparr>\<rparr>))))"

definition process_router_delete :: "nat \<Rightarrow> string \<Rightarrow> (vrf_state, unit) act" where
  "process_router_delete now resource_id = on_table (release_vni_for_router now resource_id)"

text \<open>
  \<open>_extend_router_dict\<close>: the row may have a \<open>get\<close> (the outer option) that returns the
  allocation, and an attribute of the same name.  The result is the \<open>evpn_vni\<close> shown.
\<close>

record router_row =
  rr_get :: "vni_allocation option option"
  rr_attr :: "vni_allocation option"

definition extend_router_dict :: "router_row \<Rightarrow> int option" where
  "extend_router_dict router_db =
     (let allocation = (case rr_get router_db of None \<Rightarrow> None | Some a \<Rightarrow> a);
          allocation = (case allocation of None \<Rightarrow> rr_attr router_db | Some a \<Rightarrow> Some a) in
      case allocation of
        None \<Rightarrow> None
      | Some a \<Rightarrow> if truthy (va_router_id a) then Some (va_vni a) else None)"

text \<open>The relationship \<open>understack_vni_allocation\<close> of a router row: the row that refers to it.\<close>

definition router_row_of :: "string \<Rightarrow> vni_table \<Rightarrow> router_row" where
  "router_row_of router_id t =
     \<lparr>rr_get = Some (get_router_allocation router_id t), rr_attr = get_router_allocation router_id t\<rparr>"

section \<open>Which extension is registered\<close>

definition core_provides_evpn :: "string list \<Rightarrow> bool" where
  "core_provides_evpn rule_names = (''create_router:evpn_vni'' \<in> set rule_names)"

definition api_definition :: "string list \<Rightarrow> string option \<Rightarrow> string" where
  "api_definition rule_names core_evpn_apidef =
     (case core_evpn_apidef of
        Some alias \<Rightarrow> if core_provides_evpn rule_names then alias else ''understack_vni''
      | None \<Rightarrow> ''understack_vni'')"

definition supported_extension_aliases :: "string list \<Rightarrow> string option \<Rightarrow> string list" where
  "supported_extension_aliases rule_names core_evpn_apidef =
     [api_definition rule_names core_evpn_apidef]"

section \<open>Lemmas\<close>

lemma on_table_apply [simp]:
  "on_table m s = (fst (m (vs_table s)), s\<lparr>vs_table := snd (m (vs_table s))\<rparr>)"
  by (simp add: on_table_def split: prod.split)

lemma shown_vni: "r \<noteq> [] \<Longrightarrow> extend_router_dict (router_row_of r t) = get_vni_for_router r t"
  by (auto simp: extend_router_dict_def router_row_of_def get_vni_for_router_def
      get_router_allocation_def Let_def dest!: find_SomeD split: option.split)

text \<open>The three outcomes of the create callback, by mode and by the request.\<close>

definition allocates :: "vni_alloc_mode \<Rightarrow> vni_request \<Rightarrow> bool" where
  "allocates mode q = (mode = VNI_ALLOC_AUTO \<or> mode = VNI_ALLOC_ON \<and> \<not> is_auto_vni q)"

lemma create_allocates:
  assumes "router_vni_alloc env (rd_flavor_id (vs_router s)) = Inr mode"
    "allocates mode (requested_vni (vs_router s))"
  shows "process_router_create env cfg n r s =
    (case allocate_vni_for_router cfg n r (requested_vni (vs_router s)) (vs_table s) of
       (Inl e, t) \<Rightarrow> (Inl e, s\<lparr>vs_table := t\<rparr>)
     | (Inr v, t) \<Rightarrow> (Inr (), s\<lparr>vs_table := t, vs_router := (vs_router s)\<lparr>rd_evpn_vni := Some (Vni v)\<rparr>\<rparr>))"
  using assms
  by (auto simp: process_router_create_def allocates_def Let_def split: prod.split sum.split)

lemma create_declines:
  assumes "router_vni_alloc env (rd_flavor_id (vs_router s)) = Inr mode"
    "\<not> allocates mode (requested_vni (vs_router s))"
  shows "process_router_create env cfg n r s =
    (if is_auto_vni (requested_vni (vs_router s)) then Inr ()
     else Inl (BadRequest ''router'' ''evpn_vni cannot be set on routers of this flavor''), s)"
  using assms
  by (cases mode) (auto simp: process_router_create_def allocates_def Let_def)

lemma create_Inr_cases:
  assumes "process_router_create env cfg n r s = (Inr (), s')"
  obtains mode where "router_vni_alloc env (rd_flavor_id (vs_router s)) = Inr mode"
    and "allocates mode (requested_vni (vs_router s)) \<Longrightarrow>
      \<exists>v. allocate_vni_for_router cfg n r (requested_vni (vs_router s)) (vs_table s) = (Inr v, vs_table s')
        \<and> rd_evpn_vni (vs_router s') = Some (Vni v)"
    and "\<not> allocates mode (requested_vni (vs_router s)) \<Longrightarrow>
      s' = s \<and> is_auto_vni (requested_vni (vs_router s))"
proof (cases "router_vni_alloc env (rd_flavor_id (vs_router s))")
  case (Inl e)
  with assms show ?thesis by (simp add: process_router_create_def Let_def)
next
  case (Inr mode)
  show ?thesis
  proof (rule that [OF Inr])
    assume "allocates mode (requested_vni (vs_router s))"
    then show "\<exists>v. allocate_vni_for_router cfg n r (requested_vni (vs_router s)) (vs_table s)
        = (Inr v, vs_table s') \<and> rd_evpn_vni (vs_router s') = Some (Vni v)"
      using assms by (auto simp: create_allocates [OF Inr] split: prod.splits sum.splits)
  next
    assume "\<not> allocates mode (requested_vni (vs_router s))"
    then show "s' = s \<and> is_auto_vni (requested_vni (vs_router s))"
      using assms by (simp add: create_declines [OF Inr] split: if_splits)
  qed
qed

section \<open>Properties\<close>

text \<open>
  C7: When the create callback returns, the API shows for the router exactly what the flavor
  mode calls for: an allocated VNI that is also in the router dictionary (the requested one
  when the request was explicit) if the mode is \<open>auto\<close> or \<open>on\<close> with an explicit request, and no
  change at all otherwise.  Every other router shows what it showed before.
\<close>
theorem router_create_shows_allocation:
  assumes "pool_ok (vs_table s)" "r \<noteq> []" "process_router_create env cfg n r s = (Inr (), s')"
  shows "\<exists>mode. router_vni_alloc env (rd_flavor_id (vs_router s)) = Inr mode \<and>
    (if allocates mode (requested_vni (vs_router s))
     then (\<exists>v. rd_evpn_vni (vs_router s') = Some (Vni v) \<and>
       extend_router_dict (router_row_of r (vs_table s')) = Some v \<and>
       (is_auto_vni (requested_vni (vs_router s)) \<or> requested_vni (vs_router s) = Vni v))
     else s' = s) \<and>
    (\<forall>r'. r' \<noteq> [] \<and> r' \<noteq> r \<longrightarrow> extend_router_dict (router_row_of r' (vs_table s'))
       = extend_router_dict (router_row_of r' (vs_table s)))"
proof (rule create_Inr_cases [OF assms(3)], goal_cases)
  case (1 mode)
  show ?case
  proof (cases "allocates mode (requested_vni (vs_router s))")
    case True
    with 1(2) obtain v where v: "allocate_vni_for_router cfg n r (requested_vni (vs_router s)) (vs_table s)
        = (Inr v, vs_table s')" "rd_evpn_vni (vs_router s') = Some (Vni v)" by blast
    have "is_auto_vni (requested_vni (vs_router s)) \<or> requested_vni (vs_router s) = Vni v"
    proof (cases "requested_vni (vs_router s)")
      case (Vni w)
      with v(1) vni_db.alloc_explicit [OF assms(1,2), of w cfg n v] show ?thesis by auto
    qed (simp_all add: is_auto_vni_def)
    with True v 1(1) assms show ?thesis
      using vni_db.alloc_lookup [OF assms(1,2) v(1)] vni_db.alloc_frame [OF assms(1,2) v(1)]
      by (auto simp: shown_vni)
  next
    case False
    with 1 show ?thesis by auto
  qed
qed

definition vrf_env_example :: flavor_env where
  "vrf_env_example = \<lparr>
     fe_flavor_profiles = (\<lambda>f. if f = ''vrf'' then Inr [''sp0'', ''sp1''] else Inl (NotFound f)),
     fe_profile_metainfo = (\<lambda>p. if p = ''sp0'' then Inr (MetaText ''x'') else Inr (MetaText ''{}'')),
     fe_json_loads = (\<lambda>t. if t = ''x'' then Inl (ValueError t) else Inr (JDict [(''vni_alloc'', ''AUTO'')]))\<rparr>"

definition vrf_state_example :: vrf_state where
  "vrf_state_example = \<lparr>vs_table = [], vs_router = \<lparr>rd_flavor_id = FlavorId ''vrf'', rd_evpn_vni = None\<rparr>\<rparr>"

definition vrf_state_created :: vrf_state where
  "vrf_state_created = \<lparr>vs_table = [new_allocation 7 10 ''r1''],
     vs_router = \<lparr>rd_flavor_id = FlavorId ''vrf'', rd_evpn_vni = Some (Vni 10)\<rparr>\<rparr>"

lemma vrf_create_example:
  "process_router_create vrf_env_example [''10:20''] 7 ''r1'' vrf_state_example = (Inr (), vrf_state_created)"
  by code_simp

lemma pool_ok_Nil [simp]: "pool_ok []"
  by (simp add: pool_ok_def table_ok_def)

theorem router_create_shows_allocation_witness:
  "extend_router_dict (router_row_of ''r1'' (vs_table vrf_state_created)) = Some 10"
proof -
  have ok: "pool_ok (vs_table vrf_state_example)" by (simp add: vrf_state_example_def)
  have m: "router_vni_alloc vrf_env_example (rd_flavor_id (vs_router vrf_state_example)) = Inr VNI_ALLOC_AUTO"
    by code_simp
  have v: "rd_evpn_vni (vs_router vrf_state_created) = Some (Vni 10)" by (simp add: vrf_state_created_def)
  show ?thesis
    using router_create_shows_allocation [OF ok _ vrf_create_example] m v by (auto simp: allocates_def)
qed

text \<open>
  Deleting a router gives back what creating it took: for a router that held no VNI, a
  create callback followed by the delete callback returns normally and leaves the API's view
  of every router as it was.
\<close>
lemma router_create_delete_restores_view:
  assumes "pool_ok (vs_table s)" "r \<noteq> []" "get_vni_for_router r (vs_table s) = None"
    and "process_router_create env cfg n r s = (Inr (), s')"
  shows "\<exists>s''. process_router_delete m r s' = (Inr (), s'') \<and>
    (\<forall>r'. r' \<noteq> [] \<longrightarrow> extend_router_dict (router_row_of r' (vs_table s''))
       = extend_router_dict (router_row_of r' (vs_table s)))"
proof -
  have ok: "pool_ok (vs_table s')"
    using create_Inr_cases [OF assms(4)] vni_db.alloc_ok [OF assms(1,2)] assms(1) by metis
  then obtain t where t: "release_vni_for_router m r (vs_table s') = (Inr (), t)" "get_vni_for_router r t = None"
    using vni_db.release_returns by blast
  have "get_vni_for_router r' t = get_vni_for_router r' (vs_table s)" for r'
  proof (rule create_Inr_cases [OF assms(4)], goal_cases)
    case (1 mode)
    show ?case
    proof (cases "allocates mode (requested_vni (vs_router s))")
      case True
      then obtain v where "allocate_vni_for_router cfg n r (requested_vni (vs_router s)) (vs_table s)
          = (Inr v, vs_table s')" using 1(2) by blast
      then show ?thesis using release_result [OF ok, of m r] t
          vni_db.release_frame [OF ok t(1), of r'] vni_db.alloc_frame [OF assms(1,2), of cfg n _ v "vs_table s'" r'] assms(3)
        by (cases "r' = r") auto
    next
      case False
      with 1(3) t assms(3) show ?thesis using vni_db.release_frame [OF ok t(1), of r'] by (cases "r' = r") auto
    qed
  qed
  with t(1) show ?thesis by (auto simp: process_router_delete_def shown_vni)
qed

text \<open>
  A create callback that raises changes neither the allocation table nor the router
  dictionary; with the mode \<open>off\<close> (in particular for a router without a flavor) an explicit VNI
  is always refused with \<open>BadRequest\<close>.
\<close>
lemma router_create_refusals:
  assumes "pool_ok (vs_table s)" "r \<noteq> []"
  shows "(\<forall>e s'. process_router_create env cfg n r s = (Inl e, s') \<longrightarrow> s' = s) \<and>
    (router_vni_alloc env (rd_flavor_id (vs_router s)) = Inr VNI_ALLOC_OFF \<and>
       \<not> is_auto_vni (requested_vni (vs_router s)) \<longrightarrow>
     process_router_create env cfg n r s =
       (Inl (BadRequest ''router'' ''evpn_vni cannot be set on routers of this flavor''), s)) \<and>
    router_vni_alloc env FlavorNone = Inr VNI_ALLOC_OFF \<and>
    router_vni_alloc env FlavorNotSpecified = Inr VNI_ALLOC_OFF"
proof -
  have "s' = s" if "process_router_create env cfg n r s = (Inl e, s')" for e s'
  proof (cases "router_vni_alloc env (rd_flavor_id (vs_router s))")
    case (Inl x)
    with that show ?thesis by (simp add: process_router_create_def Let_def)
  next
    case (Inr mode)
    with that vni_db.alloc_raise [OF assms] create_allocates [OF Inr, of cfg n r] create_declines [OF Inr, of cfg n r]
    show ?thesis
      by (cases "allocates mode (requested_vni (vs_router s))") (auto split: prod.splits sum.splits)
  qed
  then show ?thesis by (auto simp: create_declines allocates_def router_vni_alloc_def)
qed

end
