(* ===== verification/Neutron_Db.thy ===== *)
theory Neutron_Db
  imports Vlan_Ranges
begin

text \<open>
  The state the drivers of \<open>neutron_understack\<close> share and \<open>neutron_understack/utils.py\<close>'s
  access to it (ports, binding levels, segments, segment ranges, trunks), with the Undersync
  client of \<open>neutron_understack/undersync.py\<close>.

  The tables are lists of rows: \<open>get_objects\<close> is a filter, \<open>get_object\<close> finds the row (the keys
  queried determine at most one), \<open>create\<close> appends unless the primary key is taken, \<open>delete\<close>
  removes by primary key.  What other packages do (the ML2 type manager, the core and trunk
  plugins, HTTP) are the fields of \<open>net_env\<close>; \<open>tm_ok\<close> states the type manager's documented
  behaviour where a theorem needs it.
\<close>

section \<open>Rows\<close>

record port_row =
  p_id :: string
  p_name :: string
  p_network_id :: string
  p_device_id :: string
  p_device_owner :: string

record binding_row =
  pb_port_id :: string
  pb_host :: string
  pb_vif_type :: string
  pb_vnic_type :: string
  pb_profile :: "string dict"

record level_row =
  bl_port_id :: string
  bl_host :: string
  bl_level :: nat
  bl_driver :: string
  bl_segment_id :: string

record segment_row =
  sg_id :: string
  sg_network_id :: string
  sg_network_type :: string
  sg_physical_network :: "string option"
  sg_segmentation_id :: "int option"
  sg_is_dynamic :: bool

record range_row =
  nr_network_type :: string
  nr_shared :: bool
  nr_minimum :: int
  nr_maximum :: int

record subport =
  sp_port_id :: string
  sp_segmentation_id :: int

record trunk_row =
  tk_id :: string
  tk_port_id :: string
  tk_sub_ports :: "subport list"

text \<open>Commands sent to the OVN northbound database.\<close>

datatype ovn_cmd =
    CreateLswitchPort string string "int option" "string option"
  | DeleteLswitchPort string string
  | SyncNetworkHcg string string "(string \<times> int) list"
  | SetLrpHcg string string

record world =
  w_ports :: "port_row list"
  w_bindings :: "binding_row list"
  w_levels :: "level_row list"
  w_segments :: "segment_row list"
  w_ranges :: "range_row list"
  w_trunks :: "trunk_row list"
  w_trunk_cache :: "string option"
  w_ovn_cached :: bool
  w_posts :: "string list"
  w_ovn :: "ovn_cmd list"

section \<open>What the drivers call\<close>

record agent =
  ag_host :: string

record node_ref =
  nf_id :: "string option"
  nf_name :: "string option"

record net_env =
  ne_core_plugin :: bool
  ne_trunk_plugin :: bool
  ne_tm_can_allocate :: bool
  ne_tm_can_release :: bool
  ne_tm_allocate :: "string \<Rightarrow> string option \<Rightarrow> string \<Rightarrow> (world, segment_row option) act"
  ne_tm_release :: "string \<Rightarrow> (world, unit) act"
  ne_create_port :: "string \<Rightarrow> string \<Rightarrow> (world, port_row) act"
  ne_add_subports :: "string \<Rightarrow> subport list \<Rightarrow> (world, unit) act"
  ne_remove_subports :: "string \<Rightarrow> string list \<Rightarrow> (world, unit) act"
  ne_gateway_agents :: "world \<Rightarrow> exn + agent list"
  ne_get_node :: "string \<Rightarrow> exn + node_ref option"
  ne_post :: "string \<Rightarrow> exn + nat"
  cf_default_tenant_vlan_id_range :: "int list"
  cf_provisioning_network :: string
  cf_network_node_switchport_physnet :: "string option"
  cf_undersync_url :: "string option"
  cf_undersync_dry_run :: bool

section \<open>Ports\<close>

definition port_get_object :: "string \<Rightarrow> world \<Rightarrow> port_row option" where
  "port_get_object port_id w = find (\<lambda>p. p_id p = port_id) (w_ports w)"

definition port_bindings :: "string \<Rightarrow> world \<Rightarrow> binding_row list" where
  "port_bindings port_id w = filter (\<lambda>b. pb_port_id b = port_id) (w_bindings w)"

definition fetch_port_object :: "string \<Rightarrow> (world, port_row) act" where
  "fetch_port_object port_id =
     bnd (reads (port_get_object port_id)) (\<lambda>port.
       case port of
         None \<Rightarrow> raise_exn (ValueError (''Failed to fetch Port with ID '' @ port_id))
       | Some p \<Rightarrow> ret p)"

definition create_neutron_port_for_segment ::
  "net_env \<Rightarrow> segment_row \<Rightarrow> string \<Rightarrow> (world, port_row) act"
where
  "create_neutron_port_for_segment env segment network_id =
     (if \<not> ne_core_plugin env then raise_exn (PyException ''Unable to retrieve core_plugin.'' [])
      else ne_create_port env (''uplink-'' @ sg_id segment) network_id)"

definition fetch_trunk_plugin :: "net_env \<Rightarrow> (world, unit) act" where
  "fetch_trunk_plugin env =
     when_act (\<not> ne_trunk_plugin env) (raise_exn (PyException ''unable to obtain trunk plugin'' []))"

definition remove_subport_from_trunk :: "net_env \<Rightarrow> string \<Rightarrow> string \<Rightarrow> (world, unit) act" where
  "remove_subport_from_trunk env trunk_id subport_id =
     andthen (fetch_trunk_plugin env) (ne_remove_subports env trunk_id [subport_id])"

text \<open>\<open>get_admin_session\<close>: the body is committed, or rolled back when it raises.\<close>

definition admin_session :: "(world, 'a) act \<Rightarrow> (world, 'a) act" where
  "admin_session m = (\<lambda>w. case m w of (Inr x, w') \<Rightarrow> (Inr x, w') | (Inl e, _) \<Rightarrow> (Inl e, w))"

fun set_port_fields :: "string dict \<Rightarrow> port_row \<Rightarrow> port_row" where
  "set_port_fields [] p = p"
| "set_port_fields ((k, v) # fs) p =
     set_port_fields fs
       (if k = ''device_id'' then p\<lparr>p_device_id := v\<rparr>
        else if k = ''device_owner'' then p\<lparr>p_device_owner := v\<rparr>
        else p)"

definition update_port_fields :: "string \<Rightarrow> string dict \<Rightarrow> (world, unit) act" where
  "update_port_fields port_id changes =
     admin_session (updates (\<lambda>w. w\<lparr>w_ports :=
       map (\<lambda>p. if p_id p = port_id then set_port_fields changes p else p) (w_ports w)\<rparr>))"

definition clear_device_id_for_port :: "string \<Rightarrow> (world, unit) act" where
  "clear_device_id_for_port port_id = update_port_fields port_id [(''device_id'', [])]"

definition set_device_id_and_owner_for_port ::
  "string \<Rightarrow> string \<Rightarrow> string \<Rightarrow> (world, unit) act"
where
  "set_device_id_and_owner_for_port port_id device_id device_owner =
     update_port_fields port_id [(''device_id'', device_id), (''device_owner'', device_owner)]"

section \<open>Segments and binding levels\<close>

definition allocate_dynamic_segment ::
  "net_env \<Rightarrow> string \<Rightarrow> string \<Rightarrow> string option \<Rightarrow> (world, segment_row option) act"
where
  "allocate_dynamic_segment env network_id network_type physnet =
     (if \<not> ne_core_plugin env then raise_exn (PyException ''unable to obtain core_plugin'' [])
      else if ne_tm_can_allocate env then ne_tm_allocate env network_id physnet network_type
      else raise_exn (PyException
             ''core type_manager does not support dynamic segment allocation.'' []))"

definition level_key :: "level_row \<Rightarrow> string \<times> string \<times> nat" where
  "level_key l = (bl_port_id l, bl_host l, bl_level l)"

definition level_create :: "level_row \<Rightarrow> (world, unit) act" where
  "level_create l = (\<lambda>w. if level_key l \<in> level_key ` set (w_levels w)
     then (Inl (Foreign ''NeutronDbObjectDuplicateEntry''), w)
     else (Inr (), w\<lparr>w_levels := w_levels w @ [l]\<rparr>))"

definition level_delete :: "level_row \<Rightarrow> (world, unit) act" where
  "level_delete l =
     updates (\<lambda>w. w\<lparr>w_levels := filter (\<lambda>k. level_key k \<noteq> level_key l) (w_levels w)\<rparr>)"

definition create_binding_profile_level ::
  "string \<Rightarrow> string \<Rightarrow> nat \<Rightarrow> string \<Rightarrow> (world, level_row) act"
where
  "create_binding_profile_level port_id host level segment_id =
     (let params = \<lparr>bl_port_id = port_id, bl_host = host, bl_level = level,
                    bl_driver = ''understack'', bl_segment_id = segment_id\<rparr> in
      bnd (reads (\<lambda>w. find (\<lambda>l. l = params) (w_levels w))) (\<lambda>pbl.
        case pbl of
          Some l \<Rightarrow> ret l
        | None \<Rightarrow> andthen (level_create params) (ret params)))"

definition port_binding_level_by_port_id :: "string \<Rightarrow> string \<Rightarrow> world \<Rightarrow> level_row option" where
  "port_binding_level_by_port_id port_id host w =
     find (\<lambda>l. bl_host l = host \<and> bl_level l = 0 \<and> bl_port_id l = port_id) (w_levels w)"

definition ports_bound_to_segment :: "string \<Rightarrow> world \<Rightarrow> level_row list" where
  "ports_bound_to_segment segment_id w = filter (\<lambda>l. bl_segment_id l = segment_id) (w_levels w)"

definition network_segment_by_id :: "string \<Rightarrow> world \<Rightarrow> segment_row option" where
  "network_segment_by_id i w = find (\<lambda>s. sg_id s = i) (w_segments w)"

definition network_segment_by_physnet :: "string \<Rightarrow> string \<Rightarrow> world \<Rightarrow> segment_row option" where
  "network_segment_by_physnet network_id physnet w =
     (case filter (\<lambda>s. sg_network_id s = network_id \<and> sg_physical_network s = Some physnet \<and>
                       sg_network_type s = ''vlan'') (w_segments w) of
        [] \<Rightarrow> None | s # _ \<Rightarrow> Some s)"

definition release_dynamic_segment :: "net_env \<Rightarrow> string \<Rightarrow> (world, unit) act" where
  "release_dynamic_segment env segment_id =
     (if \<not> ne_core_plugin env
      then raise_exn (AttributeError ''NoneType object has no attribute type_manager'')
      else when_act (ne_tm_can_release env) (ne_tm_release env segment_id))"

definition is_dynamic_network_segment :: "string \<Rightarrow> (world, bool) act" where
  "is_dynamic_network_segment segment_id =
     bnd (reads (network_segment_by_id segment_id)) (\<lambda>segment.
       case segment of
         None \<Rightarrow> raise_exn (AttributeError ''NoneType object has no attribute is_dynamic'')
       | Some s \<Rightarrow> ret (sg_is_dynamic s))"

definition release_segment_if_unused :: "net_env \<Rightarrow> segment_row \<Rightarrow> (world, unit) act" where
  "release_segment_if_unused env segment =
     bnd (reads (ports_bound_to_segment (sg_id segment))) (\<lambda>bound.
       when_act (bound = [] \<and> sg_is_dynamic segment) (release_dynamic_segment env (sg_id segment)))"

definition parent_port_is_bound :: "port_row \<Rightarrow> (world, bool) act" where
  "parent_port_is_bound port =
     bnd (reads (port_bindings (p_id port))) (\<lambda>bindings.
       case bindings of
         [] \<Rightarrow> raise_exn IndexError
       | b # _ \<Rightarrow> ret (pb_vif_type b = ''other'' \<and> pb_vnic_type b = ''baremetal'' \<and> pb_profile b \<noteq> []))"

definition fetch_subport_network_id :: "string \<Rightarrow> (world, string) act" where
  "fetch_subport_network_id subport_id =
     bnd (fetch_port_object subport_id) (\<lambda>p. ret (p_network_id p))"

definition is_valid_vlan_network_segment :: "segment_row \<Rightarrow> bool" where
  "is_valid_vlan_network_segment s =
     (sg_network_type s = ''vlan'' \<and> sg_physical_network s \<noteq> None)"

section \<open>Tenant VLAN ranges\<close>

definition fetch_vlan_network_segment_ranges :: "world \<Rightarrow> range_row list" where
  "fetch_vlan_network_segment_ranges w =
     filter (\<lambda>r. nr_network_type r = ''vlan'' \<and> nr_shared r) (w_ranges w)"

definition row_range :: "range_row \<Rightarrow> range" where
  "row_range r = (nr_minimum r, nr_maximum r)"

definition allowed_tenant_vlan_id_ranges :: "net_env \<Rightarrow> (world, range list) act" where
  "allowed_tenant_vlan_id_ranges env =
     bnd (reads (\<lambda>w. map row_range (fetch_vlan_network_segment_ranges w))) (\<lambda>all_vlan_ranges.
     let merged_ranges = merge_overlapped_ranges all_vlan_ranges in
       case cf_default_tenant_vlan_id_range env of
         lo # hi # _ \<Rightarrow> ret (fetch_gaps_in_ranges merged_ranges (lo, hi))
       | _ \<Rightarrow> raise_exn IndexError)"

section \<open>Undersync\<close>

text \<open>\<open>urllib.parse.quote (s, safe='')\<close> on ASCII text.\<close>

definition is_alnum :: "char \<Rightarrow> bool" where
  "is_alnum c = (let n = (of_char c :: nat) in
     (48 \<le> n \<and> n \<le> 57) \<or> (65 \<le> n \<and> n \<le> 90) \<or> (97 \<le> n \<and> n \<le> 122))"

definition is_unreserved :: "char \<Rightarrow> bool" where
  "is_unreserved c = (is_alnum c \<or> c \<in> set ''_.-~'')"

definition hex_digit :: "nat \<Rightarrow> char" where
  "hex_digit n = (if n < 10 then char_of (48 + n) else char_of (55 + n))"

definition quote_char :: "char \<Rightarrow> string" where
  "quote_char c = (if is_unreserved c then [c]
     else [CHR ''%'', hex_digit (of_char c div 16), hex_digit (of_char c mod 16)])"

definition quote :: "string \<Rightarrow> string" where
  "quote s = concat (map quote_char s)"

definition api_url :: "net_env \<Rightarrow> string" where
  "api_url env = py_or (cf_undersync_url env) ''http://undersync.undersync.svc.cluster.local:8080''"

definition undersync_url :: "net_env \<Rightarrow> string \<Rightarrow> string \<Rightarrow> string" where
  "undersync_url env action vlan_group =
     api_url env @ ''/v1/vlan-group/'' @ quote vlan_group @ ''/'' @ action"

text \<open>The request is on record once it is sent; error statuses raise \<open>UndersyncError\<close>.\<close>

definition log_and_raise_for_status :: "nat \<Rightarrow> (world, unit) act" where
  "log_and_raise_for_status status =
     when_act (400 \<le> status \<and> status < 600) (raise_exn UndersyncError)"

definition undersync_post :: "net_env \<Rightarrow> string \<Rightarrow> string \<Rightarrow> (world, unit) act" where
  "undersync_post env action vlan_group =
     (let url = undersync_url env action vlan_group in
      andthen (updates (\<lambda>w. w\<lparr>w_posts := w_posts w @ [url]\<rparr>))
        (bnd (of_sum (ne_post env url)) log_and_raise_for_status))"

definition undersync_sync :: "net_env \<Rightarrow> string \<Rightarrow> (world, unit) act" where
  "undersync_sync env vlan_group =
     (if cf_undersync_dry_run env then undersync_post env ''dry-run'' vlan_group
      else undersync_post env ''sync'' vlan_group)"

definition undersync_dry_run :: "net_env \<Rightarrow> string \<Rightarrow> (world, unit) act" where
  "undersync_dry_run env vlan_group = undersync_post env ''dry-run'' vlan_group"

definition undersync_force :: "net_env \<Rightarrow> string \<Rightarrow> (world, unit) act" where
  "undersync_force env vlan_group = undersync_post env ''force'' vlan_group"

section \<open>The type manager's contract\<close>

text \<open>
  Allocation returns a dynamic segment row of the requested network, type and physical network
  (an existing one or a new one) with a segmentation id, and only adds segments; releasing a
  segment removes its row, and the binding levels of the segment go with it by the foreign key
  of the table (\<open>ON DELETE CASCADE\<close>).  A call that raises leaves the database as it was.
\<close>

definition drop_segment :: "string \<Rightarrow> world \<Rightarrow> world" where
  "drop_segment i w = w\<lparr>w_segments := filter (\<lambda>s. sg_id s \<noteq> i) (w_segments w),
     w_levels := filter (\<lambda>l. bl_segment_id l \<noteq> i) (w_levels w)\<rparr>"

text \<open>The primary key of the segments table.\<close>

definition segments_ok :: "world \<Rightarrow> bool" where
  "segments_ok w = distinct (map sg_id (w_segments w))"

definition tm_allocate_ok :: "net_env \<Rightarrow> bool" where
  "tm_allocate_ok env = (\<forall>network_id physnet network_type w r w'.
     ne_tm_allocate env network_id physnet network_type w = (r, w') \<longrightarrow>
       (case r of
          Inl e \<Rightarrow> w' = w
        | Inr x \<Rightarrow> (\<exists>sg new. x = Some sg \<and> w' = w\<lparr>w_segments := w_segments w @ new\<rparr> \<and>
            sg \<in> set (w_segments w') \<and> sg_network_id sg = network_id \<and>
            sg_physical_network sg = physnet \<and> sg_network_type sg = network_type \<and>
            sg_segmentation_id sg \<noteq> None \<and> sg_is_dynamic sg \<and>
            (segments_ok w \<longrightarrow> segments_ok w'))))"

definition tm_release_ok :: "net_env \<Rightarrow> bool" where
  "tm_release_ok env = (\<forall>i w r w'. ne_tm_release env i w = (r, w') \<longrightarrow>
     (case r of Inl e \<Rightarrow> w' = w | Inr _ \<Rightarrow> w' = drop_segment i w))"

definition tm_ok :: "net_env \<Rightarrow> bool" where
  "tm_ok env = (tm_allocate_ok env \<and> tm_release_ok env)"

text \<open>Every binding level refers to a segment row.\<close>

definition backed :: "world \<Rightarrow> bool" where
  "backed w = (\<forall>l \<in> set (w_levels w). \<exists>s \<in> set (w_segments w). sg_id s = bl_segment_id l)"

text \<open>No two binding levels share the primary key.\<close>

definition levels_ok :: "world \<Rightarrow> bool" where
  "levels_ok w = distinct (map level_key (w_levels w))"

section \<open>Lemmas\<close>

lemma tm_allocateD:
  assumes "tm_ok env" "ne_tm_allocate env n p t w = (Inr x, w')"
  obtains sg new where "x = Some sg" "w' = w\<lparr>w_segments := w_segments w @ new\<rparr>"
    "sg \<in> set (w_segments w')" "sg_network_id sg = n" "sg_physical_network sg = p"
    "sg_network_type sg = t" "sg_segmentation_id sg \<noteq> None" "sg_is_dynamic sg"
    "segments_ok w \<Longrightarrow> segments_ok w'"
  using assms unfolding tm_ok_def tm_allocate_ok_def by (fastforce split: sum.splits)

lemma tm_allocate_raises: "tm_ok env \<Longrightarrow> ne_tm_allocate env n p t w = (Inl e, w') \<Longrightarrow> w' = w"
  unfolding tm_ok_def tm_allocate_ok_def by (fastforce split: sum.splits)

lemma tm_releaseD:
  "tm_ok env \<Longrightarrow> ne_tm_release env i w = (Inr x, w') \<Longrightarrow> w' = drop_segment i w"
  "tm_ok env \<Longrightarrow> ne_tm_release env i w = (Inl e, w') \<Longrightarrow> w' = w"
  unfolding tm_ok_def tm_release_ok_def by (fastforce split: sum.splits)+

lemma network_segment_by_physnet_Some:
  "network_segment_by_physnet n p w = Some s \<Longrightarrow>
   s \<in> set (w_segments w) \<and> sg_network_id s = n \<and> sg_physical_network s = Some p \<and> sg_network_type s = ''vlan''"
  unfolding network_segment_by_physnet_def
  by (auto split: list.splits dest!: filter_ConsD)

lemma level_by_port_Some:
  "port_binding_level_by_port_id p h w = Some l \<Longrightarrow>
   l \<in> set (w_levels w) \<and> level_key l = (p, h, 0)"
  unfolding port_binding_level_by_port_id_def by (auto dest!: find_SomeD simp: level_key_def)

lemma level_by_port_None:
  "port_binding_level_by_port_id p h w = None \<longleftrightarrow> (p, h, 0) \<notin> level_key ` set (w_levels w)"
  unfolding port_binding_level_by_port_id_def by (auto simp: find_None_iff level_key_def)

lemma filter_unused: "ports_bound_to_segment i w = [] \<Longrightarrow> filter (\<lambda>l. bl_segment_id l \<noteq> i) (w_levels w) = w_levels w"
  by (auto simp: ports_bound_to_segment_def filter_empty_conv intro: filter_True)

text \<open>Releasing an unused segment removes segment rows only, so the cascade has no effect.\<close>

lemma release_unused:
  assumes "tm_ok env" "ports_bound_to_segment i w = []" "release_dynamic_segment env i w = (r, w')"
  shows "w' = w \<or> w' = w\<lparr>w_segments := filter (\<lambda>s. sg_id s \<noteq> i) (w_segments w)\<rparr>"
    and "r = Inr () \<Longrightarrow> ne_tm_can_release env \<Longrightarrow>
      w' = w\<lparr>w_segments := filter (\<lambda>s. sg_id s \<noteq> i) (w_segments w)\<rparr>"
proof -
  have d: "drop_segment i w = w\<lparr>w_segments := filter (\<lambda>s. sg_id s \<noteq> i) (w_segments w)\<rparr>"
    unfolding drop_segment_def filter_unused [OF assms(2)] by simp
  show "w' = w \<or> w' = w\<lparr>w_segments := filter (\<lambda>s. sg_id s \<noteq> i) (w_segments w)\<rparr>"
    using assms(3) tm_releaseD [OF assms(1), of i w] unfolding d
    by (cases r) (auto simp: release_dynamic_segment_def split: if_splits)
  show "w' = w\<lparr>w_segments := filter (\<lambda>s. sg_id s \<noteq> i) (w_segments w)\<rparr>"
    if "r = Inr ()" "ne_tm_can_release env"
    using that assms(3) tm_releaseD(1) [OF assms(1), of i w "()" w'] unfolding d
    by (auto simp: release_dynamic_segment_def split: if_splits)
qed

lemma backed_drop_unused:
  assumes "backed w" "ports_bound_to_segment i w = []"
  shows "backed (w\<lparr>w_segments := filter (\<lambda>s. sg_id s \<noteq> i) (w_segments w)\<rparr>)"
  using assms by (fastforce simp: backed_def ports_bound_to_segment_def filter_empty_conv)

lemma release_segment_if_unused_frame:
  assumes "tm_ok env" "release_segment_if_unused env s w = (r, w')"
  shows "w' = w \<or> ports_bound_to_segment (sg_id s) w = [] \<and> sg_is_dynamic s \<and>
    w' = w\<lparr>w_segments := filter (\<lambda>x. sg_id x \<noteq> sg_id s) (w_segments w)\<rparr>"
  using assms release_unused(1) [OF assms(1), of "sg_id s" w r w']
  by (auto simp: release_segment_if_unused_def split: if_splits)

lemma keeps_backed_release [act_rules]: "tm_ok env \<Longrightarrow> keeps backed (release_segment_if_unused env s)"
  unfolding keeps_def
  by (metis backed_drop_unused eq_snd_iff release_segment_if_unused_frame)

subsection \<open>Quoting is injective\<close>

lemma quote_char_Nil [simp]: "quote_char c \<noteq> []"
  by (simp add: quote_char_def)

lemma quote_simps [simp]: "quote [] = []" "quote (c # s) = quote_char c @ quote s"
  by (simp_all add: quote_def)

definition unhex :: "char \<Rightarrow> nat" where
  "unhex c = (let n = of_char c in if n < 58 then n - 48 else n - 55)"

fun unquote :: "string \<Rightarrow> string" where
  "unquote (c # s) =
     (if c = CHR ''%'' then
        (case s of a # b # t \<Rightarrow> char_of (unhex a * 16 + unhex b) # unquote t | _ \<Rightarrow> [c])
      else c # unquote s)"
| "unquote [] = []"

lemma unhex_hex: "n < 16 \<Longrightarrow> unhex (hex_digit n) = n"
  by (auto simp: unhex_def hex_digit_def Let_def)

lemma percent_reserved: "\<not> is_unreserved CHR ''%''"
  by (simp add: is_unreserved_def is_alnum_def)

lemma nibbles: "(of_char c :: nat) div 16 < 16" "(of_char c :: nat) mod 16 < 16"
  using nat_of_char_less_256 [of c] by presburger+

lemma unquote_quote: "unquote (quote s) = s"
proof (induction s)
  case Nil
  show ?case by simp
next
  case (Cons c s)
  have b: "(of_char c :: nat) div 16 < 16" "(of_char c :: nat) mod 16 < 16"
    by (rule nibbles)+
  have m: "(of_char c :: nat) div 16 * 16 + of_char c mod 16 = of_char c"
    by (rule div_mult_mod_eq)
  show ?case
    using Cons percent_reserved
    by (cases "is_unreserved c") (auto simp: quote_char_def unhex_hex b m simp del: mult_Suc_right)
qed

lemma quote_no_slash: "CHR ''/'' \<notin> set (quote s)"
proof (induction s)
  case (Cons c s)
  have h: "hex_digit n \<noteq> CHR ''/''" if "n < 16" for n
    using that by (auto simp: hex_digit_def dest!: arg_cong [where f = "of_char :: char \<Rightarrow> nat"])
  have "(of_char c :: nat) div 16 < 16" "(of_char c :: nat) mod 16 < 16"
    by (rule nibbles)+
  with h have "CHR ''/'' \<noteq> hex_digit (of_char c div 16)" "CHR ''/'' \<noteq> hex_digit (of_char c mod 16)"
    by metis+
  then show ?case
    using Cons by (auto simp: quote_char_def is_unreserved_def is_alnum_def)
qed simp

lemma split_at_slash:
  "CHR ''/'' \<notin> set a \<Longrightarrow> CHR ''/'' \<notin> set b \<Longrightarrow> a @ CHR ''/'' # x = b @ CHR ''/'' # y \<Longrightarrow> a = b \<and> x = y"
proof (induction a arbitrary: b)
  case Nil
  then show ?case by (cases b) auto
next
  case (Cons c a)
  then show ?case by (cases b) auto
qed

subsection \<open>Tenant VLAN ranges\<close>

definition in_shared_range :: "world \<Rightarrow> int \<Rightarrow> bool" where
  "in_shared_range w i =
     list_ex (\<lambda>r. nr_minimum r \<le> i \<and> i \<le> nr_maximum r) (fetch_vlan_network_segment_ranges w)"

definition ranges_ordered :: "world \<Rightarrow> bool" where
  "ranges_ordered w = list_all (\<lambda>r. nr_minimum r \<le> nr_maximum r) (fetch_vlan_network_segment_ranges w)"

lemma in_shared_range_iff:
  "in_shared_range w i \<longleftrightarrow>
   segmentation_id_in_ranges i (map row_range (fetch_vlan_network_segment_ranges w))"
  by (auto simp: in_shared_range_def segmentation_id_in_ranges_def list_ex_iff row_range_def)

lemma ranges_ordered_wf:
  "ranges_ordered w \<Longrightarrow> wf_ranges (map row_range (fetch_vlan_network_segment_ranges w))"
  by (auto simp: ranges_ordered_def wf_ranges_def list_all_iff row_range_def)

lemma allowed_ranges_eq:
  "cf_default_tenant_vlan_id_range env = lo # hi # rest \<Longrightarrow>
   allowed_tenant_vlan_id_ranges env w =
     (Inr (fetch_gaps_in_ranges
       (merge_overlapped_ranges (map row_range (fetch_vlan_network_segment_ranges w))) (lo, hi)), w)"
  by (simp add: allowed_tenant_vlan_id_ranges_def Let_def)

lemma allowed_ranges_pure: "snd (allowed_tenant_vlan_id_ranges env w) = w"
  by (auto simp: allowed_tenant_vlan_id_ranges_def Let_def split: list.split)

lemma allowed_avoids:
  assumes "ranges_ordered w" "allowed_tenant_vlan_id_ranges env w = (Inr rs, w')"
    "segmentation_id_in_ranges i rs"
  shows "\<not> in_shared_range w i"
  using assms merge_overlapped.gaps_avoid [OF ranges_ordered_wf [OF assms(1)]]
  by (auto simp: allowed_tenant_vlan_id_ranges_def Let_def in_shared_range_iff split: list.splits)

section \<open>Properties\<close>

text \<open>
  The allowed tenant VLAN ids never meet a shared VLAN segment range (the ranges native
  VLANs are drawn from), and every id of the configured default range outside those ranges is
  allowed.  The computation succeeds whenever the default range has two bounds.
\<close>
lemma allowed_vlan_ids_avoid_native:
  assumes "ranges_ordered w" "cf_default_tenant_vlan_id_range env = [lo, hi]"
  shows "\<exists>rs. allowed_tenant_vlan_id_ranges env w = (Inr rs, w) \<and>
    (\<forall>i. segmentation_id_in_ranges i rs \<longrightarrow> \<not> in_shared_range w i) \<and>
    (\<forall>i. lo \<le> i \<and> i \<le> hi \<and> \<not> in_shared_range w i \<longrightarrow> segmentation_id_in_ranges i rs)"
  using merge_overlapped.gaps_avoid [OF ranges_ordered_wf [OF assms(1)]]
    merge_overlapped.gaps_reach [OF ranges_ordered_wf [OF assms(1)]]
  by (auto simp: allowed_ranges_eq [OF assms(2)] in_shared_range_iff)

definition empty_world :: world where
  "empty_world = \<lparr>w_ports = [], w_bindings = [], w_levels = [], w_segments = [], w_ranges = [],
     w_trunks = [], w_trunk_cache = None, w_ovn_cached = False, w_posts = [], w_ovn = []\<rparr>"

definition next_segment :: "string \<Rightarrow> string option \<Rightarrow> string \<Rightarrow> world \<Rightarrow> segment_row" where
  "next_segment network_id physnet network_type w =
     \<lparr>sg_id = ''s'' @ concat (map sg_id (w_segments w)), sg_network_id = network_id,
      sg_network_type = network_type, sg_physical_network = physnet,
      sg_segmentation_id = Some (2000 + int (length (w_segments w))), sg_is_dynamic = True\<rparr>"

text \<open>A concrete environment that meets the contract, for the witnesses.\<close>

definition env_example :: net_env where
  "env_example = \<lparr>ne_core_plugin = True, ne_trunk_plugin = True, ne_tm_can_allocate = True,
     ne_tm_can_release = True,
     ne_tm_allocate = (\<lambda>n p t w.
       case find (\<lambda>s. sg_network_id s = n \<and> sg_physical_network s = p \<and> sg_network_type s = t \<and>
                      sg_segmentation_id s \<noteq> None \<and> sg_is_dynamic s) (w_segments w) of
         Some s \<Rightarrow> (Inr (Some s), w)
       | None \<Rightarrow> (Inr (Some (next_segment n p t w)),
                  w\<lparr>w_segments := w_segments w @ [next_segment n p t w]\<rparr>)),
     ne_tm_release = (\<lambda>i w. (Inr (), drop_segment i w)),
     ne_create_port = (\<lambda>name n w.
       (let p = \<lparr>p_id = ''shared'', p_name = name, p_network_id = n, p_device_id = [], p_device_owner = []\<rparr>
        in (Inr p, w\<lparr>w_ports := w_ports w @ [p]\<rparr>))),
     ne_add_subports = (\<lambda>t sps w. (Inr (), w\<lparr>w_trunks := map (\<lambda>k. if tk_id k = t
       then k\<lparr>tk_sub_ports := tk_sub_ports k @ sps\<rparr> else k) (w_trunks w)\<rparr>)),
     ne_remove_subports = (\<lambda>t ps w. (Inr (), w\<lparr>w_trunks := map (\<lambda>k. if tk_id k = t
       then k\<lparr>tk_sub_ports := filter (\<lambda>s. sp_port_id s \<notin> set ps) (tk_sub_ports k)\<rparr> else k) (w_trunks w)\<rparr>)),
     ne_gateway_agents = (\<lambda>w. Inr [\<lparr>ag_host = ''gw1''\<rparr>]),
     ne_get_node = (\<lambda>n. Inr (Some \<lparr>nf_id = Some ''u1'', nf_name = Some ''gw1''\<rparr>)),
     ne_post = (\<lambda>u. Inr 200),
     cf_default_tenant_vlan_id_range = [1, 3799],
     cf_provisioning_network = ''change_me'',
     cf_network_node_switchport_physnet = Some ''f20-1-network'',
     cf_undersync_url = None,
     cf_undersync_dry_run = True\<rparr>"

lemma next_segment_fresh: "sg_id (next_segment n p t w) \<notin> sg_id ` set (w_segments w)"
proof
  assume "sg_id (next_segment n p t w) \<in> sg_id ` set (w_segments w)"
  then obtain s where s: "s \<in> set (w_segments w)" "sg_id s = sg_id (next_segment n p t w)" by auto
  have "length (sg_id s) \<le> length (concat (map sg_id (w_segments w)))"
    using s(1) by (auto simp: length_concat intro: member_le_sum_list)
  then show False using s(2) by (simp add: next_segment_def)
qed

lemma tm_ok_example: "tm_ok env_example"
  using next_segment_fresh
  by (auto simp: segments_ok_def tm_ok_def tm_allocate_ok_def tm_release_ok_def env_example_def
      split: sum.splits option.splits dest!: find_SomeD intro: exI [where x = "[]"])
     (simp_all add: next_segment_def)

text \<open>
  The allowed ids are exactly the default range less the shared ranges when every shared
  range meets or touches the default range.
\<close>
lemma allowed_vlan_ids_exact:
  assumes "ranges_ordered w" "cf_default_tenant_vlan_id_range env = [lo, hi]"
    and "list_all (\<lambda>r. nr_minimum r \<le> hi + 1 \<and> lo - 1 \<le> nr_maximum r) (fetch_vlan_network_segment_ranges w)"
    and "allowed_tenant_vlan_id_ranges env w = (Inr rs, w')"
  shows "segmentation_id_in_ranges i rs \<longleftrightarrow> lo \<le> i \<and> i \<le> hi \<and> \<not> in_shared_range w i"
proof -
  let ?rs = "map row_range (fetch_vlan_network_segment_ranges w)"
  note wf = ranges_ordered_wf [OF assms(1)]
  have "\<forall>r \<in> set ?rs. fst r \<le> hi + 1 \<and> lo - 1 \<le> snd r"
    using assms(3) by (auto simp: list_all_iff row_range_def)
  then have "\<forall>r \<in> set (merge_overlapped_ranges ?rs). fst r \<le> hi + 1 \<and> lo - 1 \<le> snd r"
    using canonical_touches [OF merge_overlapped.norm_canonical [OF wf] merge_overlapped.norm_cover] by blast
  then have "cover rs = {lo .. hi} - cover ?rs"
    using assms(4) fetch_gaps_exact [OF merge_overlapped.norm_canonical [OF wf], of hi lo]
    by (auto simp: allowed_ranges_eq [OF assms(2)] merge_overlapped.norm_cover)
  then show ?thesis by (auto simp: segmentation_id_in_ranges_cover in_shared_range_iff)
qed

text \<open>
  Outside that condition the result leaves the default range: with a single shared range
  3900-4000 and the default range 1-3799, the ids 3800 to 3899 are allowed too.
\<close>
lemma allowed_vlan_ids_escape_default:
  "allowed_tenant_vlan_id_ranges env_example (empty_world\<lparr>w_ranges :=
      [\<lparr>nr_network_type = ''vlan'', nr_shared = True, nr_minimum = 3900, nr_maximum = 4000\<rparr>]\<rparr>)
   = (Inr [(1, 3899)], empty_world\<lparr>w_ranges :=
      [\<lparr>nr_network_type = ''vlan'', nr_shared = True, nr_minimum = 3900, nr_maximum = 4000\<rparr>]\<rparr>)"
  by code_simp

text \<open>
  The URL Undersync is called with determines the action and the VLAN group: whatever
  characters a VLAN group name contains, two different names never share a URL.
\<close>
lemma undersync_url_injective:
  "undersync_url env a g = undersync_url env b h \<longleftrightarrow> a = b \<and> g = h"
proof
  assume "undersync_url env a g = undersync_url env b h"
  then have "quote g @ CHR ''/'' # a = quote h @ CHR ''/'' # b" by (simp add: undersync_url_def)
  then have "quote g = quote h" "a = b"
    using split_at_slash [OF quote_no_slash quote_no_slash] by blast+
  then show "a = b \<and> g = h" using unquote_quote by metis
qed simp

end
