(* ===== verification/Gateway_Trunk.thy ===== *)
theory Gateway_Trunk
  imports Neutron_Db Py_Str
begin

text \<open>
  The discovery of the network node trunk (\<open>neutron_understack/utils.py\<close>, from \<open>_is_uuid\<close> to
  \<open>fetch_network_node_trunk_id\<close>) with the two node lookups of \<open>neutron_understack/ironic.py\<close> it
  uses.  The module-level cache is \<open>w_trunk_cache\<close>.  A Python set of port ids is a list here;
  the code only tests membership in it and its emptiness, apart from building the port list,
  whose order is not observable either.
\<close>

section \<open>Definitions\<close>

definition baremetal_node_name :: "net_env \<Rightarrow> string \<Rightarrow> string option" where
  "baremetal_node_name env node_uuid =
     (case ne_get_node env node_uuid of
        Inr (Some node) \<Rightarrow> nf_name node | Inr None \<Rightarrow> None | Inl _ \<Rightarrow> None)"

definition baremetal_node_uuid :: "net_env \<Rightarrow> string \<Rightarrow> string option" where
  "baremetal_node_uuid env node_name =
     (case ne_get_node env node_name of
        Inr (Some node) \<Rightarrow> nf_id node | Inr None \<Rightarrow> None | Inl _ \<Rightarrow> None)"

definition get_gateway_agent_host :: "net_env \<Rightarrow> (world, string) act" where
  "get_gateway_agent_host env =
     bnd (\<lambda>w. (ne_gateway_agents env w, w)) (\<lambda>gateway_agents.
       case gateway_agents of
         [] \<Rightarrow> raise_exn (PyException ''No alive OVN Controller Gateway agents found.'' [])
       | a # _ \<Rightarrow> ret (ag_host a))"

definition resolve_gateway_host :: "net_env \<Rightarrow> string \<Rightarrow> exn + (string \<times> string)" where
  "resolve_gateway_host env gateway_host =
     (if uuid_ok gateway_host then
        (case baremetal_node_name env gateway_host of
           None \<Rightarrow> Inl (PyException ''Failed to resolve baremetal node UUID'' [gateway_host])
         | Some name \<Rightarrow>
             if name = [] then Inl (PyException ''Failed to resolve baremetal node UUID'' [gateway_host])
             else Inr (name, gateway_host))
      else
        (case baremetal_node_uuid env gateway_host of
           None \<Rightarrow> Inl (PyException ''Failed to resolve hostname'' [gateway_host])
         | Some u \<Rightarrow>
             if u = [] then Inl (PyException ''Failed to resolve hostname'' [gateway_host])
             else Inr (gateway_host, u)))"

definition bindings_by_host :: "string \<Rightarrow> world \<Rightarrow> binding_row list" where
  "bindings_by_host host w = filter (\<lambda>b. pb_host b = host) (w_bindings w)"

definition find_ports_bound_to_hosts :: "string list \<Rightarrow> (world, port_row list) act" where
  "find_ports_bound_to_hosts hosts =
     bnd (reads (\<lambda>w. remdups (concat (map (\<lambda>host. map pb_port_id (bindings_by_host host w)) hosts))))
       (\<lambda>gateway_port_ids.
         if gateway_port_ids = [] then
           raise_exn (PyException ''No ports found bound to gateway hosts'' hosts)
         else
           bnd (reads (\<lambda>w. map (\<lambda>port_id. port_get_object port_id w) gateway_port_ids)) (\<lambda>found.
           let gateway_ports = map the (filter (\<lambda>p. p \<noteq> None) found) in
             if gateway_ports = [] then
               raise_exn (PyException ''No ports found bound to gateway hosts'' hosts)
             else ret gateway_ports))"

definition find_trunk_by_port_ids :: "string list \<Rightarrow> string \<Rightarrow> (world, string) act" where
  "find_trunk_by_port_ids port_ids gateway_host =
     bnd (reads w_trunks) (\<lambda>trunks.
       if trunks = [] then raise_exn (PyException ''No trunks found in the system'' [])
       else
         case find (\<lambda>t. tk_port_id t \<in> set port_ids) trunks of
           Some t \<Rightarrow> ret (tk_id t)
         | None \<Rightarrow> raise_exn (PyException ''Unable to find network node trunk on gateway host'' [gateway_host]))"

definition host_filters :: "string \<Rightarrow> string \<Rightarrow> string list" where
  "host_filters gateway_host gateway_node_uuid =
     [gateway_host] @ (if gateway_node_uuid \<noteq> [] then [gateway_node_uuid] else [])"

definition fetch_network_node_trunk_id :: "net_env \<Rightarrow> (world, string) act" where
  "fetch_network_node_trunk_id env =
     bnd (reads w_trunk_cache) (\<lambda>cached.
       if truthy cached then ret (the cached)
       else if \<not> ne_core_plugin env then raise_exn (PyException ''Unable to obtain core plugin'' [])
       else
         bnd (get_gateway_agent_host env) (\<lambda>agent_host.
         bnd (of_sum (resolve_gateway_host env agent_host)) (\<lambda>(gateway_host, gateway_node_uuid).
         bnd (find_ports_bound_to_hosts (host_filters gateway_host gateway_node_uuid)) (\<lambda>gateway_ports.
         bnd (find_trunk_by_port_ids (map p_id gateway_ports) gateway_host) (\<lambda>trunk_id.
         andthen (updates (\<lambda>w. w\<lparr>w_trunk_cache := Some trunk_id\<rparr>)) (ret trunk_id))))))"

section \<open>Specification\<close>

text \<open>A trunk of the network node: its parent port is bound to one of the two names of the host.\<close>

definition node_trunk :: "string \<times> string \<Rightarrow> world \<Rightarrow> trunk_row \<Rightarrow> bool" where
  "node_trunk hosts w t =
     (t \<in> set (w_trunks w) \<and>
      list_ex (\<lambda>b. pb_port_id b = tk_port_id t \<and> (pb_host b = fst hosts \<or> pb_host b = snd hosts)) (w_bindings w) \<and>
      port_get_object (tk_port_id t) w \<noteq> None)"

section \<open>Lemmas\<close>

lemma find_ports_pure: "snd (find_ports_bound_to_hosts hs w) = w"
  by (simp add: find_ports_bound_to_hosts_def Let_def)

lemma find_trunk_pure: "snd (find_trunk_by_port_ids ps h w) = w"
  by (simp add: find_trunk_by_port_ids_def split: option.split)

lemma find_trunk_state: "find_trunk_by_port_ids ps h w = (r, w') \<Longrightarrow> w' = w"
  using find_trunk_pure [of ps h w] by simp

lemma port_get_object_id: "port_get_object i w = Some p \<Longrightarrow> p_id p = i"
  unfolding port_get_object_def by (auto dest: find_SomeD)

lemma ports_of_hosts_ids:
  assumes "find_ports_bound_to_hosts hs w = (Inr ps, w')"
  shows "i \<in> p_id ` set ps \<longleftrightarrow>
    (\<exists>b \<in> set (w_bindings w). pb_port_id b = i \<and> pb_host b \<in> set hs) \<and> port_get_object i w \<noteq> None"
proof -
  let ?ids = "remdups (concat (map (\<lambda>h. map pb_port_id (bindings_by_host h w)) hs))"
  have ps: "ps = map the (filter (\<lambda>p. p \<noteq> None) (map (\<lambda>i. port_get_object i w) ?ids))"
    using assms by (auto simp: find_ports_bound_to_hosts_def Let_def split: if_splits)
  have ids: "set ?ids = pb_port_id ` {b \<in> set (w_bindings w). pb_host b \<in> set hs}"
    by (auto simp: bindings_by_host_def)
  have "set ps = {p. \<exists>j \<in> set ?ids. port_get_object j w = Some p}"
    unfolding ps by (rule set_the_filter_Some)
  then have mem: "p \<in> set ps \<longleftrightarrow>
      (\<exists>b \<in> set (w_bindings w). pb_host b \<in> set hs \<and> port_get_object (pb_port_id b) w = Some p)" for p
    unfolding ids by auto
  show ?thesis
  proof
    assume "i \<in> p_id ` set ps"
    then obtain p b where "i = p_id p" "b \<in> set (w_bindings w)" "pb_host b \<in> set hs"
        "port_get_object (pb_port_id b) w = Some p" using mem by auto
    moreover from this have "i = pb_port_id b" using port_get_object_id by simp
    ultimately show "(\<exists>b \<in> set (w_bindings w). pb_port_id b = i \<and> pb_host b \<in> set hs) \<and>
        port_get_object i w \<noteq> None" by auto
  next
    assume "(\<exists>b \<in> set (w_bindings w). pb_port_id b = i \<and> pb_host b \<in> set hs) \<and> port_get_object i w \<noteq> None"
    then obtain p where p: "p \<in> set ps" "port_get_object i w = Some p" using mem by auto
    then show "i \<in> p_id ` set ps" using port_get_object_id by auto
  qed
qed

lemma find_ports_fails:
  assumes "find_ports_bound_to_hosts hs w = (Inl e, w')"
  shows "b \<in> set (w_bindings w) \<Longrightarrow> pb_host b \<in> set hs \<Longrightarrow> port_get_object (pb_port_id b) w = None"
  using assms
  by (auto simp: find_ports_bound_to_hosts_def Let_def bindings_by_host_def filter_empty_conv
      split: if_splits)

lemma find_trunk_result:
  assumes "find_trunk_by_port_ids ps h w = (r, w')"
  shows "case r of
      Inr i \<Rightarrow> \<exists>t \<in> set (w_trunks w). tk_id t = i \<and> tk_port_id t \<in> set ps
    | Inl _ \<Rightarrow> \<forall>t \<in> set (w_trunks w). tk_port_id t \<notin> set ps"
  using assms
  by (auto simp: find_trunk_by_port_ids_def find_None_iff split: if_splits option.splits dest!: find_SomeD)

text \<open>The search below the cache, as a function of the two host names.\<close>

definition find_node_trunk :: "string \<times> string \<Rightarrow> (world, string) act" where
  "find_node_trunk hosts =
     bnd (find_ports_bound_to_hosts (host_filters (fst hosts) (snd hosts)))
       (\<lambda>ps. find_trunk_by_port_ids (map p_id ps) (fst hosts))"

lemma find_node_trunk_pure: "snd (find_node_trunk hosts w) = w"
  using find_ports_pure [of "host_filters (fst hosts) (snd hosts)" w] find_trunk_pure
  by (auto simp: find_node_trunk_def split: prod.split sum.split)

lemma find_node_trunk_Inr:
  assumes "find_node_trunk hosts w = (Inr i, w')"
  shows "\<exists>t. node_trunk hosts w t \<and> tk_id t = i"
proof -
  let ?hs = "host_filters (fst hosts) (snd hosts)"
  obtain ps where ps: "find_ports_bound_to_hosts ?hs w = (Inr ps, w)"
    and tr: "find_trunk_by_port_ids (map p_id ps) (fst hosts) w = (Inr i, w')"
    using assms find_ports_pure [of ?hs w]
    by (auto simp: find_node_trunk_def split: prod.splits sum.splits)
  from find_trunk_result [OF tr] obtain t where
    "t \<in> set (w_trunks w)" "tk_id t = i" "tk_port_id t \<in> p_id ` set ps" by auto
  then show ?thesis
    unfolding ports_of_hosts_ids [OF ps] node_trunk_def list_ex_iff by (auto simp: host_filters_def split: if_splits)
qed

lemma find_node_trunk_Inl:
  assumes "find_node_trunk hosts w = (Inl e, w')" "snd hosts \<noteq> []"
  shows "\<not> node_trunk hosts w t"
proof (cases "find_ports_bound_to_hosts [fst hosts, snd hosts] w")
  case (Pair r w1)
  show ?thesis
  proof (cases r)
    case (Inl x)
    with Pair find_ports_fails [of "[fst hosts, snd hosts]" w x w1] show ?thesis
      by (fastforce simp: node_trunk_def list_ex_iff)
  next
    case (Inr ps)
    then have "find_trunk_by_port_ids (map p_id ps) (fst hosts) w = (Inl e, w')"
      using assms Pair find_ports_pure [of "[fst hosts, snd hosts]" w]
      by (auto simp: find_node_trunk_def host_filters_def)
    from find_trunk_result [OF this] have "t \<in> set (w_trunks w) \<Longrightarrow> tk_port_id t \<notin> p_id ` set ps" by simp
    then show ?thesis
      unfolding ports_of_hosts_ids [OF Pair [unfolded Inr]] node_trunk_def list_ex_iff by auto
  qed
qed

lemma resolve_nonempty: "resolve_gateway_host env h = Inr (a, b) \<Longrightarrow> b \<noteq> []"
  by (auto simp: resolve_gateway_host_def uuid_ok_def remove_sub.simps Let_def strip_braces_def
      split: if_splits option.splits)

lemma fetch_trunk_uncached:
  assumes "\<not> truthy (w_trunk_cache w)" "ne_core_plugin env"
    "get_gateway_agent_host env w = (Inr h, w)" "resolve_gateway_host env h = Inr hosts"
  shows "fetch_network_node_trunk_id env w =
    (case find_node_trunk hosts w of
       (Inl e, _) \<Rightarrow> (Inl e, w) | (Inr i, _) \<Rightarrow> (Inr i, w\<lparr>w_trunk_cache := Some i\<rparr>))"
proof -
  obtain a b where hosts: "hosts = (a, b)" by (cases hosts)
  let ?hs = "host_filters a b"
  show ?thesis
    using assms find_ports_pure [of ?hs w] find_trunk_pure
    unfolding hosts fetch_network_node_trunk_id_def find_node_trunk_def
    by (cases "find_ports_bound_to_hosts ?hs w"; cases "fst (find_ports_bound_to_hosts ?hs w)")
       (auto simp: Let_def dest: find_trunk_state split: prod.split sum.split)
qed

lemma get_gateway_agent_host_pure: "snd (get_gateway_agent_host env w) = w"
  by (auto simp: get_gateway_agent_host_def split: sum.split list.split)

text \<open>The only state the discovery changes is its cache.\<close>

lemma fetch_trunk_frame:
  assumes "fetch_network_node_trunk_id env w = (r, w')"
  shows "w' = w\<lparr>w_trunk_cache := w_trunk_cache w'\<rparr>"
    and "r = Inr i \<Longrightarrow> i \<noteq> [] \<Longrightarrow> w_trunk_cache w' = Some i"
    and "r = Inl e \<Longrightarrow> w' = w"
proof -
  have "w' = w\<lparr>w_trunk_cache := w_trunk_cache w'\<rparr> \<and>
    (r = Inr i \<longrightarrow> i \<noteq> [] \<longrightarrow> w_trunk_cache w' = Some i) \<and> (r = Inl e \<longrightarrow> w' = w)"
  proof (cases "truthy (w_trunk_cache w) \<or> \<not> ne_core_plugin env")
    case True
    then show ?thesis
      using assms by (auto simp: fetch_network_node_trunk_id_def elim!: truthyE split: if_splits)
  next
    case False
    then have unc: "\<not> truthy (w_trunk_cache w)" "ne_core_plugin env" by auto
    obtain q where g: "get_gateway_agent_host env w = (q, w)"
      using get_gateway_agent_host_pure [of env w] by (metis prod.collapse)
    show ?thesis
    proof (cases q)
      case (Inl x)
      with assms unc g show ?thesis by (auto simp: fetch_network_node_trunk_id_def)
    next
      case (Inr h)
      show ?thesis
      proof (cases "resolve_gateway_host env h")
        case (Inl x)
        with assms unc g Inr show ?thesis by (auto simp: fetch_network_node_trunk_id_def)
      next
        case r: (Inr hosts)
        from fetch_trunk_uncached [OF unc g [unfolded Inr] r] assms show ?thesis
          by (auto split: prod.splits sum.splits)
      qed
    qed
  qed
  then show "w' = w\<lparr>w_trunk_cache := w_trunk_cache w'\<rparr>"
    "r = Inr i \<Longrightarrow> i \<noteq> [] \<Longrightarrow> w_trunk_cache w' = Some i" "r = Inl e \<Longrightarrow> w' = w" by blast+
qed

section \<open>Properties\<close>

text \<open>
  With nothing cached, and the gateway agent's host resolved to its two names, the lookup
  succeeds exactly when some trunk has a parent port bound to one of them; it then returns (and
  caches) such a trunk's id and changes nothing else, and otherwise raises and changes nothing.
\<close>
lemma gateway_trunk_found_iff:
  assumes "\<not> truthy (w_trunk_cache w)" "ne_core_plugin env"
    and "get_gateway_agent_host env w = (Inr h, w)" "resolve_gateway_host env h = Inr hosts"
  shows "if (\<exists>t. node_trunk hosts w t)
    then (\<exists>t. node_trunk hosts w t \<and>
      fetch_network_node_trunk_id env w = (Inr (tk_id t), w\<lparr>w_trunk_cache := Some (tk_id t)\<rparr>))
    else (\<exists>e. fetch_network_node_trunk_id env w = (Inl e, w))"
proof (cases "find_node_trunk hosts w")
  case (Pair r w')
  have ne: "snd hosts \<noteq> []" using resolve_nonempty [of env h "fst hosts" "snd hosts"] assms(4) by simp
  show ?thesis
  proof (cases r)
    case (Inl e)
    with Pair find_node_trunk_Inl [OF _ ne] show ?thesis
      by (simp add: fetch_trunk_uncached [OF assms])
  next
    case (Inr i)
    with Pair find_node_trunk_Inr [of hosts w i w'] show ?thesis
      by (auto simp: fetch_trunk_uncached [OF assms])
  qed
qed

definition gateway_world :: world where
  "gateway_world = empty_world\<lparr>
     w_ports := [\<lparr>p_id = ''parent'', p_name = [], p_network_id = ''n0'', p_device_id = [], p_device_owner = []\<rparr>],
     w_bindings := [\<lparr>pb_port_id = ''parent'', pb_host = ''u1'', pb_vif_type = ''other'',
       pb_vnic_type = ''baremetal'', pb_profile = []\<rparr>],
     w_trunks := [\<lparr>tk_id = ''t0'', tk_port_id = ''other'', tk_sub_ports = []\<rparr>,
       \<lparr>tk_id = ''t1'', tk_port_id = ''parent'', tk_sub_ports = []\<rparr>]\<rparr>"

text \<open>
  Once discovered, the trunk id is served from the cache: every later call returns it,
  whatever the other tables and the environment have become, and changes nothing.
\<close>
lemma gateway_trunk_cache_sticks:
  assumes "fetch_network_node_trunk_id env w = (Inr i, w')" "i \<noteq> []"
    and "w_trunk_cache v = w_trunk_cache w'"
  shows "fetch_network_node_trunk_id env2 v = (Inr i, v)"
  using fetch_trunk_frame(2) [OF assms(1) refl assms(2)] assms(2,3)
  by (simp add: fetch_network_node_trunk_id_def)

end
