(* ===== verification/Trunk_Driver.thy ===== *)
theory Trunk_Driver
  imports Gateway_Trunk
begin

text \<open>
  \<open>neutron_understack/trunk.py\<close>: the trunk driver.  Its handlers check the segmentation ids of
  subports, bind each subport of a bound parent port to a VLAN segment of the parent's physical
  network (allocating a dynamic one when there is none), and undo that when subports or trunks
  are deleted.  \<open>trunk_callback\<close> is the subscription table of \<open>register\<close>.
\<close>

section \<open>The driver\<close>

definition missing_physnet_msg :: "string \<Rightarrow> string" where
  "missing_physnet_msg port_id =
     ''physical_network is required in the binding_profile for baremetal port '' @
     ''trunk configuration, but port '' @ port_id @ '' does not have one.''"

definition is_loaded :: "string list option \<Rightarrow> bool" where
  "is_loaded mechanism_drivers =
     (case mechanism_drivers of None \<Rightarrow> False | Some ds \<Rightarrow> ''understack'' \<in> set ds)"

fun check_segmentation_ids :: "range list \<Rightarrow> subport list \<Rightarrow> (world, unit) act" where
  "check_segmentation_ids ns_ranges [] = ret ()"
| "check_segmentation_ids ns_ranges (sp # sps) =
     (if segmentation_id_in_ranges (sp_segmentation_id sp) ns_ranges
      then check_segmentation_ids ns_ranges sps
      else raise_exn (SubportSegmentationIDError (sp_segmentation_id sp) (sp_port_id sp)
                       (printable_ranges ns_ranges)))"

definition check_subports_segmentation_id ::
  "net_env \<Rightarrow> subport list \<Rightarrow> string \<Rightarrow> (world, unit) act"
where
  "check_subports_segmentation_id env subports trunk_id =
     bnd (fetch_network_node_trunk_id env) (\<lambda>node_trunk_id.
       if trunk_id = node_trunk_id then ret ()
       else bnd (allowed_tenant_vlan_id_ranges env) (\<lambda>ns_ranges.
              check_segmentation_ids ns_ranges subports))"

text \<open>One iteration of \<open>_handle_segment_allocation\<close>; the result is the VLAN id it collects.\<close>

definition allocate_subport ::
  "net_env \<Rightarrow> string \<Rightarrow> string \<Rightarrow> subport \<Rightarrow> (world, int) act"
where
  "allocate_subport env vlan_group_name binding_host sp =
     bnd (fetch_subport_network_id (sp_port_id sp)) (\<lambda>subport_network_id.
     bnd (reads (network_segment_by_physnet subport_network_id vlan_group_name)) (\<lambda>current_segment.
     bnd (case current_segment of
            Some s \<Rightarrow> ret (Some s)
          | None \<Rightarrow> allocate_dynamic_segment env subport_network_id ''vlan'' (Some vlan_group_name))
       (\<lambda>network_segment.
         case network_segment of
           None \<Rightarrow> raise_exn (TypeError ''NoneType object is not subscriptable'')
         | Some s \<Rightarrow>
             (case sg_segmentation_id s of
                None \<Rightarrow> raise_exn (TypeError ''int() argument must not be NoneType'')
              | Some v \<Rightarrow>
                  andthen (create_binding_profile_level (sp_port_id sp) binding_host 0 (sg_id s))
                    (ret v)))))"

definition handle_segment_allocation ::
  "net_env \<Rightarrow> subport list \<Rightarrow> string \<Rightarrow> string \<Rightarrow> (world, int list) act"
where
  "handle_segment_allocation env subports vlan_group_name binding_host =
     map_act (allocate_subport env vlan_group_name binding_host) subports"

definition first_binding :: "port_row \<Rightarrow> (world, binding_row) act" where
  "first_binding port = bnd (reads (port_bindings (p_id port))) (\<lambda>bindings.
     case bindings of [] \<Rightarrow> raise_exn IndexError | b # _ \<Rightarrow> ret b)"

definition physnet_of :: "binding_row \<Rightarrow> string option" where
  "physnet_of b = dget (pb_profile b) ''physical_network''"

definition add_subports_networks_to_parent_port_switchport ::
  "net_env \<Rightarrow> port_row \<Rightarrow> subport list \<Rightarrow> (world, unit) act"
where
  "add_subports_networks_to_parent_port_switchport env parent_port subports =
     bnd (first_binding parent_port) (\<lambda>b.
       if \<not> truthy (physnet_of b)
       then raise_exn (BadRequest ''port'' (missing_physnet_msg (p_id parent_port)))
       else andthen (handle_segment_allocation env subports (the (physnet_of b)) (pb_host b)) (ret ()))"

definition handle_tenant_vlan_id_and_switchport_config ::
  "net_env \<Rightarrow> subport list \<Rightarrow> trunk_row \<Rightarrow> (world, unit) act"
where
  "handle_tenant_vlan_id_and_switchport_config env subports trunk =
     andthen (check_subports_segmentation_id env subports (tk_id trunk))
       (bnd (fetch_port_object (tk_port_id trunk)) (\<lambda>parent.
        bnd (parent_port_is_bound parent) (\<lambda>bound.
          when_act bound (add_subports_networks_to_parent_port_switchport env parent subports))))"

definition configure_trunk :: "net_env \<Rightarrow> subport list \<Rightarrow> string \<Rightarrow> (world, unit) act" where
  "configure_trunk env sub_ports port_id =
     bnd (fetch_port_object port_id) (\<lambda>parent.
       add_subports_networks_to_parent_port_switchport env parent sub_ports)"

definition delete_unused_segment :: "net_env \<Rightarrow> string \<Rightarrow> (world, segment_row option) act" where
  "delete_unused_segment env segment_id =
     bnd (reads (network_segment_by_id segment_id)) (\<lambda>network_segment.
     bnd (reads (ports_bound_to_segment segment_id)) (\<lambda>bound.
       andthen
         (if bound = [] then
            bnd (is_dynamic_network_segment segment_id) (\<lambda>dynamic.
              when_act dynamic (release_dynamic_segment env segment_id))
          else ret ())
         (ret network_segment)))"

definition deallocate_subport :: "net_env \<Rightarrow> string \<Rightarrow> subport \<Rightarrow> (world, unit) act" where
  "deallocate_subport env host sp =
     bnd (reads (port_binding_level_by_port_id (sp_port_id sp) host)) (\<lambda>binding_level.
       case binding_level of
         None \<Rightarrow> ret ()
       | Some l \<Rightarrow>
           andthen (level_delete l) (andthen (delete_unused_segment env (bl_segment_id l)) (ret ())))"

definition handle_segment_deallocation ::
  "net_env \<Rightarrow> subport list \<Rightarrow> string \<Rightarrow> (world, unit) act"
where
  "handle_segment_deallocation env subports host = for_each (deallocate_subport env host) subports"

definition handle_subports_removal ::
  "net_env \<Rightarrow> string \<Rightarrow> subport list \<Rightarrow> bool \<Rightarrow> string option \<Rightarrow> (world, unit) act"
where
  "handle_subports_removal env binding_host subports invoke_undersync vlan_group_name =
     andthen (handle_segment_deallocation env subports binding_host)
       (when_act (invoke_undersync \<and> truthy vlan_group_name)
         (undersync_sync env (the vlan_group_name)))"

definition clean_trunk :: "net_env \<Rightarrow> subport list \<Rightarrow> string \<Rightarrow> (world, unit) act" where
  "clean_trunk env sub_ports host = handle_subports_removal env host sub_ports False None"

definition clean_parent_port_switchport_config ::
  "net_env \<Rightarrow> trunk_row \<Rightarrow> subport list \<Rightarrow> (world, unit) act"
where
  "clean_parent_port_switchport_config env trunk subports =
     bnd (fetch_port_object (tk_port_id trunk)) (\<lambda>parent.
     bnd (parent_port_is_bound parent) (\<lambda>bound.
       if \<not> bound then ret ()
       else bnd (first_binding parent) (\<lambda>b.
              handle_subports_removal env (pb_host b) subports True (physnet_of b))))"

definition validate_parent_port_physnet :: "trunk_row \<Rightarrow> (world, unit) act" where
  "validate_parent_port_physnet trunk =
     bnd (fetch_port_object (tk_port_id trunk)) (\<lambda>parent.
     bnd (parent_port_is_bound parent) (\<lambda>bound.
       if \<not> bound then ret ()
       else bnd (first_binding parent) (\<lambda>b.
              when_act (\<not> truthy (physnet_of b))
                (raise_exn (BadRequest ''port'' (missing_physnet_msg (p_id parent)))))))"

section \<open>The event handlers\<close>

definition subports_added :: "net_env \<Rightarrow> trunk_row \<Rightarrow> subport list \<Rightarrow> (world, unit) act" where
  "subports_added env trunk subports = handle_tenant_vlan_id_and_switchport_config env subports trunk"

definition subports_added_post :: "net_env \<Rightarrow> trunk_row \<Rightarrow> (world, unit) act" where
  "subports_added_post env trunk =
     bnd (fetch_port_object (tk_port_id trunk)) (\<lambda>parent.
     bnd (parent_port_is_bound parent) (\<lambda>bound.
       if bound then
         bnd (first_binding parent) (\<lambda>b.
           if \<not> truthy (physnet_of b) then ret ()
           else undersync_sync env (the (physnet_of b)))
       else ret ()))"

definition subports_deleted_precommit :: "trunk_row \<Rightarrow> (world, unit) act" where
  "subports_deleted_precommit trunk = validate_parent_port_physnet trunk"

definition subports_deleted :: "net_env \<Rightarrow> trunk_row \<Rightarrow> subport list \<Rightarrow> (world, unit) act" where
  "subports_deleted env trunk subports = clean_parent_port_switchport_config env trunk subports"

definition trunk_created :: "net_env \<Rightarrow> trunk_row \<Rightarrow> (world, unit) act" where
  "trunk_created env trunk =
     when_act (tk_sub_ports trunk \<noteq> [])
       (handle_tenant_vlan_id_and_switchport_config env (tk_sub_ports trunk) trunk)"

definition trunk_deleted_precommit :: "trunk_row \<Rightarrow> (world, unit) act" where
  "trunk_deleted_precommit trunk =
     when_act (tk_sub_ports trunk \<noteq> []) (validate_parent_port_physnet trunk)"

definition trunk_deleted :: "net_env \<Rightarrow> trunk_row \<Rightarrow> (world, unit) act" where
  "trunk_deleted env trunk =
     when_act (tk_sub_ports trunk \<noteq> [])
       (clean_parent_port_switchport_config env trunk (tk_sub_ports trunk))"

datatype trunk_event =
    SubportsPrecommitCreate | SubportsAfterCreate | SubportsPrecommitDelete | SubportsAfterDelete
  | TrunkPrecommitCreate | TrunkPrecommitDelete | TrunkAfterDelete

fun trunk_callback ::
  "net_env \<Rightarrow> trunk_event \<Rightarrow> trunk_row \<Rightarrow> subport list \<Rightarrow> (world, unit) act"
where
  "trunk_callback env SubportsPrecommitCreate trunk subports = subports_added env trunk subports"
| "trunk_callback env SubportsAfterCreate trunk subports = subports_added_post env trunk"
| "trunk_callback env SubportsPrecommitDelete trunk subports = subports_deleted_precommit trunk"
| "trunk_callback env SubportsAfterDelete trunk subports = subports_deleted env trunk subports"
| "trunk_callback env TrunkPrecommitCreate trunk subports = trunk_created env trunk"
| "trunk_callback env TrunkPrecommitDelete trunk subports = trunk_deleted_precommit trunk"
| "trunk_callback env TrunkAfterDelete trunk subports = trunk_deleted env trunk"

section \<open>Calls that only read\<close>

lemma pure_fetch_port_object: "pure_act (fetch_port_object i)"
  unfolding fetch_port_object_def by (rule pureI) (intro act_rules)

lemma pure_parent_port_is_bound: "pure_act (parent_port_is_bound p)"
  unfolding parent_port_is_bound_def by (rule pureI) (intro act_rules)

lemma pure_first_binding: "pure_act (first_binding p)"
  unfolding first_binding_def by (rule pureI) (intro act_rules)

lemmas keeps_port_reads [act_rules] =
  pure_fetch_port_object [THEN keeps_pure] pure_parent_port_is_bound [THEN keeps_pure]
  pure_first_binding [THEN keeps_pure]

lemma pure_fetch_subport_network_id: "pure_act (fetch_subport_network_id i)"
  unfolding fetch_subport_network_id_def by (rule pureI) (intro act_rules)

lemma pure_check_segmentation_ids: "pure_act (check_segmentation_ids rs sps)"
  by (induction sps) (auto simp: pure_act_def)

lemma pure_allowed: "pure_act (allowed_tenant_vlan_id_ranges env)"
  by (simp add: pure_act_def allowed_ranges_pure)

lemma pure_validate: "pure_act (validate_parent_port_physnet t)"
  unfolding validate_parent_port_physnet_def by (rule pureI) (intro act_rules)

lemmas keeps_pure_reads [act_rules] =
  pure_fetch_subport_network_id [THEN keeps_pure] pure_check_segmentation_ids [THEN keeps_pure]
  pure_allowed [THEN keeps_pure] pure_validate [THEN keeps_pure]

lemma check_segmentation_ids_Inr:
  "check_segmentation_ids rs sps w = (Inr x, w') \<longleftrightarrow>
   w' = w \<and> (\<forall>sp \<in> set sps. segmentation_id_in_ranges (sp_segmentation_id sp) rs)"
  by (induction sps) auto

section \<open>Allocation\<close>

text \<open>
  What the database tables of the driver satisfy: every level refers to a segment, no two
  levels share a key and no two segments an id.
\<close>

definition net_inv :: "world \<Rightarrow> bool" where
  "net_inv w \<longleftrightarrow> backed w \<and> levels_ok w \<and> segments_ok w"

lemma net_inv_cong:
  "w_segments w' = w_segments w \<Longrightarrow> w_levels w' = w_levels w \<Longrightarrow> net_inv w' = net_inv w"
  by (simp add: net_inv_def backed_def levels_ok_def segments_ok_def)

text \<open>Allocation only adds segments and levels.\<close>

definition grows :: "world \<Rightarrow> world \<Rightarrow> bool" where
  "grows w w' \<longleftrightarrow> (\<exists>ns nl. w' = w\<lparr>w_segments := w_segments w @ ns, w_levels := w_levels w @ nl\<rparr>)"

lemma grows_refl: "grows w w"
  unfolding grows_def by (rule exI [of _ "[]"], rule exI [of _ "[]"]) simp

lemma grows_trans: "grows u v \<Longrightarrow> grows v w \<Longrightarrow> grows u w"
  unfolding grows_def by force

lemma grows_subset: "grows w w' \<Longrightarrow> set (w_segments w) \<subseteq> set (w_segments w') \<and> set (w_levels w) \<subseteq> set (w_levels w')"
  unfolding grows_def by force

lemma grows_segments: "grows w (w\<lparr>w_segments := w_segments w @ ns\<rparr>)"
  unfolding grows_def by (rule exI [of _ ns], rule exI [of _ "[]"]) simp

lemma grows_levels: "grows w (w\<lparr>w_levels := w_levels w @ nl\<rparr>)"
  unfolding grows_def by (rule exI [of _ "[]"], rule exI [of _ nl]) simp

lemma grows_frame:
  "grows w w' \<Longrightarrow> w_ports w' = w_ports w \<and> w_bindings w' = w_bindings w \<and> w_posts w' = w_posts w \<and>
     w_trunks w' = w_trunks w \<and> w_ranges w' = w_ranges w \<and> w_trunk_cache w' = w_trunk_cache w"
  unfolding grows_def by auto

text \<open>A VLAN segment of a network on a physical network.\<close>

definition vlan_segment_of :: "string \<Rightarrow> string \<Rightarrow> segment_row \<Rightarrow> bool" where
  "vlan_segment_of network_id physnet s =
     (sg_network_id s = network_id \<and> sg_physical_network s = Some physnet \<and> sg_network_type s = ''vlan'')"

definition wired :: "string \<Rightarrow> string \<Rightarrow> string \<Rightarrow> int \<Rightarrow> world \<Rightarrow> bool" where
  "wired physnet host port_id v w =
     (\<exists>p s l. port_get_object port_id w = Some p \<and>
        s \<in> set (w_segments w) \<and> vlan_segment_of (p_network_id p) physnet s \<and>
        sg_segmentation_id s = Some v \<and>
        l \<in> set (w_levels w) \<and> level_key l = (port_id, host, 0) \<and> bl_segment_id l = sg_id s)"

lemma wired_grows: "grows w w' \<Longrightarrow> wired pn h i v w \<Longrightarrow> wired pn h i v w'"
  using grows_subset [of w w'] grows_frame [of w w']
  unfolding wired_def port_get_object_def by fastforce

lemma create_level_spec:
  assumes "create_binding_profile_level i h n sid w = (r, w')"
  shows "w' = w \<and> (r = Inr x \<longrightarrow> x \<in> set (w_levels w) \<and> level_key x = (i, h, n) \<and> bl_segment_id x = sid) \<or>
    (\<exists>l. w' = w\<lparr>w_levels := w_levels w @ [l]\<rparr> \<and> r = Inr l \<and> level_key l = (i, h, n) \<and>
       bl_segment_id l = sid \<and> level_key l \<notin> level_key ` set (w_levels w))"
  using assms
  by (auto simp: create_binding_profile_level_def Let_def level_create_def level_key_def
      split: option.splits if_splits dest!: find_SomeD)

text \<open>The segment an iteration settles on, before the level is written.\<close>

lemma subport_segment:
  assumes "tm_ok env"
    and "(case network_segment_by_physnet n pn w of Some s \<Rightarrow> ret (Some s)
          | None \<Rightarrow> allocate_dynamic_segment env n ''vlan'' (Some pn)) w = (r, w')"
  shows "(\<exists>ns. w' = w\<lparr>w_segments := w_segments w @ ns\<rparr>) \<and> (segments_ok w \<longrightarrow> segments_ok w') \<and>
    (\<forall>x. r = Inr x \<longrightarrow> (\<exists>s. x = Some s \<and> s \<in> set (w_segments w') \<and> vlan_segment_of n pn s))"
proof (cases "network_segment_by_physnet n pn w")
  case None
  have "(\<exists>ns. w' = w\<lparr>w_segments := w_segments w @ ns\<rparr>) \<and> (segments_ok w \<longrightarrow> segments_ok w') \<and>
      (\<exists>s. x = Some s \<and> s \<in> set (w_segments w') \<and> vlan_segment_of n pn s)" if "r = Inr x" for x
  proof -
    have "ne_tm_allocate env n (Some pn) ''vlan'' w = (Inr x, w')"
      using None assms(2) that by (auto simp: allocate_dynamic_segment_def split: if_splits)
    then show ?thesis by (rule tm_allocateD [OF assms(1)]) (auto simp: vlan_segment_of_def)
  qed
  moreover have "r = Inl e \<Longrightarrow> w' = w" for e
    using None assms(2) tm_allocate_raises [OF assms(1), of n "Some pn" "''vlan''" w e w']
    by (auto simp: allocate_dynamic_segment_def split: if_splits)
  ultimately show ?thesis by (cases r) (auto intro: exI [where x = "[]"])
next
  case (Some s)
  with assms(2) network_segment_by_physnet_Some [OF Some] show ?thesis
    by (auto simp: vlan_segment_of_def intro: exI [where x = "[]"])
qed

lemma net_inv_segments:
  "net_inv w \<Longrightarrow> segments_ok (w\<lparr>w_segments := w_segments w @ ns\<rparr>) \<Longrightarrow>
   net_inv (w\<lparr>w_segments := w_segments w @ ns\<rparr>)"
  by (fastforce simp: net_inv_def backed_def levels_ok_def)

lemma net_inv_new_level:
  "net_inv w \<Longrightarrow> s \<in> set (w_segments w) \<Longrightarrow> bl_segment_id l = sg_id s \<Longrightarrow>
   level_key l \<notin> level_key ` set (w_levels w) \<Longrightarrow> net_inv (w\<lparr>w_levels := w_levels w @ [l]\<rparr>)"
  by (auto simp: net_inv_def backed_def levels_ok_def segments_ok_def)

lemma allocate_subport_spec:
  assumes "tm_ok env" "allocate_subport env pn h sp w = (r, w')"
  shows "grows w w' \<and> (net_inv w \<longrightarrow> net_inv w') \<and> (\<forall>v. r = Inr v \<longrightarrow> wired pn h (sp_port_id sp) v w')"
proof (cases "port_get_object (sp_port_id sp) w")
  case None
  then have "w' = w" "\<exists>e. r = Inl e"
    using assms(2) by (auto simp: allocate_subport_def fetch_subport_network_id_def fetch_port_object_def)
  then show ?thesis by (auto simp: grows_refl)
next
  case (Some p)
  let ?n = "p_network_id p"
  let ?m = "case network_segment_by_physnet ?n pn w of Some s \<Rightarrow> ret (Some s)
          | None \<Rightarrow> allocate_dynamic_segment env ?n ''vlan'' (Some pn)"
  obtain q w1 where m: "?m w = (q, w1)" by (cases "?m w")
  note seg = subport_segment [OF assms(1) m]
  have g1: "grows w w1" "net_inv w \<Longrightarrow> net_inv w1" using seg grows_segments net_inv_segments by (blast, auto simp: net_inv_def)
  have eq: "allocate_subport env pn h sp w =
    (case q of Inl e \<Rightarrow> (Inl e, w1) | Inr None \<Rightarrow> (Inl (TypeError ''NoneType object is not subscriptable''), w1)
     | Inr (Some s) \<Rightarrow> (case sg_segmentation_id s of
           None \<Rightarrow> (Inl (TypeError ''int() argument must not be NoneType''), w1)
         | Some v \<Rightarrow> andthen (create_binding_profile_level (sp_port_id sp) h 0 (sg_id s)) (ret v) w1))"
    using Some m
    by (simp add: allocate_subport_def fetch_subport_network_id_def fetch_port_object_def
        split: sum.split option.split)
  show ?thesis
  proof (cases "\<exists>s v. q = Inr (Some s) \<and> sg_segmentation_id s = Some v")
    case False
    then have "w' = w1 \<and> (\<exists>e. r = Inl e)"
      using assms(2) eq by (auto split: sum.splits option.splits)
    with g1 show ?thesis by auto
  next
    case True
    then obtain s v where s: "q = Inr (Some s)" "sg_segmentation_id s = Some v" by blast
    then have s1: "s \<in> set (w_segments w1)" "vlan_segment_of ?n pn s" using seg by auto
    obtain q2 w2 where c: "create_binding_profile_level (sp_port_id sp) h 0 (sg_id s) w1 = (q2, w2)"
      by (cases "create_binding_profile_level (sp_port_id sp) h 0 (sg_id s) w1")
    have r: "w' = w2" "\<And>x. r = Inr x \<longleftrightarrow> x = v \<and> (\<exists>l. q2 = Inr l)"
      using assms(2) s c unfolding eq by (auto split: sum.splits)
    note cl = create_level_spec [OF c]
    then have "w2 = w1 \<or> (\<exists>l. w2 = w1\<lparr>w_levels := w_levels w1 @ [l]\<rparr> \<and> bl_segment_id l = sg_id s \<and>
        level_key l \<notin> level_key ` set (w_levels w1))" by blast
    then have g2: "grows w1 w2" and i2: "net_inv w1 \<Longrightarrow> net_inv w2"
      using grows_refl grows_levels net_inv_new_level [OF _ s1(1)] by blast+
    have "wired pn h (sp_port_id sp) v w2" if "q2 = Inr l" for l
    proof -
      have "l \<in> set (w_levels w2) \<and> level_key l = (sp_port_id sp, h, 0) \<and> bl_segment_id l = sg_id s"
        using cl [of l] that by auto
      moreover have "port_get_object (sp_port_id sp) w2 = Some p"
        using Some grows_frame [OF grows_trans [OF g1(1) g2]] by (simp add: port_get_object_def)
      moreover have "s \<in> set (w_segments w2)" using s1 grows_subset [OF g2] by auto
      ultimately show ?thesis using s s1 unfolding wired_def by blast
    qed
    then show ?thesis using g1(2) i2 grows_trans [OF g1(1) g2] unfolding r by auto
  qed
qed

lemma handle_segment_allocation_spec:
  assumes "tm_ok env"
  shows "handle_segment_allocation env sps pn h w = (r, w') \<Longrightarrow>
    grows w w' \<and> (net_inv w \<longrightarrow> net_inv w') \<and>
    (\<forall>vs. r = Inr vs \<longrightarrow> list_all2 (\<lambda>sp v. wired pn h (sp_port_id sp) v w') sps vs)"
  unfolding handle_segment_allocation_def
proof (induction sps arbitrary: w r w')
  case Nil
  then show ?case by (auto simp: grows_refl)
next
  case (Cons sp sps)
  obtain q w1 where a: "allocate_subport env pn h sp w = (q, w1)"
    by (cases "allocate_subport env pn h sp w")
  note sp = allocate_subport_spec [OF assms a]
  show ?case
  proof (cases q)
    case (Inl e)
    with a Cons.prems sp show ?thesis by auto
  next
    case (Inr v)
    obtain q2 w2 where b: "map_act (allocate_subport env pn h) sps w1 = (q2, w2)"
      by (cases "map_act (allocate_subport env pn h) sps w1")
    have w': "w' = w2" "\<And>vs. r = Inr vs \<Longrightarrow> \<exists>us. q2 = Inr us \<and> vs = v # us"
      using Cons.prems a b Inr by (auto split: sum.splits)
    note ih = Cons.IH [OF b]
    show ?thesis
      using sp ih w' Inr grows_trans wired_grows by (metis list_all2_Cons)
  qed
qed

section \<open>Deallocation\<close>

text \<open>Release of a segment that is allowed to and does not fail.\<close>

definition tm_release_returns :: "net_env \<Rightarrow> bool" where
  "tm_release_returns env = (ne_core_plugin env \<and> ne_tm_can_release env \<and>
     (\<forall>i w. \<exists>w'. ne_tm_release env i w = (Inr (), w')))"

definition keyed :: "string \<Rightarrow> string set \<Rightarrow> level_row \<Rightarrow> bool" where
  "keyed host ports l = (bl_host l = host \<and> bl_level l = 0 \<and> bl_port_id l \<in> ports)"

lemma keyed_level_key: "keyed h ps l \<longleftrightarrow> level_key l \<in> (\<lambda>p. (p, h, 0)) ` ps"
  by (auto simp: keyed_def level_key_def)

lemma keyed_single: "keyed h {p} l \<longleftrightarrow> level_key l = (p, h, 0)"
  by (auto simp: keyed_def level_key_def)

lemma segments_ok_filter: "segments_ok w \<Longrightarrow> segments_ok (w\<lparr>w_segments := filter P (w_segments w)\<rparr>)"
  by (simp add: segments_ok_def distinct_map_filter)

lemma segment_by_id: "segments_ok w \<Longrightarrow> s \<in> set (w_segments w) \<Longrightarrow> network_segment_by_id (sg_id s) w = Some s"
  unfolding network_segment_by_id_def segments_ok_def
  by (rule find_unique) (auto dest: map_of_eq_Some_iff simp: distinct_map inj_on_def)

text \<open>Dropping the segment of a level that has just been deleted.\<close>

definition drop_if_unused :: "string \<Rightarrow> world \<Rightarrow> world" where
  "drop_if_unused i w = (if ports_bound_to_segment i w = [] \<and>
       (case network_segment_by_id i w of None \<Rightarrow> False | Some s \<Rightarrow> sg_is_dynamic s)
     then w\<lparr>w_segments := filter (\<lambda>s. sg_id s \<noteq> i) (w_segments w)\<rparr> else w)"

lemma delete_unused_segment_cases:
  assumes "tm_ok env" "delete_unused_segment env i w = (r, w')"
  shows "w' = w \<or> w' = drop_if_unused i w"
    and "tm_release_returns env \<Longrightarrow> r = Inr x \<Longrightarrow> w' = drop_if_unused i w"
proof -
  have *: "ne_tm_release env i w = (Inr (), w2) \<Longrightarrow> ports_bound_to_segment i w = [] \<Longrightarrow>
      w2 = w\<lparr>w_segments := filter (\<lambda>s. sg_id s \<noteq> i) (w_segments w)\<rparr>" for w2
    using tm_releaseD(1) [OF assms(1), of i w "()" w2] by (simp add: drop_segment_def filter_unused)
  show "w' = w \<or> w' = drop_if_unused i w"
    using assms(2) * tm_releaseD(2) [OF assms(1), of i w]
    by (auto simp: delete_unused_segment_def is_dynamic_network_segment_def drop_if_unused_def
        release_dynamic_segment_def split: if_splits option.splits prod.splits sum.splits)
  show "w' = drop_if_unused i w" if "tm_release_returns env" "r = Inr x"
    using assms(2) that *
    by (auto simp: delete_unused_segment_def is_dynamic_network_segment_def drop_if_unused_def
        release_dynamic_segment_def tm_release_returns_def
        split: if_splits option.splits prod.splits sum.splits)
qed

lemma delete_unused_segment_returns:
  assumes "tm_release_returns env" "network_segment_by_id i w \<noteq> None"
  shows "\<exists>x w'. delete_unused_segment env i w = (Inr x, w')"
proof -
  obtain w2 where "ne_tm_release env i w = (Inr (), w2)"
    using assms(1) unfolding tm_release_returns_def by blast
  then show ?thesis
    using assms by (auto simp: delete_unused_segment_def is_dynamic_network_segment_def
        release_dynamic_segment_def tm_release_returns_def split: if_splits)
qed

lemma drop_if_unused_frame [simp]:
  "w_levels (drop_if_unused i w) = w_levels w" "w_ports (drop_if_unused i w) = w_ports w"
  "w_bindings (drop_if_unused i w) = w_bindings w" "w_posts (drop_if_unused i w) = w_posts w"
  "w_trunk_cache (drop_if_unused i w) = w_trunk_cache w" "w_ranges (drop_if_unused i w) = w_ranges w"
  by (simp_all add: drop_if_unused_def)

lemma drop_if_unused_segments:
  "set (w_segments (drop_if_unused i w)) \<subseteq> set (w_segments w)"
  "s \<in> set (w_segments w) \<Longrightarrow> ports_bound_to_segment (sg_id s) w \<noteq> [] \<Longrightarrow> s \<in> set (w_segments (drop_if_unused i w))"
  "s \<in> set (w_segments w) \<Longrightarrow> \<not> sg_is_dynamic s \<Longrightarrow> segments_ok w \<Longrightarrow> s \<in> set (w_segments (drop_if_unused i w))"
  by (auto simp: drop_if_unused_def segment_by_id split: option.splits)

lemma net_inv_drop_if_unused: "net_inv w \<Longrightarrow> net_inv (drop_if_unused i w)"
  using backed_drop_unused [of w i] by (simp add: drop_if_unused_def net_inv_def levels_ok_def segments_ok_filter)

lemma net_inv_filter_levels: "net_inv w \<Longrightarrow> net_inv (w\<lparr>w_levels := filter P (w_levels w)\<rparr>)"
  by (auto simp: net_inv_def backed_def levels_ok_def segments_ok_def distinct_map_filter)

text \<open>No dynamic segment of the given ids is left without a level.\<close>

definition no_leak :: "string set \<Rightarrow> world \<Rightarrow> bool" where
  "no_leak ids w = (\<forall>s \<in> set (w_segments w). sg_id s \<in> ids \<and> sg_is_dynamic s \<longrightarrow>
     ports_bound_to_segment (sg_id s) w \<noteq> [])"

lemma drop_if_unused_no_leak: "segments_ok w \<Longrightarrow> no_leak {i} (drop_if_unused i w)"
  by (auto simp: no_leak_def drop_if_unused_def ports_bound_to_segment_def segment_by_id split: if_splits)

text \<open>What removing subports from a host achieves, as a relation between the states.\<close>

definition freed :: "string \<Rightarrow> string set \<Rightarrow> world \<Rightarrow> string set" where
  "freed host ports w = bl_segment_id ` {l \<in> set (w_levels w). keyed host ports l}"

definition same_rest :: "world \<Rightarrow> world \<Rightarrow> bool" where
  "same_rest w w' \<longleftrightarrow> w'\<lparr>w_levels := [], w_segments := []\<rparr> = w\<lparr>w_levels := [], w_segments := []\<rparr>"

definition shrinks :: "string \<Rightarrow> string set \<Rightarrow> world \<Rightarrow> world \<Rightarrow> bool" where
  "shrinks host ports w w' \<longleftrightarrow>
     same_rest w w' \<and>
     w_levels w' = filter (\<lambda>l. \<not> keyed host ports l) (w_levels w) \<and>
     set (w_segments w') \<subseteq> set (w_segments w) \<and>
     (\<forall>s \<in> set (w_segments w). ports_bound_to_segment (sg_id s) w' \<noteq> [] \<or> \<not> sg_is_dynamic s \<longrightarrow>
        s \<in> set (w_segments w'))"

lemma same_rest_simps [simp]:
  "same_rest w w" "same_rest w (w\<lparr>w_levels := x\<rparr>)" "same_rest w (w\<lparr>w_levels := x, w_segments := y\<rparr>)"
  by (simp_all add: same_rest_def)

lemma same_rest_trans: "same_rest u v \<Longrightarrow> same_rest v w \<Longrightarrow> same_rest u w"
  by (simp add: same_rest_def)

lemma same_restD:
  assumes "same_rest w w'"
  shows "w_ports w' = w_ports w" "w_bindings w' = w_bindings w" "w_posts w' = w_posts w"
    "w_trunks w' = w_trunks w" "w_trunk_cache w' = w_trunk_cache w" "w_ranges w' = w_ranges w"
  using assms by (cases w; cases w'; simp add: same_rest_def)+

lemma level_eqI: "levels_ok w \<Longrightarrow> k \<in> set (w_levels w) \<Longrightarrow> l \<in> set (w_levels w) \<Longrightarrow>
    level_key k = level_key l \<Longrightarrow> k = l"
  by (auto simp: levels_ok_def distinct_map inj_on_def)

lemma deallocate_subport_spec:
  assumes "tm_ok env" "net_inv w" "deallocate_subport env h sp w = (r, w')"
  shows "net_inv w' \<and> shrinks h {sp_port_id sp} w w' \<and>
    (tm_release_returns env \<longrightarrow> r = Inr () \<and> no_leak (freed h {sp_port_id sp} w) w')"
proof (cases "port_binding_level_by_port_id (sp_port_id sp) h w")
  case None
  then have none: "\<not> keyed h {sp_port_id sp} l" if "l \<in> set (w_levels w)" for l
    using that by (force simp: level_by_port_None keyed_level_key image_iff)
  have "w' = w" "r = Inr ()" using None assms(3) by (auto simp: deallocate_subport_def)
  moreover have "freed h {sp_port_id sp} w = {}" using none by (auto simp: freed_def)
  ultimately show ?thesis
    using none assms(2) by (simp add: shrinks_def no_leak_def)
next
  case (Some l)
  let ?w1 = "w\<lparr>w_levels := filter (\<lambda>k. level_key k \<noteq> level_key l) (w_levels w)\<rparr>"
  let ?i = "bl_segment_id l"
  have l: "l \<in> set (w_levels w)" "level_key l = (sp_port_id sp, h, 0)"
    using level_by_port_Some [OF Some] by auto
  have lv: "filter (\<lambda>k. level_key k \<noteq> level_key l) (w_levels w)
      = filter (\<lambda>k. \<not> keyed h {sp_port_id sp} k) (w_levels w)"
    using l(2) by (simp add: keyed_level_key)
  have fr: "freed h {sp_port_id sp} w = {?i}"
  proof -
    have "{k \<in> set (w_levels w). keyed h {sp_port_id sp} k} = {l}"
    proof -
      have "k = l" if "k \<in> set (w_levels w)" "keyed h {sp_port_id sp} k" for k
        using that l level_eqI [of w k l] assms(2) by (simp add: keyed_single net_inv_def)
      moreover have "keyed h {sp_port_id sp} l" using l(2) by (simp add: keyed_level_key)
      ultimately show ?thesis using l(1) by blast
    qed
    then show ?thesis by (simp add: freed_def)
  qed
  have inv1: "net_inv ?w1" "segments_ok ?w1"
    using assms(2) net_inv_filter_levels by (auto simp: net_inv_def)
  obtain q w2 where d: "delete_unused_segment env ?i ?w1 = (q, w2)"
    by (cases "delete_unused_segment env ?i ?w1")
  have w': "w' = w2" "r = Inr () \<longleftrightarrow> (\<exists>x. q = Inr x)"
    using assms(3) Some d by (auto simp: deallocate_subport_def level_delete_def split: sum.splits)
  note dc = delete_unused_segment_cases [OF assms(1) d]
  have w2: "w2 = ?w1 \<or> w2 = drop_if_unused ?i ?w1" by (rule dc(1))
  have inv2: "net_inv w2" using w2 inv1 net_inv_drop_if_unused by auto
  have sh: "shrinks h {sp_port_id sp} w w2"
    using w2
  proof
    assume "w2 = ?w1"
    then show ?thesis using lv by (simp add: shrinks_def)
  next
    assume e: "w2 = drop_if_unused ?i ?w1"
    have b: "ports_bound_to_segment i w2 = ports_bound_to_segment i ?w1" for i
      by (simp add: e ports_bound_to_segment_def)
    show ?thesis
      unfolding shrinks_def b using inv1 lv drop_if_unused_segments(2,3) [of _ ?w1 ?i] drop_if_unused_segments(1) [of ?i ?w1]
      by (auto simp: e drop_if_unused_def)
  qed
  have "r = Inr () \<and> no_leak {?i} w2" if t: "tm_release_returns env"
  proof -
    obtain s where "s \<in> set (w_segments w)" "sg_id s = ?i"
      using assms(2) l(1) by (auto simp: net_inv_def backed_def)
    then have "network_segment_by_id ?i ?w1 \<noteq> None"
      using segment_by_id [OF inv1(2), of s] by auto
    then obtain x where q: "q = Inr x" using delete_unused_segment_returns [OF t, of ?i ?w1] d by auto
    then have "w2 = drop_if_unused ?i ?w1" using dc(2) [OF t] by blast
    then show ?thesis using q w'(2) drop_if_unused_no_leak [OF inv1(2)] by auto
  qed
  with inv2 sh show ?thesis unfolding fr w'(1) by blast
qed

lemma shrinks_trans:
  assumes "shrinks h A u v" "shrinks h B v w"
  shows "shrinks h (A \<union> B) u w"
proof -
  have "keyed h (A \<union> B) l \<longleftrightarrow> keyed h A l \<or> keyed h B l" for l by (auto simp: keyed_def)
  moreover have "ports_bound_to_segment i w \<noteq> [] \<Longrightarrow> ports_bound_to_segment i v \<noteq> []" for i
    using assms(2) by (auto simp: shrinks_def ports_bound_to_segment_def filter_empty_conv)
  ultimately show ?thesis
    using assms same_rest_trans [of u v w] unfolding shrinks_def by (auto simp: filter_filter conj_commute)
qed

lemma no_leak_step:
  assumes "no_leak I v" "shrinks h B v w" "no_leak (freed h B v) w"
  shows "no_leak I w"
  unfolding no_leak_def
proof (intro ballI impI)
  fix s assume s: "s \<in> set (w_segments w)" "sg_id s \<in> I \<and> sg_is_dynamic s"
  then have "s \<in> set (w_segments v)" using assms(2) by (auto simp: shrinks_def)
  then obtain l where l: "l \<in> set (w_levels v)" "bl_segment_id l = sg_id s"
    using assms(1) s by (auto simp: no_leak_def ports_bound_to_segment_def filter_empty_conv)
  show "ports_bound_to_segment (sg_id s) w \<noteq> []"
  proof (cases "keyed h B l")
    case True
    then have "sg_id s \<in> freed h B v" using l by (force simp: freed_def)
    then show ?thesis using assms(3) s by (auto simp: no_leak_def)
  next
    case False
    then have "l \<in> set (w_levels w)" using l assms(2) by (auto simp: shrinks_def)
    then show ?thesis using l by (auto simp: ports_bound_to_segment_def filter_empty_conv)
  qed
qed

lemma freed_union:
  assumes "shrinks h A u v" shows "freed h (A \<union> B) u \<subseteq> freed h A u \<union> freed h B v"
proof
  fix i assume "i \<in> freed h (A \<union> B) u"
  then obtain l where l: "l \<in> set (w_levels u)" "keyed h (A \<union> B) l" "i = bl_segment_id l"
    by (auto simp: freed_def)
  then have "keyed h A l \<or> l \<in> set (w_levels v) \<and> keyed h B l"
    using assms by (auto simp: shrinks_def keyed_def)
  with l show "i \<in> freed h A u \<union> freed h B v" by (auto simp: freed_def)
qed

lemma no_leak_mono: "no_leak J w \<Longrightarrow> I \<subseteq> J \<Longrightarrow> no_leak I w"
  by (auto simp: no_leak_def)

lemma no_leak_Un: "no_leak I w \<Longrightarrow> no_leak J w \<Longrightarrow> no_leak (I \<union> J) w"
  by (auto simp: no_leak_def)

lemma handle_segment_deallocation_spec:
  assumes "tm_ok env" "tm_release_returns env"
  shows "net_inv w \<Longrightarrow> \<exists>w'. handle_segment_deallocation env sps h w = (Inr (), w') \<and>
    net_inv w' \<and> shrinks h (sp_port_id ` set sps) w w' \<and>
    no_leak (freed h (sp_port_id ` set sps) w) w'"
  unfolding handle_segment_deallocation_def
proof (induction sps arbitrary: w)
  case Nil
  have k: "keyed h {} l = False" for l by (simp add: keyed_def)
  show ?case by (simp add: Nil shrinks_def freed_def no_leak_def k)
next
  case (Cons sp sps)
  let ?A = "{sp_port_id sp}" and ?B = "sp_port_id ` set sps"
  obtain r w1 where a: "deallocate_subport env h sp w = (r, w1)"
    by (cases "deallocate_subport env h sp w")
  note s1 = deallocate_subport_spec [OF assms(1) Cons.prems a]
  obtain w2 where b: "for_each (deallocate_subport env h) sps w1 = (Inr (), w2)"
    and s2: "net_inv w2" "shrinks h ?B w1 w2" "no_leak (freed h ?B w1) w2"
    using Cons.IH [of w1] s1 by blast
  have un: "sp_port_id ` set (sp # sps) = ?A \<union> ?B" by simp
  have "no_leak (freed h ?A w) w2"
    using no_leak_step [OF _ s2(2,3)] s1 assms(2) by blast
  then have "no_leak (freed h (?A \<union> ?B) w) w2"
    using no_leak_mono [OF no_leak_Un freed_union] s2(3) s1 by blast
  moreover have "shrinks h (?A \<union> ?B) w w2" using shrinks_trans s1 s2(2) by blast
  ultimately show ?case using a b s1 s2 assms(2) unfolding un by simp
qed

lemma keeps_deallocation:
  assumes "tm_ok env"
  shows "keeps net_inv (handle_segment_deallocation env sps h)"
  unfolding handle_segment_deallocation_def
  by (rule keeps_for_each) (simp add: keeps_def, metis assms deallocate_subport_spec prod.collapse)

section \<open>The invariant across the driver's events\<close>

text \<open>
  The contract every operation that touches segments and levels keeps, whoever calls it: under
  the type manager's contract the tables stay consistent, whether the call returns or raises.
\<close>

locale net_operation =
  fixes run :: "net_env \<Rightarrow> 'x \<Rightarrow> (world, 'r) act"
  assumes run_keeps: "tm_ok env \<Longrightarrow> keeps net_inv (run env x)"
begin

lemma run_backed:
  "tm_ok env \<Longrightarrow> net_inv w \<Longrightarrow> l \<in> set (w_levels (snd (run env x w))) \<Longrightarrow>
   \<exists>s \<in> set (w_segments (snd (run env x w))). sg_id s = bl_segment_id l"
  using keepsD [OF run_keeps, of env w x] by (auto simp: net_inv_def backed_def)

lemma runs_keep: "tm_ok env \<Longrightarrow> keeps net_inv (map_act (run env) xs)"
  by (rule keeps_map_act) (rule run_keeps)

end

lemma net_inv_frames [simp]:
  "net_inv (w\<lparr>w_posts := x\<rparr>) = net_inv w" "net_inv (w\<lparr>w_trunk_cache := c\<rparr>) = net_inv w"
  "net_inv (w\<lparr>w_ports := ps\<rparr>) = net_inv w" "net_inv (w\<lparr>w_ovn := cs\<rparr>) = net_inv w"
  "net_inv (w\<lparr>w_ovn_cached := b\<rparr>) = net_inv w" "net_inv (w\<lparr>w_trunks := ts\<rparr>) = net_inv w"
  by (rule net_inv_cong; simp)+

lemma keeps_net_inv_trunk_id [act_rules]: "keeps net_inv (fetch_network_node_trunk_id env)"
  unfolding keeps_def by (metis fetch_trunk_frame(1) net_inv_frames(2) prod.collapse)

lemma keeps_net_inv_post [act_rules]: "keeps net_inv (undersync_post env a g)"
  unfolding undersync_post_def log_and_raise_for_status_def Let_def
  by (intro act_rules) simp

lemma keeps_net_inv_sync [act_rules]: "keeps net_inv (undersync_sync env g)"
  unfolding undersync_sync_def by (intro act_rules)

lemma keeps_allocation [act_rules]:
  "tm_ok env \<Longrightarrow> keeps net_inv (handle_segment_allocation env sps pn h)"
  unfolding keeps_def using handle_segment_allocation_spec by (metis prod.collapse)

lemma keeps_removal [act_rules]:
  "tm_ok env \<Longrightarrow> keeps net_inv (handle_subports_removal env h sps u g)"
  unfolding handle_subports_removal_def by (intro act_rules keeps_deallocation)

lemma keeps_add [act_rules]:
  "tm_ok env \<Longrightarrow> keeps net_inv (add_subports_networks_to_parent_port_switchport env p sps)"
  unfolding add_subports_networks_to_parent_port_switchport_def by (intro act_rules)

lemma keeps_check [act_rules]: "keeps net_inv (check_subports_segmentation_id env sps t)"
  unfolding check_subports_segmentation_id_def by (intro act_rules)

lemma keeps_tenant [act_rules]:
  "tm_ok env \<Longrightarrow> keeps net_inv (handle_tenant_vlan_id_and_switchport_config env sps t)"
  unfolding handle_tenant_vlan_id_and_switchport_config_def by (intro act_rules)

lemma keeps_clean [act_rules]:
  "tm_ok env \<Longrightarrow> keeps net_inv (clean_parent_port_switchport_config env t sps)"
  unfolding clean_parent_port_switchport_config_def by (intro act_rules)

lemmas trunk_handler_defs = subports_added_def subports_added_post_def subports_deleted_precommit_def
  subports_deleted_def trunk_created_def trunk_deleted_precommit_def trunk_deleted_def

lemma keeps_trunk_callback:
  assumes "tm_ok env" shows "keeps net_inv (trunk_callback env ev t sps)"
  using assms by (cases ev) (auto simp: trunk_handler_defs intro!: act_rules)

interpretation trunk_events: net_operation "\<lambda>env (ev, t, sps). trunk_callback env ev t sps"
  by unfold_locales (auto simp: keeps_trunk_callback split: prod.split)

interpretation trunk_configure: net_operation "\<lambda>env (sps, port_id). configure_trunk env sps port_id"
  by unfold_locales (auto simp: configure_trunk_def split: prod.split intro!: act_rules)

interpretation trunk_clean: net_operation "\<lambda>env (sps, host). clean_trunk env sps host"
  by unfold_locales (auto simp: clean_trunk_def split: prod.split intro!: act_rules)

section \<open>Handlers on a bound parent port\<close>

definition parent_bound :: "trunk_row \<Rightarrow> world \<Rightarrow> port_row \<Rightarrow> binding_row \<Rightarrow> bool" where
  "parent_bound t w p b \<longleftrightarrow>
     port_get_object (tk_port_id t) w = Some p \<and> (\<exists>bs. port_bindings (p_id p) w = b # bs) \<and>
     pb_vif_type b = ''other'' \<and> pb_vnic_type b = ''baremetal'' \<and> pb_profile b \<noteq> []"

lemma parent_bound_calls:
  assumes "parent_bound t w p b"
  shows "fetch_port_object (tk_port_id t) w = (Inr p, w)" "parent_port_is_bound p w = (Inr True, w)"
    "first_binding p w = (Inr b, w)"
  using assms
  by (auto simp: parent_bound_def fetch_port_object_def parent_port_is_bound_def first_binding_def)

lemma parent_bound_cong:
  "w_ports w' = w_ports w \<Longrightarrow> w_bindings w' = w_bindings w \<Longrightarrow> parent_bound t w' p b = parent_bound t w p b"
  by (simp add: parent_bound_def port_get_object_def port_bindings_def)

lemma check_frame:
  assumes "check_subports_segmentation_id env sps i w = (r, w')"
  shows "w' = w\<lparr>w_trunk_cache := w_trunk_cache w'\<rparr>"
proof -
  obtain q w1 where f: "fetch_network_node_trunk_id env w = (q, w1)"
    by (cases "fetch_network_node_trunk_id env w")
  have "pure_act (bnd (allowed_tenant_vlan_id_ranges env) (\<lambda>rs. check_segmentation_ids rs sps))"
    by (rule pureI) (intro act_rules)
  from pure_act_snd [OF this, of w1] have "w' = w1"
    using assms f by (auto simp: check_subports_segmentation_id_def split: sum.splits if_splits prod.splits)
  then show ?thesis using fetch_trunk_frame(1) [OF f] by simp
qed

lemma parent_bound_after_check:
  "parent_bound t w p b \<Longrightarrow> check_subports_segmentation_id env sps i w = (r, w') \<Longrightarrow> parent_bound t w' p b"
proof -
  assume "parent_bound t w p b" "check_subports_segmentation_id env sps i w = (r, w')"
  moreover from this obtain c where "w' = w\<lparr>w_trunk_cache := c\<rparr>" using check_frame by blast
  ultimately show ?thesis using parent_bound_cong [of w' w] by simp
qed

text \<open>The subports an event is about.\<close>

definition event_subports :: "trunk_event \<Rightarrow> trunk_row \<Rightarrow> subport list \<Rightarrow> subport list" where
  "event_subports ev t sps =
     (if ev \<in> {TrunkPrecommitCreate, TrunkPrecommitDelete, TrunkAfterDelete} then tk_sub_ports t else sps)"

definition creates :: "trunk_event \<Rightarrow> bool" where
  "creates ev = (ev = SubportsPrecommitCreate \<or> ev = TrunkPrecommitCreate)"

lemma create_callback:
  "creates ev \<Longrightarrow> event_subports ev t sps \<noteq> [] \<or> ev = SubportsPrecommitCreate \<Longrightarrow>
   trunk_callback env ev t sps = handle_tenant_vlan_id_and_switchport_config env (event_subports ev t sps) t"
  by (auto simp: creates_def event_subports_def trunk_handler_defs when_act_def fun_eq_iff)

lemma create_callback_Inr:
  assumes "creates ev" "trunk_callback env ev t sps w = (Inr (), w')" "event_subports ev t sps \<noteq> []"
  obtains w1 p b where "check_subports_segmentation_id env (event_subports ev t sps) (tk_id t) w = (Inr (), w1)"
    and "fetch_port_object (tk_port_id t) w1 = (Inr p, w1)" "parent_port_is_bound p w1 = (Inr b, w1)"
    and "when_act b (add_subports_networks_to_parent_port_switchport env p (event_subports ev t sps)) w1 = (Inr (), w')"
proof -
  have "handle_tenant_vlan_id_and_switchport_config env (event_subports ev t sps) t w = (Inr (), w')"
    using assms create_callback by metis
  then obtain w1 p w2 b w3 where
    c: "check_subports_segmentation_id env (event_subports ev t sps) (tk_id t) w = (Inr (), w1)"
    and f: "fetch_port_object (tk_port_id t) w1 = (Inr p, w2)" and i: "parent_port_is_bound p w2 = (Inr b, w3)"
    and a: "when_act b (add_subports_networks_to_parent_port_switchport env p (event_subports ev t sps)) w3 = (Inr (), w')"
    unfolding handle_tenant_vlan_id_and_switchport_config_def act_Inr by (metis (full_types) old.unit.exhaust)
  have "w2 = w1" "w3 = w2"
    using pure_actD [OF pure_fetch_port_object f] pure_actD [OF pure_parent_port_is_bound i] by auto
  with c f i a that show ?thesis by simp
qed

lemma create_callback_bound:
  assumes "creates ev" "trunk_callback env ev t sps w = (Inr (), w')" "event_subports ev t sps \<noteq> []"
    "parent_bound t w p b"
  obtains w1 pn vs where "check_subports_segmentation_id env (event_subports ev t sps) (tk_id t) w = (Inr (), w1)"
    and "physnet_of b = Some pn" "pn \<noteq> []"
    and "handle_segment_allocation env (event_subports ev t sps) pn (pb_host b) w1 = (Inr vs, w')"
proof (rule create_callback_Inr [OF assms(1-3)])
  fix w1 q c
  assume c: "check_subports_segmentation_id env (event_subports ev t sps) (tk_id t) w = (Inr (), w1)"
    and q: "fetch_port_object (tk_port_id t) w1 = (Inr q, w1)" "parent_port_is_bound q w1 = (Inr c, w1)"
    and a: "when_act c (add_subports_networks_to_parent_port_switchport env q (event_subports ev t sps)) w1 = (Inr (), w')"
  note pb = parent_bound_calls [OF parent_bound_after_check [OF assms(4) c]]
  have "q = p" "c" using q pb by auto
  with a pb(3) show ?thesis
    using that [OF c, of "the (physnet_of b)"]
    by (auto simp: add_subports_networks_to_parent_port_switchport_def elim!: truthyE
        split: if_splits prod.splits sum.splits)
qed

lemma check_Inr_ids:
  assumes "check_subports_segmentation_id env sps i w = (Inr (), w')"
    and "fetch_network_node_trunk_id env w = (Inr j, w1)" "i \<noteq> j"
  obtains rs where "allowed_tenant_vlan_id_ranges env w1 = (Inr rs, w1)"
    "\<forall>sp \<in> set sps. segmentation_id_in_ranges (sp_segmentation_id sp) rs"
proof -
  have "bnd (allowed_tenant_vlan_id_ranges env) (\<lambda>rs. check_segmentation_ids rs sps) w1 = (Inr (), w')"
    using assms by (simp add: check_subports_segmentation_id_def)
  then show ?thesis
    unfolding bnd_Inr check_segmentation_ids_Inr using that pure_actD [OF pure_allowed] by blast
qed

lemma deleted_removal:
  assumes "parent_bound t w p b"
  shows "subports_deleted env t sps w = handle_subports_removal env (pb_host b) sps True (physnet_of b) w"
  using parent_bound_calls [OF assms]
  by (simp add: subports_deleted_def clean_parent_port_switchport_config_def)

lemma precommit_delete_result:
  assumes "parent_bound t w p b"
  shows "subports_deleted_precommit t w =
    (if truthy (physnet_of b) then Inr () else Inl (BadRequest ''port'' (missing_physnet_msg (p_id p))), w)"
  using parent_bound_calls [OF assms]
  by (simp add: subports_deleted_precommit_def validate_parent_port_physnet_def)

definition sync_url :: "net_env \<Rightarrow> string \<Rightarrow> string" where
  "sync_url env g = undersync_url env (if cf_undersync_dry_run env then ''dry-run'' else ''sync'') g"

definition post_ok :: "net_env \<Rightarrow> string \<Rightarrow> bool" where
  "post_ok env g = (case ne_post env (sync_url env g) of Inl _ \<Rightarrow> False | Inr st \<Rightarrow> st < 400 \<or> 600 \<le> st)"

lemma sync_posts:
  "undersync_sync env g w =
     (case ne_post env (sync_url env g) of
        Inl e \<Rightarrow> Inl e | Inr st \<Rightarrow> if 400 \<le> st \<and> st < 600 then Inl UndersyncError else Inr (),
      w\<lparr>w_posts := w_posts w @ [sync_url env g]\<rparr>)"
  by (simp add: undersync_sync_def undersync_post_def sync_url_def log_and_raise_for_status_def Let_def
      split: sum.split)

lemma sync_ok: "post_ok env g \<Longrightarrow> undersync_sync env g w = (Inr (), w\<lparr>w_posts := w_posts w @ [sync_url env g]\<rparr>)"
  by (auto simp: sync_posts post_ok_def split: sum.splits)

section \<open>Runs\<close>

inductive trunk_run :: "net_env \<Rightarrow> world \<Rightarrow> world \<Rightarrow> bool" for env where
  refl: "trunk_run env w w"
| event: "trunk_run env w w' \<Longrightarrow> trunk_run env w (snd (trunk_callback env ev t sps w'))"
| configure: "trunk_run env w w' \<Longrightarrow> trunk_run env w (snd (configure_trunk env sps port_id w'))"
| clean: "trunk_run env w w' \<Longrightarrow> trunk_run env w (snd (clean_trunk env sps host w'))"

lemma trunk_run_inv: "trunk_run env w w' \<Longrightarrow> tm_ok env \<Longrightarrow> net_inv w \<Longrightarrow> net_inv w'"
proof (induction rule: trunk_run.induct)
  case (event w w' ev t sps)
  then show ?case using keepsD [OF trunk_events.run_keeps, of env w' "(ev, t, sps)"] by simp
next
  case (configure w w' sps i)
  then show ?case using keepsD [OF trunk_configure.run_keeps, of env w' "(sps, i)"] by simp
next
  case (clean w w' sps h)
  then show ?case using keepsD [OF trunk_clean.run_keeps, of env w' "(sps, h)"] by simp
qed simp

section \<open>Properties\<close>

text \<open>
  Whatever sequence of trunk events, port bindings and unbindings reaches the driver, and
  whether its calls return or raise, every binding level refers to an existing segment and the
  primary keys of both tables hold.
\<close>
lemma trunk_driver_keeps_tables:
  assumes "tm_ok env" "net_inv w" "trunk_run env w w'"
  shows "backed w' \<and> levels_ok w' \<and> segments_ok w'"
  using trunk_run_inv [OF assms(3,1,2)] by (simp add: net_inv_def)

definition trunk_example :: trunk_row where
  "trunk_example = \<lparr>tk_id = ''t9'', tk_port_id = ''parent'',
     tk_sub_ports = [\<lparr>sp_port_id = ''sub'', sp_segmentation_id = 77\<rparr>]\<rparr>"

definition trunk_world :: world where
  "trunk_world = empty_world\<lparr>
     w_ports := [\<lparr>p_id = ''parent'', p_name = [], p_network_id = ''n0'', p_device_id = [], p_device_owner = []\<rparr>,
       \<lparr>p_id = ''sub'', p_name = [], p_network_id = ''n1'', p_device_id = [], p_device_owner = []\<rparr>],
     w_bindings := [\<lparr>pb_port_id = ''parent'', pb_host = ''h1'', pb_vif_type = ''other'',
       pb_vnic_type = ''baremetal'', pb_profile = [(''physical_network'', ''f20-1'')]\<rparr>],
     w_ranges := [\<lparr>nr_network_type = ''vlan'', nr_shared = True, nr_minimum = 1000, nr_maximum = 2000\<rparr>],
     w_trunk_cache := Some ''t1''\<rparr>"

definition trunk_world_added :: world where
  "trunk_world_added = trunk_world\<lparr>
     w_segments := [\<lparr>sg_id = ''s'', sg_network_id = ''n1'', sg_network_type = ''vlan'',
       sg_physical_network = Some ''f20-1'', sg_segmentation_id = Some 2000, sg_is_dynamic = True\<rparr>],
     w_levels := [\<lparr>bl_port_id = ''sub'', bl_host = ''h1'', bl_level = 0, bl_driver = ''understack'',
       bl_segment_id = ''s''\<rparr>]\<rparr>"

lemma trunk_world_create:
  "trunk_callback env_example TrunkPrecommitCreate trunk_example [] trunk_world = (Inr (), trunk_world_added)"
  by code_simp

lemma trunk_world_inv: "net_inv trunk_world"
  by (simp add: net_inv_def backed_def levels_ok_def segments_ok_def trunk_world_def empty_world_def)

text \<open>
  C3: When a trunk other than the network node's is created with subports, or subports are
  added to it, and the handler returns, no subport uses a segmentation id from a shared VLAN
  range: tenants cannot map a VLAN that may be somebody's native VLAN.
\<close>
theorem tenant_subports_avoid_native_vlans:
  assumes "creates ev" "trunk_callback env ev t sps w = (Inr (), w')"
    and "ranges_ordered w" "fetch_network_node_trunk_id env w = (Inr j, w1)" "tk_id t \<noteq> j"
    and "sp \<in> set (event_subports ev t sps)"
  shows "\<not> in_shared_range w (sp_segmentation_id sp)"
proof -
  have ne: "event_subports ev t sps \<noteq> []" using assms(6) by auto
  obtain c where w1: "w1 = w\<lparr>w_trunk_cache := c\<rparr>" using fetch_trunk_frame(1) [OF assms(4)] by blast
  have ord: "ranges_ordered w1" and same: "in_shared_range w1 = in_shared_range w"
    using assms(3) by (simp_all add: w1 ranges_ordered_def in_shared_range_def fetch_vlan_network_segment_ranges_def fun_eq_iff)
  obtain w2 where "check_subports_segmentation_id env (event_subports ev t sps) (tk_id t) w = (Inr (), w2)"
    by (rule create_callback_Inr [OF assms(1,2) ne])
  then obtain rs where "allowed_tenant_vlan_id_ranges env w1 = (Inr rs, w1)"
    "segmentation_id_in_ranges (sp_segmentation_id sp) rs"
    using check_Inr_ids assms(4-6) by metis
  then show ?thesis using allowed_avoids [OF ord] same by simp
qed

theorem tenant_subports_avoid_native_vlans_witness:
  "\<not> in_shared_range trunk_world 77 \<and> in_shared_range trunk_world 1500"
proof -
  have c: "creates TrunkPrecommitCreate" by (simp add: creates_def)
  have o: "ranges_ordered trunk_world" by code_simp
  have f: "fetch_network_node_trunk_id env_example trunk_world = (Inr ''t1'', trunk_world)" by code_simp
  have t: "tk_id trunk_example \<noteq> ''t1''" by code_simp
  have m: "\<lparr>sp_port_id = ''sub'', sp_segmentation_id = 77\<rparr>
      \<in> set (event_subports TrunkPrecommitCreate trunk_example [])"
    by (simp add: event_subports_def trunk_example_def)
  have "in_shared_range trunk_world 1500" by code_simp
  then show ?thesis
    using tenant_subports_avoid_native_vlans [OF c trunk_world_create o f t m] by simp
qed

text \<open>
  C4: When the create handlers return for a trunk whose parent port is bound, every subport has
  a level-0 binding on the parent's host, to a VLAN segment of the subport's own network on the
  physical network of the parent.
\<close>
theorem bound_trunk_wires_subports:
  assumes "tm_ok env" "creates ev" "trunk_callback env ev t sps w = (Inr (), w')"
    and "parent_bound t w p b" "sp \<in> set (event_subports ev t sps)"
  shows "\<exists>pn v. physnet_of b = Some pn \<and> pn \<noteq> [] \<and> wired pn (pb_host b) (sp_port_id sp) v w'"
proof -
  have ne: "event_subports ev t sps \<noteq> []" using assms(5) by auto
  obtain w1 pn vs where pn: "physnet_of b = Some pn" "pn \<noteq> []"
    and a: "handle_segment_allocation env (event_subports ev t sps) pn (pb_host b) w1 = (Inr vs, w')"
    by (rule create_callback_bound [OF assms(2,3) ne assms(4)])
  have "list_all2 (\<lambda>sp v. wired pn (pb_host b) (sp_port_id sp) v w') (event_subports ev t sps) vs"
    using handle_segment_allocation_spec [OF assms(1) a] by simp
  then obtain v where "wired pn (pb_host b) (sp_port_id sp) v w'"
    using assms(5) by (metis in_set_conv_nth list_all2_conv_all_nth)
  with pn show ?thesis by blast
qed

lemma trunk_world_bound:
  "parent_bound trunk_example trunk_world
     \<lparr>p_id = ''parent'', p_name = [], p_network_id = ''n0'', p_device_id = [], p_device_owner = []\<rparr>
     \<lparr>pb_port_id = ''parent'', pb_host = ''h1'', pb_vif_type = ''other'', pb_vnic_type = ''baremetal'',
      pb_profile = [(''physical_network'', ''f20-1'')]\<rparr>"
  by (simp add: parent_bound_def trunk_world_def trunk_example_def port_get_object_def port_bindings_def empty_world_def)

theorem bound_trunk_wires_subports_witness:
  "\<exists>pn v. pn = ''f20-1'' \<and> wired pn ''h1'' ''sub'' v trunk_world_added"
proof -
  have c: "creates TrunkPrecommitCreate" by (simp add: creates_def)
  have m: "\<lparr>sp_port_id = ''sub'', sp_segmentation_id = 77\<rparr>
      \<in> set (event_subports TrunkPrecommitCreate trunk_example [])"
    by (simp add: event_subports_def trunk_example_def)
  show ?thesis
    using bound_trunk_wires_subports [OF tm_ok_example c trunk_world_create trunk_world_bound m]
    by (simp add: physnet_of_def dget_def)
qed



text \<open>
  A bound parent port without a physical network: the precommit handlers of subport
  creation and deletion refuse with \<open>BadRequest\<close> while the tables are untouched, and a deletion
  that reaches the postcommit handler nevertheless releases the bindings and syncs nothing.
\<close>
lemma missing_physnet_handled:
  assumes "parent_bound t w p b" "\<not> truthy (physnet_of b)"
  shows "subports_deleted_precommit t w = (Inl (BadRequest ''port'' (missing_physnet_msg (p_id p))), w) \<and>
    (\<forall>env sps r w'. subports_added env t sps w = (r, w') \<longrightarrow>
       (\<exists>e. r = Inl e) \<and> w_levels w' = w_levels w \<and> w_segments w' = w_segments w) \<and>
    (\<forall>env sps. tm_ok env \<and> tm_release_returns env \<and> net_inv w \<longrightarrow>
       (\<exists>w'. subports_deleted env t sps w = (Inr (), w') \<and> w_posts w' = w_posts w \<and>
         shrinks (pb_host b) (sp_port_id ` set sps) w w'))"
proof (intro conjI allI impI)
  show "subports_deleted_precommit t w = (Inl (BadRequest ''port'' (missing_physnet_msg (p_id p))), w)"
    using assms(2) by (simp add: precommit_delete_result [OF assms(1)])
next
  fix env sps r w' assume a: "subports_added env t sps w = (r, w')"
  obtain q w1 where c: "check_subports_segmentation_id env sps (tk_id t) w = (q, w1)"
    by (cases "check_subports_segmentation_id env sps (tk_id t) w")
  note pb = parent_bound_calls [OF parent_bound_after_check [OF assms(1) c]]
  obtain x where x: "w1 = w\<lparr>w_trunk_cache := x\<rparr>" using check_frame [OF c] by blast
  have "w' = w1 \<and> (\<exists>e. r = Inl e)"
    using a c pb assms(2)
    by (cases q) (auto simp: subports_added_def handle_tenant_vlan_id_and_switchport_config_def
        add_subports_networks_to_parent_port_switchport_def)
  then show "\<exists>e. r = Inl e" "w_levels w' = w_levels w" "w_segments w' = w_segments w"
    by (simp_all add: x)
next
  fix env sps assume "tm_ok env \<and> tm_release_returns env \<and> net_inv w"
  then obtain w1 where "handle_segment_deallocation env sps (pb_host b) w = (Inr (), w1)"
    and "shrinks (pb_host b) (sp_port_id ` set sps) w w1"
    using handle_segment_deallocation_spec by blast
  then show "\<exists>w'. subports_deleted env t sps w = (Inr (), w') \<and> w_posts w' = w_posts w \<and>
      shrinks (pb_host b) (sp_port_id ` set sps) w w'"
    using assms(2) same_restD(3) [of w w1]
    by (auto simp: deleted_removal [OF assms(1)] handle_subports_removal_def shrinks_def)
qed

end
