(* ===== verification/Svi.thy ===== *)
theory Svi
  imports Vrf
begin

text \<open>
  \<open>neutron_understack/l3_router/svi.py\<close>: the address-scope rules of SVI routers, reached both
  from the \<open>BEFORE_CREATE\<close> callback of a router interface and from the port precommit hooks of
  the mechanism driver.  The core, L3 and flavor plugins are parameters (\<open>svi_env\<close>).
\<close>

section \<open>Environment\<close>

record l3_router =
  lr_id :: string
  lr_name :: "string option"
  lr_project_id :: "string option"
  lr_flavor_id :: flavor_attr

record fixed_ip =
  ip_subnet_id :: "string option"

record svi_port =
  vp_device_owner :: string
  vp_device_id :: string
  vp_network_id :: string
  vp_id :: string
  vp_fixed_ips :: "fixed_ip list"

record svi_env =
  se_get_flavor :: "string \<Rightarrow> exn + string"
  se_next_providers :: "string \<Rightarrow> exn + string list"
  se_get_router :: "string \<Rightarrow> exn + l3_router"
  se_get_subnet :: "string \<Rightarrow> exn + (int \<times> string option)"
  se_get_subnetpool :: "string \<Rightarrow> exn + string option"
  se_get_ports :: "string \<Rightarrow> string \<Rightarrow> exn + svi_port list"

definition DEVICE_OWNER_ROUTER_INTF :: string where
  "DEVICE_OWNER_ROUTER_INTF = ''network:router_interface''"

definition DEVICE_OWNER_ROUTER_GW :: string where
  "DEVICE_OWNER_ROUTER_GW = ''network:router_gateway''"

section \<open>Definitions\<close>

definition svi_provider_driver :: string where
  "svi_provider_driver = ''neutron_understack.l3_router.svi.Svi''"

text \<open>
  The driver of a flavor's first provider, looked up in the same way by the SVI and Palo Alto
  providers.
\<close>

definition flavor_driver :: "svi_env \<Rightarrow> string \<Rightarrow> exn + string" where
  "flavor_driver env flavor_id =
     sbnd (se_get_flavor env flavor_id) (\<lambda>fid.
     sbnd (se_next_providers env fid) (\<lambda>providers.
       case providers of [] \<Rightarrow> Inl IndexError | driver # _ \<Rightarrow> Inr driver))"

definition is_svi_router :: "svi_env \<Rightarrow> l3_router \<Rightarrow> exn + bool" where
  "is_svi_router env router =
     (case lr_flavor_id router of
        FlavorNone \<Rightarrow> Inr False
      | FlavorNotSpecified \<Rightarrow> Inr False
      | FlavorId fid \<Rightarrow>
          if fid = [] then Inr False
          else sbnd (flavor_driver env fid) (\<lambda>driver. Inr (driver = svi_provider_driver)))"

definition get_subnet_address_scope :: "svi_env \<Rightarrow> string \<Rightarrow> exn + (int \<times> string option)" where
  "get_subnet_address_scope env subnet_id =
     sbnd (se_get_subnet env subnet_id) (\<lambda>(ip_version, subnetpool_id).
       if \<not> truthy subnetpool_id then Inr (ip_version, None)
       else sbnd (se_get_subnetpool env (the subnetpool_id)) (\<lambda>scope_id. Inr (ip_version, scope_id)))"

definition port_subnet_ids :: "svi_port \<Rightarrow> string list" where
  "port_subnet_ids port = map (\<lambda>ip. the (ip_subnet_id ip)) (filter (\<lambda>ip. truthy (ip_subnet_id ip)) (vp_fixed_ips port))"

definition get_existing_router_subnet_ids :: "svi_env \<Rightarrow> string \<Rightarrow> exn + string list" where
  "get_existing_router_subnet_ids env router_id =
     sbnd (se_get_ports env router_id DEVICE_OWNER_ROUTER_INTF) (\<lambda>ports.
       Inr (concat (map port_subnet_ids ports)))"

definition router_interface_attach_mode :: "string list \<Rightarrow> string" where
  "router_interface_attach_mode interface_info_keys =
     (if ''port_id'' \<in> set interface_info_keys then ''port''
      else if ''subnet_id'' \<in> set interface_info_keys then ''subnet''
      else ''unknown'')"

text \<open>Rule 1: the loop over the new subnets, building the scopes by IP version.\<close>

fun new_subnet_scopes ::
  "svi_env \<Rightarrow> (int \<times> string) list \<Rightarrow> string list \<Rightarrow> exn + (int \<times> string) list"
where
  "new_subnet_scopes env new_scopes [] = Inr new_scopes"
| "new_subnet_scopes env new_scopes (subnet_id # rest) =
     sbnd (get_subnet_address_scope env subnet_id) (\<lambda>(ip_version, scope_id).
       if ip_version = 6 then
         Inl (BadRequest ''router'' (''IPv6 subnet '' @ subnet_id @ '' cannot be attached to an '' @
           ''SVI router. SVI routers currently support IPv4 subnets only.''))
       else if \<not> truthy scope_id then
         Inl (BadRequest ''router'' (''Subnet '' @ subnet_id @ '' must belong to an address scope '' @
           ''to attach to an SVI router.''))
       else if map_of new_scopes ip_version \<noteq> None \<and> map_of new_scopes ip_version \<noteq> scope_id then
         Inl (BadRequest ''router'' (''address scope '' @ the scope_id @ '' differs from scope '' @
           the (map_of new_scopes ip_version) @ '' in the same request.''))
       else new_subnet_scopes env (dput ip_version (the scope_id) new_scopes) rest)"

text \<open>Rule 2: the loop over the subnets already on the router.\<close>

fun check_existing_scopes ::
  "svi_env \<Rightarrow> string \<Rightarrow> (int \<times> string) list \<Rightarrow> string list \<Rightarrow> exn + unit"
where
  "check_existing_scopes env router_id new_scopes [] = Inr ()"
| "check_existing_scopes env router_id new_scopes (existing_subnet_id # rest) =
     sbnd (get_subnet_address_scope env existing_subnet_id) (\<lambda>(ip_version, existing_scope).
       case map_of new_scopes ip_version of
         None \<Rightarrow> check_existing_scopes env router_id new_scopes rest
       | Some new_scope \<Rightarrow>
           if \<not> truthy existing_scope then
             Inl (BadRequest ''router'' (''Existing subnet '' @ existing_subnet_id @ '' on router '' @ router_id @
               '' must belong to an address scope before attaching more '' @ ''subnets to an SVI router.''))
           else if existing_scope \<noteq> Some new_scope then
             Inl (BadRequest ''router'' (''address scope '' @ new_scope @ '' differs from scope '' @
               the existing_scope @ '' already in use on router '' @ router_id @ ''.''))
           else check_existing_scopes env router_id new_scopes rest)"

definition validate_address_scope_rules ::
  "svi_env \<Rightarrow> string \<Rightarrow> string list \<Rightarrow> exn + (int \<times> string) list"
where
  "validate_address_scope_rules env router_id new_subnet_ids =
     sbnd (new_subnet_scopes env [] new_subnet_ids) (\<lambda>new_scopes.
     sbnd (get_existing_router_subnet_ids env router_id) (\<lambda>existing.
     sbnd (check_existing_scopes env router_id new_scopes existing) (\<lambda>_.
       Inr new_scopes)))"

definition validate_svi_router_port :: "svi_env \<Rightarrow> svi_port \<Rightarrow> exn + bool" where
  "validate_svi_router_port env port =
     (if vp_device_owner port \<noteq> DEVICE_OWNER_ROUTER_INTF then Inr False
      else if vp_device_id port = [] then Inr False
      else
        sbnd (se_get_router env (vp_device_id port)) (\<lambda>router.
        sbnd (is_svi_router env router) (\<lambda>svi.
          if \<not> svi then Inr False
          else sbnd (validate_address_scope_rules env (vp_device_id port) (port_subnet_ids port))
                 (\<lambda>_. Inr True))))"

definition reject_svi_external_gateway :: "svi_env \<Rightarrow> string \<Rightarrow> exn + unit" where
  "reject_svi_external_gateway env router_id =
     sbnd (se_get_router env router_id) (\<lambda>router.
     sbnd (is_svi_router env router) (\<lambda>svi.
       if \<not> svi then Inr ()
       else Inl (BadRequest ''router'' ''SVI routers cannot have an external gateway.'')))"

definition validate_svi_router_interface ::
  "svi_env \<Rightarrow> l3_router \<Rightarrow> string \<Rightarrow> svi_port \<Rightarrow> exn + unit"
where
  "validate_svi_router_interface env router router_id port =
     sbnd (is_svi_router env router) (\<lambda>svi.
       if \<not> svi then Inr ()
       else sbnd (validate_address_scope_rules env router_id (port_subnet_ids port)) (\<lambda>_. Inr ()))"

section \<open>Specification\<close>

text \<open>The address scopes the subnets of a list have, by family.\<close>

definition has_scope :: "svi_env \<Rightarrow> string \<Rightarrow> int \<Rightarrow> string \<Rightarrow> bool" where
  "has_scope env subnet v scope \<longleftrightarrow> get_subnet_address_scope env subnet = Inr (v, Some scope) \<and> scope \<noteq> []"

definition one_scope :: "svi_env \<Rightarrow> string set \<Rightarrow> bool" where
  "one_scope env subnets \<longleftrightarrow>
     (\<forall>s \<in> subnets. \<exists>v scope. has_scope env s v scope) \<and>
     (\<forall>s \<in> subnets. \<forall>t \<in> subnets. \<forall>v a b. has_scope env s v a \<and> has_scope env t v b \<longrightarrow> a = b)"

text \<open>Two subnets of one family agree on a scope.\<close>

definition agree :: "svi_env \<Rightarrow> string \<Rightarrow> string \<Rightarrow> bool" where
  "agree env s e \<longleftrightarrow> (\<forall>v a x. has_scope env s v a \<and> get_subnet_address_scope env e = Inr (v, x) \<longrightarrow> x = Some a)"

section \<open>Lemmas\<close>

lemma has_scope_fun: "has_scope env s v a \<Longrightarrow> has_scope env s v' b \<Longrightarrow> v = v' \<and> a = b"
  by (auto simp: has_scope_def)

lemma one_scopeD:
  "one_scope env S \<Longrightarrow> s \<in> S \<Longrightarrow> t \<in> S \<Longrightarrow> has_scope env s v a \<Longrightarrow> has_scope env t v b \<Longrightarrow> a = b"
  unfolding one_scope_def by blast

lemma new_subnet_scopes_Inr:
  assumes "new_subnet_scopes env sc0 ss = Inr sc"
  shows "(\<forall>s \<in> set ss. \<exists>v a. has_scope env s v a \<and> v \<noteq> 6 \<and> map_of sc v = Some a) \<and>
    (\<forall>v a. map_of sc0 v = Some a \<longrightarrow> map_of sc v = Some a) \<and>
    (\<forall>v a. map_of sc v = Some a \<longrightarrow> map_of sc0 v = Some a \<or> (\<exists>s \<in> set ss. has_scope env s v a))"
  using assms
proof (induction ss arbitrary: sc0)
  case Nil
  then show ?case by simp
next
  case (Cons s ss)
  obtain v x where g: "get_subnet_address_scope env s = Inr (v, x)"
    using Cons.prems by (auto simp: sbnd_Inr)
  with Cons.prems obtain a where a: "x = Some a" "a \<noteq> []" "v \<noteq> 6" "map_of sc0 v = None \<or> map_of sc0 v = Some a"
    and rest: "new_subnet_scopes env (dput v a sc0) ss = Inr sc"
    by (cases x) (auto split: if_splits)
  have hs: "has_scope env s v a" using g a by (simp add: has_scope_def)
  note ih = Cons.IH [OF rest, unfolded map_of_dput]
  have v: "map_of sc v = Some a" using ih by simp
  have ext: "map_of sc u = Some b" if "map_of sc0 u = Some b" for u b
    using ih that a(4) by (cases "u = v") auto
  have src: "map_of sc0 u = Some b \<or> (\<exists>t \<in> set (s # ss). has_scope env t u b)" if "map_of sc u = Some b" for u b
  proof (cases "u = v")
    case True
    then show ?thesis using that v hs by simp
  next
    case False
    then have "((map_of sc0)(v \<mapsto> a)) u = map_of sc0 u" by simp
    then show ?thesis using ih that by (metis list.set_intros(2))
  qed
  have "\<exists>u b. has_scope env t u b \<and> u \<noteq> 6 \<and> map_of sc u = Some b" if "t \<in> set (s # ss)" for t
    using that conjunct1 [OF ih] hs a(3) v by (metis set_ConsD)
  with ext src show ?case by blast
qed

lemma new_subnet_scopes_complete:
  assumes "\<forall>s \<in> set ss. \<exists>v a. has_scope env s v a \<and> v \<noteq> 6 \<and> (map_of sc0 v = None \<or> map_of sc0 v = Some a)"
    "one_scope env (set ss)"
  shows "\<exists>sc. new_subnet_scopes env sc0 ss = Inr sc"
  using assms
proof (induction ss arbitrary: sc0)
  case (Cons s ss)
  from Cons.prems(1) obtain v a where s: "has_scope env s v a" "v \<noteq> 6" "map_of sc0 v = None \<or> map_of sc0 v = Some a"
    by auto
  have one: "one_scope env (set ss)" using Cons.prems(2) by (auto simp: one_scope_def)
  have "\<exists>u b. has_scope env t u b \<and> u \<noteq> 6 \<and> (map_of (dput v a sc0) u = None \<or> map_of (dput v a sc0) u = Some b)"
    if "t \<in> set ss" for t
  proof -
    obtain u b where t: "has_scope env t u b" "u \<noteq> 6" "map_of sc0 u = None \<or> map_of sc0 u = Some b"
      using Cons.prems(1) \<open>t \<in> set ss\<close> by auto
    moreover have "u = v \<Longrightarrow> b = a" using one_scopeD [OF Cons.prems(2), of s t v a b] s(1) t(1) that by simp
    ultimately show ?thesis by (intro exI [of _ u] exI [of _ b]) auto
  qed
  then obtain sc where "new_subnet_scopes env (dput v a sc0) ss = Inr sc" using Cons.IH [OF _ one] by blast
  with s show ?case by (auto simp: has_scope_def)
qed simp

lemma check_existing_Inr_iff:
  "check_existing_scopes env r sc es = Inr () \<longleftrightarrow>
   (\<forall>e \<in> set es. \<exists>v x. get_subnet_address_scope env e = Inr (v, x) \<and>
      (\<forall>a. map_of sc v = Some a \<longrightarrow> x = Some a \<and> a \<noteq> []))"
proof (induction es)
  case (Cons e es)
  show ?case
  proof (cases "get_subnet_address_scope env e")
    case (Inr p)
    obtain v x where "p = (v, x)" by (cases p)
    with Inr Cons show ?thesis by (cases x) (auto split: option.split)
  qed simp
qed simp

lemma validate_rules_Inr:
  assumes "validate_address_scope_rules env r new = Inr sc"
  obtains existing where "get_existing_router_subnet_ids env r = Inr existing"
    and "\<forall>s \<in> set new. \<exists>v a. has_scope env s v a \<and> v \<noteq> 6 \<and> map_of sc v = Some a"
    and "\<forall>e \<in> set existing. \<exists>v x. get_subnet_address_scope env e = Inr (v, x) \<and>
      (\<forall>a. map_of sc v = Some a \<longrightarrow> x = Some a \<and> a \<noteq> [])"
proof -
  obtain existing where "new_subnet_scopes env [] new = Inr sc"
    "get_existing_router_subnet_ids env r = Inr existing" "check_existing_scopes env r sc existing = Inr ()"
    using assms by (auto simp: validate_address_scope_rules_def sbnd_Inr)
  then show ?thesis using that new_subnet_scopes_Inr [of env "[]" new sc] check_existing_Inr_iff by blast
qed

lemma one_scope_extend:
  assumes "validate_address_scope_rules env r new = Inr sc"
    "get_existing_router_subnet_ids env r = Inr existing" "one_scope env (set existing)"
  shows "one_scope env (set existing \<union> set new)"
proof (rule validate_rules_Inr [OF assms(1)])
  fix ex assume "get_existing_router_subnet_ids env r = Inr ex"
    and n: "\<forall>s \<in> set new. \<exists>v a. has_scope env s v a \<and> v \<noteq> 6 \<and> map_of sc v = Some a"
    and e: "\<forall>e \<in> set ex. \<exists>v x. get_subnet_address_scope env e = Inr (v, x) \<and>
      (\<forall>a. map_of sc v = Some a \<longrightarrow> x = Some a \<and> a \<noteq> [])"
  then have [simp]: "ex = existing" using assms(2) by simp
  have new: "map_of sc v = Some a" if "s \<in> set new" "has_scope env s v a" for s v a
    using n that has_scope_fun by metis
  have old: "b = a" if "e \<in> set existing" "has_scope env e v b" "map_of sc v = Some a" for e v a b
    using e that by (force simp: has_scope_def)
  show ?thesis
    unfolding one_scope_def
  proof (intro conjI ballI allI impI)
    fix s assume "s \<in> set existing \<union> set new"
    then show "\<exists>v scope. has_scope env s v scope" using n assms(3) unfolding one_scope_def by blast
  next
    fix s t v a b
    assume s: "s \<in> set existing \<union> set new" and t: "t \<in> set existing \<union> set new"
      and h: "has_scope env s v a \<and> has_scope env t v b"
    show "a = b"
    proof (cases "s \<in> set existing \<and> t \<in> set existing")
      case True
      then show ?thesis using assms(3) h unfolding one_scope_def by blast
    next
      case False
      then show ?thesis using s t h new old by (metis UnE option.inject)
    qed
  qed
qed

section \<open>Properties\<close>

text \<open>
  C8: The scope rules are exact.  When the subnets already on the router are found, validation
  of new subnets passes if and only if every new subnet is outside IPv6 and has an address
  scope, the new subnets agree on it per IP version, and every subnet already on the router
  can be looked up and has that same scope if it is of the same IP version.
\<close>
theorem svi_scope_rules_exact:
  assumes "get_existing_router_subnet_ids env r = Inr existing"
  shows "(\<exists>sc. validate_address_scope_rules env r new = Inr sc) \<longleftrightarrow>
    (\<forall>s \<in> set new. \<exists>v a. has_scope env s v a \<and> v \<noteq> 6) \<and> one_scope env (set new) \<and>
    (\<forall>e \<in> set existing. (\<exists>v x. get_subnet_address_scope env e = Inr (v, x)) \<and> (\<forall>s \<in> set new. agree env s e))"
    (is "?L \<longleftrightarrow> ?R")
proof
  assume ?L
  then obtain sc where sc: "validate_address_scope_rules env r new = Inr sc" by blast
  show ?R
  proof (rule validate_rules_Inr [OF sc])
    fix ex assume "get_existing_router_subnet_ids env r = Inr ex"
      and n: "\<forall>s \<in> set new. \<exists>v a. has_scope env s v a \<and> v \<noteq> 6 \<and> map_of sc v = Some a"
      and e: "\<forall>e \<in> set ex. \<exists>v x. get_subnet_address_scope env e = Inr (v, x) \<and>
        (\<forall>a. map_of sc v = Some a \<longrightarrow> x = Some a \<and> a \<noteq> [])"
    then have [simp]: "ex = existing" using assms by simp
    have new: "map_of sc v = Some a" if "s \<in> set new" "has_scope env s v a" for s v a
      using n that has_scope_fun by metis
    have "one_scope env (set new)" using n new unfolding one_scope_def by (metis option.inject)
    moreover have "agree env s q" if "q \<in> set existing" "s \<in> set new" for q s
      using e new that unfolding agree_def by fastforce
    moreover have "\<forall>s \<in> set new. \<exists>v a. has_scope env s v a \<and> v \<noteq> 6" using n by blast
    moreover have "\<forall>q \<in> set existing. \<exists>v x. get_subnet_address_scope env q = Inr (v, x)" using e by auto
    ultimately show ?R by blast
  qed
next
  assume R: ?R
  then obtain sc where sc: "new_subnet_scopes env [] new = Inr sc"
    using new_subnet_scopes_complete [of new env "[]"] by auto
  note s = new_subnet_scopes_Inr [OF sc]
  have "check_existing_scopes env r sc existing = Inr ()"
    unfolding check_existing_Inr_iff
  proof
    fix e assume e: "e \<in> set existing"
    then obtain v x where g: "get_subnet_address_scope env e = Inr (v, x)" using R by blast
    have "x = Some a \<and> a \<noteq> []" if "map_of sc v = Some a" for a
    proof -
      have "map_of [] v = Some a \<or> (\<exists>t \<in> set new. has_scope env t v a)" using s that by blast
      then obtain t where "t \<in> set new" "has_scope env t v a" by auto
      then show ?thesis using R e g unfolding agree_def has_scope_def by blast
    qed
    with g show "\<exists>v x. get_subnet_address_scope env e = Inr (v, x) \<and>
        (\<forall>a. map_of sc v = Some a \<longrightarrow> x = Some a \<and> a \<noteq> [])" by blast
  qed
  then show ?L using assms sc by (simp add: validate_address_scope_rules_def)
qed

text \<open>A concrete environment: one SVI router with a subnet in scope A.\<close>

definition svi_env_example :: svi_env where
  "svi_env_example = \<lparr>
     se_get_flavor = (\<lambda>f. Inr f),
     se_next_providers = (\<lambda>f. Inr [if f = ''svi'' then svi_provider_driver else ''other'']),
     se_get_router = (\<lambda>r. Inr \<lparr>lr_id = r, lr_name = None, lr_project_id = None, lr_flavor_id = FlavorId ''svi''\<rparr>),
     se_get_subnet = (\<lambda>s. Inr (4, Some (s @ ''p''))),
     se_get_subnetpool = (\<lambda>p. Inr (if p = ''bp'' then Some ''B'' else Some ''A'')),
     se_get_ports = (\<lambda>r d. Inr [\<lparr>vp_device_owner = d, vp_device_id = r, vp_network_id = ''n'', vp_id = ''p0'',
       vp_fixed_ips = [\<lparr>ip_subnet_id = Some ''a0''\<rparr>]\<rparr>])\<rparr>"

theorem svi_scope_rules_exact_witness:
  "(\<exists>sc. validate_address_scope_rules svi_env_example ''r'' [''a1''] = Inr sc) \<and>
   \<not> (\<exists>sc. validate_address_scope_rules svi_env_example ''r'' [''b''] = Inr sc)"
proof -
  have ex: "get_existing_router_subnet_ids svi_env_example ''r'' = Inr [''a0'']" by code_simp
  have g: "get_subnet_address_scope svi_env_example ''a0'' = Inr (4, Some ''A'')"
    "get_subnet_address_scope svi_env_example ''a1'' = Inr (4, Some ''A'')"
    "get_subnet_address_scope svi_env_example ''b'' = Inr (4, Some ''B'')" by code_simp+
  have "\<exists>sc. validate_address_scope_rules svi_env_example ''r'' [''a1''] = Inr sc"
    unfolding svi_scope_rules_exact [OF ex] by (auto simp: has_scope_def one_scope_def agree_def g)
  moreover have "\<not> (\<exists>sc. validate_address_scope_rules svi_env_example ''r'' [''b''] = Inr sc)"
    unfolding svi_scope_rules_exact [OF ex] by (auto simp: has_scope_def one_scope_def agree_def g)
  ultimately show ?thesis by blast
qed

text \<open>
  An SVI router whose interfaces share one address scope per IP version still does after
  any attachment the precommit check lets through.
\<close>
lemma svi_router_keeps_one_scope:
  assumes "validate_svi_router_port env port = Inr True"
    and "get_existing_router_subnet_ids env (vp_device_id port) = Inr existing" "one_scope env (set existing)"
  shows "one_scope env (set existing \<union> set (port_subnet_ids port))"
proof -
  obtain sc where "validate_address_scope_rules env (vp_device_id port) (port_subnet_ids port) = Inr sc"
    using assms(1) by (auto simp: validate_svi_router_port_def sbnd_Inr split: if_splits)
  from one_scope_extend [OF this assms(2,3)] show ?thesis .
qed

text \<open>
  The two entry points enforce the same rules: for an interface port of a router that can
  be fetched, the port precommit check raises exactly when the \<open>BEFORE_CREATE\<close> callback does,
  and with the same error.
\<close>
lemma svi_entry_points_agree:
  assumes "vp_device_owner port = DEVICE_OWNER_ROUTER_INTF" "vp_device_id port \<noteq> []"
    and "se_get_router env (vp_device_id port) = Inr router"
  shows "validate_svi_router_interface env router (vp_device_id port) port
    = sbnd (validate_svi_router_port env port) (\<lambda>_. Inr ())"
  using assms
  by (simp add: validate_svi_router_interface_def validate_svi_router_port_def sbnd_def split: sum.split)

end
