(* ===== verification/Routers.thy ===== *)
theory Routers
  imports Trunk_Driver Svi
begin

text \<open>
  \<open>neutron_understack/routers.py\<close>: the uplink of a routed network to the network node (a shared
  Neutron port that is a subport of the network node trunk, and a localnet port in OVN), created
  with the first router port of a network and removed with the last, and the repair of the
  network's HA chassis group for VXLAN gateways.

  The OVN databases are read through parameters (\<open>router_env\<close>); the commands of a committed
  transaction are appended to \<open>w_ovn\<close>.  Calls on the trunk plugin re-enter \<open>Trunk_Driver\<close> through
  the plugin's own events, so they are parameters on the whole world.
\<close>

section \<open>Environment\<close>

record router_env =
  re_net :: net_env
  re_get_router :: "string \<Rightarrow> exn + l3_router"
  re_mech_drivers :: "string list"
  re_ovn_name :: "string \<Rightarrow> string"
  re_lrp_name :: "string \<Rightarrow> string"
  re_transaction :: "ovn_cmd list \<Rightarrow> exn + unit"
  re_hcg_members :: "string \<Rightarrow> exn + string list option"
  re_ha_chassis :: "exn + string list"
  re_chassis_live :: "string \<Rightarrow> exn + bool"
  re_sync_hcg :: "string \<Rightarrow> string \<Rightarrow> (string \<times> int) list \<Rightarrow> exn + string"
  re_router_chassis :: "string \<Rightarrow> exn + string option option"
  re_lrp_exists :: "string \<Rightarrow> exn + bool"

definition ROUTER_INTERFACE_AND_GW :: "string list" where
  "ROUTER_INTERFACE_AND_GW = [DEVICE_OWNER_ROUTER_INTF, DEVICE_OWNER_ROUTER_GW]"

section \<open>Creating the uplink\<close>

definition router_has_flavor :: "router_env \<Rightarrow> string \<Rightarrow> exn + bool" where
  "router_has_flavor env router_id =
     sbnd (re_get_router env router_id) (\<lambda>router.
       Inr (case lr_flavor_id router of
              FlavorNone \<Rightarrow> False | FlavorNotSpecified \<Rightarrow> False | FlavorId f \<Rightarrow> f \<noteq> []))"

definition router_ports_on_network :: "string \<Rightarrow> world \<Rightarrow> port_row list" where
  "router_ports_on_network network_id w =
     filter (\<lambda>p. p_network_id p = network_id \<and> p_device_owner p \<in> set ROUTER_INTERFACE_AND_GW) (w_ports w)"

definition is_only_router_port_on_network :: "string \<Rightarrow> world \<Rightarrow> bool" where
  "is_only_router_port_on_network network_id w =
     (\<not> length (router_ports_on_network network_id w) > 1)"

definition add_subport_to_trunk :: "net_env \<Rightarrow> port_row \<Rightarrow> segment_row \<Rightarrow> (world, unit) act" where
  "add_subport_to_trunk env shared_port segment =
     bnd (fetch_network_node_trunk_id env) (\<lambda>trunk_id.
     andthen (fetch_trunk_plugin env)
       (case sg_segmentation_id segment of
          None \<Rightarrow> raise_exn (Foreign ''InvalidInput'')
        | Some v \<Rightarrow> ne_add_subports env trunk_id
            [\<lparr>sp_port_id = p_id shared_port, sp_segmentation_id = v\<rparr>]))"

definition fetch_or_create_router_segment :: "net_env \<Rightarrow> string \<Rightarrow> (world, segment_row) act" where
  "fetch_or_create_router_segment env network_id =
     (let physnet = cf_network_node_switchport_physnet env in
      if \<not> truthy physnet then
        raise_exn (ValueError ''please configure ml2_understack.network_node_switchport_physnet'')
      else
        bnd (allocate_dynamic_segment env network_id ''vlan'' physnet) (\<lambda>segment.
          case segment of
            None \<Rightarrow> raise_exn (PyException ''failed allocating dynamic segment for'' [network_id, the physnet])
          | Some s \<Rightarrow> ret s))"

text \<open>\<open>ovn_client\<close>: whether there is a client.\<close>

definition ovn_client :: "router_env \<Rightarrow> (world, bool) act" where
  "ovn_client env =
     bnd (reads w_ovn_cached) (\<lambda>cached.
       if cached then ret True
       else if \<not> ne_core_plugin (re_net env) then ret False
       else if ''ovn'' \<in> set (re_mech_drivers env) then
         andthen (updates (\<lambda>w. w\<lparr>w_ovn_cached := True\<rparr>)) (ret True)
       else raise_exn (PyException ''No OVN Plugin available'' []))"

definition require_client :: "router_env \<Rightarrow> (world, unit) act" where
  "require_client env = bnd (ovn_client env) (\<lambda>c.
     when_act (\<not> c) (raise_exn (AttributeError ''NoneType object has no attribute _nb_idl'')))"

definition run_commands :: "router_env \<Rightarrow> ovn_cmd list \<Rightarrow> (world, unit) act" where
  "run_commands env cmds =
     andthen (require_client env)
       (andthen (of_sum (re_transaction env cmds)) (updates (\<lambda>w. w\<lparr>w_ovn := w_ovn w @ cmds\<rparr>)))"

definition create_uplink_port ::
  "router_env \<Rightarrow> segment_row option \<Rightarrow> string \<Rightarrow> (world, unit) act"
where
  "create_uplink_port env segment network_id =
     (case segment of
        None \<Rightarrow> raise_exn (AttributeError ''NoneType object has no attribute get'')
      | Some s \<Rightarrow>
          andthen (require_client env)
            (run_commands env [CreateLswitchPort (''uplink-'' @ sg_id s) (re_ovn_name env network_id)
               (sg_segmentation_id s) (sg_physical_network s)]))"

text \<open>The part of \<open>create_port_postcommit\<close> that runs for the first router port.\<close>

definition create_uplink :: "router_env \<Rightarrow> string \<Rightarrow> (world, unit) act" where
  "create_uplink env network_id =
     bnd (fetch_or_create_router_segment (re_net env) network_id) (\<lambda>segment.
     bnd (create_neutron_port_for_segment (re_net env) segment network_id) (\<lambda>shared_port.
     andthen (add_subport_to_trunk (re_net env) shared_port segment)
       (bnd (reads (network_segment_by_id (sg_id segment))) (\<lambda>segment_obj.
         create_uplink_port env segment_obj network_id))))"

definition router_create_port_postcommit ::
  "router_env \<Rightarrow> string \<Rightarrow> string \<Rightarrow> (world, unit) act"
where
  "router_create_port_postcommit env network_id router_id =
     bnd (reads (is_only_router_port_on_network network_id)) (\<lambda>only.
       if \<not> only then ret ()
       else
         bnd (if router_id \<noteq> [] then of_sum (router_has_flavor env router_id) else ret False) (\<lambda>flavored.
           if flavored then ret () else create_uplink env network_id))"

section \<open>Removing the uplink\<close>

definition delete_uplink_port :: "router_env \<Rightarrow> string \<Rightarrow> string \<Rightarrow> (world, unit) act" where
  "delete_uplink_port env segment_id network_id =
     andthen (require_client env)
       (run_commands env [DeleteLswitchPort (''uplink-'' @ segment_id) (re_ovn_name env network_id)])"

definition delete_shared_port_lsp :: "router_env \<Rightarrow> string \<Rightarrow> string \<Rightarrow> (world, unit) act" where
  "delete_shared_port_lsp env port_id network_id =
     andthen (require_client env)
       (run_commands env [DeleteLswitchPort port_id (re_ovn_name env network_id)])"

text \<open>Deleting a port row takes its bindings and levels with it (foreign keys).\<close>

definition port_delete :: "string \<Rightarrow> (world, unit) act" where
  "port_delete port_id = updates (\<lambda>w. w\<lparr>
     w_ports := filter (\<lambda>p. p_id p \<noteq> port_id) (w_ports w),
     w_bindings := filter (\<lambda>b. pb_port_id b \<noteq> port_id) (w_bindings w),
     w_levels := filter (\<lambda>l. bl_port_id l \<noteq> port_id) (w_levels w)\<rparr>)"

definition is_uplink_name :: "string \<Rightarrow> bool" where
  "is_uplink_name name = (take 7 name = ''uplink-'')"

definition fetch_shared_router_port :: "string \<Rightarrow> world \<Rightarrow> port_row option" where
  "fetch_shared_router_port network_id w =
     find (\<lambda>p. is_uplink_name (p_name p)) (filter (\<lambda>p. p_network_id p = network_id) (w_ports w))"

definition removeprefix_uplink :: "string \<Rightarrow> string" where
  "removeprefix_uplink name = (if is_uplink_name name then drop 7 name else name)"

definition handle_subport_removal :: "net_env \<Rightarrow> port_row \<Rightarrow> (world, unit) act" where
  "handle_subport_removal env port =
     bnd (fetch_network_node_trunk_id env) (\<lambda>trunk_id.
       try_except (remove_subport_from_trunk env trunk_id (p_id port)) (\<lambda>err. ret ()))"

definition do_uplink_cleanup :: "router_env \<Rightarrow> string \<Rightarrow> (world, unit) act" where
  "do_uplink_cleanup env network_id =
     bnd (reads (fetch_shared_router_port network_id)) (\<lambda>shared_port.
       case shared_port of
         None \<Rightarrow> ret ()
       | Some p \<Rightarrow>
           andthen (handle_subport_removal (re_net env) p)
           (andthen (delete_uplink_port env (removeprefix_uplink (p_name p)) network_id)
           (andthen (delete_shared_port_lsp env (p_id p) network_id)
             (port_delete (p_id p)))))"

definition handle_router_interface_removal ::
  "router_env \<Rightarrow> port_row \<Rightarrow> string \<Rightarrow> (world, unit) act"
where
  "handle_router_interface_removal env port network_id =
     (if p_device_owner port \<notin> set ROUTER_INTERFACE_AND_GW then ret ()
      else bnd (reads (is_only_router_port_on_network network_id)) (\<lambda>only.
        if \<not> only then ret () else do_uplink_cleanup env network_id))"

definition handle_router_interface_after_delete :: "router_env \<Rightarrow> port_row \<Rightarrow> (world, unit) act" where
  "handle_router_interface_after_delete env port =
     (if p_device_owner port \<notin> set ROUTER_INTERFACE_AND_GW then ret ()
      else bnd (reads (router_ports_on_network (p_network_id port))) (\<lambda>remaining.
        if remaining \<noteq> [] then ret ()
        else try_except (do_uplink_cleanup env (p_network_id port)) (\<lambda>err. ret ())))"

section \<open>The HA chassis group of a VXLAN network\<close>

fun live_chassis :: "router_env \<Rightarrow> string list \<Rightarrow> exn + string list" where
  "live_chassis env [] = Inr []"
| "live_chassis env (c # cs) =
     sbnd (re_chassis_live env c) (\<lambda>live.
     sbnd (live_chassis env cs) (\<lambda>rest. Inr (if live then c # rest else rest)))"

text \<open>
  The commands of the handler's transaction: the group is synced, and the router port anchored
  to it unless the router is centralized.  No commands stand for an early return.
\<close>

definition anchor_commands :: "router_env \<Rightarrow> string \<Rightarrow> string \<Rightarrow> string \<Rightarrow> exn + ovn_cmd list" where
  "anchor_commands env router_id lrp_name hcg =
     sbnd (re_router_chassis env (re_ovn_name env router_id)) (\<lambda>lr.
     let router_is_centralized = (case lr of None \<Rightarrow> False | Some ch \<Rightarrow> truthy ch) in
       if router_is_centralized then Inr []
       else sbnd (re_lrp_exists env lrp_name) (\<lambda>lrp.
              Inr (if lrp then [SetLrpHcg lrp_name hcg] else [])))"

definition hcg_commands ::
  "router_env \<Rightarrow> string \<Rightarrow> string \<Rightarrow> string \<Rightarrow> exn + ovn_cmd list"
where
  "hcg_commands env router_id port_id network_id =
     sbnd (re_hcg_members env (re_ovn_name env network_id)) (\<lambda>network_hcg.
       if (case network_hcg of None \<Rightarrow> False | Some ha_chassis \<Rightarrow> ha_chassis \<noteq> []) then Inr []
       else
         sbnd (re_ha_chassis env) (\<lambda>all_ha_chassis.
         sbnd (live_chassis env all_ha_chassis) (\<lambda>live.
           case remdups live of
             [c] \<Rightarrow>
               sbnd (re_sync_hcg env network_id router_id [(c, 32767)]) (\<lambda>hcg.
               sbnd (anchor_commands env router_id (re_lrp_name env port_id) hcg) (\<lambda>anchor.
                 Inr (SyncNetworkHcg network_id router_id [(c, 32767)] # anchor)))
           | _ \<Rightarrow> Inr [])))"

definition link_hcg :: "router_env \<Rightarrow> string \<Rightarrow> string \<Rightarrow> string \<Rightarrow> (world, unit) act" where
  "link_hcg env router_id port_id network_id =
     bnd (of_sum (hcg_commands env router_id port_id network_id)) (\<lambda>cmds.
       if cmds = [] then ret ()
       else andthen (of_sum (re_transaction env cmds)) (updates (\<lambda>w. w\<lparr>w_ovn := w_ovn w @ cmds\<rparr>)))"

definition link_vxlan_network_ha_chassis_group ::
  "router_env \<Rightarrow> string \<Rightarrow> string \<Rightarrow> string \<Rightarrow> (world, unit) act"
where
  "link_vxlan_network_ha_chassis_group env router_id port_id network_id =
     try_except
       (bnd (ovn_client env) (\<lambda>client.
          if \<not> client then ret () else link_hcg env router_id port_id network_id))
       (\<lambda>err. ret ())"

section \<open>The plugins' contract\<close>

text \<open>
  \<open>create_port\<close> adds one port row with the given name and network, owned by nobody; the trunk
  plugin's calls, with the events they publish, leave the port, binding and OVN side alone, and
  adding subports only adds segments.
\<close>

definition same_ports :: "world \<Rightarrow> world \<Rightarrow> bool" where
  "same_ports w w' \<longleftrightarrow> w_ports w' = w_ports w \<and> w_bindings w' = w_bindings w \<and> w_ovn w' = w_ovn w \<and>
     w_ovn_cached w' = w_ovn_cached w \<and> w_trunk_cache w' = w_trunk_cache w"

definition create_port_ok :: "net_env \<Rightarrow> bool" where
  "create_port_ok env = (\<forall>name n w p w'. ne_create_port env name n w = (Inr p, w') \<longrightarrow>
     w' = w\<lparr>w_ports := w_ports w @ [p]\<rparr> \<and> p_name p = name \<and> p_network_id p = n \<and>
     p_device_owner p = [] \<and> p_id p \<notin> p_id ` set (w_ports w))"

definition subports_ok :: "net_env \<Rightarrow> bool" where
  "subports_ok env = ((\<forall>t sps w r w'. ne_add_subports env t sps w = (r, w') \<longrightarrow>
       same_ports w w' \<and> (\<exists>ns. w_segments w' = w_segments w @ ns)) \<and>
     (\<forall>t ps w r w'. ne_remove_subports env t ps w = (r, w') \<longrightarrow> same_ports w w'))"

definition plugins_ok :: "net_env \<Rightarrow> bool" where
  "plugins_ok env = (tm_ok env \<and> create_port_ok env \<and> subports_ok env)"

section \<open>Lemmas\<close>

lemma same_ports_refl: "same_ports w w"
  by (simp add: same_ports_def)

lemma same_ports_trans: "same_ports u v \<Longrightarrow> same_ports v w \<Longrightarrow> same_ports u w"
  by (simp add: same_ports_def)

lemma is_uplink_name_uplink [simp]: "is_uplink_name (''uplink-'' @ i)"
  by (simp add: is_uplink_name_def)

lemma removeprefix_uplink_name [simp]: "removeprefix_uplink (''uplink-'' @ i) = i"
  by (simp add: removeprefix_uplink_def is_uplink_name_def)

lemma uplink_name_split: "is_uplink_name n \<Longrightarrow> n = ''uplink-'' @ removeprefix_uplink n"
  unfolding is_uplink_name_def removeprefix_uplink_def by (metis append_take_drop_id is_uplink_name_def)

lemma run_commands_Inr:
  assumes "run_commands env cmds w = (Inr (), w')"
  shows "w_ovn_cached w' \<and> w' = w\<lparr>w_ovn := w_ovn w @ cmds, w_ovn_cached := True\<rparr>"
  using assms
  by (auto simp: run_commands_def require_client_def ovn_client_def split: if_splits sum.splits)

lemma require_client_Inr: "require_client env w = (Inr (), w') \<Longrightarrow> w' = w\<lparr>w_ovn_cached := True\<rparr>"
  by (auto simp: require_client_def ovn_client_def split: if_splits)

lemma run_commands_ready:
  "w_ovn_cached w \<Longrightarrow> re_transaction env cmds = Inr () \<Longrightarrow>
   run_commands env cmds w = (Inr (), w\<lparr>w_ovn := w_ovn w @ cmds\<rparr>) \<and> require_client env w = (Inr (), w)"
  by (simp add: run_commands_def require_client_def ovn_client_def)

lemma create_uplink_port_Inr:
  assumes "create_uplink_port env seg n w = (Inr (), w')"
  obtains s where "seg = Some s" "w' = w\<lparr>w_ovn_cached := True, w_ovn := w_ovn w @
    [CreateLswitchPort (''uplink-'' @ sg_id s) (re_ovn_name env n) (sg_segmentation_id s) (sg_physical_network s)]\<rparr>"
proof (cases seg)
  case None
  with assms show ?thesis by (simp add: create_uplink_port_def)
next
  case (Some s)
  with assms obtain w1 where "require_client env w = (Inr (), w1)" "run_commands env [CreateLswitchPort
      (''uplink-'' @ sg_id s) (re_ovn_name env n) (sg_segmentation_id s) (sg_physical_network s)] w1 = (Inr (), w')"
    unfolding create_uplink_port_def by (auto simp only: option.case andthen_Inr_unit)
  then show ?thesis using that [OF Some] require_client_Inr run_commands_Inr by fastforce
qed

lemma router_segment_Inr:
  assumes "tm_ok env" "fetch_or_create_router_segment env n w = (Inr s, w1)"
  obtains pn ns where "cf_network_node_switchport_physnet env = Some pn" "pn \<noteq> []"
    "w1 = w\<lparr>w_segments := w_segments w @ ns\<rparr>" "s \<in> set (w_segments w1)" "vlan_segment_of n pn s"
    "sg_segmentation_id s \<noteq> None" "segments_ok w \<Longrightarrow> segments_ok w1"
proof -
  obtain pn where pn: "cf_network_node_switchport_physnet env = Some pn" "pn \<noteq> []"
    using assms(2) by (auto simp: fetch_or_create_router_segment_def Let_def elim!: truthyE split: if_splits)
  have "ne_tm_allocate env n (Some pn) ''vlan'' w = (Inr (Some s), w1)"
    using assms(2) pn
    by (auto simp: fetch_or_create_router_segment_def allocate_dynamic_segment_def Let_def
        split: if_splits prod.splits sum.splits option.splits)
  then show ?thesis
    by (rule tm_allocateD [OF assms(1)]) (use that pn in \<open>auto simp: vlan_segment_of_def\<close>)
qed

lemma find_prefix: "find P xs = Some x \<Longrightarrow> find P (xs @ ys) = Some x"
  by (simp add: find_append)

lemma add_subport_Inr:
  assumes "plugins_ok env" "add_subport_to_trunk env p s w = (Inr (), w')"
  shows "w_ports w' = w_ports w \<and> w_bindings w' = w_bindings w \<and> w_ovn w' = w_ovn w \<and>
    w_ovn_cached w' = w_ovn_cached w \<and> (\<exists>ns. w_segments w' = w_segments w @ ns)"
proof -
  obtain t w1 w2 v where f: "fetch_network_node_trunk_id env w = (Inr t, w1)"
    and a: "fetch_trunk_plugin env w1 = (Inr (), w2)" "sg_segmentation_id s = Some v"
      "ne_add_subports env t [\<lparr>sp_port_id = p_id p, sp_segmentation_id = v\<rparr>] w2 = (Inr (), w')"
    using assms(2) unfolding add_subport_to_trunk_def bnd_Inr andthen_Inr_unit
    by (cases "sg_segmentation_id s") auto
  obtain c where w1: "w1 = w\<lparr>w_trunk_cache := c\<rparr>" using fetch_trunk_frame(1) [OF f] by blast
  have "w2 = w1" using a(1) by (simp add: fetch_trunk_plugin_def split: if_splits)
  moreover have "same_ports w2 w' \<and> (\<exists>ns. w_segments w' = w_segments w2 @ ns)"
    using assms(1) a(3) by (auto simp: plugins_ok_def subports_ok_def)
  ultimately show ?thesis by (auto simp: w1 same_ports_def)
qed

lemma postcommit_first:
  assumes "plugins_ok (re_net env)" "router_create_port_postcommit env n r w = (Inr (), w')"
    and "is_only_router_port_on_network n w" "r = [] \<or> router_has_flavor env r = Inr False" "segments_ok w"
  obtains s p pn where "vlan_segment_of n pn s" "cf_network_node_switchport_physnet (re_net env) = Some pn"
    "w_ports w' = w_ports w @ [p]" "p_name p = ''uplink-'' @ sg_id s" "p_network_id p = n"
    "p_device_owner p = []" "p_id p \<notin> p_id ` set (w_ports w)" "w_ovn_cached w'"
    "w_ovn w' = w_ovn w @ [CreateLswitchPort (''uplink-'' @ sg_id s) (re_ovn_name env n)
      (sg_segmentation_id s) (sg_physical_network s)]"
proof -
  let ?net = "re_net env"
  have "create_uplink env n w = (Inr (), w')"
    using assms(2-4) by (auto simp: router_create_port_postcommit_def split: if_splits)
  then obtain s w1 p w2 w3 where f: "fetch_or_create_router_segment ?net n w = (Inr s, w1)"
    and c: "create_neutron_port_for_segment ?net s n w1 = (Inr p, w2)"
    and a: "add_subport_to_trunk ?net p s w2 = (Inr (), w3)"
    and u: "create_uplink_port env (network_segment_by_id (sg_id s) w3) n w3 = (Inr (), w')"
    unfolding create_uplink_def bnd_Inr andthen_Inr_unit by auto
  have tm: "tm_ok ?net" using assms(1) by (simp add: plugins_ok_def)
  obtain pn ns where pn: "cf_network_node_switchport_physnet ?net = Some pn"
    and w1: "w1 = w\<lparr>w_segments := w_segments w @ ns\<rparr>" and sg: "s \<in> set (w_segments w1)" "vlan_segment_of n pn s"
    and so: "segments_ok w1"
    by (rule router_segment_Inr [OF tm f]) (use assms(5) in blast)
  have "ne_create_port ?net (''uplink-'' @ sg_id s) n w1 = (Inr p, w2)"
    using c by (simp add: create_neutron_port_for_segment_def split: if_splits)
  then have p: "w2 = w1\<lparr>w_ports := w_ports w1 @ [p]\<rparr>" "p_name p = ''uplink-'' @ sg_id s" "p_network_id p = n"
      "p_device_owner p = []" "p_id p \<notin> p_id ` set (w_ports w1)"
    using assms(1) by (auto simp: plugins_ok_def create_port_ok_def)
  note a3 = add_subport_Inr [OF assms(1) a]
  have "network_segment_by_id (sg_id s) w2 = Some s"
    using segment_by_id [OF so sg(1)] by (simp add: p(1) network_segment_by_id_def)
  then have "network_segment_by_id (sg_id s) w3 = Some s"
    using a3 find_prefix by (auto simp: network_segment_by_id_def)
  with u have "w' = w3\<lparr>w_ovn_cached := True, w_ovn := w_ovn w3 @
      [CreateLswitchPort (''uplink-'' @ sg_id s) (re_ovn_name env n) (sg_segmentation_id s) (sg_physical_network s)]\<rparr>"
    by (elim create_uplink_port_Inr) simp
  with a3 p pn sg show ?thesis by (intro that [of pn s p]) (auto simp: w1)
qed

text \<open>A cleanup on a prepared world: what it does, step by step.\<close>

lemma handle_subport_removal_ready:
  assumes "plugins_ok env" "truthy (w_trunk_cache w)"
  shows "\<exists>w1. handle_subport_removal env p w = (Inr (), w1) \<and> same_ports w w1"
proof -
  let ?m = "remove_subport_from_trunk env (the (w_trunk_cache w)) (p_id p)"
  obtain q w1 where m: "?m w = (q, w1)" by (cases "?m w")
  have "same_ports w w1"
    using m assms(1)
    by (auto simp: remove_subport_from_trunk_def fetch_trunk_plugin_def plugins_ok_def subports_ok_def
        same_ports_refl split: if_splits)
  moreover have "handle_subport_removal env p w = (Inr (), w1)"
    using m assms(2) by (cases q) (auto simp: handle_subport_removal_def fetch_network_node_trunk_id_def)
  ultimately show ?thesis by blast
qed

lemma handle_subport_removal_ports:
  assumes "plugins_ok env" "handle_subport_removal env p w = (Inr (), w1)"
  shows "w_ports w1 = w_ports w"
proof -
  obtain t w0 where f: "fetch_network_node_trunk_id env w = (Inr t, w0)"
    and m: "try_except (remove_subport_from_trunk env t (p_id p)) (\<lambda>err. ret ()) w0 = (Inr (), w1)"
    using assms(2) unfolding handle_subport_removal_def bnd_Inr by blast
  obtain c where "w0 = w\<lparr>w_trunk_cache := c\<rparr>" using fetch_trunk_frame(1) [OF f] by blast
  moreover have "same_ports w0 w1"
    using m assms(1)
    by (auto simp: remove_subport_from_trunk_def fetch_trunk_plugin_def plugins_ok_def subports_ok_def
        same_ports_refl split: if_splits prod.splits sum.splits)
  ultimately show ?thesis by (simp add: same_ports_def)
qed

lemma cleanup_ready:
  assumes "plugins_ok (re_net env)" "truthy (w_trunk_cache w)" "w_ovn_cached w"
    and "\<forall>cmds. re_transaction env cmds = Inr ()" "fetch_shared_router_port n w = Some p"
  shows "\<exists>w'. do_uplink_cleanup env n w = (Inr (), w') \<and>
    w_ports w' = filter (\<lambda>q. p_id q \<noteq> p_id p) (w_ports w) \<and>
    w_ovn w' = w_ovn w @ [DeleteLswitchPort (p_name p) (re_ovn_name env n),
      DeleteLswitchPort (p_id p) (re_ovn_name env n)]"
proof -
  obtain w1 where h: "handle_subport_removal (re_net env) p w = (Inr (), w1)" "same_ports w w1"
    using handle_subport_removal_ready [OF assms(1,2)] by blast
  have nm: "''uplink-'' @ removeprefix_uplink (p_name p) = p_name p"
    using assms(5) uplink_name_split unfolding fetch_shared_router_port_def by (metis find_SomeD)
  let ?c = "[DeleteLswitchPort (p_name p) (re_ovn_name env n)]"
  let ?d = "[DeleteLswitchPort (p_id p) (re_ovn_name env n)]"
  let ?w2 = "w1\<lparr>w_ovn := w_ovn w1 @ ?c\<rparr>"
  let ?w3 = "?w2\<lparr>w_ovn := w_ovn ?w2 @ ?d\<rparr>"
  have r: "w_ovn_cached w1" "w_ovn_cached ?w2" using h(2) assms(3) by (simp_all add: same_ports_def)
  have d1: "delete_uplink_port env (removeprefix_uplink (p_name p)) n w1 = (Inr (), ?w2)"
    using run_commands_ready [OF r(1), of env ?c] assms(4) unfolding delete_uplink_port_def nm by simp
  have d2: "delete_shared_port_lsp env (p_id p) n ?w2 = (Inr (), ?w3)"
    using run_commands_ready [OF r(2), of env ?d] assms(4) unfolding delete_shared_port_lsp_def by simp
  show ?thesis
    using assms(5) h d1 d2 by (simp add: do_uplink_cleanup_def port_delete_def same_ports_def)
qed

text \<open>What the body of the HA chassis group handler can change.\<close>

definition hcg_guard :: "router_env \<Rightarrow> string \<Rightarrow> string \<Rightarrow> ovn_cmd list \<Rightarrow> bool" where
  "hcg_guard env r n cmds \<longleftrightarrow> (\<exists>m rows live c anchor.
     re_hcg_members env (re_ovn_name env n) = Inr m \<and> (m = None \<or> m = Some []) \<and>
     re_ha_chassis env = Inr rows \<and> live_chassis env rows = Inr live \<and> set live = {c} \<and>
     cmds = SyncNetworkHcg n r [(c, 32767)] # anchor \<and>
     (anchor \<noteq> [] \<longrightarrow> re_router_chassis env (re_ovn_name env r) = Inr None \<or>
        (\<exists>ch. re_router_chassis env (re_ovn_name env r) = Inr (Some ch) \<and> \<not> truthy ch)))"

lemma anchor_guard:
  "anchor_commands env r l h = Inr (x # xs) \<Longrightarrow> re_router_chassis env (re_ovn_name env r) = Inr None \<or>
     (\<exists>ch. re_router_chassis env (re_ovn_name env r) = Inr (Some ch) \<and> \<not> truthy ch)"
  unfolding anchor_commands_def sbnd_Inr Let_def by (metis list.distinct(1) option.case_eq_if option.collapse sum.inject(2))

lemma hcg_commands_guard:
  assumes "hcg_commands env r i n = Inr cmds" "cmds \<noteq> []" shows "hcg_guard env r n cmds"
proof -
  obtain m rows live where m: "re_hcg_members env (re_ovn_name env n) = Inr m" "m = None \<or> m = Some []"
    and h: "re_ha_chassis env = Inr rows" "live_chassis env rows = Inr live"
    and k: "(case remdups live of [c] \<Rightarrow> sbnd (re_sync_hcg env n r [(c, 32767)]) (\<lambda>hcg.
          sbnd (anchor_commands env r (re_lrp_name env i) hcg) (\<lambda>anchor.
            Inr (SyncNetworkHcg n r [(c, 32767)] # anchor))) | _ \<Rightarrow> Inr []) = Inr cmds"
    using assms unfolding hcg_commands_def sbnd_Inr by (auto split: if_splits option.splits simp: sbnd_Inr)
  obtain c where c: "remdups live = [c]" using k assms(2) by (auto split: list.splits)
  then have "set live = {c}" by (metis empty_set list.simps(15) set_remdups)
  moreover obtain hcg anchor where "anchor_commands env r (re_lrp_name env i) hcg = Inr anchor"
    "cmds = SyncNetworkHcg n r [(c, 32767)] # anchor"
    using k c by (auto simp: sbnd_Inr)
  moreover from this have "anchor \<noteq> [] \<longrightarrow> re_router_chassis env (re_ovn_name env r) = Inr None \<or>
      (\<exists>ch. re_router_chassis env (re_ovn_name env r) = Inr (Some ch) \<and> \<not> truthy ch)"
    using anchor_guard by (cases anchor) blast+
  ultimately show ?thesis using m h unfolding hcg_guard_def by blast
qed

lemma link_hcg_effect:
  assumes "link_hcg env r i n w = (q, w')"
  shows "\<exists>cmds. w' = w\<lparr>w_ovn := w_ovn w @ cmds\<rparr> \<and> (cmds \<noteq> [] \<longrightarrow> hcg_guard env r n cmds)"
proof (cases "w' = w")
  case True
  then show ?thesis by (intro exI [of _ "[]"]) simp
next
  case False
  then obtain cmds where "hcg_commands env r i n = Inr cmds" "cmds \<noteq> []" "w' = w\<lparr>w_ovn := w_ovn w @ cmds\<rparr>"
    using assms by (auto simp: link_hcg_def split: sum.splits if_splits)
  then show ?thesis using hcg_commands_guard by blast
qed

section \<open>Properties\<close>

text \<open>
  For the first router port on a network, when its router has no flavor and the handler
  returns, exactly one port is added, named after a VLAN segment of the network on the
  configured physical network, and exactly one localnet port of that name and VLAN tag is
  created in OVN.  With other router ports on the network, or a flavored router, nothing happens.
\<close>
lemma uplink_created_once:
  assumes "plugins_ok (re_net env)" "segments_ok w" "router_create_port_postcommit env n r w = (Inr (), w')"
    and "r = [] \<or> router_has_flavor env r = Inr flavored" "r = [] \<longrightarrow> \<not> flavored"
  shows "if is_only_router_port_on_network n w \<and> \<not> flavored
    then (\<exists>s p pn. vlan_segment_of n pn s \<and> cf_network_node_switchport_physnet (re_net env) = Some pn \<and>
      w_ports w' = w_ports w @ [p] \<and> p_name p = ''uplink-'' @ sg_id s \<and> p_network_id p = n \<and>
      w_ovn w' = w_ovn w @ [CreateLswitchPort (p_name p) (re_ovn_name env n) (sg_segmentation_id s) (Some pn)])
    else w' = w"
proof (cases "is_only_router_port_on_network n w \<and> \<not> flavored")
  case True
  then have "r = [] \<or> router_has_flavor env r = Inr False" using assms(4) by auto
  with True obtain s p pn where "vlan_segment_of n pn s" "cf_network_node_switchport_physnet (re_net env) = Some pn"
    "w_ports w' = w_ports w @ [p]" "p_name p = ''uplink-'' @ sg_id s" "p_network_id p = n"
    "w_ovn w' = w_ovn w @ [CreateLswitchPort (''uplink-'' @ sg_id s) (re_ovn_name env n)
      (sg_segmentation_id s) (sg_physical_network s)]"
    using postcommit_first [OF assms(1,3) _ _ assms(2)] by blast
  with True show ?thesis by (auto simp: vlan_segment_of_def)
next
  case False
  then show ?thesis
    using assms(3-5) by (auto simp: router_create_port_postcommit_def split: if_splits)
qed

definition router_env_example :: router_env where
  "router_env_example = \<lparr>re_net = env_example,
     re_get_router = (\<lambda>r. Inr \<lparr>lr_id = r, lr_name = None, lr_project_id = None, lr_flavor_id = FlavorNone\<rparr>),
     re_mech_drivers = [''understack'', ''ovn''], re_ovn_name = (\<lambda>i. ''neutron-'' @ i),
     re_lrp_name = (\<lambda>i. ''lrp-'' @ i), re_transaction = (\<lambda>cmds. Inr ()),
     re_hcg_members = (\<lambda>n. Inr None), re_ha_chassis = Inr [''c1'', ''c1'', ''old''],
     re_chassis_live = (\<lambda>c. Inr (c = ''c1'')), re_sync_hcg = (\<lambda>n r ps. Inr ''hcg''),
     re_router_chassis = (\<lambda>r. Inr (Some (Some ''c1''))), re_lrp_exists = (\<lambda>l. Inr True)\<rparr>"

definition router_port :: port_row where
  "router_port = \<lparr>p_id = ''rp'', p_name = [], p_network_id = ''n1'', p_device_id = ''r1'',
     p_device_owner = DEVICE_OWNER_ROUTER_INTF\<rparr>"

definition router_world :: world where
  "router_world = empty_world\<lparr>w_ports := [router_port], w_trunk_cache := Some ''t1''\<rparr>"

text \<open>The example environment, with port ids that are fresh in every world.\<close>

definition fresh_env :: net_env where
  "fresh_env = env_example\<lparr>ne_create_port := (\<lambda>name n w.
     (let p = \<lparr>p_id = ''p'' @ concat (map p_id (w_ports w)), p_name = name, p_network_id = n,
               p_device_id = [], p_device_owner = []\<rparr>
      in (Inr p, w\<lparr>w_ports := w_ports w @ [p]\<rparr>)))\<rparr>"

lemma fresh_port_id: "''p'' @ concat (map p_id ps) \<notin> p_id ` set ps"
proof
  assume "''p'' @ concat (map p_id ps) \<in> p_id ` set ps"
  then obtain q where q: "q \<in> set ps" "p_id q = ''p'' @ concat (map p_id ps)" by force
  have "length (p_id q) \<le> length (concat (map p_id ps))"
    using q(1) by (auto simp: length_concat intro: member_le_sum_list)
  then show False using q(2) by simp
qed

lemma tm_ok_fresh_env: "tm_ok fresh_env"
  using tm_ok_example by (simp add: tm_ok_def tm_allocate_ok_def tm_release_ok_def fresh_env_def)

lemma plugins_ok_example: "plugins_ok fresh_env"
  using tm_ok_fresh_env fresh_port_id
  by (auto simp: plugins_ok_def create_port_ok_def subports_ok_def same_ports_def fresh_env_def
      env_example_def Let_def image_iff)

definition router_env_fresh :: router_env where
  "router_env_fresh = router_env_example\<lparr>re_net := fresh_env\<rparr>"

definition router_world_uplink :: world where
  "router_world_uplink = snd (router_create_port_postcommit router_env_fresh ''n1'' ''r1'' router_world)"

lemma router_world_uplink_eval:
  "router_create_port_postcommit router_env_fresh ''n1'' ''r1'' router_world = (Inr (), router_world_uplink)"
  unfolding router_world_uplink_def by code_simp



text \<open>
  The cleanup is idempotent, which is what lets two events trigger it: on a network with at
  most one uplink port, a cleanup that returned makes the next one a no-op, in whatever
  environment it runs; and the \<open>AFTER_DELETE\<close> handler returns whatever happens.
\<close>
lemma uplink_cleanup_idempotent:
  assumes "plugins_ok (re_net env)" "do_uplink_cleanup env n w = (Inr (), w')"
    and "\<forall>p \<in> set (w_ports w). \<forall>q \<in> set (w_ports w). p_network_id p = n \<and> p_network_id q = n \<and>
      is_uplink_name (p_name p) \<and> is_uplink_name (p_name q) \<longrightarrow> p = q"
  shows "do_uplink_cleanup env2 n w' = (Inr (), w') \<and>
    (\<forall>port v. \<exists>v'. handle_router_interface_after_delete env2 port v = (Inr (), v'))"
proof -
  have "fetch_shared_router_port n w' = None"
  proof (cases "fetch_shared_router_port n w")
    case None
    then show ?thesis using assms(2) by (simp add: do_uplink_cleanup_def)
  next
    case (Some p)
    have p: "p \<in> set (w_ports w)" "p_network_id p = n" "is_uplink_name (p_name p)"
      using Some unfolding fetch_shared_router_port_def by (auto dest!: find_SomeD)
    obtain w1 w2 w3 where h: "handle_subport_removal (re_net env) p w = (Inr (), w1)"
      and d: "delete_uplink_port env (removeprefix_uplink (p_name p)) n w1 = (Inr (), w2)"
      and l: "delete_shared_port_lsp env (p_id p) n w2 = (Inr (), w3)" and x: "port_delete (p_id p) w3 = (Inr (), w')"
      using assms(2) Some unfolding do_uplink_cleanup_def bnd_Inr by (auto simp only: option.case andthen_Inr_unit reads_apply prod.inject sum.inject)
    have ports: "w_ports w3 = w_ports w1"
      using d l unfolding delete_uplink_port_def delete_shared_port_lsp_def andthen_Inr_unit
      by (auto dest!: require_client_Inr run_commands_Inr)
    have "w_ports w1 = w_ports w" using handle_subport_removal_ports [OF assms(1) h] .
    then have "w_ports w' = filter (\<lambda>q. p_id q \<noteq> p_id p) (w_ports w)"
      using x ports by (auto simp: port_delete_def)
    then show ?thesis
      using assms(3) p by (auto simp: fetch_shared_router_port_def find_None_iff)
  qed
  then have "do_uplink_cleanup env2 n w' = (Inr (), w')" by (simp add: do_uplink_cleanup_def)
  moreover have "\<exists>v'. handle_router_interface_after_delete env2 port v = (Inr (), v')" for port v
    by (auto simp: handle_router_interface_after_delete_def split: prod.split sum.split)
  ultimately show ?thesis by blast
qed

text \<open>
  The HA chassis group handler never raises.  Whatever it changes is one transaction in
  OVN, made only when the network's group has no members yet and exactly one chassis name is
  live among the HA chassis rows, for that chassis; the router port is anchored to the group
  only when the router is not centralized.
\<close>
lemma hcg_link_guarded:
  "\<exists>w' cmds. link_vxlan_network_ha_chassis_group env r i n w = (Inr (), w') \<and>
    w' = w\<lparr>w_ovn_cached := w_ovn_cached w', w_ovn := w_ovn w @ cmds\<rparr> \<and>
    (cmds = [] \<or> hcg_guard env r n cmds)"
proof -
  obtain q w1 where l: "link_hcg env r i n (snd (ovn_client env w)) = (q, w1)"
    by (cases "link_hcg env r i n (snd (ovn_client env w))")
  note body = link_hcg_effect [OF l]
  obtain b where oc: "snd (ovn_client env w) = w\<lparr>w_ovn_cached := b\<rparr>"
    by (rule that [of "w_ovn_cached (snd (ovn_client env w))"]) (simp add: ovn_client_def)
  show ?thesis
  proof (cases "fst (ovn_client env w) = Inr True")
    case True
    then have "link_vxlan_network_ha_chassis_group env r i n w = (Inr (), w1)"
      using l by (cases "ovn_client env w"; cases q) (auto simp: link_vxlan_network_ha_chassis_group_def)
    moreover obtain cmds where "w1 = w\<lparr>w_ovn_cached := b, w_ovn := w_ovn w @ cmds\<rparr>"
      "cmds \<noteq> [] \<longrightarrow> hcg_guard env r n cmds" using body oc by auto
    ultimately show ?thesis by (intro exI [of _ w1] exI [of _ cmds]) auto
  next
    case False
    then have "link_vxlan_network_ha_chassis_group env r i n w = (Inr (), w\<lparr>w_ovn_cached := b\<rparr>)"
      using oc by (cases "ovn_client env w"; cases "fst (ovn_client env w)")
        (auto simp: link_vxlan_network_ha_chassis_group_def)
    then show ?thesis by (intro exI [of _ "w\<lparr>w_ovn_cached := b\<rparr>"] exI [of _ "[]"]) simp
  qed
qed

end
