(* ===== verification/Mech_Driver.thy ===== *)
theory Mech_Driver
  imports Routers
begin

text \<open>
  \<open>neutron_understack/neutron_understack_mech.py\<close> (the \<open>understack\<close> mechanism driver) and
  \<open>neutron_understack/undersync_mech.py\<close> (the driver that finishes a binding on the VLAN level).

  The ML2 port context is a record; what a \<open>bind_port\<close> call tells the framework
  (\<open>continue_binding\<close>, \<open>set_binding\<close> or nothing) is its result.  A non-empty \<open>trunk_details\<close>
  dictionary is the list of its \<open>sub_ports\<close>.  The hooks that are \<open>pass\<close> have no definition.
\<close>

section \<open>The port context\<close>

record port_dict =
  pd_id :: string
  pd_network_id :: string
  pd_device_owner :: string
  pd_device_id :: string
  pd_vnic_type :: "string option"
  pd_profile :: "string dict"
  pd_fixed_ips :: "fixed_ip list"
  pd_trunk_details :: "subport list option"

record port_ctx =
  pc_current :: port_dict
  pc_original :: port_dict
  pc_vif_type :: string
  pc_original_vif_type :: string
  pc_original_host :: string
  pc_original_top_segment :: "segment_row option"
  pc_segments_to_bind :: "segment_row list"
  pc_network_segments :: "segment_row list"

datatype bind_result =
    NotBound
  | ContinueBinding string "segment_row option list"
  | SetBinding string string string

record mech_env =
  me_routers :: router_env
  me_svi :: svi_env

section \<open>Predicates on the context\<close>

definition is_baremetal_port :: "port_ctx \<Rightarrow> exn + bool" where
  "is_baremetal_port ctx =
     (case pd_vnic_type (pc_current ctx) of
        None \<Rightarrow> Inl (KeyError ''binding:vnic_type'') | Some v \<Rightarrow> Inr (v = ''baremetal''))"

definition is_router_interface_port :: "port_dict \<Rightarrow> bool" where
  "is_router_interface_port port = (pd_device_owner port \<in> set ROUTER_INTERFACE_AND_GW)"

definition is_router_interface :: "port_ctx \<Rightarrow> bool" where
  "is_router_interface ctx = (pd_device_owner (pc_current ctx) \<in> {DEVICE_OWNER_ROUTER_INTF, DEVICE_OWNER_ROUTER_GW})"

definition vlan_segment_for_physnet :: "port_ctx \<Rightarrow> string \<Rightarrow> segment_row option" where
  "vlan_segment_for_physnet ctx physnet =
     find (\<lambda>s. sg_network_type s = ''vlan'' \<and> sg_physical_network s = Some physnet) (pc_network_segments ctx)"

definition is_provisioning_network :: "net_env \<Rightarrow> string \<Rightarrow> bool" where
  "is_provisioning_network env network_id = (network_id = cf_provisioning_network env)"

definition port_physnet :: "port_dict \<Rightarrow> string option" where
  "port_physnet port = dget (pd_profile port) ''physical_network''"

definition as_svi_port :: "port_dict \<Rightarrow> svi_port" where
  "as_svi_port port = \<lparr>vp_device_owner = pd_device_owner port, vp_device_id = pd_device_id port,
     vp_network_id = pd_network_id port, vp_id = pd_id port, vp_fixed_ips = pd_fixed_ips port\<rparr>"

section \<open>Router interface hooks\<close>

definition create_port_precommit :: "mech_env \<Rightarrow> port_ctx \<Rightarrow> (world, unit) act" where
  "create_port_precommit env ctx =
     when_act (is_router_interface ctx)
       (andthen (of_sum (validate_svi_router_port (me_svi env) (as_svi_port (pc_current ctx)))) (ret ()))"

definition mech_create_port_postcommit :: "mech_env \<Rightarrow> port_ctx \<Rightarrow> (world, unit) act" where
  "mech_create_port_postcommit env ctx =
     when_act (is_router_interface ctx)
       (router_create_port_postcommit (me_routers env) (pd_network_id (pc_current ctx)) (pd_device_id (pc_current ctx)))"

definition update_port_precommit :: "mech_env \<Rightarrow> port_ctx \<Rightarrow> (world, unit) act" where
  "update_port_precommit env ctx =
     (if \<not> is_router_interface ctx then ret ()
      else
        let original = pc_original ctx; current = pc_current ctx;
            became_router_interface = (\<not> is_router_interface_port original \<and> is_router_interface_port current);
            fixed_ips_changed = (pd_fixed_ips original \<noteq> pd_fixed_ips current) in
        if \<not> (became_router_interface \<or> fixed_ips_changed) then ret ()
        else andthen (of_sum (validate_svi_router_port (me_svi env) (as_svi_port current))) (ret ()))"

section \<open>Baremetal ports\<close>

definition tenant_network_port_cleanup :: "net_env \<Rightarrow> port_ctx \<Rightarrow> (world, unit) act" where
  "tenant_network_port_cleanup env ctx =
     (case pc_original_top_segment ctx of
        None \<Rightarrow> raise_exn (TypeError ''NoneType object is not subscriptable'')
      | Some top_segment \<Rightarrow>
          bnd (reads (network_segment_by_id (sg_id top_segment))) (\<lambda>segment.
          andthen (case segment of None \<Rightarrow> ret () | Some s \<Rightarrow> release_segment_if_unused env s)
            (case pd_trunk_details (pc_current ctx) of
               None \<Rightarrow> ret ()
             | Some sub_ports \<Rightarrow> clean_trunk env sub_ports (pc_original_host ctx))))"

definition update_port_baremetal :: "net_env \<Rightarrow> port_ctx \<Rightarrow> (world, unit) act" where
  "update_port_baremetal env ctx =
     (let current_vif_unbound = (pc_vif_type ctx = ''unbound'');
          original_vif_other = (pc_original_vif_type ctx = ''other'');
          current_vif_other = (pc_vif_type ctx = ''other'');
          port = (if current_vif_unbound \<and> original_vif_other then pc_original ctx else pc_current ctx);
          vlan_group_name = port_physnet port in
      if current_vif_unbound \<and> original_vif_other then
        andthen (tenant_network_port_cleanup env ctx)
          (when_act (truthy vlan_group_name) (undersync_sync env (the vlan_group_name)))
      else if current_vif_other \<and> truthy vlan_group_name then undersync_sync env (the vlan_group_name)
      else ret ())"

definition update_port_postcommit :: "net_env \<Rightarrow> port_ctx \<Rightarrow> (world, unit) act" where
  "update_port_postcommit env ctx =
     bnd (of_sum (is_baremetal_port ctx)) (\<lambda>baremetal. when_act baremetal (update_port_baremetal env ctx))"

definition delete_port_baremetal :: "net_env \<Rightarrow> port_ctx \<Rightarrow> (world, unit) act" where
  "delete_port_baremetal env ctx =
     (let port = pc_current ctx; vlan_group_name = port_physnet port in
      if \<not> truthy vlan_group_name then ret ()
      else if is_provisioning_network env (pd_network_id port) then undersync_sync env (the vlan_group_name)
      else
        bnd (reads (network_segment_by_physnet (pd_network_id port) (the vlan_group_name))) (\<lambda>segment.
        andthen (case segment of None \<Rightarrow> ret () | Some s \<Rightarrow> release_segment_if_unused env s)
          (undersync_sync env (the vlan_group_name))))"

definition delete_port_postcommit :: "net_env \<Rightarrow> port_ctx \<Rightarrow> (world, unit) act" where
  "delete_port_postcommit env ctx =
     bnd (of_sum (is_baremetal_port ctx)) (\<lambda>baremetal. when_act baremetal (delete_port_baremetal env ctx))"

section \<open>Binding\<close>

definition bind_port_segment :: "net_env \<Rightarrow> port_ctx \<Rightarrow> segment_row \<Rightarrow> (world, bind_result) act" where
  "bind_port_segment env ctx segment =
     (let port = pc_current ctx; vlan_group_name = port_physnet port in
      if \<not> truthy vlan_group_name then ret NotBound
      else
        bnd (case vlan_segment_for_physnet ctx (the vlan_group_name) of
               Some s \<Rightarrow> ret (Some s)
             | None \<Rightarrow> ne_tm_allocate env (pd_network_id port) vlan_group_name ''vlan'') (\<lambda>dynamic_segment.
        andthen (case pd_trunk_details port of
                   None \<Rightarrow> ret () | Some sub_ports \<Rightarrow> configure_trunk env sub_ports (pd_id port))
          (ret (ContinueBinding (sg_id segment) [dynamic_segment]))))"

definition bind_port :: "net_env \<Rightarrow> port_ctx \<Rightarrow> (world, bind_result) act" where
  "bind_port env ctx =
     (let vnic_type = (case pd_vnic_type (pc_current ctx) of None \<Rightarrow> ''normal'' | Some v \<Rightarrow> v) in
      if vnic_type \<notin> {''baremetal'', ''normal''} then ret NotBound
      else
        case find (\<lambda>s. sg_network_type s = ''vxlan'') (pc_segments_to_bind ctx) of
          None \<Rightarrow> ret NotBound
        | Some segment \<Rightarrow> bind_port_segment env ctx segment)"

text \<open>The \<open>undersync\<close> mechanism driver.\<close>

definition undersync_bind_port :: "port_ctx \<Rightarrow> bind_result" where
  "undersync_bind_port ctx =
     (let vnic_type = (case pd_vnic_type (pc_current ctx) of None \<Rightarrow> ''normal'' | Some v \<Rightarrow> v) in
      if vnic_type \<notin> {''baremetal''} then NotBound
      else
        case find (\<lambda>s. sg_network_type s = ''vlan'') (pc_segments_to_bind ctx) of
          None \<Rightarrow> NotBound
        | Some segment \<Rightarrow> SetBinding (sg_id segment) ''other'' ''ACTIVE'')"

section \<open>Every hook keeps the tables consistent\<close>

text \<open>The trunk plugin's calls, which re-enter the trunk driver, keep the tables consistent.\<close>

definition plugins_keep :: "net_env \<Rightarrow> bool" where
  "plugins_keep env = ((\<forall>name n. keeps net_inv (ne_create_port env name n)) \<and>
     (\<forall>t sps. keeps net_inv (ne_add_subports env t sps)) \<and>
     (\<forall>t ps. keeps net_inv (ne_remove_subports env t ps)))"

lemma keeps_net_inv_release [act_rules]: "tm_ok env \<Longrightarrow> keeps net_inv (release_segment_if_unused env s)"
proof -
  assume tm: "tm_ok env"
  have "net_inv w'" if i: "net_inv w" and r: "release_segment_if_unused env s w = (r, w')" for w r w'
    using release_segment_if_unused_frame [OF tm r] i backed_drop_unused [of w "sg_id s"]
    by (auto simp: net_inv_def levels_ok_def segments_ok_filter)
  then show ?thesis unfolding keeps_def by (metis prod.collapse)
qed

lemma keeps_net_inv_allocate [act_rules]: "tm_ok env \<Longrightarrow> keeps net_inv (ne_tm_allocate env n p t)"
  unfolding keeps_def
proof (intro allI impI)
  fix w assume tm: "tm_ok env" and i: "net_inv w"
  obtain r w' where a: "ne_tm_allocate env n p t w = (r, w')" by (cases "ne_tm_allocate env n p t w")
  have "net_inv w'"
  proof (cases r)
    case (Inl e)
    then show ?thesis using tm_allocate_raises [OF tm] a i by blast
  next
    case (Inr x)
    from a [unfolded Inr] show ?thesis
      by (rule tm_allocateD [OF tm]) (use i net_inv_segments in \<open>auto simp: net_inv_def\<close>)
  qed
  then show "net_inv (snd (ne_tm_allocate env n p t w))" by (simp add: a)
qed

lemma keeps_configure [act_rules]: "tm_ok env \<Longrightarrow> keeps net_inv (configure_trunk env sps i)"
  using trunk_configure.run_keeps [of env "(sps, i)"] by simp

lemma keeps_clean_trunk [act_rules]: "tm_ok env \<Longrightarrow> keeps net_inv (clean_trunk env sps h)"
  using trunk_clean.run_keeps [of env "(sps, h)"] by simp

interpretation mech_update: net_operation update_port_postcommit
  by unfold_locales
    (auto simp: update_port_postcommit_def update_port_baremetal_def tenant_network_port_cleanup_def
      Let_def intro!: act_rules)

interpretation mech_delete: net_operation delete_port_postcommit
  by unfold_locales
    (auto simp: delete_port_postcommit_def delete_port_baremetal_def Let_def intro!: act_rules)

interpretation mech_bind: net_operation bind_port
  by unfold_locales
    (auto simp: bind_port_def bind_port_segment_def Let_def intro!: act_rules)

lemma keeps_router_postcommit:
  assumes "tm_ok (re_net env)" "plugins_keep (re_net env)"
  shows "keeps net_inv (router_create_port_postcommit env n r)"
  using assms
  unfolding router_create_port_postcommit_def create_uplink_def fetch_or_create_router_segment_def
    create_neutron_port_for_segment_def add_subport_to_trunk_def create_uplink_port_def run_commands_def
    require_client_def ovn_client_def fetch_trunk_plugin_def allocate_dynamic_segment_def Let_def plugins_keep_def
  by (auto intro!: act_rules)

lemma keeps_cleanup:
  assumes "plugins_keep (re_net env)" shows "keeps net_inv (do_uplink_cleanup env n)"
  using assms
  unfolding do_uplink_cleanup_def handle_subport_removal_def remove_subport_from_trunk_def fetch_trunk_plugin_def
    delete_uplink_port_def delete_shared_port_lsp_def run_commands_def require_client_def ovn_client_def
    port_delete_def plugins_keep_def
  by (auto intro!: act_rules simp: net_inv_def backed_def levels_ok_def segments_ok_def distinct_map_filter)

section \<open>Runs\<close>

text \<open>Every call the framework can make on the two drivers, in any order.\<close>

inductive mech_run :: "mech_env \<Rightarrow> world \<Rightarrow> world \<Rightarrow> bool" for env where
  refl: "mech_run env w w"
| trunk: "mech_run env w w' \<Longrightarrow> mech_run env w (snd (trunk_callback (re_net (me_routers env)) ev t sps w'))"
| create: "mech_run env w w' \<Longrightarrow> mech_run env w (snd (mech_create_port_postcommit env ctx w'))"
| update: "mech_run env w w' \<Longrightarrow> mech_run env w (snd (update_port_postcommit (re_net (me_routers env)) ctx w'))"
| delete: "mech_run env w w' \<Longrightarrow> mech_run env w (snd (delete_port_postcommit (re_net (me_routers env)) ctx w'))"
| bind: "mech_run env w w' \<Longrightarrow> mech_run env w (snd (bind_port (re_net (me_routers env)) ctx w'))"
| router_removal: "mech_run env w w' \<Longrightarrow> mech_run env w (snd (handle_router_interface_removal (me_routers env) port n w'))"
| after_delete: "mech_run env w w' \<Longrightarrow> mech_run env w (snd (handle_router_interface_after_delete (me_routers env) port w'))"

lemma keeps_handlers:
  assumes "plugins_keep (re_net env)"
  shows "keeps net_inv (handle_router_interface_removal env port n)"
    "keeps net_inv (handle_router_interface_after_delete env port)"
  unfolding handle_router_interface_removal_def handle_router_interface_after_delete_def
  by (intro act_rules keeps_cleanup [OF assms])+

lemma mech_run_inv:
  "mech_run env w w' \<Longrightarrow> tm_ok (re_net (me_routers env)) \<Longrightarrow> plugins_keep (re_net (me_routers env)) \<Longrightarrow>
   net_inv w \<Longrightarrow> net_inv w'"
proof (induction rule: mech_run.induct)
  case (trunk w w' ev t sps)
  then show ?case using keepsD [OF keeps_trunk_callback] by blast
next
  case (create w w' ctx)
  then show ?case using keepsD [OF keeps_router_postcommit, of "me_routers env" w']
    by (simp add: mech_create_port_postcommit_def)
next
  case (update w w' ctx)
  then show ?case using keepsD [OF mech_update.run_keeps] by blast
next
  case (delete w w' ctx)
  then show ?case using keepsD [OF mech_delete.run_keeps] by blast
next
  case (bind w w' ctx)
  then show ?case using keepsD [OF mech_bind.run_keeps] by blast
next
  case (router_removal w w' port n)
  then show ?case using keepsD [OF keeps_handlers(1)] by blast
next
  case (after_delete w w' port)
  then show ?case using keepsD [OF keeps_handlers(2)] by blast
qed simp

section \<open>Release and configuration as functions\<close>

lemma release_segment_if_unused_eq:
  assumes "tm_ok env" "tm_release_returns env"
  shows "release_segment_if_unused env s w = (Inr (),
    if ports_bound_to_segment (sg_id s) w = [] \<and> sg_is_dynamic s
    then w\<lparr>w_segments := filter (\<lambda>x. sg_id x \<noteq> sg_id s) (w_segments w)\<rparr> else w)"
proof (cases "ports_bound_to_segment (sg_id s) w = [] \<and> sg_is_dynamic s")
  case True
  obtain w' where r: "ne_tm_release env (sg_id s) w = (Inr (), w')"
    using assms(2) unfolding tm_release_returns_def by blast
  then have "release_dynamic_segment env (sg_id s) w = (Inr (), w')"
    using assms(2) by (simp add: release_dynamic_segment_def tm_release_returns_def)
  with release_unused(2) [OF assms(1) conjunct1 [OF True] this] assms(2) True show ?thesis
    by (simp add: release_segment_if_unused_def tm_release_returns_def)
next
  case False
  then show ?thesis by (auto simp: release_segment_if_unused_def)
qed

lemma configure_trunk_Inr:
  assumes "tm_ok env" "configure_trunk env sps i w = (Inr (), w')"
    and "port_get_object i w = Some p" "port_bindings (p_id p) w = b # bs" "sp \<in> set sps"
  shows "\<exists>pn v. physnet_of b = Some pn \<and> wired pn (pb_host b) (sp_port_id sp) v w'"
proof -
  obtain pn vs where pn: "physnet_of b = Some pn" and a: "handle_segment_allocation env sps pn (pb_host b) w = (Inr vs, w')"
    using assms(2-4)
    by (auto simp: configure_trunk_def fetch_port_object_def first_binding_def
        add_subports_networks_to_parent_port_switchport_def elim!: truthyE split: if_splits prod.splits sum.splits)
  have "list_all2 (\<lambda>sp v. wired pn (pb_host b) (sp_port_id sp) v w') sps vs"
    using handle_segment_allocation_spec [OF assms(1) a] by simp
  then show ?thesis using assms(5) pn by (metis in_set_conv_nth list_all2_conv_all_nth)
qed

lemma bind_port_Inr:
  assumes "bind_port env ctx w = (Inr (ContinueBinding i nexts), w')"
  obtains seg pn w1 x where "find (\<lambda>s. sg_network_type s = ''vxlan'') (pc_segments_to_bind ctx) = Some seg"
    "sg_id seg = i" "port_physnet (pc_current ctx) = Some pn" "pn \<noteq> []" "nexts = [x]"
    "(case vlan_segment_for_physnet ctx pn of Some s \<Rightarrow> ret (Some s)
      | None \<Rightarrow> ne_tm_allocate env (pd_network_id (pc_current ctx)) (Some pn) ''vlan'') w = (Inr x, w1)"
    "(case pd_trunk_details (pc_current ctx) of None \<Rightarrow> ret ()
      | Some sub_ports \<Rightarrow> configure_trunk env sub_ports (pd_id (pc_current ctx))) w1 = (Inr (), w')"
proof -
  obtain seg where seg: "find (\<lambda>s. sg_network_type s = ''vxlan'') (pc_segments_to_bind ctx) = Some seg"
    and b: "bind_port_segment env ctx seg w = (Inr (ContinueBinding i nexts), w')"
    using assms by (auto simp: bind_port_def Let_def split: if_splits option.splits)
  obtain pn where pn: "port_physnet (pc_current ctx) = Some pn" "pn \<noteq> []"
    using b by (cases "truthy (port_physnet (pc_current ctx))")
      (auto simp: bind_port_segment_def Let_def elim!: truthyE)
  have "bnd (case vlan_segment_for_physnet ctx pn of Some s \<Rightarrow> ret (Some s)
      | None \<Rightarrow> ne_tm_allocate env (pd_network_id (pc_current ctx)) (Some pn) ''vlan'') (\<lambda>x.
      andthen (case pd_trunk_details (pc_current ctx) of None \<Rightarrow> ret ()
        | Some sub_ports \<Rightarrow> configure_trunk env sub_ports (pd_id (pc_current ctx)))
      (ret (ContinueBinding (sg_id seg) [x]))) w = (Inr (ContinueBinding i nexts), w')"
    using b pn unfolding bind_port_segment_def Let_def pn(1) by simp
  then show ?thesis
    unfolding bnd_Inr andthen_Inr_unit using that seg pn by auto
qed

section \<open>Properties\<close>

text \<open>
  C10: Hierarchical binding.  When \<open>bind_port\<close> continues a baremetal binding, its level is a
  VXLAN segment offered for binding, the one segment it hands on is a VLAN segment of the port's
  network on the physical network of the binding profile, and the \<open>undersync\<close> driver then binds
  exactly that segment; and if the port is a trunk parent, every subport has been bound to a
  VLAN segment of its network on the parent's host.
\<close>
theorem bind_port_two_levels:
  assumes "tm_ok env" "bind_port env ctx w = (Inr (ContinueBinding i nexts), w')"
    and "pd_vnic_type (pc_current ctx) = Some ''baremetal''"
    and "\<forall>s \<in> set (pc_network_segments ctx). sg_network_id s = pd_network_id (pc_current ctx)"
  shows "\<exists>seg s pn. seg \<in> set (pc_segments_to_bind ctx) \<and> sg_network_type seg = ''vxlan'' \<and> sg_id seg = i \<and>
    nexts = [Some s] \<and> port_physnet (pc_current ctx) = Some pn \<and>
    vlan_segment_of (pd_network_id (pc_current ctx)) pn s \<and>
    undersync_bind_port (ctx\<lparr>pc_segments_to_bind := [s]\<rparr>) = SetBinding (sg_id s) ''other'' ''ACTIVE'' \<and>
    (\<forall>sps p b bs sp. pd_trunk_details (pc_current ctx) = Some sps \<and>
       port_get_object (pd_id (pc_current ctx)) w = Some p \<and> port_bindings (p_id p) w = b # bs \<and> sp \<in> set sps \<longrightarrow>
       (\<exists>pn v. physnet_of b = Some pn \<and> wired pn (pb_host b) (sp_port_id sp) v w'))"
proof (rule bind_port_Inr [OF assms(2)])
  fix seg pn w1 x
  let ?n = "pd_network_id (pc_current ctx)"
  assume seg: "find (\<lambda>s. sg_network_type s = ''vxlan'') (pc_segments_to_bind ctx) = Some seg" "sg_id seg = i"
    and pn: "port_physnet (pc_current ctx) = Some pn" "pn \<noteq> []" and nx: "nexts = [x]"
    and a: "(case vlan_segment_for_physnet ctx pn of Some s \<Rightarrow> ret (Some s)
      | None \<Rightarrow> ne_tm_allocate env ?n (Some pn) ''vlan'') w = (Inr x, w1)"
    and t: "(case pd_trunk_details (pc_current ctx) of None \<Rightarrow> ret ()
      | Some sub_ports \<Rightarrow> configure_trunk env sub_ports (pd_id (pc_current ctx))) w1 = (Inr (), w')"
  have "\<exists>s ns. x = Some s \<and> vlan_segment_of ?n pn s \<and> w1 = w\<lparr>w_segments := w_segments w @ ns\<rparr>"
  proof (cases "vlan_segment_for_physnet ctx pn")
    case None
    with a have "ne_tm_allocate env ?n (Some pn) ''vlan'' w = (Inr x, w1)" by simp
    then show ?thesis by (rule tm_allocateD [OF assms(1)]) (auto simp: vlan_segment_of_def)
  next
    case (Some s)
    then have "vlan_segment_of ?n pn s"
      using assms(4) unfolding vlan_segment_for_physnet_def vlan_segment_of_def by (auto dest!: find_SomeD)
    moreover have "x = Some s" "w1 = w" using Some a by auto
    ultimately show ?thesis by (intro exI [of _ s] exI [of _ "[]"]) simp
  qed
  then obtain s ns where s: "x = Some s" "vlan_segment_of ?n pn s" "w1 = w\<lparr>w_segments := w_segments w @ ns\<rparr>" by blast
  have u: "undersync_bind_port (ctx\<lparr>pc_segments_to_bind := [s]\<rparr>) = SetBinding (sg_id s) ''other'' ''ACTIVE''"
    using s(2) assms(3) by (simp add: undersync_bind_port_def vlan_segment_of_def)
  have tr: "\<exists>pn v. physnet_of b = Some pn \<and> wired pn (pb_host b) (sp_port_id sp) v w'"
    if "pd_trunk_details (pc_current ctx) = Some sps" "port_get_object (pd_id (pc_current ctx)) w = Some p"
      "port_bindings (p_id p) w = b # bs" "sp \<in> set sps" for sps p b bs sp
    using configure_trunk_Inr [OF assms(1), of sps "pd_id (pc_current ctx)" w1 w' p b bs sp] t that
    by (simp add: s(3) port_get_object_def port_bindings_def)
  show ?thesis using find_SomeD [OF seg(1)] seg(2) nx pn(1) s(1,2) u tr by blast
qed

definition ctx_example :: port_ctx where
  "ctx_example = (let p = \<lparr>pd_id = ''parent'', pd_network_id = ''n0'', pd_device_owner = [], pd_device_id = [],
       pd_vnic_type = Some ''baremetal'', pd_profile = [(''physical_network'', ''f20-1'')], pd_fixed_ips = [],
       pd_trunk_details = Some [\<lparr>sp_port_id = ''sub'', sp_segmentation_id = 77\<rparr>]\<rparr> in
     \<lparr>pc_current = p, pc_original = p, pc_vif_type = ''unbound'', pc_original_vif_type = ''other'',
      pc_original_host = ''h1'',
      pc_original_top_segment = Some \<lparr>sg_id = ''vx'', sg_network_id = ''n0'', sg_network_type = ''vxlan'',
        sg_physical_network = None, sg_segmentation_id = Some 9, sg_is_dynamic = False\<rparr>,
      pc_segments_to_bind = [\<lparr>sg_id = ''vx'', sg_network_id = ''n0'', sg_network_type = ''vxlan'',
        sg_physical_network = None, sg_segmentation_id = Some 9, sg_is_dynamic = False\<rparr>],
      pc_network_segments = []\<rparr>)"

theorem bind_port_two_levels_witness:
  "\<exists>nexts w' s. bind_port env_example ctx_example trunk_world = (Inr (ContinueBinding ''vx'' nexts), w') \<and>
     nexts = [Some s] \<and> vlan_segment_of ''n0'' ''f20-1'' s"
proof -
  have "\<exists>nexts w'. bind_port env_example ctx_example trunk_world = (Inr (ContinueBinding ''vx'' nexts), w')"
  proof -
    have "case bind_port env_example ctx_example trunk_world of (Inr (ContinueBinding i nexts), w') \<Rightarrow> i = ''vx'' | _ \<Rightarrow> False"
      by code_simp
    then show ?thesis by (auto split: prod.splits sum.splits bind_result.splits)
  qed
  then obtain nexts w' where b: "bind_port env_example ctx_example trunk_world = (Inr (ContinueBinding ''vx'' nexts), w')"
    by blast
  have v: "pd_vnic_type (pc_current ctx_example) = Some ''baremetal''"
    and n: "\<forall>s \<in> set (pc_network_segments ctx_example). sg_network_id s = pd_network_id (pc_current ctx_example)"
    and c: "pd_network_id (pc_current ctx_example) = ''n0''" "port_physnet (pc_current ctx_example) = Some ''f20-1''"
    by (simp_all add: ctx_example_def Let_def port_physnet_def dget_def)
  show ?thesis using b bind_port_two_levels [OF tm_ok_example b v n] unfolding c by auto
qed

text \<open>
  \<open>bind_port\<close> declines, without changing anything, exactly in the three cases the code
  names: an unsupported VNIC type, no VXLAN segment to bind, or no physical network in the
  binding profile; otherwise it never returns unbound.
\<close>
lemma bind_port_declines_iff:
  "bind_port env ctx w = (Inr NotBound, w') \<longleftrightarrow> w' = w \<and>
     (pd_vnic_type (pc_current ctx) \<notin> {None, Some ''baremetal'', Some ''normal''} \<or>
      (\<forall>s \<in> set (pc_segments_to_bind ctx). sg_network_type s \<noteq> ''vxlan'') \<or>
      \<not> truthy (port_physnet (pc_current ctx)))"
proof (cases "truthy (port_physnet (pc_current ctx))")
  case False
  then show ?thesis
    by (auto simp: bind_port_def bind_port_segment_def Let_def split: option.splits)
next
  case True
  have seg: "bind_port_segment env ctx s w \<noteq> (Inr NotBound, w')" for s w'
    using True unfolding bind_port_segment_def Let_def
    by (auto simp: bnd_Inr andthen_Inr_unit simp del: bnd_apply andthen_apply)
  have fnd: "find (\<lambda>s. sg_network_type s = ''vxlan'') (pc_segments_to_bind ctx) = None \<longleftrightarrow>
      (\<forall>s \<in> set (pc_segments_to_bind ctx). sg_network_type s \<noteq> ''vxlan'')" by (auto simp: find_None_iff)
  show ?thesis
    using True seg unfolding fnd [symmetric]
    by (cases "pd_vnic_type (pc_current ctx)"; cases "find (\<lambda>s. sg_network_type s = ''vxlan'') (pc_segments_to_bind ctx)")
      (auto simp: bind_port_def Let_def)
qed

text \<open>
  Deleting a baremetal port with a physical network returns, syncs its VLAN group exactly
  once, changes no binding level, and releases the dynamic VLAN segment of the port's network
  and physical network exactly when no level uses it; on the provisioning network it releases
  nothing.
\<close>
lemma delete_port_releases_segment:
  assumes "tm_ok env" "tm_release_returns env" "is_baremetal_port ctx = Inr True"
    and "port_physnet (pc_current ctx) = Some pn" "pn \<noteq> []" "post_ok env pn"
  shows "delete_port_postcommit env ctx w = (Inr (), w\<lparr>
    w_segments := (case network_segment_by_physnet (pd_network_id (pc_current ctx)) pn w of
        None \<Rightarrow> w_segments w
      | Some s \<Rightarrow> if sg_is_dynamic s \<and> ports_bound_to_segment (sg_id s) w = [] \<and>
                     pd_network_id (pc_current ctx) \<noteq> cf_provisioning_network env
                  then filter (\<lambda>x. sg_id x \<noteq> sg_id s) (w_segments w) else w_segments w),
    w_posts := w_posts w @ [sync_url env pn]\<rparr>)"
  using assms
  by (auto simp: delete_port_postcommit_def delete_port_baremetal_def Let_def is_provisioning_network_def
      sync_ok release_segment_if_unused_eq split: option.split)




definition mech_env_example :: mech_env where
  "mech_env_example = \<lparr>me_routers = router_env_fresh, me_svi = svi_env_example\<rparr>"

lemma plugins_keep_example: "plugins_keep (re_net (me_routers mech_env_example))"
  by (auto simp: plugins_keep_def mech_env_example_def router_env_fresh_def fresh_env_def env_example_def
      keeps_def Let_def)


text \<open>
  The port precommit hooks enforce the SVI scope rules on every way a subnet can reach a
  router: if the create hook returns, or the update hook returns for a port that became a
  router interface or changed its addresses, the subnets of an SVI router that shared one
  address scope per IP version still do.
\<close>
lemma svi_rules_enforced_precommit:
  assumes "create_port_precommit env ctx w = (Inr (), w') \<or>
      update_port_precommit env ctx w = (Inr (), w') \<and>
      (\<not> is_router_interface_port (pc_original ctx) \<or> pd_fixed_ips (pc_original ctx) \<noteq> pd_fixed_ips (pc_current ctx))"
    and "pd_device_owner (pc_current ctx) = DEVICE_OWNER_ROUTER_INTF" "pd_device_id (pc_current ctx) \<noteq> []"
    and "se_get_router (me_svi env) (pd_device_id (pc_current ctx)) = Inr router"
      "is_svi_router (me_svi env) router = Inr True"
    and "get_existing_router_subnet_ids (me_svi env) (pd_device_id (pc_current ctx)) = Inr existing"
      "one_scope (me_svi env) (set existing)"
  shows "w' = w \<and> one_scope (me_svi env) (set existing \<union> set (port_subnet_ids (as_svi_port (pc_current ctx))))"
proof -
  let ?p = "as_svi_port (pc_current ctx)"
  have ri: "is_router_interface ctx" "is_router_interface_port (pc_current ctx)"
    using assms(2) by (simp_all add: is_router_interface_def is_router_interface_port_def ROUTER_INTERFACE_AND_GW_def)
  have v: "w' = w \<and> (\<exists>b. validate_svi_router_port (me_svi env) ?p = Inr b)"
    using assms(1) ri
    by (auto simp: create_port_precommit_def update_port_precommit_def Let_def split: sum.splits if_splits)
  then obtain sc where "validate_address_scope_rules (me_svi env) (pd_device_id (pc_current ctx)) (port_subnet_ids ?p) = Inr sc"
    using assms(2-5) by (auto simp: validate_svi_router_port_def as_svi_port_def sbnd_Inr)
  from one_scope_extend [OF this assms(6,7)] v show ?thesis by blast
qed

end
