(* ===== verification/Ironic_Client.thy ===== *)
theory Ironic_Client
  imports Prelude
begin

text \<open>
  \<open>neutron_understack/ironic.py\<close>: the Ironic client of the router flavors, which adopts a netdev
  node for a router and returns it to the pool.

  The state is Ironic's node table as this worker sees it.  The SDK's calls are parameters
  (\<open>ironic_env\<close>); \<open>ironic_ok\<close> states their documented effect (a call changes only its node, a
  returned update is written, a returned transition with \<open>wait\<close> has reached its stable state) and
  \<open>ironic_responds\<close> that they do not fail.
\<close>

section \<open>Nodes and the SDK\<close>

record bm_node =
  bn_id :: string
  bn_name :: "string option"
  bn_driver :: string
  bn_resource_class :: "string option"
  bn_provision_state :: string
  bn_maintenance :: bool
  bn_lessee :: "string option"
  bn_instance_id :: "string option"
  bn_instance_name :: "string option"

type_synonym node_table = "bm_node list"

record ironic_env =
  ie_nodes :: "(bm_node \<Rightarrow> bool) \<Rightarrow> (node_table, bm_node list) act"
  ie_get_node :: "string \<Rightarrow> (node_table, bm_node) act"
  ie_set_state :: "string \<Rightarrow> string \<Rightarrow> bool \<Rightarrow> (node_table, unit) act"
  ie_update :: "string \<Rightarrow> string option \<Rightarrow> string option \<Rightarrow> string option \<Rightarrow> (node_table, unit) act"
  ie_wait :: "string \<Rightarrow> string \<Rightarrow> (node_table, bm_node list) act"

section \<open>The client\<close>

definition available_filter :: "string \<Rightarrow> bm_node \<Rightarrow> bool" where
  "available_filter resource_class n =
     (bn_driver n = ''netdev'' \<and> bn_resource_class n = Some resource_class \<and>
      bn_provision_state n = ''available'' \<and> \<not> bn_maintenance n)"

definition available_node_for_resource_class ::
  "ironic_env \<Rightarrow> string \<Rightarrow> (node_table, bm_node option) act"
where
  "available_node_for_resource_class env resource_class =
     bnd (ie_nodes env (available_filter resource_class)) (\<lambda>ns.
       case ns of [] \<Rightarrow> ret None | node # _ \<Rightarrow> ret (Some node))"

definition node_by_instance_uuid :: "ironic_env \<Rightarrow> string \<Rightarrow> (node_table, bm_node option) act" where
  "node_by_instance_uuid env instance_uuid =
     bnd (ie_nodes env (\<lambda>n. bn_instance_id n = Some instance_uuid)) (\<lambda>ns.
       case ns of [] \<Rightarrow> ret None | node # _ \<Rightarrow> ret (Some node))"

definition clear_ownership :: "ironic_env \<Rightarrow> string \<Rightarrow> (node_table, unit) act" where
  "clear_ownership env node_id = try_except (ie_update env node_id None None None) (\<lambda>e. ret ())"

definition guarded_provision :: "ironic_env \<Rightarrow> string \<Rightarrow> string \<Rightarrow> (node_table, unit) act" where
  "guarded_provision env node_id target = try_except (ie_set_state env node_id target True) (\<lambda>e. ret ())"

definition return_node_to_available :: "ironic_env \<Rightarrow> string \<Rightarrow> (node_table, unit) act" where
  "return_node_to_available env node_ref =
     bnd (try_except (bnd (ie_get_node env node_ref) (\<lambda>n. ret (Some n))) (\<lambda>e. ret None)) (\<lambda>found.
       case found of
         None \<Rightarrow> ret ()
       | Some node \<Rightarrow>
           (let node_id = bn_id node; state = bn_provision_state node in
            if state = ''available'' then clear_ownership env node_id
            else if state = ''manageable'' then
              andthen (clear_ownership env node_id) (guarded_provision env node_id ''provide'')
            else if state = ''active'' then
              andthen (guarded_provision env node_id ''deleted'') (clear_ownership env node_id)
            else ret ()))"

text \<open>The body of the \<open>try\<close> of \<open>adopt_node_for_router\<close>.\<close>

definition adopt_steps ::
  "ironic_env \<Rightarrow> string \<Rightarrow> string option \<Rightarrow> string \<Rightarrow> string \<Rightarrow> (node_table, unit) act"
where
  "adopt_steps env node_id project_id router_id router_name =
     andthen (ie_set_state env node_id ''manage'' True)
     (andthen (ie_update env node_id project_id (Some router_id) (Some router_name))
     (andthen (ie_set_state env node_id ''adopt'' False)
     (bnd (ie_wait env node_id ''active'') (\<lambda>ns.
       case ns of [] \<Rightarrow> raise_exn IndexError | adopted # _ \<Rightarrow> ret ()))))"

definition adopt_node_for_router ::
  "ironic_env \<Rightarrow> string \<Rightarrow> string option \<Rightarrow> string \<Rightarrow> string \<Rightarrow> (node_table, unit) act"
where
  "adopt_node_for_router env node_id project_id router_id router_name =
     try_except (adopt_steps env node_id project_id router_id router_name)
       (\<lambda>e. andthen (return_node_to_available env node_id) (raise_exn e))"

definition release_node_for_router :: "ironic_env \<Rightarrow> string \<Rightarrow> (node_table, bm_node option) act" where
  "release_node_for_router env router_id =
     bnd (node_by_instance_uuid env router_id) (\<lambda>node.
       case node of
         None \<Rightarrow> ret None
       | Some n \<Rightarrow> andthen (return_node_to_available env (bn_id n)) (ret (Some n)))"

section \<open>The SDK's contract\<close>

definition on_node :: "string \<Rightarrow> (bm_node \<Rightarrow> bm_node) \<Rightarrow> node_table \<Rightarrow> node_table" where
  "on_node i f ns = map (\<lambda>n. if bn_id n = i then f n else n) ns"

definition own :: "string option \<Rightarrow> string option \<Rightarrow> string option \<Rightarrow> bm_node \<Rightarrow> bm_node" where
  "own l u m n = n\<lparr>bn_lessee := l, bn_instance_id := u, bn_instance_name := m\<rparr>"

definition in_state :: "string \<Rightarrow> bm_node \<Rightarrow> bm_node" where
  "in_state s n = n\<lparr>bn_provision_state := s\<rparr>"

text \<open>What a transition leaves of the node: undeploying drops the instance but not the lessee.\<close>

definition transit :: "string \<Rightarrow> string \<Rightarrow> bm_node \<Rightarrow> bm_node" where
  "transit verb s n = (if verb = ''deleted''
     then in_state s (n\<lparr>bn_instance_id := None, bn_instance_name := None\<rparr>) else in_state s n)"

definition stable_state :: "string \<Rightarrow> string" where
  "stable_state verb = (if verb = ''manage'' then ''manageable'' else ''available'')"

text \<open>A call on node \<open>i\<close> touches no other node and neither adds nor removes nodes.\<close>

definition touches :: "string \<Rightarrow> node_table \<Rightarrow> node_table \<Rightarrow> bool" where
  "touches i ns ns' \<longleftrightarrow> list_all2 (\<lambda>n n'. bn_id n' = bn_id n \<and> (bn_id n \<noteq> i \<longrightarrow> n' = n)) ns ns'"

definition nodes_ok :: "ironic_env \<Rightarrow> bool" where
  "nodes_ok env = (\<forall>P ns r ns'. ie_nodes env P ns = (r, ns') \<longrightarrow>
     ns' = ns \<and> (\<forall>x. r = Inr x \<longrightarrow> x = filter P ns))"

definition get_node_ok :: "ironic_env \<Rightarrow> bool" where
  "get_node_ok env = (\<forall>i ns r ns'. ie_get_node env i ns = (r, ns') \<longrightarrow>
     ns' = ns \<and> (\<forall>n. r = Inr n \<longrightarrow> n \<in> set ns \<and> bn_id n = i))"

definition set_state_ok :: "ironic_env \<Rightarrow> bool" where
  "set_state_ok env = (\<forall>i v b ns r ns'. ie_set_state env i v b ns = (r, ns') \<longrightarrow> touches i ns ns' \<and>
     (r = Inr () \<longrightarrow> (\<exists>s. ns' = on_node i (transit v s) ns \<and> (b \<longrightarrow> s = stable_state v))))"

definition update_ok :: "ironic_env \<Rightarrow> bool" where
  "update_ok env = (\<forall>i l u m ns r ns'. ie_update env i l u m ns = (r, ns') \<longrightarrow>
     ns' = (if r = Inr () then on_node i (own l u m) ns else ns))"

definition wait_ok :: "ironic_env \<Rightarrow> bool" where
  "wait_ok env = (\<forall>i s ns r ns'. ie_wait env i s ns = (r, ns') \<longrightarrow> touches i ns ns' \<and>
     (\<forall>x. r = Inr x \<longrightarrow> ns' = on_node i (in_state s) ns))"

definition ironic_ok :: "ironic_env \<Rightarrow> bool" where
  "ironic_ok env = (nodes_ok env \<and> get_node_ok env \<and> set_state_ok env \<and> update_ok env \<and> wait_ok env)"

text \<open>The calls of the recovery path answer.\<close>

definition ironic_responds :: "ironic_env \<Rightarrow> bool" where
  "ironic_responds env =
     ((\<forall>i ns. i \<in> bn_id ` set ns \<longrightarrow> (\<exists>n. ie_get_node env i ns = (Inr n, ns))) \<and>
      (\<forall>P ns. \<exists>x. ie_nodes env P ns = (Inr x, ns)) \<and>
      (\<forall>i l u m ns. \<exists>ns'. ie_update env i l u m ns = (Inr (), ns')) \<and>
      (\<forall>i v ns. \<exists>ns'. ie_set_state env i v True ns = (Inr (), ns')))"

section \<open>Lemmas\<close>

lemma touches_refl: "touches i ns ns"
  by (simp add: touches_def list_all2_refl)

lemma touches_trans: "touches i a b \<Longrightarrow> touches i b c \<Longrightarrow> touches i a c"
  by (simp add: touches_def list_all2_conv_all_nth)

lemma touches_on_node: "(\<And>n. bn_id (f n) = bn_id n) \<Longrightarrow> touches i ns (on_node i f ns)"
  unfolding touches_def on_node_def by (simp add: list_all2_map2 list_all2_refl)

lemma node_ids [simp]:
  "bn_id (own l u m n) = bn_id n" "bn_id (in_state s n) = bn_id n" "bn_id (transit v s n) = bn_id n"
  by (simp_all add: own_def in_state_def transit_def)

lemma on_node_on_node:
  "(\<And>n. bn_id (f n) = bn_id n) \<Longrightarrow> on_node i g (on_node i f ns) = on_node i (\<lambda>n. g (f n)) ns"
  by (simp add: on_node_def)

lemma on_node_cong:
  "(\<And>n. n \<in> set ns \<Longrightarrow> bn_id n = i \<Longrightarrow> f n = g n) \<Longrightarrow> on_node i f ns = on_node i g ns"
  by (simp add: on_node_def)

lemma set_stateD:
  assumes "ironic_ok env"
  shows "ie_set_state env i v b ns = (r, ns') \<Longrightarrow> touches i ns ns'"
    "ie_set_state env i v True ns = (Inr (), ns') \<Longrightarrow> ns' = on_node i (transit v (stable_state v)) ns"
    "ie_set_state env i v b ns = (Inr (), ns') \<Longrightarrow> \<exists>s. ns' = on_node i (transit v s) ns"
proof -
  have "set_state_ok env" using assms by (simp add: ironic_ok_def)
  then show "ie_set_state env i v b ns = (r, ns') \<Longrightarrow> touches i ns ns'"
    "ie_set_state env i v True ns = (Inr (), ns') \<Longrightarrow> ns' = on_node i (transit v (stable_state v)) ns"
    "ie_set_state env i v b ns = (Inr (), ns') \<Longrightarrow> \<exists>s. ns' = on_node i (transit v s) ns"
    unfolding set_state_ok_def by blast+
qed

lemma updateD:
  assumes "ironic_ok env"
  shows "ie_update env i l u m ns = (Inr (), ns') \<Longrightarrow> ns' = on_node i (own l u m) ns"
    "ie_update env i l u m ns = (Inl e, ns') \<Longrightarrow> ns' = ns"
  using assms unfolding ironic_ok_def update_ok_def by (force, force)

lemma waitD:
  assumes "ironic_ok env"
  shows "ie_wait env i s ns = (r, ns') \<Longrightarrow> touches i ns ns'"
    "ie_wait env i s ns = (Inr x, ns') \<Longrightarrow> ns' = on_node i (in_state s) ns"
proof -
  have "wait_ok env" using assms by (simp add: ironic_ok_def)
  then show "ie_wait env i s ns = (r, ns') \<Longrightarrow> touches i ns ns'"
    "ie_wait env i s ns = (Inr x, ns') \<Longrightarrow> ns' = on_node i (in_state s) ns"
    unfolding wait_ok_def by blast+
qed

lemma get_nodeD:
  assumes "ironic_ok env"
  shows "ie_get_node env i ns = (r, ns') \<Longrightarrow> ns' = ns"
    "ie_get_node env i ns = (Inr n, ns') \<Longrightarrow> n \<in> set ns \<and> bn_id n = i"
proof -
  have "get_node_ok env" using assms by (simp add: ironic_ok_def)
  then show "ie_get_node env i ns = (r, ns') \<Longrightarrow> ns' = ns"
    "ie_get_node env i ns = (Inr n, ns') \<Longrightarrow> n \<in> set ns \<and> bn_id n = i"
    unfolding get_node_ok_def by blast+
qed

lemma nodesD:
  assumes "ironic_ok env"
  shows "ie_nodes env P ns = (r, ns') \<Longrightarrow> ns' = ns"
    "ie_nodes env P ns = (Inr x, ns') \<Longrightarrow> x = filter P ns"
proof -
  have "nodes_ok env" using assms by (simp add: ironic_ok_def)
  then show "ie_nodes env P ns = (r, ns') \<Longrightarrow> ns' = ns" "ie_nodes env P ns = (Inr x, ns') \<Longrightarrow> x = filter P ns"
    unfolding nodes_ok_def by blast+
qed

lemma update_touches: "ironic_ok env \<Longrightarrow> ie_update env i l u m ns = (r, ns') \<Longrightarrow> touches i ns ns'"
  by (cases r) (auto dest: updateD simp: touches_refl touches_on_node)

lemma keeps_touchesI: "(\<And>ns r ns'. m ns = (r, ns') \<Longrightarrow> touches i ns ns') \<Longrightarrow> keeps (touches i s) m"
  unfolding keeps_def using touches_trans by (metis prod.collapse)

lemma local_calls:
  assumes "ironic_ok env"
  shows "keeps (touches i s) (ie_set_state env i v b)" "keeps (touches i s) (ie_update env i l u m)"
    "keeps (touches i s) (ie_wait env i t)" "keeps (touches i s) (ie_get_node env j)"
    "keeps (touches i s) (ie_nodes env P)"
      apply (rule keeps_touchesI, erule set_stateD(1) [OF assms])
     apply (rule keeps_touchesI, erule update_touches [OF assms])
    apply (rule keeps_touchesI, erule waitD(1) [OF assms])
   apply (rule keeps_touchesI, drule get_nodeD(1) [OF assms], simp add: touches_refl)
  apply (rule keeps_touchesI, drule nodesD(1) [OF assms], simp add: touches_refl)
  done

lemma keeps_return:
  assumes "ironic_ok env"
  shows "keeps (touches i s) (return_node_to_available env i)"
proof -
  have "keeps (touches i s) (case found of None \<Rightarrow> ret () | Some node \<Rightarrow>
           (let node_id = bn_id node; state = bn_provision_state node in
            if state = ''available'' then clear_ownership env node_id
            else if state = ''manageable'' then
              andthen (clear_ownership env node_id) (guarded_provision env node_id ''provide'')
            else if state = ''active'' then
              andthen (guarded_provision env node_id ''deleted'') (clear_ownership env node_id)
            else ret ()))" if "\<And>n. found = Some n \<Longrightarrow> bn_id n = i" for found
    unfolding clear_ownership_def guarded_provision_def Let_def
    by (intro act_rules) (auto simp: that intro!: act_rules local_calls [OF assms])
  note body = this
  show ?thesis
    unfolding keeps_def
  proof (intro allI impI)
    fix ns assume t: "touches i s ns"
    obtain r ns' where g: "ie_get_node env i ns = (r, ns')" by (cases "ie_get_node env i ns")
    have [simp]: "ns' = ns" using get_nodeD(1) [OF assms g] .
    show "touches i s (snd (return_node_to_available env i ns))"
      using keepsD [OF body, of "case r of Inl _ \<Rightarrow> None | Inr n \<Rightarrow> Some n" ns] get_nodeD(2) [OF assms, of i ns _ ns'] g t
      by (cases r) (auto simp: return_node_to_available_def)
  qed
qed

text \<open>A node that is back in the pool: available and nobody's.\<close>

definition freed_node :: "bm_node \<Rightarrow> bm_node" where
  "freed_node n = own None None None (in_state ''available'' n)"

definition recoverable :: "bm_node \<Rightarrow> bool" where
  "recoverable n = (bn_provision_state n \<in> {''available'', ''manageable'', ''active''})"

lemma unique_node: "distinct (map bn_id ns) \<Longrightarrow> n \<in> set ns \<Longrightarrow> m \<in> set ns \<Longrightarrow> bn_id n = bn_id m \<Longrightarrow> n = m"
  by (auto simp: distinct_map inj_on_def)

lemma return_never_raises: "\<exists>ns'. return_node_to_available env i ns = (Inr (), ns')"
proof -
  have "\<exists>ns'. try_except m (\<lambda>e. ret ()) ns = (Inr (), ns')" for m :: "(node_table, unit) act" and ns
    by (auto split: prod.split sum.split)
  then have *: "\<exists>ns'. clear_ownership env j ns = (Inr (), ns')" "\<exists>ns'. guarded_provision env j v ns = (Inr (), ns')" for j v ns
    unfolding clear_ownership_def guarded_provision_def by blast+
  obtain r ns1 where "ie_get_node env i ns = (r, ns1)" by (cases "ie_get_node env i ns")
  then show ?thesis
  proof (cases r)
    case (Inr n)
    have "\<exists>ns'. andthen (clear_ownership env j) (guarded_provision env j v) ns = (Inr (), ns')"
      "\<exists>ns'. andthen (guarded_provision env j v) (clear_ownership env j) ns = (Inr (), ns')" for j v ns
      using *(1) [of j] *(2) [of j v] unfolding andthen_Inr_unit by meson+
    with Inr * \<open>ie_get_node env i ns = (r, ns1)\<close> show ?thesis
      by (simp add: return_node_to_available_def Let_def del: andthen_apply)
  qed (simp add: return_node_to_available_def)
qed

lemma return_result:
  assumes "ironic_ok env" "ironic_responds env" "distinct (map bn_id ns)" "n \<in> set ns" "bn_id n = i"
  shows "return_node_to_available env i ns = (Inr (), if recoverable n then on_node i freed_node ns else ns)"
proof -
  obtain x where g: "ie_get_node env i ns = (Inr x, ns)"
    using assms(2,4,5) unfolding ironic_responds_def by blast
  have x: "x = n" using get_nodeD(2) [OF assms(1) g] unique_node [OF assms(3)] assms(4,5) by metis
  have upd: "ie_update env i None None None s = (Inr (), on_node i (own None None None) s)" for s
    using assms(2) updateD(1) [OF assms(1)] unfolding ironic_responds_def by metis
  have st: "ie_set_state env i v True s = (Inr (), on_node i (transit v (stable_state v)) s)" for v s
    using assms(2) set_stateD(2) [OF assms(1)] unfolding ironic_responds_def by metis
  note eqs = on_node_on_node own_def in_state_def transit_def stable_state_def freed_node_def
  have av: "bn_provision_state n = ''available'' \<Longrightarrow> on_node i (own None None None) ns = on_node i freed_node ns"
    using unique_node [OF assms(3) assms(4)] assms(5) by (intro on_node_cong) (auto simp: eqs)
  have ma: "on_node i (transit ''provide'' (stable_state ''provide'')) (on_node i (own None None None) ns) = on_node i freed_node ns"
    and ac: "on_node i (own None None None) (on_node i (transit ''deleted'' (stable_state ''deleted'')) ns) = on_node i freed_node ns"
    by (auto simp: eqs intro!: on_node_cong)
  show ?thesis
    using g x assms(5) upd st av ma ac
    by (auto simp: return_node_to_available_def recoverable_def clear_ownership_def guarded_provision_def Let_def)
qed

lemma adopt_steps_Inr:
  assumes "ironic_ok env" "adopt_steps env i p r m ns = (Inr (), ns')"
  shows "ns' = on_node i (\<lambda>n. own p (Some r) (Some m) (in_state ''active'' n)) ns"
proof -
  obtain n1 n2 n3 x where a: "ie_set_state env i ''manage'' True ns = (Inr (), n1)"
    "ie_update env i p (Some r) (Some m) n1 = (Inr (), n2)" "ie_set_state env i ''adopt'' False n2 = (Inr (), n3)"
    "ie_wait env i ''active'' n3 = (Inr x, ns')"
    using assms(2) unfolding adopt_steps_def andthen_Inr_unit bnd_Inr by (auto split: list.splits simp: neq_Nil_conv)
  obtain s where "n3 = on_node i (transit ''adopt'' s) n2" using set_stateD(3) [OF assms(1) a(3)] by blast
  then show ?thesis
    using set_stateD(2) [OF assms(1) a(1)] updateD(1) [OF assms(1) a(2)] waitD(2) [OF assms(1) a(4)]
    by (auto simp: on_node_on_node own_def in_state_def transit_def intro!: on_node_cong)
qed

lemma keeps_adopt:
  assumes "ironic_ok env"
  shows "keeps (touches i s) (adopt_node_for_router env i p r m)"
  unfolding adopt_node_for_router_def adopt_steps_def
  by (intro act_rules local_calls [OF assms] keeps_return [OF assms])

lemma keeps_adopt_steps:
  "ironic_ok env \<Longrightarrow> keeps (touches i s) (adopt_steps env i p r m)"
  unfolding adopt_steps_def by (intro act_rules local_calls)

lemma adopt_touches:
  "ironic_ok env \<Longrightarrow> adopt_node_for_router env i p r m ns = (q, ns') \<Longrightarrow> touches i ns ns'"
  using keepsD [OF keeps_adopt touches_refl, of env i ns p r m] by simp

lemma adopt_Inr:
  assumes "ironic_ok env" "adopt_node_for_router env i p r m ns = (Inr (), ns')"
  shows "ns' = on_node i (\<lambda>n. own p (Some r) (Some m) (in_state ''active'' n)) ns"
proof -
  have "adopt_steps env i p r m ns = (Inr (), ns')"
    using assms(2) by (auto simp: adopt_node_for_router_def split: prod.splits sum.splits)
  then show ?thesis by (rule adopt_steps_Inr [OF assms(1)])
qed

section \<open>The contract the router provider relies on\<close>

locale node_lifecycle =
  fixes good :: "'e \<Rightarrow> bool"
    and pick :: "'e \<Rightarrow> string \<Rightarrow> (node_table, bm_node option) act"
    and adopt :: "'e \<Rightarrow> string \<Rightarrow> string option \<Rightarrow> string \<Rightarrow> string \<Rightarrow> (node_table, unit) act"
    and release :: "'e \<Rightarrow> string \<Rightarrow> (node_table, bm_node option) act"
  assumes pick_pure: "good e \<Longrightarrow> pick e c ns = (q, ns') \<Longrightarrow> ns' = ns"
    and pick_some: "good e \<Longrightarrow> pick e c ns = (Inr (Some n), ns') \<Longrightarrow> n \<in> set ns \<and> available_filter c n"
    and pick_none: "good e \<Longrightarrow> pick e c ns = (Inr None, ns') \<Longrightarrow> n \<in> set ns \<Longrightarrow> \<not> available_filter c n"
    and adopt_returns: "good e \<Longrightarrow> adopt e i p r m ns = (Inr (), ns') \<Longrightarrow>
        ns' = on_node i (\<lambda>n. own p (Some r) (Some m) (in_state ''active'' n)) ns"
    and adopt_local: "good e \<Longrightarrow> adopt e i p r m ns = (y, ns') \<Longrightarrow> touches i ns ns'"
    and release_local: "good e \<Longrightarrow> release e r ns = (Inr (Some n), ns') \<Longrightarrow>
        n \<in> set ns \<and> bn_instance_id n = Some r \<and> touches (bn_id n) ns ns'"
    and release_none: "good e \<Longrightarrow> release e r ns = (Inr None, ns') \<Longrightarrow> ns' = ns"
begin

lemma adopt_binds:
  assumes "good e" "adopt e i p r m ns = (Inr (), ns')" "n \<in> set ns" "bn_id n = i"
  shows "\<exists>n' \<in> set ns'. bn_id n' = i \<and> bn_instance_id n' = Some r \<and> bn_provision_state n' = ''active''"
proof (rule bexI)
  let ?n = "own p (Some r) (Some m) (in_state ''active'' n)"
  show "bn_id ?n = i \<and> bn_instance_id ?n = Some r \<and> bn_provision_state ?n = ''active''"
    using assms(4) by (simp add: own_def in_state_def)
  show "?n \<in> set ns'" unfolding adopt_returns [OF assms(1,2)] on_node_def using assms(3,4) by force
qed

lemma adopt_spares:
  assumes "good e" "adopt e i p r m ns = (q, ns')" "n \<in> set ns" "bn_id n \<noteq> i"
  shows "n \<in> set ns'"
proof -
  obtain k where k: "k < length ns" "ns ! k = n" using assms(3) by (auto simp: in_set_conv_nth)
  then have "ns' ! k = n" "k < length ns'"
    using adopt_local [OF assms(1,2)] assms(4) by (auto simp: touches_def list_all2_conv_all_nth)
  then show ?thesis by auto
qed

end

lemma first_match:
  assumes "ironic_ok env" "bnd (ie_nodes env P) (\<lambda>ns. case ns of [] \<Rightarrow> ret None | node # _ \<Rightarrow> ret (Some node)) ns = (q, ns')"
  shows "ns' = ns" "q = Inr (Some n) \<Longrightarrow> n \<in> set ns \<and> P n" "q = Inr None \<Longrightarrow> \<forall>n \<in> set ns. \<not> P n"
proof -
  obtain x n1 where x: "ie_nodes env P ns = (x, n1)" by (cases "ie_nodes env P ns")
  note d = nodesD(1) [OF assms(1) x]
  show "ns' = ns" using assms(2) x d by (cases x) (auto split: list.splits)
  show "n \<in> set ns \<and> P n" if some: "q = Inr (Some n)"
  proof -
    obtain l where "x = Inr (n # l)" using assms(2) x some by (cases x) (auto split: list.splits)
    then have "filter P ns = n # l" using nodesD(2) [OF assms(1)] x by metis
    then show ?thesis by (rule filter_ConsD)
  qed
  show "\<forall>n \<in> set ns. \<not> P n" if "q = Inr None"
  proof -
    have "x = Inr []" using assms(2) x that by (cases x) (auto split: list.splits)
    then have "filter P ns = []" using nodesD(2) [OF assms(1)] x by metis
    then show ?thesis by (simp add: filter_empty_conv)
  qed
qed

lemma release_cases:
  assumes "ironic_ok env" "release_node_for_router env r ns = (Inr found, ns')"
  shows "case found of None \<Rightarrow> ns' = ns
    | Some n \<Rightarrow> n \<in> set ns \<and> bn_instance_id n = Some r \<and> touches (bn_id n) ns ns'"
proof -
  obtain x n1 where x: "node_by_instance_uuid env r ns = (Inr x, n1)"
    and k: "(case x of None \<Rightarrow> ret None | Some n \<Rightarrow> andthen (return_node_to_available env (bn_id n)) (ret (Some n))) n1
      = (Inr found, ns')"
    using assms(2) unfolding release_node_for_router_def bnd_Inr by blast
  note f = first_match [OF assms(1) x [unfolded node_by_instance_uuid_def]]
  show ?thesis
  proof (cases x)
    case None
    with k f(1) show ?thesis by simp
  next
    case (Some n)
    obtain n2 where n2: "return_node_to_available env (bn_id n) ns = (Inr (), n2)" using return_never_raises by blast
    then have "touches (bn_id n) ns n2"
      using keepsD [OF keeps_return [OF assms(1)] touches_refl, of "bn_id n" ns] by simp
    with Some k n2 f show ?thesis by auto
  qed
qed

interpretation ironic_nodes: node_lifecycle ironic_ok available_node_for_resource_class
  adopt_node_for_router release_node_for_router
proof (unfold_locales, goal_cases)
  case (1 e c ns q ns')
  then show ?case unfolding available_node_for_resource_class_def by (rule first_match(1))
next
  case (2 e c ns n ns')
  then show ?case unfolding available_node_for_resource_class_def by (rule first_match(2)) simp
next
  case (3 e c ns ns' n)
  then show ?case unfolding available_node_for_resource_class_def using first_match(3) by blast
next
  case (4 e i p r m ns ns')
  then show ?case by (rule adopt_Inr)
next
  case (5 e i p r m ns q ns')
  then show ?case by (rule adopt_touches)
next
  case (6 e r ns n ns')
  then show ?case using release_cases [of e r ns "Some n" ns'] by simp
next
  case (7 e r ns ns')
  then show ?case using release_cases [of e r ns None ns'] by simp
qed

section \<open>Properties\<close>

text \<open>
  Adoption is all or nothing for the pool.  If it returns, the node is active and carries the
  project, router id and router name, and nothing else changed.  If it raises, the original
  error comes through, no other node was touched, and, when Ironic answers the recovery calls,
  a node the failed attempt left available, manageable or active is available again with no
  owner (in any other state it is left as it is).
\<close>
lemma adopt_all_or_nothing:
  assumes "ironic_ok env" "distinct (map bn_id ns)" "i \<in> bn_id ` set ns"
    and "adopt_node_for_router env i p r m ns = (res, ns')"
  shows "case res of
      Inr _ \<Rightarrow> ns' = on_node i (\<lambda>n. own p (Some r) (Some m) (in_state ''active'' n)) ns
    | Inl e \<Rightarrow> touches i ns ns' \<and> (\<exists>n1. adopt_steps env i p r m ns = (Inl e, n1) \<and> touches i ns n1 \<and>
        (ironic_responds env \<longrightarrow> (\<exists>n \<in> set n1. bn_id n = i \<and> ns' = (if recoverable n then on_node i freed_node n1 else n1))))"
proof (cases res)
  case (Inr x)
  then show ?thesis using adopt_Inr [OF assms(1)] assms(4) by simp
next
  case (Inl e)
  obtain n1 where s: "adopt_steps env i p r m ns = (Inl e, n1)" and k: "return_node_to_available env i n1 = (Inr (), ns')"
  proof -
    obtain q n1 where q: "adopt_steps env i p r m ns = (q, n1)" by (cases "adopt_steps env i p r m ns")
    obtain n2 where "return_node_to_available env i n1 = (Inr (), n2)" using return_never_raises by blast
    with q assms(4) Inl show ?thesis using that [of n1] by (cases q) (auto simp: adopt_node_for_router_def)
  qed
  have t: "touches i ns n1"
    using keepsD [OF keeps_adopt_steps [OF assms(1)] touches_refl, of i ns p r m] s by simp
  have ids: "map bn_id n1 = map bn_id ns"
    using t by (auto simp: touches_def list_all2_conv_all_nth intro: nth_equalityI)
  have "\<exists>n \<in> set n1. bn_id n = i \<and> ns' = (if recoverable n then on_node i freed_node n1 else n1)" if "ironic_responds env"
  proof -
    obtain n where n: "n \<in> set n1" "bn_id n = i" using assms(3) ids by (metis imageE set_map)
    have d: "distinct (map bn_id n1)" using assms(2) ids by simp
    from return_result [OF assms(1) that d n] k n show ?thesis by auto
  qed
  then show ?thesis using Inl s t adopt_touches [OF assms(1,4)] by auto
qed

definition ironic_example :: ironic_env where
  "ironic_example = \<lparr>
     ie_nodes = (\<lambda>P ns. (Inr (filter P ns), ns)),
     ie_get_node = (\<lambda>i ns. case find (\<lambda>n. bn_id n = i) ns of None \<Rightarrow> (Inl (NotFound i), ns) | Some n \<Rightarrow> (Inr n, ns)),
     ie_set_state = (\<lambda>i v b ns. (Inr (), on_node i (transit v (stable_state v)) ns)),
     ie_update = (\<lambda>i l u m ns. (Inr (), on_node i (own l u m) ns)),
     ie_wait = (\<lambda>i s ns. if s = ''active'' then (Inl (Foreign ''ResourceTimeout''), ns)
       else (Inr (filter (\<lambda>n. bn_id n = i) ns), on_node i (in_state s) ns))\<rparr>"

lemma find_id: "i \<in> bn_id ` set ns \<Longrightarrow> \<exists>n. find (\<lambda>n. bn_id n = i) ns = Some n"
  using find_None_iff [of "\<lambda>n. bn_id n = i" ns] by fastforce

lemma ironic_ok_example: "ironic_ok ironic_example"
  unfolding ironic_ok_def
  by (auto simp: nodes_ok_def get_node_ok_def set_state_ok_def update_ok_def wait_ok_def ironic_example_def
      touches_refl touches_on_node split: option.splits dest!: find_SomeD)

lemma ironic_responds_example: "ironic_responds ironic_example"
  unfolding ironic_responds_def ironic_example_def by (auto dest!: find_id)

definition node_example :: bm_node where
  "node_example = \<lparr>bn_id = ''u1'', bn_name = Some ''fw1'', bn_driver = ''netdev'', bn_resource_class = Some ''pa'',
     bn_provision_state = ''available'', bn_maintenance = False, bn_lessee = None, bn_instance_id = None,
     bn_instance_name = None\<rparr>"

text \<open>
  Returning a node never raises; when Ironic answers, a node that is available, manageable
  or active ends up available with no lessee, instance id or instance name, all other nodes
  are as they were, and a node in any other state is left alone.
\<close>
lemma return_node_result:
  assumes "ironic_ok env" "ironic_responds env" "distinct (map bn_id ns)" "n \<in> set ns"
  shows "\<exists>ns'. return_node_to_available env (bn_id n) ns = (Inr (), ns') \<and>
    (if recoverable n
     then (\<exists>n' \<in> set ns'. bn_id n' = bn_id n \<and> bn_provision_state n' = ''available'' \<and> bn_lessee n' = None \<and>
            bn_instance_id n' = None \<and> bn_instance_name n' = None) \<and>
          filter (\<lambda>k. bn_id k \<noteq> bn_id n) ns' = filter (\<lambda>k. bn_id k \<noteq> bn_id n) ns
     else ns' = ns)"
proof -
  note r = return_result [OF assms refl]
  have "filter (\<lambda>k. bn_id k \<noteq> bn_id n) (on_node (bn_id n) freed_node s) = filter (\<lambda>k. bn_id k \<noteq> bn_id n) s" for s
    by (induction s) (auto simp: on_node_def freed_node_def)
  moreover have "freed_node n \<in> set (on_node (bn_id n) freed_node ns)"
    using assms(4) unfolding on_node_def by force
  ultimately show ?thesis
    unfolding r by (auto simp: freed_node_def own_def in_state_def intro!: bexI [of _ "freed_node n"])
qed

end
