(* ===== verification/Palo_Alto.thy ===== *)
theory Palo_Alto
  imports Ironic_Client Svi
begin

text \<open>
  \<open>neutron_understack/l3_router/palo_alto.py\<close>: the router flavor realised on a netdev node.  The
  flavor lookups are parameters as in \<open>Vrf\<close> and \<open>Svi\<close>; the Ironic client is used through the
  contract \<open>node_lifecycle\<close>.  The state is the node table and the names of the networks.
\<close>

section \<open>Definitions\<close>

definition ANCHOR_NETWORK_NAME :: string where
  "ANCHOR_NETWORK_NAME = ''palo_alto_router_anchor_network''"

record palo_env =
  pe_svi :: svi_env
  pe_flavor :: flavor_env
  pe_ironic :: ironic_env
  pe_create_network :: "string \<Rightarrow> exn + unit"

record palo_state =
  ps_nodes :: node_table
  ps_networks :: "string list"

definition on_nodes :: "(node_table, 'a) act \<Rightarrow> (palo_state, 'a) act" where
  "on_nodes m = (\<lambda>s. case m (ps_nodes s) of (r, ns) \<Rightarrow> (r, s\<lparr>ps_nodes := ns\<rparr>))"

definition parse_metainfo :: "flavor_env \<Rightarrow> metainfo \<Rightarrow> exn + string dict" where
  "parse_metainfo env raw =
     (case raw of
        MetaNone \<Rightarrow> Inr []
      | MetaDict d \<Rightarrow> Inr d
      | MetaText t \<Rightarrow>
          if t = [] then Inr []
          else (case fe_json_loads env t of
                  Inl e \<Rightarrow> if is_json_error e then Inr [] else Inl e
                | Inr (JDict d) \<Rightarrow> Inr d
                | Inr JNonDict \<Rightarrow> Inr []))"

definition palo_alto_provider :: string where
  "palo_alto_provider = ''neutron_understack.l3_router.palo_alto.PaloAlto''"

definition is_palo_alto_provider :: "palo_env \<Rightarrow> l3_router \<Rightarrow> exn + bool" where
  "is_palo_alto_provider env router =
     (case lr_flavor_id router of
        FlavorNone \<Rightarrow> Inr False
      | FlavorNotSpecified \<Rightarrow> Inr False
      | FlavorId fid \<Rightarrow>
          sbnd (flavor_driver (pe_svi env) fid) (\<lambda>actual_driver. Inr (actual_driver = palo_alto_provider)))"

fun first_resource_class :: "flavor_env \<Rightarrow> string list \<Rightarrow> exn + string option" where
  "first_resource_class env [] = Inr None"
| "first_resource_class env (sp_id # rest) =
     sbnd (fe_profile_metainfo env sp_id) (\<lambda>raw.
     sbnd (parse_metainfo env raw) (\<lambda>info.
       let resource_class = dget info ''resource_class'' in
       if truthy resource_class then Inr resource_class else first_resource_class env rest))"

definition router_flavor :: "l3_router \<Rightarrow> string" where
  "router_flavor router = (case lr_flavor_id router of FlavorId f \<Rightarrow> f | _ \<Rightarrow> [])"

definition resource_class_for_router :: "palo_env \<Rightarrow> l3_router \<Rightarrow> exn + string" where
  "resource_class_for_router env router =
     sbnd (fe_flavor_profiles (pe_flavor env) (router_flavor router)) (\<lambda>profiles.
     sbnd (first_resource_class (pe_flavor env) profiles) (\<lambda>found.
       case found of
         Some c \<Rightarrow> Inr c
       | None \<Rightarrow> Inl (PaloAltoFlavorMisconfigured (lr_id router) (router_flavor router))))"

definition ensure_anchor_network :: "palo_env \<Rightarrow> (palo_state, unit) act" where
  "ensure_anchor_network env =
     bnd (reads ps_networks) (\<lambda>networks.
       if ANCHOR_NETWORK_NAME \<in> set networks then ret ()
       else andthen (of_sum (pe_create_network env ANCHOR_NETWORK_NAME))
              (updates (\<lambda>s. s\<lparr>ps_networks := ps_networks s @ [ANCHOR_NETWORK_NAME]\<rparr>)))"

definition palo_router_create :: "palo_env \<Rightarrow> l3_router \<Rightarrow> (palo_state, unit) act" where
  "palo_router_create env router =
     bnd (of_sum (is_palo_alto_provider env router)) (\<lambda>matched.
       if \<not> matched then ret ()
       else
         bnd (of_sum (resource_class_for_router env router)) (\<lambda>resource_class.
         bnd (on_nodes (available_node_for_resource_class (pe_ironic env) resource_class)) (\<lambda>node.
           case node of
             None \<Rightarrow> raise_exn (NoNetdevNodeAvailable resource_class (lr_id router))
           | Some n \<Rightarrow>
               andthen (ensure_anchor_network env)
                 (on_nodes (adopt_node_for_router (pe_ironic env) (bn_id n) (lr_project_id router) (lr_id router)
                   (py_or (lr_name router) (lr_id router)))))))"

definition palo_router_delete :: "palo_env \<Rightarrow> l3_router \<Rightarrow> (palo_state, unit) act" where
  "palo_router_delete env router =
     bnd (of_sum (is_palo_alto_provider env router)) (\<lambda>matched.
       if \<not> matched then ret ()
       else andthen (on_nodes (release_node_for_router (pe_ironic env) (lr_id router))) (ret ()))"

section \<open>Lemmas\<close>

lemma on_nodes_apply [simp]:
  "on_nodes m s = (fst (m (ps_nodes s)), s\<lparr>ps_nodes := snd (m (ps_nodes s))\<rparr>)"
  by (simp add: on_nodes_def split: prod.split)

lemma ensure_anchor_nodes: "ps_nodes (snd (ensure_anchor_network env s)) = ps_nodes s"
  by (simp add: ensure_anchor_network_def split: sum.split)

lemma ensure_anchor_Inr:
  "ensure_anchor_network env s = (Inr (), s') \<Longrightarrow> ANCHOR_NETWORK_NAME \<in> set (ps_networks s') \<and> ps_nodes s' = ps_nodes s"
  by (auto simp: ensure_anchor_network_def split: if_splits sum.splits)

text \<open>The provider's steps up to the adoption.\<close>

lemma palo_create_cases:
  assumes "ironic_ok (pe_ironic env)" "is_palo_alto_provider env router = Inr True"
    "palo_router_create env router s = (res, s')"
  obtains (early) e where "res = Inl e" "ps_nodes s' = ps_nodes s"
  | (adopt) c n s1 where "resource_class_for_router env router = Inr c" "n \<in> set (ps_nodes s)" "available_filter c n"
      "ANCHOR_NETWORK_NAME \<in> set (ps_networks s1)" "ps_nodes s1 = ps_nodes s" "s' = s1\<lparr>ps_nodes := ps_nodes s'\<rparr>"
      "adopt_node_for_router (pe_ironic env) (bn_id n) (lr_project_id router) (lr_id router)
         (py_or (lr_name router) (lr_id router)) (ps_nodes s) = (res, ps_nodes s')"
proof (cases "resource_class_for_router env router")
  case (Inl e)
  with assms(2,3) show ?thesis by (intro early [of e]) (auto simp: palo_router_create_def)
next
  case (Inr c)
  obtain q ns where q: "available_node_for_resource_class (pe_ironic env) c (ps_nodes s) = (q, ns)"
    by (cases "available_node_for_resource_class (pe_ironic env) c (ps_nodes s)")
  have [simp]: "ns = ps_nodes s" using ironic_nodes.pick_pure [OF assms(1) q] .
  have base: "palo_router_create env router s = (case q of Inl e \<Rightarrow> (Inl e, s) | Inr None \<Rightarrow>
      (Inl (NoNetdevNodeAvailable c (lr_id router)), s) | Inr (Some n) \<Rightarrow> andthen (ensure_anchor_network env)
        (on_nodes (adopt_node_for_router (pe_ironic env) (bn_id n) (lr_project_id router) (lr_id router)
           (py_or (lr_name router) (lr_id router)))) s)"
    using assms(2) Inr q by (simp add: palo_router_create_def split: sum.split option.split)
  show ?thesis
  proof (cases "\<exists>n. q = Inr (Some n)")
    case False
    then show ?thesis
      using base assms(3) by (cases q) (auto intro: early split: option.splits)
  next
    case True
    then obtain n where n: "q = Inr (Some n)" by blast
    have av: "n \<in> set (ps_nodes s)" "available_filter c n"
      using ironic_nodes.pick_some [OF assms(1)] q n by blast+
    obtain x s1 where x: "ensure_anchor_network env s = (x, s1)" by (cases "ensure_anchor_network env s")
    have nodes: "ps_nodes s1 = ps_nodes s" using ensure_anchor_nodes [of env s] x by simp
    show ?thesis
    proof (cases x)
      case (Inl e)
      then show ?thesis using base assms(3) n x nodes by (intro early [of e]) auto
    next
      case xr: (Inr u)
      then have "ANCHOR_NETWORK_NAME \<in> set (ps_networks s1)" using ensure_anchor_Inr x by simp
      with av nodes Inr show ?thesis
        using base assms(3) n x xr by (intro adopt [of c n s1]) auto
    qed
  qed
qed

lemma palo_create_adopted:
  assumes "ironic_ok (pe_ironic env)" "is_palo_alto_provider env router = Inr True"
    and "palo_router_create env router s = (Inr (), s')"
  shows "\<exists>c n. resource_class_for_router env router = Inr c \<and> n \<in> set (ps_nodes s) \<and> available_filter c n \<and>
    ps_nodes s' = on_node (bn_id n) (\<lambda>k. own (lr_project_id router) (Some (lr_id router))
      (Some (py_or (lr_name router) (lr_id router))) (in_state ''active'' k)) (ps_nodes s) \<and>
    ANCHOR_NETWORK_NAME \<in> set (ps_networks s')"
proof (cases rule: palo_create_cases [OF assms])
  case (1 e)
  then show ?thesis by simp
next
  case (2 c n s1)
  have "ps_networks s' = ps_networks s1" using arg_cong [OF 2(6), of ps_networks] by simp
  with 2 ironic_nodes.adopt_returns [OF assms(1) 2(7)] show ?thesis by metis
qed

section \<open>Properties\<close>

text \<open>
  C13: When creating a Palo Alto router returns, a node that was an available netdev node of the
  flavor's resource class, not in maintenance, is active and bound to the project and router;
  every other node is unchanged and the anchor network exists.
\<close>
theorem palo_create_adopts_one:
  assumes "ironic_ok (pe_ironic env)" "is_palo_alto_provider env router = Inr True"
    and "palo_router_create env router s = (Inr (), s')"
  shows "\<exists>c n. resource_class_for_router env router = Inr c \<and> n \<in> set (ps_nodes s) \<and> available_filter c n \<and>
    ps_nodes s' = on_node (bn_id n) (\<lambda>k. own (lr_project_id router) (Some (lr_id router))
      (Some (py_or (lr_name router) (lr_id router))) (in_state ''active'' k)) (ps_nodes s) \<and>
    ANCHOR_NETWORK_NAME \<in> set (ps_networks s')"
  by (rule palo_create_adopted [OF assms])

definition ironic_prompt :: ironic_env where
  "ironic_prompt = ironic_example\<lparr>ie_wait := (\<lambda>i s ns. (Inr [node_example], on_node i (in_state s) ns))\<rparr>"

lemma ironic_ok_prompt: "ironic_ok ironic_prompt"
  using ironic_ok_example
  by (auto simp: ironic_ok_def nodes_ok_def get_node_ok_def set_state_ok_def update_ok_def wait_ok_def
      ironic_prompt_def touches_on_node)

lemma ironic_responds_prompt: "ironic_responds ironic_prompt"
  using ironic_responds_example by (simp add: ironic_responds_def ironic_prompt_def)

definition palo_env_example :: palo_env where
  "palo_env_example = \<lparr>pe_svi = svi_env_example\<lparr>se_next_providers := (\<lambda>f. Inr [palo_alto_provider])\<rparr>,
     pe_flavor = vrf_env_example\<lparr>fe_flavor_profiles := (\<lambda>f. Inr [''sp0'', ''sp1'']),
       fe_json_loads := (\<lambda>t. if t = ''x'' then Inl (ValueError t) else Inr (JDict [(''resource_class'', ''pa'')]))\<rparr>,
     pe_ironic = ironic_prompt, pe_create_network = (\<lambda>n. Inr ())\<rparr>"

definition palo_router :: l3_router where
  "palo_router = \<lparr>lr_id = ''r1'', lr_name = None, lr_project_id = Some ''pr'', lr_flavor_id = FlavorId ''pa''\<rparr>"

definition palo_created :: palo_state where
  "palo_created = snd (palo_router_create palo_env_example palo_router \<lparr>ps_nodes = [node_example], ps_networks = []\<rparr>)"

lemma palo_created_eval:
  "palo_router_create palo_env_example palo_router \<lparr>ps_nodes = [node_example], ps_networks = []\<rparr> = (Inr (), palo_created)"
proof -
  have "fst (palo_router_create palo_env_example palo_router \<lparr>ps_nodes = [node_example], ps_networks = []\<rparr>) = Inr ()"
    by code_simp
  then show ?thesis unfolding palo_created_def by (metis prod.collapse)
qed

theorem palo_create_adopts_one_witness:
  "ANCHOR_NETWORK_NAME \<in> set (ps_networks palo_created) \<and>
   is_palo_alto_provider palo_env_example palo_router = Inr True"
proof -
  have i: "ironic_ok (pe_ironic palo_env_example)" by (simp add: palo_env_example_def ironic_ok_prompt)
  have p: "is_palo_alto_provider palo_env_example palo_router = Inr True" by code_simp
  show ?thesis using p palo_create_adopts_one [OF i p palo_created_eval] by blast
qed

text \<open>
  When creating a router of this flavor raises, at most the node it had picked was touched;
  and it was not touched either unless the failure came from the adoption itself: a missing
  resource class, an exhausted pool or a failed anchor network leave the node table as it was.
  For a router of any other flavor nothing happens at all.
\<close>
lemma palo_create_failure_is_local:
  assumes "ironic_ok (pe_ironic env)" "is_palo_alto_provider env router = Inr matched"
    and "palo_router_create env router s = (res, s')"
  shows "(\<not> matched \<longrightarrow> res = Inr () \<and> s' = s) \<and>
    (\<forall>e. res = Inl e \<longrightarrow> ps_nodes s' = ps_nodes s \<or>
      (\<exists>c n. available_filter c n \<and> n \<in> set (ps_nodes s) \<and> touches (bn_id n) (ps_nodes s) (ps_nodes s') \<and>
        fst (adopt_node_for_router (pe_ironic env) (bn_id n) (lr_project_id router) (lr_id router)
          (py_or (lr_name router) (lr_id router)) (ps_nodes s)) = Inl e))"
proof (cases matched)
  case False
  then show ?thesis using assms(2,3) by (auto simp: palo_router_create_def)
next
  case True
  with assms(2) have m: "is_palo_alto_provider env router = Inr True" by simp
  show ?thesis
  proof (cases rule: palo_create_cases [OF assms(1) m assms(3)])
    case (1 e)
    then show ?thesis using True by simp
  next
    case (2 c n s1)
    have "touches (bn_id n) (ps_nodes s) (ps_nodes s')" using ironic_nodes.adopt_local [OF assms(1) 2(7)] .
    with 2 True show ?thesis by (metis fst_conv)
  qed
qed



end
