(* ===== verification/Json.thy ===== *)
theory Json
  imports Py_Str "HOL-Library.Sublist"
begin

text \<open>
  Decoded JSON values, and the operations of Python the modelled code applies to them: truth, subscripts,
  membership, iteration, \<open>get\<close> and the conversion to text.  The keys of an object are distinct, as
  in the \<open>dict\<close> that \<open>json\<close> returns.

  Of a number the modelled code only needs whether it is zero and, for integers, its
  value, so fractions are not represented.
\<close>

section \<open>Values\<close>

datatype json =
    JNull
  | JBool bool
  | JNum int
  | JStr string
  | JList "json list"
  | JObj "(string \<times> json) list"

fun json_truthy :: "json \<Rightarrow> bool" where
  "json_truthy JNull = False"
| "json_truthy (JBool b) = b"
| "json_truthy (JNum n) = (n \<noteq> 0)"
| "json_truthy (JStr t) = (t \<noteq> [])"
| "json_truthy (JList xs) = (xs \<noteq> [])"
| "json_truthy (JObj d) = (d \<noteq> [])"

section \<open>Access\<close>

text \<open>\<open>v[k]\<close> for a text \<open>k\<close>, \<open>v[0]\<close>, \<open>k in v\<close>, \<open>for x in v\<close>, \<open>v.get (k)\<close> and methods of \<open>str\<close>.\<close>

fun jitem :: "json \<Rightarrow> string \<Rightarrow> exn + json" where
  "jitem (JObj d) k = (case dget d k of None \<Rightarrow> Inl (KeyError k) | Some v \<Rightarrow> Inr v)"
| "jitem _ k = Inl (TypeError ''indices must be integers'')"

fun jindex0 :: "json \<Rightarrow> exn + json" where
  "jindex0 (JList (x # xs)) = Inr x"
| "jindex0 (JList []) = Inl IndexError"
| "jindex0 (JStr (c # cs)) = Inr (JStr [c])"
| "jindex0 (JStr []) = Inl IndexError"
| "jindex0 (JObj d) = Inl (KeyError ''0'')"
| "jindex0 _ = Inl (TypeError ''object is not subscriptable'')"

fun jin :: "string \<Rightarrow> json \<Rightarrow> exn + bool" where
  "jin k (JObj d) = Inr (dget d k \<noteq> None)"
| "jin k (JList xs) = Inr (JStr k \<in> set xs)"
| "jin k (JStr t) = Inr (contains k t)"
| "jin k _ = Inl (TypeError ''argument is not iterable'')"

fun jiter :: "json \<Rightarrow> exn + json list" where
  "jiter (JList xs) = Inr xs"
| "jiter (JObj d) = Inr (map (\<lambda>(k, _). JStr k) d)"
| "jiter (JStr t) = Inr (map (\<lambda>c. JStr [c]) t)"
| "jiter _ = Inl (TypeError ''object is not iterable'')"

fun jobject :: "string \<Rightarrow> json \<Rightarrow> exn + json dict" where
  "jobject method (JObj d) = Inr d"
| "jobject method _ = Inl (AttributeError method)"

fun jstring :: "string \<Rightarrow> json \<Rightarrow> exn + string" where
  "jstring method (JStr t) = Inr t"
| "jstring method _ = Inl (AttributeError method)"

text \<open>\<open>d.get (k)\<close>: an absent key and a null value are both \<open>None\<close>.\<close>

definition jget :: "json dict \<Rightarrow> string \<Rightarrow> json option" where
  "jget d k = (case dget d k of None \<Rightarrow> None | Some JNull \<Rightarrow> None | Some v \<Rightarrow> Some v)"

definition jget_default :: "json dict \<Rightarrow> string \<Rightarrow> json \<Rightarrow> json" where
  "jget_default d k v = (case dget d k of None \<Rightarrow> v | Some w \<Rightarrow> w)"

section \<open>Text\<close>

definition hex_char :: "nat \<Rightarrow> char" where
  "hex_char n = char_of (if n < 10 then 48 + n else 87 + n)"

definition repr_char :: "char \<Rightarrow> char \<Rightarrow> string" where
  "repr_char q c = (let n = (of_char c :: nat) in
     if c = q \<or> c = CHR 92 then [CHR 92, c]
     else if n = 10 then [CHR 92, CHR ''n''] else if n = 13 then [CHR 92, CHR ''r''] else if n = 9 then [CHR 92, CHR ''t'']
     else if n < 32 \<or> n = 127 then [CHR 92, CHR ''x'', hex_char (n div 16), hex_char (n mod 16)]
     else [c])"

definition str_repr :: "string \<Rightarrow> string" where
  "str_repr s = (let q = (if CHR 39 \<in> set s \<and> CHR 34 \<notin> set s then CHR 34 else CHR 39) in
     [q] @ concat (map (repr_char q) s) @ [q])"

fun json_repr :: "json \<Rightarrow> string" where
  "json_repr JNull = ''None''"
| "json_repr (JBool b) = (if b then ''True'' else ''False'')"
| "json_repr (JNum n) = show_int n"
| "json_repr (JStr t) = str_repr t"
| "json_repr (JList xs) = ''['' @ join '', '' (map json_repr xs) @ '']''"
| "json_repr (JObj d) = ''{'' @ join '', '' (map (\<lambda>e. str_repr (fst e) @ '': '' @ json_repr (snd e)) d) @ ''}''"

definition json_str :: "json \<Rightarrow> string" where
  "json_str v = (case v of JStr t \<Rightarrow> t | _ \<Rightarrow> json_repr v)"

text \<open>\<open>json.dumps\<close> of a list of strings, which writes everything outside printable ASCII as an escape.\<close>

definition dumps_char :: "char \<Rightarrow> string" where
  "dumps_char c = (let n = (of_char c :: nat) in
     if c = CHR 34 \<or> c = CHR 92 then [CHR 92, c]
     else if n = 10 then [CHR 92, CHR ''n''] else if n = 13 then [CHR 92, CHR ''r''] else if n = 9 then [CHR 92, CHR ''t'']
     else if n = 8 then [CHR 92, CHR ''b''] else if n = 12 then [CHR 92, CHR ''f'']
     else if n < 32 \<or> 126 < n then [CHR 92] @ ''u00'' @ [hex_char (n div 16), hex_char (n mod 16)]
     else [c])"

definition dumps_strings :: "string list \<Rightarrow> string" where
  "dumps_strings ts = ''['' @ join '', '' (map (\<lambda>t. [CHR 34] @ concat (map dumps_char t) @ [CHR 34]) ts) @ '']''"

lemma json_str_JStr [simp]: "json_str (JStr t) = t"
  by (simp add: json_str_def)

lemma jitem_Inr: "jitem v k = Inr x \<longleftrightarrow> (\<exists>d. v = JObj d \<and> dget d k = Some x)"
  by (cases v) (auto split: option.splits)

lemma jobject_Inr: "jobject m v = Inr d \<longleftrightarrow> v = JObj d"
  by (cases v) auto

end
