(* ===== verification/Ironic_Workflow.thy ===== *)
theory Ironic_Workflow
  imports Json
begin

text \<open>
  The Ironic side of the enrollment workflows: the nodes and ports of Ironic as
  \<open>understack_workflows/ironic/client.py\<close> reaches them through \<open>ironicclient\<close>, and the provision
  state transitions of \<open>understack_workflows/ironic_node.py\<close>.

  The calls of \<open>ironicclient\<close> are parameters (\<open>wf_env\<close>), over a state holding Ironic's node and port
  tables.  \<open>wf_ok\<close> states their documented effect: reads change nothing and report the tables, a
  call that raises has written nothing (a transition may have moved the node), a returned
  \<open>wait_for_provision_state\<close> has seen the state it waits for, a JSON patch of known attributes sets
  exactly those, and a new node starts in \<open>enroll\<close>.
\<close>

section \<open>Nodes and ports\<close>

record wf_node =
  wn_uuid :: string
  wn_name :: "string option"
  wn_driver :: string
  wn_provision_state :: string
  wn_resource_class :: "string option"
  wn_driver_info :: "json dict"
  wn_extra :: "json dict"
  wn_boot_interface :: "string option"
  wn_inspect_interface :: "string option"

record wf_port =
  wp_uuid :: string
  wp_node_uuid :: string
  wp_name :: "string option"
  wp_address :: "string option"
  wp_physical_network :: "string option"
  wp_category :: "string option"
  wp_local_link_connection :: "(string dict) option"
  wp_pxe_enabled :: bool
  wp_extra :: "string dict"

text \<open>
  Besides Ironic's tables, the state has the passwords of the accounts of the management controller a server
  is enrolled through, which other workflows do not reach.
\<close>

record wf_state =
  ws_nodes :: "wf_node list"
  ws_ports :: "wf_port list"
  ws_bmc :: "string dict"

text \<open>The port attributes the workflows write: the body of a create call and the patch operations.\<close>

record port_data =
  dt_address :: string
  dt_category :: string
  dt_local_link_connection :: "string dict"
  dt_name :: string
  dt_node_uuid :: string
  dt_physical_network :: string

datatype port_patch =
    PatchAddress string
  | PatchPhysicalNetwork string
  | PatchCategory string
  | PatchLocalLink "string dict"

type_synonym node_patch = "(string \<times> json) list"

text \<open>The optional arguments of a transition: clean steps as pairs of interface and step.\<close>

record transition_opts =
  to_clean_steps :: "((string \<times> string) list) option"
  to_runbook :: "string option"
  to_disable_ramdisk :: "bool option"

definition no_opts :: transition_opts where
  "no_opts = \<lparr>to_clean_steps = None, to_runbook = None, to_disable_ramdisk = None\<rparr>"

record wf_env =
  we_get_node :: "string \<Rightarrow> (wf_state, wf_node) act"
  we_create_node :: "json dict \<Rightarrow> (wf_state, wf_node) act"
  we_update_node :: "string \<Rightarrow> node_patch \<Rightarrow> (wf_state, unit) act"
  we_set_state :: "string \<Rightarrow> string \<Rightarrow> transition_opts \<Rightarrow> (wf_state, unit) act"
  we_wait :: "string \<Rightarrow> string \<Rightarrow> (wf_state, unit) act"
  we_list_ports :: "string \<Rightarrow> (wf_state, wf_port list) act"
  we_create_port :: "port_data \<Rightarrow> (wf_state, unit) act"
  we_update_port :: "string \<Rightarrow> port_patch list \<Rightarrow> (wf_state, unit) act"
  we_patch :: "string list \<Rightarrow> node_patch"
  we_decode :: "string \<Rightarrow> json"

section \<open>Transitions\<close>

definition transition ::
  "wf_env \<Rightarrow> string \<Rightarrow> string \<Rightarrow> string option \<Rightarrow> transition_opts \<Rightarrow> (wf_state, unit) act"
where
  "transition env node_uuid target_state expected_state opts =
     andthen (we_set_state env node_uuid target_state opts)
       (case expected_state of
          None \<Rightarrow> ret ()
        | Some e \<Rightarrow> when_act (e \<noteq> []) (we_wait env node_uuid e))"

abbreviation move_to :: "wf_env \<Rightarrow> string \<Rightarrow> string \<Rightarrow> string \<Rightarrow> (wf_state, unit) act" where
  "move_to env node_uuid target_state expected_state \<equiv> transition env node_uuid target_state (Some expected_state) no_opts"

section \<open>The client's contract\<close>

definition on_wnode :: "string \<Rightarrow> (wf_node \<Rightarrow> wf_node) \<Rightarrow> wf_state \<Rightarrow> wf_state" where
  "on_wnode u f s = s\<lparr>ws_nodes := map (\<lambda>n. if wn_uuid n = u then f n else n) (ws_nodes s)\<rparr>"

definition on_wport :: "string \<Rightarrow> (wf_port \<Rightarrow> wf_port) \<Rightarrow> wf_state \<Rightarrow> wf_state" where
  "on_wport u f s = s\<lparr>ws_ports := map (\<lambda>p. if wp_uuid p = u then f p else p) (ws_ports s)\<rparr>"

definition moved :: "string \<Rightarrow> wf_node \<Rightarrow> wf_node" where
  "moved x n = n\<lparr>wn_provision_state := x\<rparr>"

text \<open>One JSON patch operation on the attributes the workflows patch.\<close>

fun patch_node :: "string \<times> json \<Rightarrow> wf_node \<Rightarrow> wf_node" where
  "patch_node (path, v) n =
     (if prefix ''/driver_info/'' path then n\<lparr>wn_driver_info := dput (drop 13 path) v (wn_driver_info n)\<rparr>
      else if prefix ''/extra/'' path then n\<lparr>wn_extra := dput (drop 7 path) v (wn_extra n)\<rparr>
      else case v of
        JStr t \<Rightarrow>
          if path = ''/resource_class'' then n\<lparr>wn_resource_class := Some t\<rparr>
          else if path = ''/boot_interface'' then n\<lparr>wn_boot_interface := Some t\<rparr>
          else if path = ''/inspect_interface'' then n\<lparr>wn_inspect_interface := Some t\<rparr>
          else n
      | _ \<Rightarrow> n)"

definition plain_key :: "string \<Rightarrow> bool" where
  "plain_key k \<longleftrightarrow> k \<noteq> [] \<and> CHR ''/'' \<notin> set k \<and> CHR ''~'' \<notin> set k \<and> CHR ''='' \<notin> set k"

fun patchable :: "string \<times> json \<Rightarrow> bool" where
  "patchable (path, v) \<longleftrightarrow>
     (prefix ''/driver_info/'' path \<and> plain_key (drop 13 path)) \<or>
     (prefix ''/extra/'' path \<and> plain_key (drop 7 path)) \<or>
     (path \<in> {''/resource_class'', ''/boot_interface'', ''/inspect_interface''} \<and> (\<exists>t. v = JStr t))"

fun patch_port :: "port_patch \<Rightarrow> wf_port \<Rightarrow> wf_port" where
  "patch_port (PatchAddress a) p = p\<lparr>wp_address := Some a\<rparr>"
| "patch_port (PatchPhysicalNetwork t) p = p\<lparr>wp_physical_network := Some t\<rparr>"
| "patch_port (PatchCategory c) p = p\<lparr>wp_category := Some c\<rparr>"
| "patch_port (PatchLocalLink d) p = p\<lparr>wp_local_link_connection := Some d\<rparr>"

definition created_as :: "port_data \<Rightarrow> wf_port \<Rightarrow> bool" where
  "created_as d p \<longleftrightarrow> wp_address p = Some (dt_address d) \<and> wp_category p = Some (dt_category d) \<and>
     wp_local_link_connection p = Some (dt_local_link_connection d) \<and> wp_name p = Some (dt_name d) \<and>
     wp_node_uuid p = dt_node_uuid d \<and> wp_physical_network p = Some (dt_physical_network d)"

definition node_created_as :: "json dict \<Rightarrow> wf_node \<Rightarrow> bool" where
  "node_created_as d n \<longleftrightarrow> wn_provision_state n = ''enroll'' \<and>
     (\<forall>t. dget d ''name'' = Some (JStr t) \<longrightarrow> wn_name n = Some t) \<and>
     (\<forall>t. dget d ''driver'' = Some (JStr t) \<longrightarrow> wn_driver n = t) \<and>
     (\<forall>t. dget d ''resource_class'' = Some (JStr t) \<longrightarrow> wn_resource_class n = Some t) \<and>
     (\<forall>m. dget d ''driver_info'' = Some (JObj m) \<longrightarrow> wn_driver_info n = m) \<and>
     (\<forall>m. dget d ''extra'' = Some (JObj m) \<longrightarrow> wn_extra n = m)"

definition reads_ok :: "wf_env \<Rightarrow> bool" where
  "reads_ok env \<longleftrightarrow>
     (\<forall>i s r s'. we_get_node env i s = (r, s') \<longrightarrow> s' = s \<and>
        (\<forall>n. r = Inr n \<longrightarrow> n \<in> set (ws_nodes s) \<and> (wn_name n = Some i \<or> wn_uuid n = i)) \<and>
        (\<forall>m. r = Inl (NotFound m) \<longrightarrow> (\<forall>n \<in> set (ws_nodes s). wn_name n \<noteq> Some i \<and> wn_uuid n \<noteq> i))) \<and>
     (\<forall>u s r s'. we_list_ports env u s = (r, s') \<longrightarrow> s' = s \<and>
        (\<forall>ps. r = Inr ps \<longrightarrow> ps = filter (\<lambda>p. wp_node_uuid p = u) (ws_ports s)))"

definition moves_ok :: "wf_env \<Rightarrow> bool" where
  "moves_ok env \<longleftrightarrow>
     (\<forall>u t o' s r s'. we_set_state env u t o' s = (r, s') \<longrightarrow> (\<exists>x. s' = on_wnode u (moved x) s)) \<and>
     (\<forall>u e s r s'. we_wait env u e s = (r, s') \<longrightarrow>
        (\<exists>x. s' = on_wnode u (moved x) s \<and> (r = Inr () \<longrightarrow> x = e)))"

definition create_node_ok :: "wf_env \<Rightarrow> bool" where
  "create_node_ok env \<longleftrightarrow> (\<forall>d s r s'. we_create_node env d s = (r, s') \<longrightarrow>
     (case r of
        Inl e \<Rightarrow> s' = s
      | Inr n \<Rightarrow> s' = s\<lparr>ws_nodes := ws_nodes s @ [n]\<rparr> \<and> node_created_as d n \<and>
          wn_uuid n \<notin> wn_uuid ` set (ws_nodes s) \<union> wp_node_uuid ` set (ws_ports s)))"

definition update_node_ok :: "wf_env \<Rightarrow> bool" where
  "update_node_ok env \<longleftrightarrow> (\<forall>u ps s r s'. we_update_node env u ps s = (r, s') \<longrightarrow>
     (case r of
        Inl e \<Rightarrow> s' = s
      | Inr _ \<Rightarrow> \<exists>f. s' = on_wnode u f s \<and>
          (\<forall>n. wn_uuid (f n) = wn_uuid n \<and> wn_provision_state (f n) = wn_provision_state n) \<and>
          (list_all patchable ps \<longrightarrow> f = fold patch_node ps)))"

definition create_port_ok :: "wf_env \<Rightarrow> bool" where
  "create_port_ok env \<longleftrightarrow> (\<forall>d s r s'. we_create_port env d s = (r, s') \<longrightarrow>
     (case r of
        Inl e \<Rightarrow> s' = s
      | Inr _ \<Rightarrow> \<exists>p. s' = s\<lparr>ws_ports := ws_ports s @ [p]\<rparr> \<and> created_as d p \<and> wp_uuid p \<notin> wp_uuid ` set (ws_ports s)))"

definition update_port_ok :: "wf_env \<Rightarrow> bool" where
  "update_port_ok env \<longleftrightarrow> (\<forall>u ps s r s'. we_update_port env u ps s = (r, s') \<longrightarrow>
     s' = (case r of Inl e \<Rightarrow> s | Inr _ \<Rightarrow> on_wport u (fold patch_port ps) s))"

text \<open>\<open>args_array_to_patch ('add', updates)\<close>: split each update at its first equals sign.\<close>

definition patch_ok :: "wf_env \<Rightarrow> bool" where
  "patch_ok env \<longleftrightarrow> (\<forall>us. we_patch env us =
     map (\<lambda>u. (CHR ''/'' # fst (split1 CHR ''='' u), we_decode env (snd (split1 CHR ''='' u)))) us)"

definition wf_ok :: "wf_env \<Rightarrow> bool" where
  "wf_ok env \<longleftrightarrow> reads_ok env \<and> moves_ok env \<and> create_node_ok env \<and> update_node_ok env \<and>
     create_port_ok env \<and> update_port_ok env \<and> patch_ok env"

section \<open>Lemmas\<close>

lemma on_wnode_simps [simp]:
  "ws_ports (on_wnode u f s) = ws_ports s"
  "ws_nodes (on_wport u g s) = ws_nodes s"
  by (simp_all add: on_wnode_def on_wport_def)

lemma ws_nodes_on [simp]:
  "ws_nodes (on_wnode u f s) = map (\<lambda>n. if wn_uuid n = u then f n else n) (ws_nodes s)"
  by (simp add: on_wnode_def)

lemma ws_ports_on [simp]:
  "ws_ports (on_wport u g s) = map (\<lambda>p. if wp_uuid p = u then g p else p) (ws_ports s)"
  by (simp add: on_wport_def)

lemma moved_simps [simp]:
  "wn_uuid (moved x n) = wn_uuid n" "wn_name (moved x n) = wn_name n" "wn_driver (moved x n) = wn_driver n"
  "wn_provision_state (moved x n) = x" "wn_resource_class (moved x n) = wn_resource_class n"
  "wn_driver_info (moved x n) = wn_driver_info n" "wn_extra (moved x n) = wn_extra n"
  "moved x (moved y n) = moved x n"
  by (simp_all add: moved_def)

lemma on_wnode_on_wnode: "(\<And>n. wn_uuid (f n) = wn_uuid n) \<Longrightarrow> on_wnode u g (on_wnode u f s) = on_wnode u (g \<circ> f) s"
  by (auto simp: on_wnode_def)

lemma moved_moved [simp]: "moved x \<circ> moved y = moved x"
  by (simp add: fun_eq_iff)

lemma getD:
  assumes "wf_ok env" "we_get_node env i s = (r, s')"
  shows "s' = s" "r = Inr n \<Longrightarrow> n \<in> set (ws_nodes s)" "r = Inr n \<Longrightarrow> wn_name n = Some i \<or> wn_uuid n = i"
    and "r = Inl (NotFound m) \<Longrightarrow> n \<in> set (ws_nodes s) \<Longrightarrow> wn_name n \<noteq> Some i \<and> wn_uuid n \<noteq> i"
  using assms unfolding wf_ok_def reads_ok_def by blast+

lemma list_portsD:
  assumes "wf_ok env" "we_list_ports env u s = (r, s')"
  shows "s' = s" "r = Inr ps \<Longrightarrow> ps = filter (\<lambda>p. wp_node_uuid p = u) (ws_ports s)"
  using assms unfolding wf_ok_def reads_ok_def by blast+

lemma wf_set_stateD:
  assumes "wf_ok env" "we_set_state env u t opts s = (r, s')"
  obtains x where "s' = on_wnode u (moved x) s"
  using assms unfolding wf_ok_def moves_ok_def by blast

lemma wf_waitD:
  assumes "wf_ok env" "we_wait env u e s = (r, s')"
  obtains x where "s' = on_wnode u (moved x) s" "r = Inr () \<Longrightarrow> x = e"
  using assms unfolding wf_ok_def moves_ok_def by blast

lemma create_nodeD:
  assumes "wf_ok env" "we_create_node env d s = (r, s')"
  obtains (raised) e where "r = Inl e" "s' = s"
  | (written) n where "r = Inr n" "s' = s\<lparr>ws_nodes := ws_nodes s @ [n]\<rparr>" "node_created_as d n"
      "wn_uuid n \<notin> wn_uuid ` set (ws_nodes s)" "wn_uuid n \<notin> wp_node_uuid ` set (ws_ports s)"
proof -
  have "create_node_ok env" using assms(1) by (simp add: wf_ok_def)
  then show ?thesis using assms(2) raised written unfolding create_node_ok_def by (cases r) fastforce+
qed

lemma update_nodeD:
  assumes "wf_ok env" "we_update_node env u ps s = (r, s')"
  obtains (raised) e where "r = Inl e" "s' = s"
  | (written) f where "r = Inr ()" "s' = on_wnode u f s" "\<And>n. wn_uuid (f n) = wn_uuid n"
      "\<And>n. wn_provision_state (f n) = wn_provision_state n" "list_all patchable ps \<Longrightarrow> f = fold patch_node ps"
proof -
  have "update_node_ok env" using assms(1) by (simp add: wf_ok_def)
  then show ?thesis using assms(2) raised written unfolding update_node_ok_def by (cases r) fastforce+
qed

lemma create_portD:
  assumes "wf_ok env" "we_create_port env d s = (r, s')"
  obtains (raised) e where "r = Inl e" "s' = s"
  | (written) p where "r = Inr ()" "s' = s\<lparr>ws_ports := ws_ports s @ [p]\<rparr>" "created_as d p"
      "wp_uuid p \<notin> wp_uuid ` set (ws_ports s)"
proof -
  have "create_port_ok env" using assms(1) by (simp add: wf_ok_def)
  then show ?thesis using assms(2) raised written unfolding create_port_ok_def by (cases r) fastforce+
qed

lemma update_portD:
  assumes "wf_ok env" "we_update_port env u ps s = (r, s')"
  obtains (raised) e where "r = Inl e" "s' = s"
  | (written) "r = Inr ()" "s' = on_wport u (fold patch_port ps) s"
proof -
  have "update_port_ok env" using assms(1) by (simp add: wf_ok_def)
  then show ?thesis using assms(2) raised written unfolding update_port_ok_def by (cases r) fastforce+
qed

lemma patchD: "wf_ok env \<Longrightarrow> we_patch env us =
    map (\<lambda>u. (CHR ''/'' # fst (split1 CHR ''='' u), we_decode env (snd (split1 CHR ''='' u)))) us"
  unfolding wf_ok_def patch_ok_def by blast

lemma transitionD:
  assumes "wf_ok env" "transition env u t e opts s = (r, s')"
  obtains x where "s' = on_wnode u (moved x) s" "\<And>y. r = Inr () \<Longrightarrow> e = Some y \<Longrightarrow> y \<noteq> [] \<Longrightarrow> x = y"
proof -
  obtain r1 s1 where 1: "we_set_state env u t opts s = (r1, s1)" by force
  obtain x where x: "s1 = on_wnode u (moved x) s" using wf_set_stateD [OF assms(1) 1] .
  show ?thesis
  proof (cases "(\<exists>e. r1 = Inl e) \<or> e = None \<or> e = Some []")
    case True
    then have "s' = s1" "\<And>y. r = Inr () \<Longrightarrow> e = Some y \<Longrightarrow> y \<noteq> [] \<Longrightarrow> x = y"
      using assms(2) 1 by (auto simp: transition_def split: option.splits sum.splits)
    then show ?thesis using that x by blast
  next
    case False
    then obtain y where y: "e = Some y" "y \<noteq> []" "r1 = Inr ()" by (cases r1; cases e) auto
    then have w: "we_wait env u y s1 = (r, s')" using assms(2) 1 by (simp add: transition_def)
    obtain z where z: "s' = on_wnode u (moved z) s1" "r = Inr () \<Longrightarrow> z = y" using wf_waitD [OF assms(1) w] by blast
    have "s' = on_wnode u (moved z) s" unfolding z(1) x by (simp add: on_wnode_on_wnode)
    then show ?thesis using that [of z] z(2) y(1) by simp
  qed
qed

lemma patch_port_ids [simp]: "wp_uuid (patch_port q p) = wp_uuid p" "wp_name (patch_port q p) = wp_name p"
  "wp_node_uuid (patch_port q p) = wp_node_uuid p"
  by (cases q; simp)+

lemma fold_patch_port_ids [simp]: "wp_uuid (fold patch_port qs p) = wp_uuid p"
  "wp_name (fold patch_port qs p) = wp_name p" "wp_node_uuid (fold patch_port qs p) = wp_node_uuid p"
  by (induction qs arbitrary: p) simp_all

lemma split1_key: "c \<notin> set k \<Longrightarrow> split1 c (k @ c # v) = (k, v)"
  by (induction k) auto

end
