(* ===== verification/Netdev_Reconciler.thy ===== *)
theory Netdev_Reconciler
  imports Ironic_Workflow Vlan_Ranges "HOL-Library.Char_ord" "HOL-Library.List_Lexorder"
begin

text \<open>
  \<open>understack_workflows/netdev_reconciler.py\<close>: enrollment of a network device as an Ironic node with
  its ports, re-runnable on the same request.

  The order of the definitions is that of the module: validation of the port list, \<open>enroll\<close>'s
  helpers, the planner of a single port, the calls that apply a plan, and \<open>enroll\<close> itself.  Metadata
  values are strings or integers, which is what every caller passes.  A message that quotes a value
  with \<open>!r\<close> is written with plain quotes around it.
\<close>

section \<open>Requests\<close>

definition DEFAULT_RESOURCE_CLASS :: string where
  "DEFAULT_RESOURCE_CLASS = ''generic''"

definition PLACEHOLDER_SWITCH_ID :: string where
  "PLACEHOLDER_SWITCH_ID = ''00:00:00:00:00:00''"

definition REENROLLABLE_STATES :: "string list" where
  "REENROLLABLE_STATES = [''enroll'', ''manageable'', ''available'']"

definition REQUIRED_PORT_FIELDS :: "string list" where
  "REQUIRED_PORT_FIELDS = [''label'', ''mac'', ''switch'', ''intf'']"

definition ALLOWED_PORT_FIELDS :: "string list" where
  "ALLOWED_PORT_FIELDS = REQUIRED_PORT_FIELDS @ [''switch_id'']"

record netdev_port =
  np_label :: string
  np_mac :: string
  np_switch :: string
  np_interface :: string
  np_switch_id :: "string option"

datatype meta = MStr string | MInt int

fun meta_json :: "meta \<Rightarrow> json" where
  "meta_json (MStr t) = JStr t"
| "meta_json (MInt i) = JNum i"

text \<open>The text an f-string gives a value.\<close>

fun meta_text :: "meta \<Rightarrow> string" where
  "meta_text (MStr t) = t"
| "meta_text (MInt i) = show_int i"

record enroll_request =
  er_name :: string
  er_physical_network :: string
  er_ports :: "json list"
  er_external_cmdb_id :: "meta option"
  er_resource_class :: "string option"
  er_driver_info :: "meta dict"
  er_extra :: "meta dict"

definition quoted :: "string \<Rightarrow> string" where
  "quoted t = CHR 0x27 # t @ [CHR 0x27]"

definition opt_text :: "string option \<Rightarrow> string" where
  "opt_text x = (case x of None \<Rightarrow> ''None'' | Some t \<Rightarrow> t)"

fun join_comma :: "string list \<Rightarrow> string" where
  "join_comma [] = []"
| "join_comma [x] = x"
| "join_comma (x # y # ys) = x @ '', '' @ join_comma (y # ys)"

definition has_cmdb_id :: "meta option \<Rightarrow> bool" where
  "has_cmdb_id external_cmdb_id = (external_cmdb_id \<notin> {None, Some (MStr [])})"

fun json_truthy :: "json \<Rightarrow> bool" where
  "json_truthy JNull = False"
| "json_truthy (JBool b) = b"
| "json_truthy (JNum n) = (n \<noteq> 0)"
| "json_truthy (JStr t) = (t \<noteq> [])"
| "json_truthy (JList xs) = (xs \<noteq> [])"
| "json_truthy (JObj d) = (d \<noteq> [])"

fun is_jstr :: "json \<Rightarrow> bool" where
  "is_jstr (JStr t) = True"
| "is_jstr _ = False"

text \<open>\<open>decoded\<close> is what \<open>json.loads\<close> makes of the argument: a value or the text of its error.\<close>

definition parse_ports_arg :: "string + json \<Rightarrow> exn + json list" where
  "parse_ports_arg decoded =
     (case decoded of
        Inl exc \<Rightarrow> Inl (ValueError (''--ports must be valid JSON: '' @ exc))
      | Inr (JList data) \<Rightarrow> Inr data
      | Inr _ \<Rightarrow> Inl (ValueError ''--ports must be a JSON array of port objects''))"

section \<open>Validation of the port list\<close>

definition field :: "json dict \<Rightarrow> string \<Rightarrow> string" where
  "field entry key = (case dget entry key of Some (JStr t) \<Rightarrow> t | _ \<Rightarrow> [])"

text \<open>The checks of one entry, up to the ones that look at the entries before it.\<close>

definition check_entry :: "nat \<Rightarrow> json \<Rightarrow> exn + netdev_port" where
  "check_entry index entry =
     (case entry of
        JObj d \<Rightarrow>
          (let missing = filter (\<lambda>key. case dget d key of None \<Rightarrow> True | Some v \<Rightarrow> \<not> json_truthy v) REQUIRED_PORT_FIELDS;
               non_string = filter (\<lambda>key. case dget d key of None \<Rightarrow> False | Some v \<Rightarrow> \<not> is_jstr v) REQUIRED_PORT_FIELDS;
               switch_id = dget d ''switch_id'';
               unknown = filter (\<lambda>key. key \<notin> set ALLOWED_PORT_FIELDS) (map fst d) in
           if missing \<noteq> [] then
             Inl (ValueError (''Port '' @ show_nat index @ '' is missing required field(s): '' @ join_comma missing))
           else if non_string \<noteq> [] then
             Inl (ValueError (''Port '' @ show_nat index @ '' field(s) must be strings: '' @ join_comma non_string))
           else if switch_id \<notin> {None, Some JNull} \<and> \<not> is_jstr (the switch_id) then
             Inl (ValueError (''Port '' @ show_nat index @ '' switch_id must be a string''))
           else if unknown \<noteq> [] then
             Inl (ValueError (''Port '' @ show_nat index @ '' has unknown field(s): '' @ join_comma (sort (remdups unknown))))
           else Inr \<lparr>np_label = field d ''label'', np_mac = field d ''mac'', np_switch = field d ''switch'',
                     np_interface = field d ''intf'',
                     np_switch_id = (case switch_id of Some (JStr t) \<Rightarrow> Some t | _ \<Rightarrow> None)\<rparr>)
      | _ \<Rightarrow> Inl (ValueError (''Port '' @ show_nat index @ '' must be a JSON object'')))"

fun build_ports :: "nat \<Rightarrow> string list \<Rightarrow> string list \<Rightarrow> json list \<Rightarrow> exn + netdev_port list" where
  "build_ports index seen_labels seen_macs [] = Inr []"
| "build_ports index seen_labels seen_macs (entry # entries) =
     sbnd (check_entry index entry) (\<lambda>port.
       if np_label port \<in> set seen_labels then
         Inl (ValueError (''Duplicate label '' @ np_label port @ '' in ports list''))
       else if py_lower (np_mac port) \<in> set seen_macs then
         Inl (ValueError (''Duplicate MAC '' @ np_mac port @ '' in ports list''))
       else sbnd (build_ports (index + 1) (np_label port # seen_labels) (py_lower (np_mac port) # seen_macs) entries)
              (\<lambda>result. Inr (port # result)))"

definition build_netdev_ports :: "json list \<Rightarrow> exn + netdev_port list" where
  "build_netdev_ports ports =
     (if ports = [] then Inl (ValueError ''At least one port must be provided'')
      else build_ports 1 [] [] ports)"

section \<open>The node\<close>

definition create_netdev_node ::
  "wf_env \<Rightarrow> string \<Rightarrow> string \<Rightarrow> meta dict \<Rightarrow> meta dict \<Rightarrow> (wf_state, wf_node) act"
where
  "create_netdev_node env name resource_class driver_info extra =
     we_create_node env
       ([(''automated_clean'', JBool False), (''driver'', JStr ''netdev''), (''name'', JStr name),
         (''resource_class'', JStr resource_class)] @
        (if driver_info \<noteq> [] then [(''driver_info'', JObj (map (map_prod id meta_json) driver_info))] else []) @
        (if extra \<noteq> [] then [(''extra'', JObj (map (map_prod id meta_json) extra))] else []))"

definition find_or_create_netdev_node ::
  "wf_env \<Rightarrow> string \<Rightarrow> string \<Rightarrow> meta dict \<Rightarrow> meta dict \<Rightarrow> (wf_state, wf_node \<times> bool) act"
where
  "find_or_create_netdev_node env name resource_class driver_info extra =
     bnd (try_except (bnd (we_get_node env name) (\<lambda>node. ret (node, False)))
           (\<lambda>e. case e of
                  NotFound _ \<Rightarrow> bnd (create_netdev_node env name resource_class driver_info extra) (\<lambda>node. ret (node, True))
                | _ \<Rightarrow> raise_exn e))
       (\<lambda>(node, created).
         if created then ret (node, True)
         else if wn_driver node \<noteq> ''netdev'' then
           raise_exn (RuntimeError (''Node '' @ name @ '' ('' @ wn_uuid node @ '') already exists with driver '' @
             quoted (wn_driver node) @ ''; refusing to enroll it as a netdev''))
         else if wn_provision_state node \<notin> set REENROLLABLE_STATES then
           raise_exn (RuntimeError (''[node:'' @ wn_uuid node @ ''] Cannot enroll node in provision_state '' @
             quoted (wn_provision_state node) @ ''; expected one of ['' @ quoted ''available'' @ '', '' @
             quoted ''enroll'' @ '', '' @ quoted ''manageable'' @ '']''))
         else ret (node, False))"

definition metadata_updates :: "string \<Rightarrow> json dict \<Rightarrow> meta dict \<Rightarrow> string list" where
  "metadata_updates attr current wanted =
     map (\<lambda>(key, v). attr @ ''/'' @ key @ ''='' @ meta_text v)
       (filter (\<lambda>(key, v). dget current key \<noteq> Some (meta_json v)) wanted)"

definition node_updates :: "string \<Rightarrow> meta dict \<Rightarrow> meta dict \<Rightarrow> wf_node \<Rightarrow> string list" where
  "node_updates resource_class driver_info extra node =
     (if wn_resource_class node \<noteq> Some resource_class then [''resource_class='' @ resource_class] else []) @
     metadata_updates ''driver_info'' (wn_driver_info node) driver_info @
     metadata_updates ''extra'' (wn_extra node) extra"

definition update_node_metadata ::
  "wf_env \<Rightarrow> wf_node \<Rightarrow> string \<Rightarrow> meta dict \<Rightarrow> meta dict \<Rightarrow> (wf_state, bool) act"
where
  "update_node_metadata env node resource_class driver_info extra =
     (let updates = node_updates resource_class driver_info extra node in
      if updates = [] then ret False
      else andthen (we_update_node env (wn_uuid node) (we_patch env updates)) (ret True))"

section \<open>Ports\<close>

datatype port_plan =
    PlanCreate netdev_port
  | PlanUpdate wf_port "port_patch list"

definition port_name :: "string \<Rightarrow> netdev_port \<Rightarrow> string" where
  "port_name node_name port = node_name @ '':'' @ np_label port"

text \<open>The two lookup dictionaries of \<open>enroll\<close>; a later entry of a key overwrites an earlier one.\<close>

definition ports_by_mac :: "wf_port list \<Rightarrow> string \<Rightarrow> wf_port option" where
  "ports_by_mac node_ports mac = find (\<lambda>p. py_lower (py_or (wp_address p) []) = mac) (rev node_ports)"

definition ports_by_name :: "wf_port list \<Rightarrow> string \<Rightarrow> wf_port option" where
  "ports_by_name node_ports name = find (\<lambda>p. truthy (wp_name p) \<and> wp_name p = Some name) (rev node_ports)"

definition conflict :: "string \<Rightarrow> string \<Rightarrow> string \<Rightarrow> wf_port \<Rightarrow> exn" where
  "conflict node_uuid what mac owner = RuntimeError (''[node:'' @ node_uuid @ ''] Cannot '' @ what @ mac @
     '': that MAC is already used by port '' @ wp_uuid owner @ '' name='' @ opt_text (wp_name owner) @
     ''. Delete or rename that existing port manually if this is an intentional label change.'')"

definition desired_llc :: "netdev_port \<Rightarrow> string dict \<Rightarrow> string dict" where
  "desired_llc port current_llc =
     (let current_switch_id = dget current_llc ''switch_id'';
          switch_id =
            (if np_switch_id port \<notin> {None, Some []} then the (np_switch_id port)
             else if current_switch_id \<in> {None, Some [], Some PLACEHOLDER_SWITCH_ID} then PLACEHOLDER_SWITCH_ID
             else the current_switch_id) in
      [(''switch_id'', switch_id), (''switch_info'', np_switch port), (''port_id'', np_interface port)])"

text \<open>The patch operations that bring an existing port to the request, the MAC conflict apart.\<close>

definition current_llc :: "wf_port \<Rightarrow> string dict" where
  "current_llc p = (case wp_local_link_connection p of None \<Rightarrow> [] | Some d \<Rightarrow> d)"

definition moves_mac :: "netdev_port \<Rightarrow> wf_port \<Rightarrow> bool" where
  "moves_mac port p \<longleftrightarrow> py_lower (py_or (wp_address p) []) \<noteq> py_lower (np_mac port)"

definition port_patch_ops :: "string \<times> netdev_port \<Rightarrow> wf_port \<Rightarrow> port_patch list" where
  "port_patch_ops d p = (case d of (physical_network, port) \<Rightarrow>
     (let llc = desired_llc port (current_llc p) in
      (if moves_mac port p then [PatchAddress (np_mac port)] else []) @
      (if wp_physical_network p \<noteq> Some physical_network then [PatchPhysicalNetwork physical_network] else []) @
      (if wp_category p \<noteq> Some ''network'' then [PatchCategory ''network''] else []) @
      (if list_ex (\<lambda>(key, v). dget (current_llc p) key \<noteq> Some v) llc then [PatchLocalLink llc] else [])))"

definition plan_netdev_port ::
  "string \<Rightarrow> string \<Rightarrow> string \<Rightarrow> netdev_port \<Rightarrow> wf_port option \<Rightarrow> (string \<Rightarrow> wf_port option) \<Rightarrow> exn + port_plan option"
where
  "plan_netdev_port node_uuid node_name physical_network port existing by_mac =
     (let mac_owner = by_mac (py_lower (np_mac port)) in
      case existing of
        None \<Rightarrow>
          (case mac_owner of
             Some owner \<Rightarrow> Inl (conflict node_uuid (''create port '' @ port_name node_name port @ '' with MAC '') (np_mac port) owner)
           | None \<Rightarrow> Inr (Some (PlanCreate port)))
      | Some p \<Rightarrow>
          if moves_mac port p \<and> (case mac_owner of None \<Rightarrow> False | Some owner \<Rightarrow> wp_uuid owner \<noteq> wp_uuid p) then
            Inl (conflict node_uuid (''update port '' @ port_name node_name port @ '' to MAC '') (np_mac port) (the mac_owner))
          else
            (let patch = port_patch_ops (physical_network, port) p in
             Inr (if patch = [] then None else Some (PlanUpdate p patch))))"

definition create_netdev_port ::
  "wf_env \<Rightarrow> string \<Rightarrow> string \<Rightarrow> string \<Rightarrow> netdev_port \<Rightarrow> (wf_state, unit) act"
where
  "create_netdev_port env node_uuid node_name physical_network port =
     we_create_port env
       \<lparr>dt_address = np_mac port, dt_category = ''network'',
        dt_local_link_connection =
          [(''switch_id'', py_or (np_switch_id port) PLACEHOLDER_SWITCH_ID), (''switch_info'', np_switch port),
           (''port_id'', np_interface port)],
        dt_name = port_name node_name port, dt_node_uuid = node_uuid, dt_physical_network = physical_network\<rparr>"

fun apply_port_plan :: "wf_env \<Rightarrow> string \<Rightarrow> string \<Rightarrow> string \<Rightarrow> port_plan \<Rightarrow> (wf_state, unit) act" where
  "apply_port_plan env node_uuid node_name physical_network (PlanCreate port) =
     create_netdev_port env node_uuid node_name physical_network port"
| "apply_port_plan env node_uuid node_name physical_network (PlanUpdate existing patch) =
     we_update_port env (wp_uuid existing) patch"

definition make_available :: "wf_env \<Rightarrow> string \<Rightarrow> string \<Rightarrow> (wf_state, unit) act" where
  "make_available env node_uuid state =
     (if state = ''available'' then ret ()
      else if state \<notin> set REENROLLABLE_STATES then
        raise_exn (RuntimeError (''[node:'' @ node_uuid @ ''] Cannot make node available from provision_state '' @ quoted state))
      else andthen
        (when_act (state = ''enroll'') (move_to env node_uuid ''manage'' ''manageable''))
        (move_to env node_uuid ''provide'' ''available''))"

section \<open>Enrollment\<close>

text \<open>The existing ports the request does not mention, for which a warning is logged.\<close>

definition warn_orphan_ports :: "string \<Rightarrow> wf_port list \<Rightarrow> netdev_port list \<Rightarrow> wf_port list" where
  "warn_orphan_ports node_name node_ports netdev_ports =
     filter (\<lambda>p. wp_name p \<notin> Some ` set (map (port_name node_name) netdev_ports)) node_ports"

fun map_sum_list :: "('a \<Rightarrow> exn + 'b) \<Rightarrow> 'a list \<Rightarrow> exn + 'b list" where
  "map_sum_list f [] = Inr []"
| "map_sum_list f (x # xs) = sbnd (f x) (\<lambda>y. sbnd (map_sum_list f xs) (\<lambda>ys. Inr (y # ys)))"

definition plan_ports :: "string \<Rightarrow> string \<Rightarrow> string \<Rightarrow> wf_port list \<Rightarrow> netdev_port list \<Rightarrow> exn + port_plan list" where
  "plan_ports node_uuid name physical_network node_ports netdev_ports =
     sbnd (map_sum_list (\<lambda>port. plan_netdev_port node_uuid name physical_network port
             (ports_by_name node_ports (port_name name port)) (ports_by_mac node_ports)) netdev_ports)
       (\<lambda>plans. Inr (map the (filter (\<lambda>plan. plan \<noteq> None) plans)))"

definition effective_resource_class :: "enroll_request \<Rightarrow> string" where
  "effective_resource_class req = py_or (er_resource_class req) DEFAULT_RESOURCE_CLASS"

definition node_extra :: "enroll_request \<Rightarrow> meta dict" where
  "node_extra req = (if has_cmdb_id (er_external_cmdb_id req)
     then dput ''external_cmdb_id'' (the (er_external_cmdb_id req)) (er_extra req) else er_extra req)"

text \<open>From the step out of the pool to the end of \<open>enroll\<close>.\<close>

definition apply_enrollment ::
  "wf_env \<Rightarrow> enroll_request \<Rightarrow> wf_node \<Rightarrow> bool \<Rightarrow> port_plan list \<Rightarrow> (wf_state, unit) act"
where
  "apply_enrollment env req node created pending =
     (let step_down = (pending \<noteq> [] \<and> wn_provision_state node = ''available'');
          state = (if step_down then ''manageable'' else wn_provision_state node) in
      andthen (when_act step_down (move_to env (wn_uuid node) ''manage'' ''manageable''))
      (andthen
        (if created then ret False
         else update_node_metadata env node (effective_resource_class req) (er_driver_info req) (node_extra req))
        (if pending = [] \<and> state = ''available'' then ret ()
         else andthen
           (for_each (apply_port_plan env (wn_uuid node) (er_name req) (er_physical_network req)) pending)
           (make_available env (wn_uuid node) state))))"

definition enroll :: "wf_env \<Rightarrow> enroll_request \<Rightarrow> (wf_state, unit) act" where
  "enroll env req =
     bnd (of_sum (build_netdev_ports (er_ports req))) (\<lambda>netdev_ports.
     bnd (find_or_create_netdev_node env (er_name req) (effective_resource_class req) (er_driver_info req) (node_extra req))
       (\<lambda>(node, created).
     bnd (we_list_ports env (wn_uuid node)) (\<lambda>node_ports.
     bnd (of_sum (plan_ports (wn_uuid node) (er_name req) (er_physical_network req) node_ports netdev_ports)) (\<lambda>pending.
       apply_enrollment env req node created pending))))"

section \<open>Patches that converge\<close>

subsection \<open>Ports\<close>

definition settled_port :: "string \<times> netdev_port \<Rightarrow> wf_port \<Rightarrow> bool" where
  "settled_port d p \<longleftrightarrow> (case d of (physical_network, port) \<Rightarrow>
     py_lower (py_or (wp_address p) []) = py_lower (np_mac port) \<and>
     wp_physical_network p = Some physical_network \<and> wp_category p = Some ''network'' \<and>
     dget (current_llc p) ''switch_info'' = Some (np_switch port) \<and>
     dget (current_llc p) ''port_id'' = Some (np_interface port) \<and>
     (\<exists>sw. dget (current_llc p) ''switch_id'' = Some sw \<and> sw \<noteq> [] \<and>
        (np_switch_id port \<notin> {None, Some []} \<longrightarrow> np_switch_id port = Some sw)))"

lemma PLACEHOLDER_ne [simp]: "PLACEHOLDER_SWITCH_ID \<noteq> []" "[] \<noteq> PLACEHOLDER_SWITCH_ID"
  by (simp_all add: PLACEHOLDER_SWITCH_ID_def)

lemma desired_llc_matches:
  "list_ex (\<lambda>(key, v). dget c key \<noteq> Some v) (desired_llc port c) \<longleftrightarrow>
     \<not> (dget c ''switch_info'' = Some (np_switch port) \<and> dget c ''port_id'' = Some (np_interface port) \<and>
        (\<exists>sw. dget c ''switch_id'' = Some sw \<and> sw \<noteq> [] \<and>
           (np_switch_id port \<notin> {None, Some []} \<longrightarrow> np_switch_id port = Some sw)))"
  by (cases "np_switch_id port"; cases "dget c ''switch_id''") (auto simp: desired_llc_def Let_def)

lemma desired_llc_idem: "\<not> list_ex (\<lambda>(key, v). dget (desired_llc port c) key \<noteq> Some v) (desired_llc port (desired_llc port c))"
  by (auto simp: desired_llc_def Let_def dget_def)

interpretation port_patching: converging_patch port_patch_ops patch_port settled_port "\<lambda>_. True"
proof
  fix d :: "string \<times> netdev_port" and p :: wf_port
  obtain pn port where d: "d = (pn, port)" by force
  show "port_patch_ops d p = [] \<longleftrightarrow> settled_port d p"
    unfolding d port_patch_ops_def settled_port_def moves_mac_def by (auto simp: Let_def desired_llc_matches)
  show "settled_port d (fold patch_port (port_patch_ops d p) p)"
    using desired_llc_idem [of port "current_llc p"]
    unfolding d port_patch_ops_def settled_port_def moves_mac_def desired_llc_matches
    by (auto simp: Let_def desired_llc_matches current_llc_def)
qed

subsection \<open>Node metadata\<close>

text \<open>
  A patch is sent as text: the client splits it at the first equals sign and decodes the value, so
  the request's keys must not contain the separators and its values must survive the decoding.
\<close>

record meta_target =
  mt_env :: wf_env
  mt_resource_class :: string
  mt_driver_info :: "meta dict"
  mt_extra :: "meta dict"

definition survives :: "wf_env \<Rightarrow> meta dict \<Rightarrow> bool" where
  "survives env d \<longleftrightarrow> distinct (map fst d) \<and>
     (\<forall>(k, v) \<in> set d. plain_key k \<and> we_decode env (meta_text v) = meta_json v)"

definition sound_target :: "meta_target \<Rightarrow> bool" where
  "sound_target t \<longleftrightarrow> wf_ok (mt_env t) \<and> we_decode (mt_env t) (mt_resource_class t) = JStr (mt_resource_class t) \<and>
     survives (mt_env t) (mt_driver_info t) \<and> survives (mt_env t) (mt_extra t)"

definition holds_meta :: "json dict \<Rightarrow> meta dict \<Rightarrow> bool" where
  "holds_meta current wanted \<longleftrightarrow> (\<forall>(k, v) \<in> set wanted. dget current k = Some (meta_json v))"

definition settled_node :: "meta_target \<Rightarrow> wf_node \<Rightarrow> bool" where
  "settled_node t n \<longleftrightarrow> wn_resource_class n = Some (mt_resource_class t) \<and>
     holds_meta (wn_driver_info n) (mt_driver_info t) \<and> holds_meta (wn_extra n) (mt_extra t)"

definition node_patch_ops :: "meta_target \<Rightarrow> wf_node \<Rightarrow> node_patch" where
  "node_patch_ops t n = we_patch (mt_env t) (node_updates (mt_resource_class t) (mt_driver_info t) (mt_extra t) n)"

definition patches_of :: "string \<Rightarrow> meta dict \<Rightarrow> node_patch" where
  "patches_of attr d = map (\<lambda>(k, v). (CHR ''/'' # attr @ ''/'' @ k, meta_json v)) d"

definition put_all :: "meta dict \<Rightarrow> json dict \<Rightarrow> json dict" where
  "put_all d c = fold (\<lambda>(k, v). dput k (meta_json v)) d c"

definition differing :: "json dict \<Rightarrow> meta dict \<Rightarrow> meta dict" where
  "differing current wanted = filter (\<lambda>(key, v). dget current key \<noteq> Some (meta_json v)) wanted"

lemma differing_Nil_iff: "differing c d = [] \<longleftrightarrow> holds_meta c d"
  by (auto simp: differing_def holds_meta_def filter_empty_conv)

lemma set_differing: "set (differing c d) = {(k, v) \<in> set d. dget c k \<noteq> Some (meta_json v)}"
  by (auto simp: differing_def)

lemma distinct_differing: "distinct (map fst d) \<Longrightarrow> distinct (map fst (differing c d))"
  unfolding differing_def by (rule distinct_map_filter)

lemma put_all_other: "k \<notin> fst ` set d \<Longrightarrow> dget (put_all d c) k = dget c k"
  unfolding put_all_def by (induction d arbitrary: c) (auto simp: dget_def)

lemma put_all_get: "distinct (map fst d) \<Longrightarrow> (k, v) \<in> set d \<Longrightarrow> dget (put_all d c) k = Some (meta_json v)"
proof (induction d arbitrary: c)
  case (Cons e d)
  obtain k' v' where e: "e = (k', v')" by force
  show ?case
  proof (cases "(k, v) = (k', v')")
    case True
    then show ?thesis using Cons.prems put_all_other [of k d "dput k (meta_json v) c"]
      by (simp add: e put_all_def dget_def)
  next
    case False
    then have "(k, v) \<in> set d" using Cons.prems by (auto simp: e)
    then show ?thesis using Cons by (simp add: e put_all_def)
  qed
qed simp

lemma put_all_settles:
  assumes "distinct (map fst d)"
  shows "holds_meta (put_all (differing c d) c) d"
  unfolding holds_meta_def
proof safe
  fix k v assume kv: "(k, v) \<in> set d"
  show "dget (put_all (differing c d) c) k = Some (meta_json v)"
  proof (cases "dget c k = Some (meta_json v)")
    case True
    have "v' = v" if "(k, v') \<in> set d" for v' using that kv assms by (metis eq_key_imp_eq_value)
    with True have "k \<notin> fst ` set (differing c d)" by (auto simp: set_differing)
    with True show ?thesis by (simp add: put_all_other)
  next
    case False
    with kv show ?thesis by (intro put_all_get distinct_differing assms) (simp add: set_differing)
  qed
qed

lemma metadata_updates_patch:
  assumes "wf_ok env" "survives env d" "CHR ''='' \<notin> set attr"
  shows "we_patch env (metadata_updates attr c d) = patches_of attr (differing c d)"
proof -
  have "split1 CHR ''='' (attr @ CHR ''/'' # k @ CHR ''='' # meta_text v) = (attr @ CHR ''/'' # k, meta_text v)"
    if "(k, v) \<in> set d" for k v
    using split1_key [of "CHR ''=''" "attr @ CHR ''/'' # k" "meta_text v"] that assms(2,3)
    by (auto simp: survives_def plain_key_def)
  then show ?thesis
    using assms(2) unfolding patchD [OF assms(1)] metadata_updates_def patches_of_def differing_def
    by (auto simp: survives_def)
qed

lemma we_patch_append: "wf_ok env \<Longrightarrow> we_patch env (xs @ ys) = we_patch env xs @ we_patch env ys"
  by (simp add: patchD)

lemma fold_driver_info:
  "fold patch_node (patches_of ''driver_info'' d) n = n\<lparr>wn_driver_info := put_all d (wn_driver_info n)\<rparr>"
  by (induction d arbitrary: n) (auto simp: patches_of_def put_all_def)

lemma fold_extra:
  "fold patch_node (patches_of ''extra'' d) n = n\<lparr>wn_extra := put_all d (wn_extra n)\<rparr>"
  by (induction d arbitrary: n) (auto simp: patches_of_def put_all_def)

lemma node_patch_ops_eq:
  assumes "sound_target t"
  shows "node_patch_ops t n =
    (if wn_resource_class n \<noteq> Some (mt_resource_class t) then [(''/resource_class'', JStr (mt_resource_class t))] else []) @
    patches_of ''driver_info'' (differing (wn_driver_info n) (mt_driver_info t)) @
    patches_of ''extra'' (differing (wn_extra n) (mt_extra t))"
proof -
  have ok: "wf_ok (mt_env t)" and s: "survives (mt_env t) (mt_driver_info t)" "survives (mt_env t) (mt_extra t)"
    and d: "we_decode (mt_env t) (mt_resource_class t) = JStr (mt_resource_class t)"
    using assms by (simp_all add: sound_target_def)
  have "we_patch (mt_env t) [''resource_class='' @ mt_resource_class t] = [(''/resource_class'', JStr (mt_resource_class t))]"
    by (simp add: patchD [OF ok] d)
  moreover have "we_patch (mt_env t) [] = []" by (simp add: patchD [OF ok])
  ultimately show ?thesis
    using metadata_updates_patch [OF ok s(1), of "''driver_info''" "wn_driver_info n"]
      metadata_updates_patch [OF ok s(2), of "''extra''" "wn_extra n"]
    unfolding node_patch_ops_def node_updates_def we_patch_append [OF ok] by simp
qed

lemma fold_node_patch_ops:
  assumes "sound_target t"
  shows "fold patch_node (node_patch_ops t n) n = n\<lparr>wn_resource_class := Some (mt_resource_class t),
    wn_driver_info := put_all (differing (wn_driver_info n) (mt_driver_info t)) (wn_driver_info n),
    wn_extra := put_all (differing (wn_extra n) (mt_extra t)) (wn_extra n)\<rparr>"
  unfolding node_patch_ops_eq [OF assms] by (auto simp: fold_driver_info fold_extra)

interpretation metadata_patching: converging_patch node_patch_ops patch_node settled_node sound_target
proof
  fix t :: meta_target and n :: wf_node
  assume t: "sound_target t"
  show "node_patch_ops t n = [] \<longleftrightarrow> settled_node t n"
    unfolding node_patch_ops_eq [OF t] settled_node_def by (auto simp: patches_of_def differing_Nil_iff)
  show "settled_node t (fold patch_node (node_patch_ops t n) n)"
    using t put_all_settles unfolding fold_node_patch_ops [OF t] settled_node_def
    by (simp add: sound_target_def survives_def)
qed

lemma patches_of_patchable:
  assumes "survives env d" "attr \<in> {''driver_info'', ''extra''}"
  shows "list_all patchable (patches_of attr (differing c d))"
  using assms unfolding patches_of_def list_all_iff survives_def set_map set_differing by auto

lemma node_patch_ops_patchable: "sound_target t \<Longrightarrow> list_all patchable (node_patch_ops t n)"
  unfolding node_patch_ops_eq by (auto simp: sound_target_def intro!: patches_of_patchable)

section \<open>Applying the plans\<close>

text \<open>\<open>on_port u nm p\<close>: the port is the one of node \<open>u\<close> with that name.\<close>

definition on_port :: "string \<Rightarrow> string \<Rightarrow> wf_port \<Rightarrow> bool" where
  "on_port u nm p \<longleftrightarrow> wp_node_uuid p = u \<and> wp_name p = Some nm"

definition ports_ok :: "string \<Rightarrow> wf_state \<Rightarrow> bool" where
  "ports_ok u s \<longleftrightarrow> distinct (map wp_uuid (ws_ports s)) \<and>
     (\<forall>p \<in> set (ws_ports s). \<forall>q \<in> set (ws_ports s). \<forall>nm. on_port u nm p \<and> on_port u nm q \<longrightarrow> p = q)"

definition is_named :: "string \<Rightarrow> string \<Rightarrow> wf_state \<Rightarrow> wf_port option \<Rightarrow> bool" where
  "is_named u nm s x \<longleftrightarrow> (case x of
     None \<Rightarrow> \<forall>p \<in> set (ws_ports s). \<not> on_port u nm p
   | Some p \<Rightarrow> p \<in> set (ws_ports s) \<and> on_port u nm p)"

definition port_holds :: "string \<Rightarrow> string \<Rightarrow> string \<Rightarrow> netdev_port \<Rightarrow> wf_state \<Rightarrow> bool" where
  "port_holds u name pn port s \<longleftrightarrow>
     (\<exists>p \<in> set (ws_ports s). on_port u (port_name name port) p \<and> settled_port (pn, port) p)"

definition others :: "string \<Rightarrow> string set \<Rightarrow> wf_state \<Rightarrow> wf_port set" where
  "others u nms s = {p \<in> set (ws_ports s). \<not> (\<exists>nm \<in> nms. on_port u nm p)}"

lemma on_port_inj: "on_port u a p \<Longrightarrow> on_port u b p \<Longrightarrow> a = b"
  by (simp add: on_port_def)

lemma ports_ok_row: "ports_ok u s \<Longrightarrow> p \<in> set (ws_ports s) \<Longrightarrow> q \<in> set (ws_ports s) \<Longrightarrow> wp_uuid p = wp_uuid q \<Longrightarrow> p = q"
  unfolding ports_ok_def by (metis distinct_map inj_onD)

lemma port_name_inj [simp]: "port_name name a = port_name name b \<longleftrightarrow> np_label a = np_label b"
  by (simp add: port_name_def)

lemma is_named_lookup:
  "is_named u (port_name name port) s (ports_by_name (filter (\<lambda>p. wp_node_uuid p = u) (ws_ports s)) (port_name name port))"
proof (cases "ports_by_name (filter (\<lambda>p. wp_node_uuid p = u) (ws_ports s)) (port_name name port)")
  case None
  have "port_name name port \<noteq> []" by (simp add: port_name_def)
  with None have "\<not> on_port u (port_name name port) p" if "p \<in> set (ws_ports s)" for p
    using that unfolding ports_by_name_def find_None_iff on_port_def by (fastforce simp: truthy_def)
  with None show ?thesis by (simp add: is_named_def)
next
  case (Some p)
  then show ?thesis using find_SomeD [OF Some [unfolded ports_by_name_def]] by (simp add: is_named_def on_port_def)
qed

lemma named_unique: "ports_ok u s \<Longrightarrow> is_named u nm s (Some p) \<Longrightarrow> q \<in> set (ws_ports s) \<Longrightarrow> on_port u nm q \<Longrightarrow> q = p"
  unfolding ports_ok_def is_named_def by auto

lemma is_named_others:
  assumes "others u {nm} s' = others u {nm} s" "nm' \<noteq> nm"
  shows "is_named u nm' s' x = is_named u nm' s x"
proof -
  have "p \<in> set (ws_ports s') \<longleftrightarrow> p \<in> set (ws_ports s)" if "on_port u nm' p" for p
    using assms on_port_inj [OF that] that unfolding others_def set_eq_iff by blast
  then show ?thesis unfolding is_named_def by (auto split: option.split)
qed

lemma port_holds_others:
  assumes "others u {port_name name port} s' = others u {port_name name port} s" "np_label q \<noteq> np_label port"
  shows "port_holds u name pn q s' = port_holds u name pn q s"
proof -
  have "p \<in> set (ws_ports s') \<longleftrightarrow> p \<in> set (ws_ports s)" if "on_port u (port_name name q) p" for p
    using assms on_port_inj [OF that, of "port_name name port"] unfolding others_def set_eq_iff by auto
  then show ?thesis unfolding port_holds_def by blast
qed

lemma others_mono: "others u {nm} s' = others u {nm} s \<Longrightarrow> nm \<in> nms \<Longrightarrow> others u nms s' = others u nms s"
  unfolding others_def set_eq_iff by blast

lemma others_patched:
  assumes "ports_ok u s" "is_named u nm s (Some p)"
    and "\<And>q. wp_uuid (f q) = wp_uuid q \<and> wp_name (f q) = wp_name q \<and> wp_node_uuid (f q) = wp_node_uuid q"
  shows "set (ws_ports (on_wport (wp_uuid p) f s)) = insert (f p) (set (ws_ports s) - {p})"
    and "others u {nm} (on_wport (wp_uuid p) f s) = others u {nm} s"
    and "ports_ok u (on_wport (wp_uuid p) f s)"
proof -
  have p: "p \<in> set (ws_ports s)" "on_port u nm p" using assms(2) by (simp_all add: is_named_def)
  have row: "q = p" if "q \<in> set (ws_ports s)" "wp_uuid q = wp_uuid p" for q
    using ports_ok_row [OF assms(1) that(1) p(1) that(2)] .
  have "(\<lambda>q. if wp_uuid q = wp_uuid p then f q else q) ` set (ws_ports s) =
      (\<lambda>q. if q = p then f p else q) ` set (ws_ports s)"
    using row by (intro image_cong) auto
  also have "\<dots> = insert (f p) (set (ws_ports s) - {p})" using p(1) by auto
  finally show set: "set (ws_ports (on_wport (wp_uuid p) f s)) = insert (f p) (set (ws_ports s) - {p})" by simp
  have fp: "on_port u k (f q) = on_port u k q" for k q using assms(3) by (simp add: on_port_def)
  show "others u {nm} (on_wport (wp_uuid p) f s) = others u {nm} s"
    unfolding others_def set using p fp by auto
  have "map wp_uuid (ws_ports (on_wport (wp_uuid p) f s)) = map wp_uuid (ws_ports s)"
    using assms(3) by simp
  then have "distinct (map wp_uuid (ws_ports (on_wport (wp_uuid p) f s)))" using assms(1) by (metis ports_ok_def)
  moreover have "a = b" if "a \<in> insert (f p) (set (ws_ports s) - {p})" "b \<in> insert (f p) (set (ws_ports s) - {p})"
      "on_port u k a" "on_port u k b" for a b k
    using that assms(1) p fp unfolding ports_ok_def by (metis Diff_iff insertE insert_iff)
  ultimately show "ports_ok u (on_wport (wp_uuid p) f s)" unfolding ports_ok_def set by blast
qed

lemma created_port:
  assumes "ports_ok u s" "is_named u nm s None" "on_port u nm p" "wp_uuid p \<notin> wp_uuid ` set (ws_ports s)"
  shows "others u {nm} (s\<lparr>ws_ports := ws_ports s @ [p]\<rparr>) = others u {nm} s"
    and "ports_ok u (s\<lparr>ws_ports := ws_ports s @ [p]\<rparr>)"
  using assms unfolding others_def ports_ok_def is_named_def by (auto dest: on_port_inj)

text \<open>One requested port, from its plan to the table.\<close>

definition run_plan :: "wf_env \<Rightarrow> string \<Rightarrow> string \<Rightarrow> string \<Rightarrow> port_plan option \<Rightarrow> (wf_state, unit) act" where
  "run_plan env u name pn plan = (case plan of None \<Rightarrow> ret () | Some x \<Rightarrow> apply_port_plan env u name pn x)"

lemma run_plan_spec:
  assumes ok: "wf_ok env" and s: "ports_ok u s" and nm: "is_named u (port_name name port) s existing"
    and plan: "plan_netdev_port u name pn port existing by_mac = Inr plan"
    and run: "run_plan env u name pn plan s = (Inr (), s')"
  shows "port_holds u name pn port s'" "ports_ok u s'" "ws_nodes s' = ws_nodes s"
    and "others u {port_name name port} s' = others u {port_name name port} s"
proof -
  have "port_holds u name pn port s' \<and> ports_ok u s' \<and> ws_nodes s' = ws_nodes s \<and>
    others u {port_name name port} s' = others u {port_name name port} s"
  proof (cases existing)
    case None
    then have "create_netdev_port env u name pn port s = (Inr (), s')"
      using plan run by (auto simp: plan_netdev_port_def run_plan_def split: option.splits)
    then obtain d where d: "we_create_port env d s = (Inr (), s')" "dt_address d = np_mac port" "dt_category d = ''network''"
      "dt_local_link_connection d = [(''switch_id'', py_or (np_switch_id port) PLACEHOLDER_SWITCH_ID),
         (''switch_info'', np_switch port), (''port_id'', np_interface port)]"
      "dt_name d = port_name name port" "dt_node_uuid d = u" "dt_physical_network d = pn"
      by (simp add: create_netdev_port_def)
    show ?thesis
    proof (rule create_portD [OF ok d(1)])
      fix p assume p: "s' = s\<lparr>ws_ports := ws_ports s @ [p]\<rparr>" "created_as d p" "wp_uuid p \<notin> wp_uuid ` set (ws_ports s)"
      then have "on_port u (port_name name port) p" using d by (simp add: created_as_def on_port_def)
      moreover have "settled_port (pn, port) p"
        using p(2) d by (cases "np_switch_id port") (auto simp: settled_port_def created_as_def current_llc_def dget_def)
      ultimately show ?thesis using created_port [OF s nm [unfolded None] _ p(3)] p(1)
        by (auto simp: port_holds_def)
    qed simp
  next
    case (Some p)
    let ?f = "fold patch_port (port_patch_ops (pn, port) p)"
    have p: "p \<in> set (ws_ports s)" "on_port u (port_name name port) p" using nm Some by (simp_all add: is_named_def)
    show ?thesis
    proof (cases "port_patch_ops (pn, port) p = []")
      case True
      then have "s' = s" "settled_port (pn, port) p"
        using plan run Some port_patching.ops_Nil_iff [of "(pn, port)" p]
        by (auto simp: plan_netdev_port_def run_plan_def Let_def split: if_splits)
      then show ?thesis using p s by (auto simp: port_holds_def)
    next
      case False
      then have "we_update_port env (wp_uuid p) (port_patch_ops (pn, port) p) s = (Inr (), s')"
        using plan run Some by (auto simp: plan_netdev_port_def run_plan_def Let_def split: if_splits)
      then have s': "s' = on_wport (wp_uuid p) ?f s" by (rule update_portD [OF ok]) simp_all
      note o = others_patched [OF s nm [unfolded Some], of ?f, folded s']
      have "?f p \<in> set (ws_ports s')" using o(1) by simp
      moreover have "on_port u (port_name name port) (?f p)" using p(2) by (simp add: on_port_def)
      ultimately show ?thesis using o(2,3) port_patching.ops_settle [of "(pn, port)" p] s'
        by (auto simp: port_holds_def)
    qed
  qed
  then show "port_holds u name pn port s'" "ports_ok u s'" "ws_nodes s' = ws_nodes s"
    "others u {port_name name port} s' = others u {port_name name port} s" by blast+
qed

lemma for_each_run_plan:
  "for_each (apply_port_plan env u name pn) (map the (filter (\<lambda>plan. plan \<noteq> None) plans)) s =
   for_each (run_plan env u name pn) plans s"
  by (induction plans arbitrary: s) (auto simp: run_plan_def split: prod.split sum.split)

lemma map_sum_list_Inr_Cons:
  "map_sum_list f (x # xs) = Inr ys \<longleftrightarrow> (\<exists>y zs. ys = y # zs \<and> f x = Inr y \<and> map_sum_list f xs = Inr zs)"
  by (auto simp: sbnd_Inr)

lemma run_plans_spec:
  assumes "wf_ok env" "ports_ok u s" "distinct (map np_label ports)"
    and "\<And>port. port \<in> set ports \<Longrightarrow> is_named u (port_name name port) s (ex port)"
    and "map_sum_list (\<lambda>port. plan_netdev_port u name pn port (ex port) by_mac) ports = Inr plans"
    and "for_each (run_plan env u name pn) plans s = (Inr (), s')"
  shows "(\<forall>port \<in> set ports. port_holds u name pn port s') \<and> ports_ok u s' \<and> ws_nodes s' = ws_nodes s \<and>
    others u (port_name name ` set ports) s' = others u (port_name name ` set ports) s"
  using assms(2-)
proof (induction ports arbitrary: s plans)
  case (Cons port ports)
  obtain plan rest where plans: "plans = plan # rest" and plan: "plan_netdev_port u name pn port (ex port) by_mac = Inr plan"
    and rest: "map_sum_list (\<lambda>port. plan_netdev_port u name pn port (ex port) by_mac) ports = Inr rest"
    using Cons.prems(4) unfolding map_sum_list_Inr_Cons by blast
  obtain s1 where 1: "run_plan env u name pn plan s = (Inr (), s1)" and 2: "for_each (run_plan env u name pn) rest s1 = (Inr (), s')"
    using Cons.prems(5) unfolding plans by (auto simp: andthen_Inr_unit simp del: andthen_apply)
  note step = run_plan_spec [OF assms(1) Cons.prems(1) _ plan 1]
  have named: "is_named u (port_name name port) s (ex port)" using Cons.prems(3) by simp
  have lab: "np_label q \<noteq> np_label port" if "q \<in> set ports" for q using Cons.prems(2) that by (auto simp: rev_image_eqI)
  have "is_named u (port_name name q) s1 (ex q)" if "q \<in> set ports" for q
    using is_named_others [OF step(4) [OF named], of "port_name name q"] Cons.prems(3) [of q] lab [OF that] that by simp
  then have IH: "(\<forall>port \<in> set ports. port_holds u name pn port s') \<and> ports_ok u s' \<and> ws_nodes s' = ws_nodes s1 \<and>
      others u (port_name name ` set ports) s' = others u (port_name name ` set ports) s1"
    using Cons.IH [OF step(2) [OF named] _ _ rest 2] Cons.prems(2) by simp
  have "port_holds u name pn port s'"
  proof -
    obtain p where p: "p \<in> set (ws_ports s1)" "on_port u (port_name name port) p" "settled_port (pn, port) p"
      using step(1) [OF named] by (auto simp: port_holds_def)
    then have "p \<in> others u (port_name name ` set ports) s1" using lab by (auto simp: others_def dest: on_port_inj)
    then have "p \<in> others u (port_name name ` set ports) s'" using IH by simp
    then have "p \<in> set (ws_ports s')" by (simp add: others_def)
    then show ?thesis using p(2,3) unfolding port_holds_def by blast
  qed
  moreover have "others u (port_name name ` set (port # ports)) s' = others u (port_name name ` set (port # ports)) s"
  proof -
    have "others u (insert nm nms) x = {p \<in> others u nms x. \<not> on_port u nm p}" for nm nms x
      by (auto simp: others_def)
    then show ?thesis using IH others_mono [OF step(4) [OF named], of "port_name name ` set (port # ports)"] by simp
  qed
  ultimately show ?case using IH step(3) [OF named] by simp
qed simp

section \<open>The node through an enrollment\<close>

definition answers :: "string \<Rightarrow> wf_node \<Rightarrow> bool" where
  "answers i n \<longleftrightarrow> wn_name n = Some i \<or> wn_uuid n = i"

definition keeps_id :: "(wf_node \<Rightarrow> wf_node) \<Rightarrow> bool" where
  "keeps_id g \<longleftrightarrow> (\<forall>n. wn_uuid (g n) = wn_uuid n \<and> wn_name (g n) = wn_name n \<and> wn_driver (g n) = wn_driver n)"

lemma keeps_id_moved [simp]: "keeps_id (moved x)"
  by (simp add: keeps_id_def)

lemma keeps_id_id [simp]: "keeps_id id" "keeps_id (\<lambda>n. n)"
  by (simp_all add: keeps_id_def)

lemma keeps_id_comp: "keeps_id f \<Longrightarrow> keeps_id g \<Longrightarrow> keeps_id (g \<circ> f)"
  by (simp add: keeps_id_def)

lemma keeps_id_patch: "keeps_id (fold patch_node ps)"
proof -
  have "wn_uuid (patch_node q n) = wn_uuid n \<and> wn_name (patch_node q n) = wn_name n \<and> wn_driver (patch_node q n) = wn_driver n" for q n
    by (cases q) (auto split: json.split)
  then show ?thesis unfolding keeps_id_def by (induction ps) simp_all
qed

lemma on_wnode_keeps: "keeps_id f \<Longrightarrow> on_wnode u g (on_wnode u f s) = on_wnode u (g \<circ> f) s"
  by (rule on_wnode_on_wnode) (simp add: keeps_id_def)

lemma on_wnode_id [simp]: "on_wnode u id s = s" "on_wnode u (\<lambda>n. n) s = s"
  by (simp_all add: on_wnode_def id_def)

definition target :: "wf_env \<Rightarrow> enroll_request \<Rightarrow> meta_target" where
  "target env req = \<lparr>mt_env = env, mt_resource_class = effective_resource_class req,
     mt_driver_info = er_driver_info req, mt_extra = node_extra req\<rparr>"

lemma settled_moved [simp]: "settled_node t (moved x n) = settled_node t n"
  by (simp add: settled_node_def)

lemma node_patch_ops_moved [simp]: "node_patch_ops t (moved x n) = node_patch_ops t n"
  by (simp add: node_patch_ops_def node_updates_def)

lemma update_metadata_spec:
  assumes "sound_target (target env req)"
    and "update_node_metadata env node (effective_resource_class req) (er_driver_info req) (node_extra req) s = (Inr b, s')"
  obtains f where "s' = on_wnode (wn_uuid node) f s" "keeps_id f" "settled_node (target env req) (f node)"
    "\<And>x. settled_node (target env req) (f (moved x node))" "\<And>n. wn_provision_state (f n) = wn_provision_state n"
proof -
  let ?t = "target env req" and ?us = "node_updates (effective_resource_class req) (er_driver_info req) (node_extra req) node"
  have ok: "wf_ok env" using assms(1) by (simp add: sound_target_def target_def)
  have ops: "node_patch_ops ?t node = we_patch env ?us" by (simp add: node_patch_ops_def target_def)
  note settle = metadata_patching.ops_settle [OF assms(1)]
  show ?thesis
  proof (cases "?us = []")
    case True
    then have "s' = on_wnode (wn_uuid node) id s" using assms(2) by (simp add: update_node_metadata_def)
    moreover have "node_patch_ops ?t node = []" unfolding ops True by (simp add: patchD [OF ok])
    ultimately show ?thesis using that [of id] settle [of node] by simp
  next
    case False
    then have "we_update_node env (wn_uuid node) (node_patch_ops ?t node) s = (Inr (), s')"
      using assms(2) unfolding ops by (auto simp: update_node_metadata_def Let_def andthen_Inr_unit simp del: andthen_apply)
    then show ?thesis
    proof (rule update_nodeD [OF ok])
      fix f assume f: "s' = on_wnode (wn_uuid node) f s" "\<And>n. wn_provision_state (f n) = wn_provision_state n"
        "list_all patchable (node_patch_ops ?t node) \<Longrightarrow> f = fold patch_node (node_patch_ops ?t node)"
      then have "f = fold patch_node (node_patch_ops ?t node)" using node_patch_ops_patchable [OF assms(1)] by blast
      then show ?thesis using that [of f] f(1,2) settle [of node] settle [of "moved x node" for x] keeps_id_patch
        by (metis node_patch_ops_moved)
    qed simp
  qed
qed

lemma make_available_spec:
  assumes "wf_ok env" "make_available env u state s = (Inr (), s')" "state \<noteq> ''available''"
  shows "s' = on_wnode u (moved ''available'') s"
proof -
  obtain s1 where 1: "when_act (state = ''enroll'') (move_to env u ''manage'' ''manageable'') s = (Inr (), s1)"
    and 2: "move_to env u ''provide'' ''available'' s1 = (Inr (), s')"
    using assms(2,3) by (auto simp: make_available_def andthen_Inr_unit simp del: andthen_apply split: if_splits)
  obtain f where f: "s1 = on_wnode u f s" "keeps_id f" "\<And>y n. moved y (f n) = moved y n"
  proof (cases "state = ''enroll''")
    case True
    then have "move_to env u ''manage'' ''manageable'' s = (Inr (), s1)" using 1 by simp
    then obtain x where "s1 = on_wnode u (moved x) s" by (rule transitionD [OF assms(1)])
    then show ?thesis using that [of "moved x"] by simp
  next
    case False
    then show ?thesis using 1 that [of id] by simp
  qed
  have "s' = on_wnode u (moved ''available'') s1" using 2 by (rule transitionD [OF assms(1)]) simp
  then show ?thesis using f by (simp add: on_wnode_keeps comp_def)
qed

lemma plan_ports_Inr:
  "plan_ports u name pn node_ports ports = Inr pending \<longleftrightarrow>
   (\<exists>plans. map_sum_list (\<lambda>port. plan_netdev_port u name pn port (ports_by_name node_ports (port_name name port))
      (ports_by_mac node_ports)) ports = Inr plans \<and> pending = map the (filter (\<lambda>plan. plan \<noteq> None) plans))"
  by (auto simp: plan_ports_def sbnd_Inr)

end
