(* ===== verification/Netdev_Enroll.thy ===== *)
theory Netdev_Enroll
  imports Netdev_Reconciler
begin

text \<open>
  What \<open>enroll\<close> of \<open>netdev_reconciler.py\<close> guarantees: the port list it accepts, the tables it leaves when
  it returns, that running it again changes nothing, that it refuses a node in use or a conflicting
  request before writing anything, and that no port is written while its node is in the pool.
\<close>

section \<open>The accepted port lists\<close>

text \<open>The entry describes the port: the documented fields and no others, each of its type.\<close>

definition describes :: "json \<Rightarrow> netdev_port \<Rightarrow> bool" where
  "describes e p \<longleftrightarrow> (\<exists>d. e = JObj d \<and> fst ` set d \<subseteq> set ALLOWED_PORT_FIELDS \<and>
     dget d ''label'' = Some (JStr (np_label p)) \<and> np_label p \<noteq> [] \<and>
     dget d ''mac'' = Some (JStr (np_mac p)) \<and> np_mac p \<noteq> [] \<and>
     dget d ''switch'' = Some (JStr (np_switch p)) \<and> np_switch p \<noteq> [] \<and>
     dget d ''intf'' = Some (JStr (np_interface p)) \<and> np_interface p \<noteq> [] \<and>
     (case np_switch_id p of None \<Rightarrow> dget d ''switch_id'' \<in> {None, Some JNull}
      | Some t \<Rightarrow> dget d ''switch_id'' = Some (JStr t)))"

lemma is_jstr_iff: "is_jstr v \<longleftrightarrow> (\<exists>t. v = JStr t)"
  by (cases v) auto

lemma required_field:
  "(case dget d key of None \<Rightarrow> True | Some v \<Rightarrow> \<not> json_truthy v) \<or>
   (case dget d key of None \<Rightarrow> False | Some v \<Rightarrow> \<not> is_jstr v) \<longleftrightarrow>
   \<not> (dget d key = Some (JStr (field d key)) \<and> field d key \<noteq> [])"
proof (cases "dget d key")
  case (Some v)
  then show ?thesis by (cases v) (auto simp: field_def)
qed (simp add: field_def)

lemma check_entry_object:
  "check_entry i (JObj d) = Inr p \<longleftrightarrow>
     (\<forall>key \<in> set REQUIRED_PORT_FIELDS. dget d key = Some (JStr (field d key)) \<and> field d key \<noteq> []) \<and>
     (dget d ''switch_id'' \<in> {None, Some JNull} \<or> (\<exists>t. dget d ''switch_id'' = Some (JStr t))) \<and>
     fst ` set d \<subseteq> set ALLOWED_PORT_FIELDS \<and>
     p = \<lparr>np_label = field d ''label'', np_mac = field d ''mac'', np_switch = field d ''switch'',
          np_interface = field d ''intf'',
          np_switch_id = (case dget d ''switch_id'' of Some (JStr t) \<Rightarrow> Some t | _ \<Rightarrow> None)\<rparr>"
proof -
  let ?m = "\<lambda>key. case dget d key of None \<Rightarrow> True | Some v \<Rightarrow> \<not> json_truthy v"
  let ?n = "\<lambda>key. case dget d key of None \<Rightarrow> False | Some v \<Rightarrow> \<not> is_jstr v"
  have req: "filter ?m REQUIRED_PORT_FIELDS = [] \<and> filter ?n REQUIRED_PORT_FIELDS = [] \<longleftrightarrow>
      (\<forall>key \<in> set REQUIRED_PORT_FIELDS. dget d key = Some (JStr (field d key)) \<and> field d key \<noteq> [])"
    unfolding filter_empty_conv using required_field [of d] by blast
  have sw: "\<not> (dget d ''switch_id'' \<notin> {None, Some JNull} \<and> \<not> is_jstr (the (dget d ''switch_id''))) \<longleftrightarrow>
      dget d ''switch_id'' \<in> {None, Some JNull} \<or> (\<exists>t. dget d ''switch_id'' = Some (JStr t))"
    by (cases "dget d ''switch_id''") (auto simp: is_jstr_iff)
  have unk: "filter (\<lambda>key. key \<notin> set ALLOWED_PORT_FIELDS) (map fst d) = [] \<longleftrightarrow> fst ` set d \<subseteq> set ALLOWED_PORT_FIELDS"
    by (auto simp: filter_empty_conv)
  show ?thesis unfolding check_entry_def Let_def json.case req [symmetric] sw [symmetric] unk [symmetric]
    by (auto split: if_splits)
qed

lemma check_entry_iff: "check_entry i e = Inr p \<longleftrightarrow> describes e p"
proof (cases e)
  case (JObj d)
  have "(\<exists>t. dget d ''switch_id'' = Some (JStr t)) \<or> dget d ''switch_id'' \<in> {None, Some JNull} \<longleftrightarrow>
      (case (case dget d ''switch_id'' of Some (JStr t) \<Rightarrow> Some t | _ \<Rightarrow> None) of
         None \<Rightarrow> dget d ''switch_id'' \<in> {None, Some JNull} | Some t \<Rightarrow> dget d ''switch_id'' = Some (JStr t))"
    by (auto split: option.split json.split)
  then show ?thesis unfolding JObj check_entry_object describes_def REQUIRED_PORT_FIELDS_def
    by (cases p) (auto simp: field_def split: option.splits json.splits)
qed (simp_all add: check_entry_def describes_def)

lemma build_ports_iff:
  "build_ports i labels macs es = Inr ps \<longleftrightarrow> list_all2 describes es ps \<and>
     distinct (map np_label ps) \<and> (\<forall>p \<in> set ps. np_label p \<notin> set labels) \<and>
     distinct (map (py_lower \<circ> np_mac) ps) \<and> (\<forall>p \<in> set ps. py_lower (np_mac p) \<notin> set macs)"
proof (induction es arbitrary: i labels macs ps)
  case Nil
  then show ?case by auto
next
  case (Cons e es)
  have "build_ports i labels macs (e # es) = Inr ps \<longleftrightarrow>
    (\<exists>p qs. ps = p # qs \<and> describes e p \<and> np_label p \<notin> set labels \<and> py_lower (np_mac p) \<notin> set macs \<and>
       build_ports (i + 1) (np_label p # labels) (py_lower (np_mac p) # macs) es = Inr qs)"
    by (auto simp: sbnd_Inr check_entry_iff)
  also have "\<dots> \<longleftrightarrow> list_all2 describes (e # es) ps \<and>
     distinct (map np_label ps) \<and> (\<forall>p \<in> set ps. np_label p \<notin> set labels) \<and>
     distinct (map (py_lower \<circ> np_mac) ps) \<and> (\<forall>p \<in> set ps. py_lower (np_mac p) \<notin> set macs)"
    unfolding Cons.IH list_all2_Cons1 by (auto simp: image_iff) metis+
  finally show ?case .
qed

text \<open>
  C18: A port list is accepted exactly when it is not empty, every entry is an object with the
  four required non-empty strings, an optional \<open>switch_id\<close> string and no other field, no label occurs
  twice and no MAC address occurs twice regardless of case; the ports then are the entries, in order.
\<close>
theorem netdev_ports_accepted_iff:
  "build_netdev_ports es = Inr ps \<longleftrightarrow> es \<noteq> [] \<and> list_all2 describes es ps \<and>
     distinct (map np_label ps) \<and> distinct (map (py_lower \<circ> np_mac) ps)"
  by (auto simp: build_netdev_ports_def build_ports_iff)

section \<open>One enrollment\<close>

text \<open>Ironic's tables: keys are unique, at most one node answers to the name, a node has a port name once.\<close>

definition tables_ok :: "string \<Rightarrow> wf_state \<Rightarrow> bool" where
  "tables_ok name s \<longleftrightarrow> distinct (map wn_uuid (ws_nodes s)) \<and>
     (\<forall>n \<in> set (ws_nodes s). \<forall>m \<in> set (ws_nodes s). answers name n \<and> answers name m \<longrightarrow> n = m) \<and>
     (\<forall>u. ports_ok u s)"

lemma find_or_create_cases:
  assumes "wf_ok env" "find_or_create_netdev_node env name rc di ex s = (Inr (node, created), s')"
  obtains (reused) "\<not> created" "s' = s" "node \<in> set (ws_nodes s)" "answers name node" "wn_driver node = ''netdev''"
      "wn_provision_state node \<in> set REENROLLABLE_STATES"
  | (fresh) "created" "s' = s\<lparr>ws_nodes := ws_nodes s @ [node]\<rparr>" "\<And>n. n \<in> set (ws_nodes s) \<Longrightarrow> \<not> answers name n"
      "create_netdev_node env name rc di ex s = (Inr node, s')"
      "wn_uuid node \<notin> wn_uuid ` set (ws_nodes s)" "wn_uuid node \<notin> wp_node_uuid ` set (ws_ports s)"
proof -
  obtain r s1 where g: "we_get_node env name s = (r, s1)" by force
  note get = getD [OF assms(1) g]
  show ?thesis
  proof (cases "\<exists>m. r = Inl (NotFound m)")
    case True
    then obtain m where r: "r = Inl (NotFound m)" by blast
    have c: "create_netdev_node env name rc di ex s = (Inr node, s')" and created
      using assms(2) g get(1) r
      by (auto simp: find_or_create_netdev_node_def split: prod.splits sum.splits if_splits)
    from c [unfolded create_netdev_node_def] show ?thesis
      by (rule create_nodeD [OF assms(1)]) (use fresh c \<open>created\<close> get(4) r in \<open>auto simp: answers_def\<close>)
  next
    case False
    then obtain n where r: "r = Inr n"
      using assms(2) g by (cases r) (auto simp: find_or_create_netdev_node_def split: exn.splits)
    then have "n = node \<and> \<not> created \<and> s' = s \<and> wn_driver node = ''netdev'' \<and>
        wn_provision_state node \<in> set REENROLLABLE_STATES"
      using assms(2) g get(1) by (auto simp: find_or_create_netdev_node_def split: if_splits)
    with r get(2,3) [of node] reused show ?thesis by (auto simp: answers_def)
  qed
qed

lemma dget_meta: "distinct (map fst d) \<Longrightarrow> (k, v) \<in> set d \<Longrightarrow> dget (map (map_prod id meta_json) d) k = Some (meta_json v)"
  unfolding dget_def by (intro map_of_is_SomeI) (auto simp: comp_def intro: rev_image_eqI)

lemma created_settled:
  assumes "wf_ok env" "sound_target (target env req)"
    and "create_netdev_node env name (effective_resource_class req) (er_driver_info req) (node_extra req) s = (Inr node, s')"
  shows "settled_node (target env req) node" "wn_driver node = ''netdev''" "wn_name node = Some name"
    "wn_provision_state node = ''enroll''"
proof -
  let ?d = "[(''automated_clean'', JBool False), (''driver'', JStr ''netdev''), (''name'', JStr name),
     (''resource_class'', JStr (effective_resource_class req))] @
     (if er_driver_info req \<noteq> [] then [(''driver_info'', JObj (map (map_prod id meta_json) (er_driver_info req)))] else []) @
     (if node_extra req \<noteq> [] then [(''extra'', JObj (map (map_prod id meta_json) (node_extra req)))] else [])"
  have "node_created_as ?d node"
    using assms(3) [unfolded create_netdev_node_def] by (rule create_nodeD [OF assms(1)]) simp_all
  then have n: "wn_driver node = ''netdev''" "wn_name node = Some name" "wn_provision_state node = ''enroll''"
    "wn_resource_class node = Some (effective_resource_class req)"
    "er_driver_info req \<noteq> [] \<longrightarrow> wn_driver_info node = map (map_prod id meta_json) (er_driver_info req)"
    "node_extra req \<noteq> [] \<longrightarrow> wn_extra node = map (map_prod id meta_json) (node_extra req)"
    unfolding node_created_as_def dget_def by simp_all
  then show "wn_driver node = ''netdev''" "wn_name node = Some name" "wn_provision_state node = ''enroll''" by simp_all
  have "distinct (map fst (er_driver_info req))" "distinct (map fst (node_extra req))"
    using assms(2) by (simp_all add: sound_target_def survives_def target_def)
  then show "settled_node (target env req) node"
    using n(4-6) dget_meta unfolding settled_node_def holds_meta_def target_def by fastforce
qed

lemma apply_enrollment_spec:
  assumes ok: "wf_ok env" and t: "sound_target (target env req)"
    and ports: "ports_ok (wn_uuid node) s" "distinct (map np_label nps)"
    and plan: "plan_ports (wn_uuid node) (er_name req) (er_physical_network req)
        (filter (\<lambda>p. wp_node_uuid p = wn_uuid node) (ws_ports s)) nps = Inr pending"
    and created: "created \<Longrightarrow> settled_node (target env req) node"
    and run: "apply_enrollment env req node created pending s = (Inr (), s')"
  obtains g where "ws_nodes s' = ws_nodes (on_wnode (wn_uuid node) g s)" "keeps_id g"
    "settled_node (target env req) (g node)" "wn_provision_state (g node) = ''available''"
    "\<forall>port \<in> set nps. port_holds (wn_uuid node) (er_name req) (er_physical_network req) port s'"
    "ports_ok (wn_uuid node) s'"
    "others (wn_uuid node) (port_name (er_name req) ` set nps) s' = others (wn_uuid node) (port_name (er_name req) ` set nps) s"
proof -
  let ?u = "wn_uuid node" and ?t = "target env req"
  let ?down = "pending \<noteq> [] \<and> wn_provision_state node = ''available''"
  let ?state = "if ?down then ''manageable'' else wn_provision_state node"
  obtain s1 b s2 where 1: "when_act ?down (move_to env ?u ''manage'' ''manageable'') s = (Inr (), s1)"
    and 2: "(if created then ret False else update_node_metadata env node (effective_resource_class req)
        (er_driver_info req) (node_extra req)) s1 = (Inr b, s2)"
    and 3: "(if pending = [] \<and> ?state = ''available'' then ret () else andthen
        (for_each (apply_port_plan env ?u (er_name req) (er_physical_network req)) pending)
        (make_available env ?u ?state)) s2 = (Inr (), s')"
    using run unfolding apply_enrollment_def Let_def andthen_Inr_unit andthen_Inr by blast
  obtain f where f: "s1 = on_wnode ?u f s" "keeps_id f" "f node = node \<or> ?down \<and> (\<exists>x. f node = moved x node)"
  proof (cases ?down)
    case True
    then have "move_to env ?u ''manage'' ''manageable'' s = (Inr (), s1)" using 1 by simp
    then obtain x where "s1 = on_wnode ?u (moved x) s" by (rule transitionD [OF ok])
    then show ?thesis using that [of "moved x"] True by auto
  next
    case False
    then show ?thesis using 1 that [of id] by auto
  qed
  obtain g where g: "s2 = on_wnode ?u g s1" "keeps_id g" "settled_node ?t (g (f node))"
    "wn_provision_state (g (f node)) = wn_provision_state (f node)"
  proof (cases created)
    case True
    then have "settled_node ?t (f node)" using created f(3) by auto
    then show ?thesis using 2 True that [of id] by simp
  next
    case False
    then have "update_node_metadata env node (effective_resource_class req) (er_driver_info req) (node_extra req) s1 = (Inr b, s2)"
      using 2 by simp
    then obtain h where "s2 = on_wnode ?u h s1" "keeps_id h" "settled_node ?t (h node)"
      "\<And>x. settled_node ?t (h (moved x node))" "\<And>n. wn_provision_state (h n) = wn_provision_state n"
      by (rule update_metadata_spec [OF t]) blast
    then show ?thesis using f(3) that [of h] by auto
  qed
  have s2: "s2 = on_wnode ?u (g \<circ> f) s" using f g by (simp add: on_wnode_keeps)
  then have p2: "ws_ports s2 = ws_ports s" by simp
  then have ok2: "ports_ok ?u s2" using ports(1) by (simp add: ports_ok_def)
  obtain plans where plans: "map_sum_list (\<lambda>port. plan_netdev_port ?u (er_name req) (er_physical_network req) port
      (ports_by_name (filter (\<lambda>p. wp_node_uuid p = ?u) (ws_ports s2)) (port_name (er_name req) port))
      (ports_by_mac (filter (\<lambda>p. wp_node_uuid p = ?u) (ws_ports s2)))) nps = Inr plans"
    and pend: "pending = map the (filter (\<lambda>plan. plan \<noteq> None) plans)"
    using plan unfolding plan_ports_Inr p2 by blast
  have o2: "others ?u nms s2 = others ?u nms s" for nms using p2 by (simp add: others_def)
  show ?thesis
  proof (cases "pending = [] \<and> ?state = ''available''")
    case True
    then have av: "pending = []" "wn_provision_state node = ''available''" by auto
    then have s': "s' = s2" using 3 by simp
    have "for_each (run_plan env ?u (er_name req) (er_physical_network req)) plans s2 = (Inr (), s2)"
      using for_each_run_plan [of env ?u "er_name req" "er_physical_network req" plans s2] True unfolding pend [symmetric] by simp
    from run_plans_spec [OF ok ok2 ports(2) is_named_lookup plans this] show ?thesis
      using that [of "g \<circ> f"] g(2-4) f(2,3) av s' o2 arg_cong [OF s2, of ws_nodes] by (auto simp: keeps_id_comp simp del: ws_nodes_on)
  next
    case False
    then obtain s3 where 4: "for_each (run_plan env ?u (er_name req) (er_physical_network req)) plans s2 = (Inr (), s3)"
      and 5: "make_available env ?u ?state s3 = (Inr (), s')"
      using 3 unfolding pend for_each_run_plan [symmetric] by (auto simp: andthen_Inr_unit simp del: andthen_apply)
    note run = run_plans_spec [OF ok ok2 ports(2) is_named_lookup plans 4]
    have "?state \<noteq> ''available''" using False by auto
    from make_available_spec [OF ok 5 this] have s': "s' = on_wnode ?u (moved ''available'') s3" .
    have holds: "port_holds ?u (er_name req) (er_physical_network req) port s'" if "port \<in> set nps" for port
      using run that s' by (simp add: port_holds_def)
    have "ws_nodes s' = ws_nodes (on_wnode ?u (moved ''available'') s2)" using run s' by simp
    also have "\<dots> = ws_nodes (on_wnode ?u (moved ''available'' \<circ> (g \<circ> f)) s)"
      unfolding s2 on_wnode_keeps [OF keeps_id_comp [OF f(2) g(2)]] ..
    finally have "ws_nodes s' = ws_nodes (on_wnode ?u (moved ''available'' \<circ> (g \<circ> f)) s)" .
    moreover have "ports_ok ?u s'" "others ?u (port_name (er_name req) ` set nps) s' = others ?u (port_name (er_name req) ` set nps) s"
      using run s' p2 by (simp_all add: ports_ok_def others_def)
    ultimately show ?thesis using that [of "moved ''available'' \<circ> (g \<circ> f)"] g f holds by (auto simp: keeps_id_comp)
  qed
qed

definition enrolled :: "wf_env \<Rightarrow> enroll_request \<Rightarrow> netdev_port list \<Rightarrow> wf_state \<Rightarrow> wf_node \<Rightarrow> bool" where
  "enrolled env req nps s n \<longleftrightarrow> n \<in> set (ws_nodes s) \<and> answers (er_name req) n \<and> wn_driver n = ''netdev'' \<and>
     wn_provision_state n = ''available'' \<and> settled_node (target env req) n \<and>
     (\<forall>port \<in> set nps. port_holds (wn_uuid n) (er_name req) (er_physical_network req) port s)"

lemma unique_answer_on:
  assumes "distinct (map wn_uuid (ws_nodes s))" "keeps_id g" "node \<in> set (ws_nodes s)"
    and "\<And>n. n \<in> set (ws_nodes s) \<Longrightarrow> answers i n \<Longrightarrow> n = node"
    and "m \<in> set (ws_nodes (on_wnode (wn_uuid node) g s))" "answers i m"
  shows "m = g node"
proof -
  obtain n where n: "n \<in> set (ws_nodes s)" "m = (if wn_uuid n = wn_uuid node then g n else n)" using assms(5) by auto
  then have "answers i n" using assms(2,6) by (auto simp: answers_def keeps_id_def split: if_splits)
  with n assms(4) show ?thesis by simp
qed

lemma enroll_result:
  assumes ok: "wf_ok env" and t: "sound_target (target env req)" and s: "tables_ok (er_name req) s"
    and run: "enroll env req s = (Inr (), s')"
  obtains nps n where "build_netdev_ports (er_ports req) = Inr nps" "enrolled env req nps s' n"
    "\<forall>m \<in> set (ws_nodes s'). answers (er_name req) m \<longrightarrow> m = n" "ports_ok (wn_uuid n) s'"
    "others (wn_uuid n) (port_name (er_name req) ` set nps) s' = others (wn_uuid n) (port_name (er_name req) ` set nps) s"
    "{m \<in> set (ws_nodes s'). wn_uuid m \<noteq> wn_uuid n} = {m \<in> set (ws_nodes s). wn_uuid m \<noteq> wn_uuid n}"
proof -
  obtain nps node created s1 node_ports pending s2 where
    b: "build_netdev_ports (er_ports req) = Inr nps" and
    f: "find_or_create_netdev_node env (er_name req) (effective_resource_class req) (er_driver_info req) (node_extra req) s
      = (Inr (node, created), s1)" and
    l: "we_list_ports env (wn_uuid node) s1 = (Inr node_ports, s2)" and
    p: "plan_ports (wn_uuid node) (er_name req) (er_physical_network req) node_ports nps = Inr pending" and
    a: "apply_enrollment env req node created pending s2 = (Inr (), s')"
    using run unfolding enroll_def by (auto simp: bnd_Inr simp del: bnd_apply split: prod.splits)
  note lp = list_portsD [OF ok l]
  have lab: "distinct (map np_label nps)"
    using b by (auto simp: build_netdev_ports_def build_ports_iff split: if_splits)
  have facts: "node \<in> set (ws_nodes s1) \<and> answers (er_name req) node \<and> wn_driver node = ''netdev'' \<and>
      ports_ok (wn_uuid node) s1 \<and> (created \<longrightarrow> settled_node (target env req) node) \<and>
      distinct (map wn_uuid (ws_nodes s1)) \<and> (\<forall>n \<in> set (ws_nodes s1). answers (er_name req) n \<longrightarrow> n = node) \<and>
      ws_ports s1 = ws_ports s \<and>
      {m \<in> set (ws_nodes s1). wn_uuid m \<noteq> wn_uuid node} = {m \<in> set (ws_nodes s). wn_uuid m \<noteq> wn_uuid node}"
  proof (cases rule: find_or_create_cases [OF ok f])
    case 1
    then show ?thesis using s unfolding tables_ok_def by auto
  next
    case 2
    note c = created_settled [OF ok t 2(4)]
    have "ports_ok (wn_uuid node) s1" using s 2(2) by (simp add: tables_ok_def ports_ok_def)
    then show ?thesis using s 2(2,3,5) c unfolding tables_ok_def by (auto simp: answers_def)
  qed
  then have row: "node \<in> set (ws_nodes s1)" "answers (er_name req) node" "wn_driver node = ''netdev''" "ports_ok (wn_uuid node) s1"
    and set1: "created \<Longrightarrow> settled_node (target env req) node"
    and uniq: "distinct (map wn_uuid (ws_nodes s1))" "\<And>n. n \<in> set (ws_nodes s1) \<Longrightarrow> answers (er_name req) n \<Longrightarrow> n = node"
    and ports1: "ws_ports s1 = ws_ports s"
      "{m \<in> set (ws_nodes s1). wn_uuid m \<noteq> wn_uuid node} = {m \<in> set (ws_nodes s). wn_uuid m \<noteq> wn_uuid node}"
    by blast+
  have s2: "s2 = s1" and np: "node_ports = filter (\<lambda>p. wp_node_uuid p = wn_uuid node) (ws_ports s1)" using lp by simp_all
  obtain g where g: "ws_nodes s' = ws_nodes (on_wnode (wn_uuid node) g s1)" "keeps_id g"
    "settled_node (target env req) (g node)" "wn_provision_state (g node) = ''available''"
    "\<forall>port \<in> set nps. port_holds (wn_uuid node) (er_name req) (er_physical_network req) port s'"
    "ports_ok (wn_uuid node) s'"
    "others (wn_uuid node) (port_name (er_name req) ` set nps) s' = others (wn_uuid node) (port_name (er_name req) ` set nps) s1"
    using apply_enrollment_spec [OF ok t row(4) lab p [unfolded np] set1 a [unfolded s2]] by blast
  have id: "wn_uuid (g node) = wn_uuid node" "answers (er_name req) (g node)" "wn_driver (g node) = ''netdev''"
    using g(2) row(2,3) by (simp_all add: keeps_id_def answers_def)
  have "g node \<in> set (ws_nodes s')" using row(1) g(1) by (auto simp: image_iff)
  then have e: "enrolled env req nps s' (g node)" using id g(3-5) by (simp add: enrolled_def)
  have u: "\<forall>m \<in> set (ws_nodes s'). answers (er_name req) m \<longrightarrow> m = g node"
    using unique_answer_on [OF uniq(1) g(2) row(1) uniq(2)] g(1) by metis
  have "{m \<in> set (ws_nodes s'). wn_uuid m \<noteq> wn_uuid node} = {m \<in> set (ws_nodes s1). wn_uuid m \<noteq> wn_uuid node}"
    using g(2) unfolding g(1) by (auto simp: keeps_id_def image_iff split: if_splits)
  with ports1 g(7) have "others (wn_uuid (g node)) (port_name (er_name req) ` set nps) s' = others (wn_uuid (g node)) (port_name (er_name req) ` set nps) s"
    "{m \<in> set (ws_nodes s'). wn_uuid m \<noteq> wn_uuid (g node)} = {m \<in> set (ws_nodes s). wn_uuid m \<noteq> wn_uuid (g node)}"
    unfolding id by (simp_all add: others_def)
  from that [OF b e u _ this] g(6) show ?thesis unfolding id by blast
qed


lemma settled_plan_None:
  assumes "settled_port (pn, port) p"
  shows "plan_netdev_port u name pn port (Some p) by_mac = Inr None"
proof -
  have "\<not> moves_mac port p" using assms by (simp add: settled_port_def moves_mac_def)
  moreover have "port_patch_ops (pn, port) p = []" using assms port_patching.ops_Nil_iff by blast
  ultimately show ?thesis by (simp add: plan_netdev_port_def)
qed

lemma held_plan_None:
  assumes "ports_ok u s" "port_holds u name pn port s"
  shows "plan_netdev_port u name pn port
    (ports_by_name (filter (\<lambda>p. wp_node_uuid p = u) (ws_ports s)) (port_name name port)) by_mac = Inr None"
proof -
  obtain p where p: "p \<in> set (ws_ports s)" "on_port u (port_name name port) p" "settled_port (pn, port) p"
    using assms(2) by (auto simp: port_holds_def)
  have n: "is_named u (port_name name port) s (ports_by_name (filter (\<lambda>p. wp_node_uuid p = u) (ws_ports s)) (port_name name port))"
    by (rule is_named_lookup)
  then have "ports_by_name (filter (\<lambda>p. wp_node_uuid p = u) (ws_ports s)) (port_name name port) = Some p"
    using p(1,2) named_unique [OF assms(1)] by (cases "ports_by_name (filter (\<lambda>p. wp_node_uuid p = u) (ws_ports s)) (port_name name port)")
      (auto simp: is_named_def)
  then show ?thesis using settled_plan_None [OF p(3)] by simp
qed

lemma held_plans_Nil:
  assumes "ports_ok u s" "\<forall>port \<in> set nps. port_holds u name pn port s"
  shows "plan_ports u name pn (filter (\<lambda>p. wp_node_uuid p = u) (ws_ports s)) nps = Inr []"
proof -
  have "map_sum_list (\<lambda>port. plan_netdev_port u name pn port (ports_by_name (filter (\<lambda>p. wp_node_uuid p = u) (ws_ports s)) (port_name name port))
      (ports_by_mac (filter (\<lambda>p. wp_node_uuid p = u) (ws_ports s)))) nps = Inr (map (\<lambda>_. None) nps)"
    using assms(2) by (induction nps) (simp_all add: held_plan_None [OF assms(1)])
  then show ?thesis by (simp add: plan_ports_def)
qed

lemma settled_no_update:
  assumes "sound_target (target env req)" "settled_node (target env req) n"
  shows "update_node_metadata env n (effective_resource_class req) (er_driver_info req) (node_extra req) s = (Inr False, s)"
proof -
  have "wf_ok env" using assms(1) by (simp add: sound_target_def target_def)
  moreover have "node_patch_ops (target env req) n = []" using metadata_patching.ops_Nil_iff [OF assms(1)] assms(2) by blast
  ultimately have "node_updates (effective_resource_class req) (er_driver_info req) (node_extra req) n = []"
    by (simp add: node_patch_ops_def target_def patchD)
  then show ?thesis by (simp add: update_node_metadata_def)
qed


section \<open>Refusals\<close>

text \<open>The MAC belongs to a port of the node, and not to the port the label names.\<close>

definition mac_taken :: "string \<Rightarrow> string \<Rightarrow> netdev_port \<Rightarrow> wf_state \<Rightarrow> bool" where
  "mac_taken u name port s \<longleftrightarrow>
     (\<exists>q \<in> set (ws_ports s). wp_node_uuid q = u \<and> py_lower (py_or (wp_address q) []) = py_lower (np_mac port)) \<and>
     (\<forall>q \<in> set (ws_ports s). on_port u (port_name name port) q \<longrightarrow> moves_mac port q)"

lemma mac_taken_conflict:
  assumes "ports_ok u s" "mac_taken u name port s"
  shows "isl (plan_netdev_port u name pn port (ports_by_name (filter (\<lambda>p. wp_node_uuid p = u) (ws_ports s)) (port_name name port))
    (ports_by_mac (filter (\<lambda>p. wp_node_uuid p = u) (ws_ports s))))"
proof -
  let ?ps = "filter (\<lambda>p. wp_node_uuid p = u) (ws_ports s)"
  obtain w where o: "ports_by_mac ?ps (py_lower (np_mac port)) = Some w"
    using assms(2) by (cases "ports_by_mac ?ps (py_lower (np_mac port))")
      (auto simp: ports_by_mac_def mac_taken_def find_None_iff)
  then have o': "w \<in> set (ws_ports s)" "\<not> moves_mac port w"
    unfolding ports_by_mac_def by (auto dest!: find_SomeD simp: moves_mac_def)
  show ?thesis
  proof (cases "ports_by_name ?ps (port_name name port)")
    case None
    then show ?thesis using o by (simp add: plan_netdev_port_def)
  next
    case (Some p)
    then have p: "p \<in> set (ws_ports s)" "on_port u (port_name name port) p"
      using is_named_lookup [of u name port s] by (simp_all add: is_named_def)
    then have "moves_mac port p" using assms(2) by (simp add: mac_taken_def)
    moreover have "wp_uuid w \<noteq> wp_uuid p" using ports_ok_row [OF assms(1) o'(1) p(1)] o'(2) \<open>moves_mac port p\<close> by auto
    ultimately show ?thesis using Some o by (simp add: plan_netdev_port_def)
  qed
qed

lemma map_sum_list_isl: "x \<in> set xs \<Longrightarrow> isl (f x) \<Longrightarrow> isl (map_sum_list f xs)"
proof (induction xs)
  case (Cons y ys)
  then show ?case by (cases "f y"; cases "map_sum_list f ys") auto
qed simp

text \<open>
  C17: An enrollment that has to be refused is refused before anything is written: for an existing
  node with another driver or in a state it cannot be enrolled from, for an invalid port list, and
  for a requested MAC that belongs to another port of the node, \<open>enroll\<close> raises with Ironic's tables
  unchanged.
\<close>
theorem netdev_enroll_refuses_untouched:
  assumes "wf_ok env" "we_get_node env (er_name req) s = (Inr n, s1)" "ports_ok (wn_uuid n) s"
    and "wn_driver n \<noteq> ''netdev'' \<or> wn_provision_state n \<notin> set REENROLLABLE_STATES \<or>
      isl (build_netdev_ports (er_ports req)) \<or>
      (\<exists>nps. build_netdev_ports (er_ports req) = Inr nps \<and> (\<exists>port \<in> set nps. mac_taken (wn_uuid n) (er_name req) port s))"
  shows "\<exists>e. enroll env req s = (Inl e, s)"
proof -
  have s1: "s1 = s" using getD(1) [OF assms(1,2)] .
  show ?thesis
  proof (cases "build_netdev_ports (er_ports req)")
    case (Inl e)
    then show ?thesis by (simp add: enroll_def)
  next
    case (Inr nps)
    show ?thesis
    proof (cases "wn_driver n \<noteq> ''netdev'' \<or> wn_provision_state n \<notin> set REENROLLABLE_STATES")
      case True
      then show ?thesis using Inr assms(2) s1 by (auto simp: enroll_def find_or_create_netdev_node_def)
    next
      case False
      then obtain port where port: "port \<in> set nps" "mac_taken (wn_uuid n) (er_name req) port s"
        using assms(4) Inr by auto
      have found: "find_or_create_netdev_node env (er_name req) rc di ex s = (Inr (n, False), s)" for rc di ex
        using False assms(2) s1 by (simp add: find_or_create_netdev_node_def)
      obtain r s2 where l: "we_list_ports env (wn_uuid n) s = (r, s2)" by force
      note ports = list_portsD [OF assms(1) l]
      show ?thesis
      proof (cases r)
        case (Inl e)
        then show ?thesis using Inr found l ports(1) by (simp add: enroll_def)
      next
        case (Inr ps)
        let ?ps = "filter (\<lambda>p. wp_node_uuid p = wn_uuid n) (ws_ports s)"
        have "isl (map_sum_list (\<lambda>port. plan_netdev_port (wn_uuid n) (er_name req) (er_physical_network req) port
            (ports_by_name ?ps (port_name (er_name req) port)) (ports_by_mac ?ps)) nps)"
          by (rule map_sum_list_isl [OF port(1)]) (rule mac_taken_conflict [OF assms(3) port(2)])
        then have "isl (plan_ports (wn_uuid n) (er_name req) (er_physical_network req) ?ps nps)"
          unfolding plan_ports_def by (auto simp: isl_def)
        then obtain e where "plan_ports (wn_uuid n) (er_name req) (er_physical_network req) ?ps nps = Inl e" by (auto simp: isl_def)
        then show ?thesis using \<open>build_netdev_ports _ = Inr nps\<close> found l Inr ports by (simp add: enroll_def)
      qed
    qed
  qed
qed

section \<open>Ports change only outside the pool\<close>

definition in_pool :: "string \<Rightarrow> wf_state \<Rightarrow> bool" where
  "in_pool u s \<longleftrightarrow> (\<exists>n \<in> set (ws_nodes s). wn_uuid n = u \<and> wn_provision_state n = ''available'')"

text \<open>Ironic as documented: a port of an available node cannot be created or changed.\<close>

definition guard_ports :: "wf_env \<Rightarrow> wf_env" where
  "guard_ports env = env
     \<lparr>we_create_port := (\<lambda>d s. if in_pool (dt_node_uuid d) s then (Inl (Foreign ''node is available''), s)
        else we_create_port env d s),
      we_update_port := (\<lambda>u ps s. if \<exists>p \<in> set (ws_ports s). wp_uuid p = u \<and> in_pool (wp_node_uuid p) s
        then (Inl (Foreign ''node is available''), s) else we_update_port env u ps s)\<rparr>"

lemma guard_sel [simp]:
  "we_get_node (guard_ports env) = we_get_node env" "we_create_node (guard_ports env) = we_create_node env"
  "we_update_node (guard_ports env) = we_update_node env" "we_set_state (guard_ports env) = we_set_state env"
  "we_wait (guard_ports env) = we_wait env" "we_list_ports (guard_ports env) = we_list_ports env"
  "we_patch (guard_ports env) = we_patch env"
  by (simp_all add: guard_ports_def)

lemma guard_transition [simp]: "transition (guard_ports env) = transition env"
  by (intro ext) (simp only: transition_def guard_sel)

lemma guard_same [simp]:
  "make_available (guard_ports env) = make_available env"
  "update_node_metadata (guard_ports env) = update_node_metadata env"
  "find_or_create_netdev_node (guard_ports env) = find_or_create_netdev_node env"
  by (intro ext, simp only: make_available_def update_node_metadata_def find_or_create_netdev_node_def
      create_netdev_node_def guard_sel guard_transition)+

text \<open>A plan that updates a port updates one of node \<open>u\<close>.\<close>

definition owners :: "wf_state \<Rightarrow> (string \<times> string) set" where
  "owners s = (\<lambda>q. (wp_uuid q, wp_node_uuid q)) ` set (ws_ports s)"

definition plan_of_node :: "string \<Rightarrow> wf_state \<Rightarrow> port_plan \<Rightarrow> bool" where
  "plan_of_node u s plan \<longleftrightarrow> (case plan of PlanCreate _ \<Rightarrow> True
     | PlanUpdate p _ \<Rightarrow> wp_uuid p \<in> fst ` owners s \<and> (\<forall>v. (wp_uuid p, v) \<in> owners s \<longrightarrow> v = u))"

lemma owners_patched [simp]: "owners (on_wport i (fold patch_port ps) s) = owners s"
  unfolding owners_def ws_ports_on set_map image_image by (intro image_cong) simp_all

lemma plan_of_node_owners: "owners s' = owners s \<Longrightarrow> plan_of_node u s' = plan_of_node u s"
  unfolding plan_of_node_def by (intro ext) (simp split: port_plan.split)

lemma plan_of_node_update:
  "plan_of_node u s (PlanUpdate p ps) \<Longrightarrow> q \<in> set (ws_ports s) \<Longrightarrow> wp_uuid q = wp_uuid p \<Longrightarrow> wp_node_uuid q = u"
  unfolding plan_of_node_def owners_def by (simp add: image_iff) metis

lemma plan_of_node_create:
  "plan_of_node u s plan \<Longrightarrow> wp_uuid p \<notin> wp_uuid ` set (ws_ports s) \<Longrightarrow>
   plan_of_node u (s\<lparr>ws_ports := ws_ports s @ [p]\<rparr>) plan"
  by (cases plan) (auto simp: plan_of_node_def owners_def)

lemma guarded_plans:
  assumes "wf_ok env" "\<not> in_pool u s" "list_all (plan_of_node u s) pending"
  shows "for_each (apply_port_plan (guard_ports env) u name pn) pending s = for_each (apply_port_plan env u name pn) pending s"
  using assms(2,3)
proof (induction pending arbitrary: s)
  case (Cons plan pending)
  obtain r s1 where run: "apply_port_plan env u name pn plan s = (r, s1)" by force
  have same: "apply_port_plan (guard_ports env) u name pn plan s = (r, s1)"
  proof (cases plan)
    case (PlanCreate port)
    then show ?thesis using run Cons.prems(1) by (simp add: guard_ports_def create_netdev_port_def)
  next
    case (PlanUpdate p ps)
    then have "\<not> (\<exists>q \<in> set (ws_ports s). wp_uuid q = wp_uuid p \<and> in_pool (wp_node_uuid q) s)"
      using Cons.prems plan_of_node_update [of u s p ps] by auto
    then show ?thesis using run PlanUpdate by (auto simp: guard_ports_def)
  qed
  have "\<not> in_pool u s1 \<and> list_all (plan_of_node u s1) pending"
  proof (cases plan)
    case (PlanCreate port)
    from run [unfolded PlanCreate apply_port_plan.simps create_netdev_port_def] show ?thesis
      by (rule create_portD [OF assms(1)])
        (use Cons.prems in \<open>auto simp: in_pool_def list_all_iff intro: plan_of_node_create\<close>)
  next
    case (PlanUpdate p ps)
    from run [unfolded PlanUpdate apply_port_plan.simps] show ?thesis
      by (rule update_portD [OF assms(1)])
        (use Cons.prems plan_of_node_owners [OF owners_patched] in \<open>auto simp: in_pool_def\<close>)
  qed
  then show ?case using Cons.IH [of s1] run same by (cases r) simp_all
qed simp

lemma planned_of_node:
  assumes "ports_ok u s"
    and "plan_ports u name pn (filter (\<lambda>p. wp_node_uuid p = u) (ws_ports s)) nps = Inr pending"
  shows "list_all (plan_of_node u s) pending"
  unfolding list_all_iff
proof
  let ?ps = "filter (\<lambda>p. wp_node_uuid p = u) (ws_ports s)"
  fix plan assume plan: "plan \<in> set pending"
  obtain plans where plans: "map_sum_list (\<lambda>port. plan_netdev_port u name pn port (ports_by_name ?ps (port_name name port))
      (ports_by_mac ?ps)) nps = Inr plans" "pending = map the (filter (\<lambda>plan. plan \<noteq> None) plans)"
    using assms(2) unfolding plan_ports_Inr by blast
  have pick: "\<exists>x \<in> set xs. f x = Inr y" if "map_sum_list f xs = Inr ys" "y \<in> set ys" for f :: "netdev_port \<Rightarrow> exn + port_plan option" and xs ys y
    using that by (induction xs arbitrary: ys) (auto simp: sbnd_Inr)
  have "Some plan \<in> set plans" using plan plans(2) by auto
  from pick [OF plans(1) this] obtain port where
    p: "plan_netdev_port u name pn port (ports_by_name ?ps (port_name name port)) (ports_by_mac ?ps) = Inr (Some plan)"
    by blast
  show "plan_of_node u s plan"
  proof (cases plan)
    case (PlanUpdate q patch)
    then have "ports_by_name ?ps (port_name name port) = Some q"
      using p by (auto simp: plan_netdev_port_def Let_def split: option.splits if_splits)
    then have q: "q \<in> set (ws_ports s)" "wp_node_uuid q = u"
      using is_named_lookup [of u name port s] by (simp_all add: is_named_def on_port_def)
    have "wp_node_uuid r = u" if "r \<in> set (ws_ports s)" "wp_uuid r = wp_uuid q" for r
      using ports_ok_row [OF assms(1) that(1) q(1) that(2)] q(2) by simp
    moreover have "wp_uuid q \<in> fst ` owners s" using q(1) by (force simp: owners_def)
    ultimately show ?thesis using PlanUpdate by (auto simp: plan_of_node_def owners_def)
  qed (simp add: plan_of_node_def)
qed

lemma in_pool_on: "(\<And>n. wn_uuid (f n) = wn_uuid n) \<Longrightarrow> (\<And>n. wn_provision_state (f n) = wn_provision_state n) \<Longrightarrow>
    in_pool u (on_wnode v f s) = in_pool u s"
proof -
  assume f: "\<And>n. wn_uuid (f n) = wn_uuid n" "\<And>n. wn_provision_state (f n) = wn_provision_state n"
  have alt: "in_pool u x \<longleftrightarrow> (u, ''available'') \<in> (\<lambda>n. (wn_uuid n, wn_provision_state n)) ` set (ws_nodes x)" for x
    by (auto simp: in_pool_def image_iff)
  have "(\<lambda>n. (wn_uuid n, wn_provision_state n)) ` set (ws_nodes (on_wnode v f s)) =
      (\<lambda>n. (wn_uuid n, wn_provision_state n)) ` set (ws_nodes s)"
    unfolding ws_nodes_on set_map image_image using f by (intro image_cong) simp_all
  then show ?thesis unfolding alt by simp
qed

lemma update_metadata_in_pool:
  assumes "wf_ok env" "update_node_metadata env node rc di ex s = (r, s')"
  shows "in_pool u s' = in_pool u s" "ws_ports s' = ws_ports s"
proof -
  have "in_pool u s' = in_pool u s \<and> ws_ports s' = ws_ports s"
  proof (cases "node_updates rc di ex node = []")
    case False
    obtain r1 s1 where w: "we_update_node env (wn_uuid node) (we_patch env (node_updates rc di ex node)) s = (r1, s1)" by force
    then have "s1 = s'" using assms(2) False by (cases r1) (simp_all add: update_node_metadata_def)
    with w show ?thesis by (auto elim!: update_nodeD [OF assms(1)] simp: in_pool_on)
  qed (use assms(2) in \<open>simp add: update_node_metadata_def\<close>)
  then show "in_pool u s' = in_pool u s" "ws_ports s' = ws_ports s" by blast+
qed

lemma guarded_apply:
  assumes ok: "wf_ok env" and row: "in_pool (wn_uuid node) s \<longrightarrow> wn_provision_state node = ''available''"
    and plans: "list_all (plan_of_node (wn_uuid node) s) pending"
  shows "apply_enrollment (guard_ports env) req node created pending s = apply_enrollment env req node created pending s"
proof -
  let ?u = "wn_uuid node" and ?down = "pending \<noteq> [] \<and> wn_provision_state node = ''available''"
  let ?state = "if ?down then ''manageable'' else wn_provision_state node"
  let ?k = "\<lambda>env. for_each (apply_port_plan env ?u (er_name req) (er_physical_network req)) pending"
  let ?meta = "if created then ret False else update_node_metadata env node (effective_resource_class req) (er_driver_info req) (node_extra req)"
  have "?k (guard_ports env) s2 = ?k env s2"
    if 1: "when_act ?down (move_to env ?u ''manage'' ''manageable'') s = (Inr (), s1)" and 2: "?meta s1 = (Inr b, s2)" for s1 s2 b
  proof (cases "pending = []")
    case False
    have "\<not> in_pool ?u s1 \<and> ws_ports s1 = ws_ports s"
    proof (cases ?down)
      case True
      then have "move_to env ?u ''manage'' ''manageable'' s = (Inr (), s1)" using 1 by simp
      then have "s1 = on_wnode ?u (moved ''manageable'') s" by (rule transitionD [OF ok]) simp
      then show ?thesis by (auto simp: in_pool_def)
    qed (use 1 row False in auto)
    then have "\<not> in_pool ?u s2" "ws_ports s2 = ws_ports s"
      using 2 update_metadata_in_pool [OF ok] by (auto split: if_splits)
    then show ?thesis using guarded_plans [OF ok] plans plan_of_node_owners [of s2 s] by (simp add: owners_def)
  qed simp
  note ports = this
  show ?thesis unfolding apply_enrollment_def Let_def guard_same guard_transition
  proof (rule andthen_cong_at, rule andthen_cong_at)
    fix x s1 b s2
    assume 1: "when_act ?down (move_to env ?u ''manage'' ''manageable'') s = (Inr x, s1)" and 2: "?meta s1 = (Inr b, s2)"
    have x: "x = ()" by (rule unit_eq)
    have "?k (guard_ports env) s2 = ?k env s2" by (rule ports [OF 1 [unfolded x] 2])
    then show "(if pending = [] \<and> ?state = ''available'' then ret () else andthen (?k (guard_ports env)) (make_available env ?u ?state)) s2 =
        (if pending = [] \<and> ?state = ''available'' then ret () else andthen (?k env) (make_available env ?u ?state)) s2"
      using andthen_cong_left [of "?k (guard_ports env)" s2 "?k env"] by simp
  qed
qed

text \<open>
  \<open>enroll\<close> writes a port only while its node is out of the pool: against an Ironic that refuses to
  create or change a port of an available node it behaves exactly as against one that never does,
  on every request and from every state of the tables.
\<close>
lemma netdev_ports_change_outside_pool:
  assumes "wf_ok env" "tables_ok (er_name req) s"
  shows "enroll (guard_ports env) req s = enroll env req s"
proof -
  have "apply_enrollment (guard_ports env) req node created pending s2 = apply_enrollment env req node created pending s2"
    if f: "find_or_create_netdev_node env (er_name req) rc di ex s = (Inr (node, created), s1)"
      and l: "we_list_ports env (wn_uuid node) s1 = (Inr node_ports, s2)"
      and p: "plan_ports (wn_uuid node) (er_name req) (er_physical_network req) node_ports nps = Inr pending"
    for rc di ex node created s1 node_ports s2 nps pending
  proof -
    note ports = list_portsD [OF assms(1) l]
    have "ports_ok (wn_uuid node) s1 \<and> (in_pool (wn_uuid node) s1 \<longrightarrow> wn_provision_state node = ''available'')"
    proof (cases rule: find_or_create_cases [OF assms(1) f])
      case 1
      then show ?thesis using assms(2) unfolding tables_ok_def in_pool_def by (metis distinct_map inj_onD)
    next
      case 2
      have "wn_provision_state n = wn_provision_state node" if "n \<in> set (ws_nodes s1)" "wn_uuid n = wn_uuid node" for n
        using that 2(2,5) by (auto simp: image_iff)
      then have "in_pool (wn_uuid node) s1 \<longrightarrow> wn_provision_state node = ''available''" by (auto simp: in_pool_def)
      moreover have "ports_ok (wn_uuid node) s1" using assms(2) 2(2) by (simp add: tables_ok_def ports_ok_def)
      ultimately show ?thesis by blast
    qed
    then have ok: "ports_ok (wn_uuid node) s2" "in_pool (wn_uuid node) s2 \<longrightarrow> wn_provision_state node = ''available''"
      and np: "node_ports = filter (\<lambda>p. wp_node_uuid p = wn_uuid node) (ws_ports s2)"
      using ports by simp_all
    show ?thesis by (rule guarded_apply [OF assms(1) ok(2) planned_of_node [OF ok(1) p [unfolded np]]])
  qed
  note same = this
  show ?thesis unfolding enroll_def guard_same guard_sel
  proof (intro bnd_cong_at, clarify, intro bnd_cong_at)
    fix nps s0 node created s1 node_ports s2 pending s3
    assume 1: "of_sum (build_netdev_ports (er_ports req)) s = (Inr nps, s0)"
      and 2: "find_or_create_netdev_node env (er_name req) (effective_resource_class req) (er_driver_info req) (node_extra req) s0
        = (Inr (node, created), s1)"
      and 3: "we_list_ports env (wn_uuid node) s1 = (Inr node_ports, s2)"
      and 4: "of_sum (plan_ports (wn_uuid node) (er_name req) (er_physical_network req) node_ports nps) s2 = (Inr pending, s3)"
    have "s0 = s" "s3 = s2" "plan_ports (wn_uuid node) (er_name req) (er_physical_network req) node_ports nps = Inr pending"
      using 1 4 by simp_all
    then show "apply_enrollment (guard_ports env) req node created pending s3 = apply_enrollment env req node created pending s3"
      using same [OF _ 3] 2 by simp
  qed
qed

section \<open>An Ironic that satisfies the contract\<close>

definition fresh_of :: "string list \<Rightarrow> string" where
  "fresh_of ids = concat ids @ ''x''"

definition jtext :: "json option \<Rightarrow> string option" where
  "jtext v = (case v of Some (JStr t) \<Rightarrow> Some t | _ \<Rightarrow> None)"

definition jobj :: "json option \<Rightarrow> json dict" where
  "jobj v = (case v of Some (JObj m) \<Rightarrow> m | _ \<Rightarrow> [])"

definition made_port :: "port_data \<Rightarrow> wf_state \<Rightarrow> wf_port" where
  "made_port d s =
    \<lparr>wp_uuid = fresh_of (map wp_uuid (ws_ports s)), wp_node_uuid = dt_node_uuid d, wp_name = Some (dt_name d),
     wp_address = Some (dt_address d), wp_physical_network = Some (dt_physical_network d),
     wp_category = Some (dt_category d), wp_local_link_connection = Some (dt_local_link_connection d),
     wp_pxe_enabled = False, wp_extra = []\<rparr>"

definition wf_example :: wf_env where
  "wf_example =
    \<lparr>we_get_node = (\<lambda>i s. (case find (answers i) (ws_nodes s) of None \<Rightarrow> Inl (NotFound i) | Some n \<Rightarrow> Inr n, s)),
     we_create_node = (\<lambda>d s. let n = \<lparr>wn_uuid = fresh_of (map wn_uuid (ws_nodes s) @ map wp_node_uuid (ws_ports s)),
         wn_name = jtext (dget d ''name''), wn_driver = py_or (jtext (dget d ''driver'')) [], wn_provision_state = ''enroll'',
         wn_resource_class = jtext (dget d ''resource_class''), wn_driver_info = jobj (dget d ''driver_info''),
         wn_extra = jobj (dget d ''extra''), wn_boot_interface = None, wn_inspect_interface = None\<rparr>
       in (Inr n, s\<lparr>ws_nodes := ws_nodes s @ [n]\<rparr>)),
     we_update_node = (\<lambda>u ps s. (Inr (), on_wnode u (fold patch_node ps) s)),
     we_set_state = (\<lambda>u t opts s. (Inr (), on_wnode u (moved t) s)),
     we_wait = (\<lambda>u e s. (Inr (), on_wnode u (moved e) s)),
     we_list_ports = (\<lambda>u s. (Inr (filter (\<lambda>p. wp_node_uuid p = u) (ws_ports s)), s)),
     we_create_port = (\<lambda>d s. (Inr (), s\<lparr>ws_ports := ws_ports s @ [made_port d s]\<rparr>)),
     we_update_port = (\<lambda>u ps s. (Inr (), on_wport u (fold patch_port ps) s)),
     we_patch = map (\<lambda>u. (CHR ''/'' # fst (split1 CHR ''='' u), case digits (snd (split1 CHR ''='' u)) of
       Some i \<Rightarrow> JNum i | None \<Rightarrow> JStr (snd (split1 CHR ''='' u)))),
     we_decode = (\<lambda>t. case digits t of Some i \<Rightarrow> JNum i | None \<Rightarrow> JStr t)\<rparr>"

lemma fresh_of_new: "fresh_of ids \<notin> set ids"
proof
  assume "fresh_of ids \<in> set ids"
  then have "length (fresh_of ids) \<le> length (concat ids)"
    by (simp add: length_concat member_le_sum_list)
  then show False by (simp add: fresh_of_def)
qed

lemma patch_node_state: "wn_provision_state (fold patch_node ps n) = wn_provision_state n"
proof -
  have "wn_provision_state (patch_node q m) = wn_provision_state m" for q m by (cases q) (auto split: json.split)
  then show ?thesis by (induction ps arbitrary: n) simp_all
qed

lemma wf_ok_example: "wf_ok wf_example"
proof -
  have "reads_ok wf_example"
    by (auto simp: reads_ok_def wf_example_def answers_def find_None_iff split: option.splits dest!: find_SomeD)
  moreover have "moves_ok wf_example" by (auto simp: moves_ok_def wf_example_def)
  moreover have "create_node_ok wf_example"
  proof -
    have "fresh_of (map wn_uuid (ws_nodes s) @ map wp_node_uuid (ws_ports s)) \<notin> wn_uuid ` set (ws_nodes s) \<union> wp_node_uuid ` set (ws_ports s)" for s
      using fresh_of_new [of "map wn_uuid (ws_nodes s) @ map wp_node_uuid (ws_ports s)"] by simp
    then show ?thesis
      by (auto simp: create_node_ok_def wf_example_def Let_def node_created_as_def jtext_def jobj_def)
  qed
  moreover have "update_node_ok wf_example"
  proof -
    have "wn_uuid (fold patch_node ps n) = wn_uuid n \<and> wn_provision_state (fold patch_node ps n) = wn_provision_state n" for ps n
      using keeps_id_patch [of ps] patch_node_state by (simp add: keeps_id_def)
    then show ?thesis by (auto simp: update_node_ok_def wf_example_def)
  qed
  moreover have "create_port_ok wf_example"
  proof -
    have "created_as d (made_port d s)" "wp_uuid (made_port d s) \<notin> wp_uuid ` set (ws_ports s)" for d s
      using fresh_of_new [of "map wp_uuid (ws_ports s)"] by (simp_all add: created_as_def made_port_def)
    then show ?thesis by (auto simp: create_port_ok_def wf_example_def) blast
  qed
  moreover have "update_port_ok wf_example" by (auto simp: update_port_ok_def wf_example_def)
  moreover have "patch_ok wf_example" by (simp add: patch_ok_def wf_example_def)
  ultimately show ?thesis by (simp add: wf_ok_def)
qed

definition port_entry :: "string \<Rightarrow> string \<Rightarrow> json" where
  "port_entry l m = JObj [(''label'', JStr l), (''mac'', JStr m), (''switch'', JStr ''sw1''), (''intf'', JStr ''Eth1'')]"

definition req_example :: enroll_request where
  "req_example = \<lparr>er_name = ''fw'', er_physical_network = ''pn'', er_ports = [port_entry ''p1'' ''AA'', port_entry ''p2'' ''BB''],
     er_external_cmdb_id = Some (MInt 7), er_resource_class = None, er_driver_info = [(''ip'', MStr ''h'')], er_extra = []\<rparr>"

definition node_state :: "string \<Rightarrow> wf_state" where
  "node_state st = \<lparr>ws_nodes = [\<lparr>wn_uuid = ''u'', wn_name = Some ''fw'', wn_driver = ''netdev'', wn_provision_state = st,
       wn_resource_class = None, wn_driver_info = [], wn_extra = [], wn_boot_interface = None, wn_inspect_interface = None\<rparr>],
     ws_ports = [\<lparr>wp_uuid = ''q'', wp_node_uuid = ''u'', wp_name = Some ''fw:p1'', wp_address = Some ''cc'',
       wp_physical_network = None, wp_category = None, wp_local_link_connection = None, wp_pxe_enabled = False, wp_extra = []\<rparr>], ws_bmc = []\<rparr>"

lemma tables_ok_example: "tables_ok i (node_state st)"
  by (simp add: tables_ok_def ports_ok_def node_state_def)

lemma sound_example: "sound_target (target wf_example req_example)"
proof -
  have "we_decode wf_example ''generic'' = JStr ''generic''" "we_decode wf_example ''h'' = JStr ''h''"
    "we_decode wf_example (show_int 7) = JNum 7" by code_simp+
  then show ?thesis
    by (simp add: sound_target_def target_def survives_def wf_ok_example plain_key_def req_example_def
        effective_resource_class_def DEFAULT_RESOURCE_CLASS_def node_extra_def has_cmdb_id_def)
qed

section \<open>Examples\<close>

definition enrolled_example :: wf_state where
  "enrolled_example = snd (enroll wf_example req_example (node_state ''available''))"

lemma enrolled_example_eval: "enroll wf_example req_example (node_state ''available'') = (Inr (), enrolled_example)"
proof -
  have "fst (enroll wf_example req_example (node_state ''available'')) = Inr ()" by code_simp
  then show ?thesis unfolding enrolled_example_def by (metis prod.collapse)
qed



theorem netdev_enroll_refuses_untouched_witness:
  "\<exists>e. enroll wf_example req_example (node_state ''active'') = (Inl e, node_state ''active'')"
proof -
  obtain n where n: "we_get_node wf_example (er_name req_example) (node_state ''active'') = (Inr n, node_state ''active'')"
    "wn_provision_state n = ''active''" "ports_ok (wn_uuid n) (node_state ''active'')"
    by (simp add: wf_example_def node_state_def answers_def req_example_def ports_ok_def)
  then show ?thesis
    using netdev_enroll_refuses_untouched [OF wf_ok_example n(1,3)] by (simp add: REENROLLABLE_STATES_def)
qed

end
