(* ===== verification/Enroll_Fw.thy ===== *)
theory Enroll_Fw
  imports Netdev_Enroll
begin

text \<open>
  \<open>understack_workflows/main/enroll_fw.py\<close> and \<open>understack_workflows/firewall.py\<close>: a firewall is a netdev
  node with firewall metadata.  A node that is not in service goes through \<open>enroll\<close> of the netdev
  engine; an active one only has its metadata patched, once its ports have been compared read-only.
\<close>

section \<open>Metadata\<close>

record fw_request =
  fw_name :: string
  fw_physical_network :: string
  fw_ports :: "json list"
  fw_resource_class :: "string option"
  fw_external_cmdb_id :: "meta option"
  fw_management_ip :: string
  fw_management_switch :: string
  fw_management_switch_port :: string
  fw_mate_serial :: string

definition firewall_metadata :: "string \<Rightarrow> string \<Rightarrow> string \<Rightarrow> string \<Rightarrow> meta dict \<times> meta dict" where
  "firewall_metadata management_ip management_switch management_switch_port mate_serial =
     (map (map_prod id MStr) (filter (\<lambda>(key, v). v \<noteq> [])
        [(''management_ip'', management_ip), (''management_switch'', management_switch),
         (''management_switch_port'', management_switch_port)]),
      if mate_serial \<noteq> [] then [(''mate_serial'', MStr mate_serial)] else [])"

definition apply_node_metadata :: "wf_env \<Rightarrow> wf_node \<Rightarrow> meta dict \<Rightarrow> meta dict \<Rightarrow> (wf_state, unit) act" where
  "apply_node_metadata env node driver_info extra =
     (let updates = metadata_updates ''driver_info'' (wn_driver_info node) driver_info @
                    metadata_updates ''extra'' (wn_extra node) extra in
      if updates = [] then ret ()
      else we_update_node env (wn_uuid node) (we_patch env updates))"

section \<open>Enrollment\<close>

definition require_specific_resource_class :: "string option \<Rightarrow> exn + string" where
  "require_specific_resource_class resource_class =
     (let normalized = strip (py_or resource_class []) in
      if normalized = [] \<or> py_lower normalized = DEFAULT_RESOURCE_CLASS then
        Inl (ValueError (''enroll-fw requires an explicit, purpose-made --resource-class got '' @
          (case resource_class of None \<Rightarrow> ''None'' | Some t \<Rightarrow> quoted t) @ ''. The generic default is not allowed''))
      else Inr normalized)"

definition get_node_or_none :: "wf_env \<Rightarrow> string \<Rightarrow> (wf_state, wf_node option) act" where
  "get_node_or_none env name =
     try_except (bnd (we_get_node env name) (\<lambda>node. ret (Some node)))
       (\<lambda>e. case e of NotFound _ \<Rightarrow> ret None | _ \<Rightarrow> raise_exn e)"

fun plan_kind :: "port_plan \<Rightarrow> string" where
  "plan_kind (PlanCreate _) = ''create''"
| "plan_kind (PlanUpdate _ _) = ''update''"

fun reject_plans :: "string \<Rightarrow> string \<Rightarrow> string \<Rightarrow> wf_port list \<Rightarrow> netdev_port list \<Rightarrow> exn + unit" where
  "reject_plans node_uuid name physical_network node_ports [] = Inr ()"
| "reject_plans node_uuid name physical_network node_ports (port # ports) =
     sbnd (plan_netdev_port node_uuid name physical_network port
             (ports_by_name node_ports (port_name name port)) (ports_by_mac node_ports)) (\<lambda>plan.
       case plan of
         Some x \<Rightarrow> Inl (RuntimeError (''[node:'' @ node_uuid @
           ''] Node is active; refusing to change ports/physical_network on an in-service firewall (port '' @
           port_name name port @ '' would be '' @ plan_kind x @
           ''d). Reconcile the base configuration through a maintenance window, not a metadata update.''))
       | None \<Rightarrow> reject_plans node_uuid name physical_network node_ports ports)"

definition reject_structural_drift ::
  "wf_env \<Rightarrow> wf_node \<Rightarrow> string \<Rightarrow> string \<Rightarrow> netdev_port list \<Rightarrow> (wf_state, unit) act"
where
  "reject_structural_drift env node name physical_network netdev_ports =
     bnd (we_list_ports env (wn_uuid node)) (\<lambda>node_ports.
       of_sum (reject_plans (wn_uuid node) name physical_network node_ports netdev_ports))"

definition active_extra :: "meta option \<Rightarrow> meta dict \<Rightarrow> meta dict" where
  "active_extra external_cmdb_id extra =
     (if external_cmdb_id \<notin> {None, Some (MStr [])}
      then dput ''external_cmdb_id'' (the external_cmdb_id) extra else extra)"

definition update_active_firewall ::
  "wf_env \<Rightarrow> wf_node \<Rightarrow> fw_request \<Rightarrow> string \<Rightarrow> meta dict \<Rightarrow> meta dict \<Rightarrow> (wf_state, unit) act"
where
  "update_active_firewall env node req resource_class driver_info extra =
     (if wn_driver node \<noteq> ''netdev'' then
        raise_exn (RuntimeError (''Node '' @ fw_name req @ '' ('' @ wn_uuid node @ '') is active with driver '' @
          quoted (wn_driver node) @ ''; refusing to modify a non-netdev node''))
      else if wn_resource_class node \<noteq> Some resource_class then
        raise_exn (RuntimeError (''[node:'' @ wn_uuid node @ ''] Node is active with resource_class '' @
          (case wn_resource_class node of None \<Rightarrow> ''None'' | Some t \<Rightarrow> quoted t) @ ''; refusing to change it to '' @
          quoted resource_class @ '' on an in-service firewall''))
      else
        bnd (of_sum (build_netdev_ports (fw_ports req))) (\<lambda>netdev_ports.
        andthen (reject_structural_drift env node (fw_name req) (fw_physical_network req) netdev_ports)
          (apply_node_metadata env node driver_info (active_extra (fw_external_cmdb_id req) extra))))"

definition engine_request :: "fw_request \<Rightarrow> string \<Rightarrow> meta dict \<Rightarrow> meta dict \<Rightarrow> enroll_request" where
  "engine_request req resource_class driver_info extra =
     \<lparr>er_name = fw_name req, er_physical_network = fw_physical_network req, er_ports = fw_ports req,
      er_external_cmdb_id = fw_external_cmdb_id req, er_resource_class = Some resource_class,
      er_driver_info = driver_info, er_extra = extra\<rparr>"

definition fw_metadata :: "fw_request \<Rightarrow> meta dict \<times> meta dict" where
  "fw_metadata req = firewall_metadata (fw_management_ip req) (fw_management_switch req)
     (fw_management_switch_port req) (fw_mate_serial req)"

definition enroll_fw :: "wf_env \<Rightarrow> fw_request \<Rightarrow> (wf_state, unit) act" where
  "enroll_fw env req =
     bnd (of_sum (require_specific_resource_class (fw_resource_class req))) (\<lambda>resource_class.
     case fw_metadata req of (driver_info, extra) \<Rightarrow>
     bnd (get_node_or_none env (fw_name req)) (\<lambda>node.
       case node of
         Some n \<Rightarrow>
           if wn_provision_state n = ''active'' then
             update_active_firewall env n req resource_class driver_info extra
           else enroll env (engine_request req resource_class driver_info extra)
       | None \<Rightarrow> enroll env (engine_request req resource_class driver_info extra)))"

section \<open>Lemmas\<close>

lemma plain_fw_keys:
  "k \<in> fst ` set (fst (fw_metadata req)) \<Longrightarrow> plain_key k"
  "k \<in> fst ` set (active_extra x (snd (fw_metadata req))) \<Longrightarrow> plain_key k"
  by (auto simp: fw_metadata_def firewall_metadata_def active_extra_def keys_dput plain_key_def split: if_splits)

lemma distinct_fw_keys:
  "distinct (map fst (fst (fw_metadata req)))" "distinct (map fst (active_extra x (snd (fw_metadata req))))"
  by (auto simp: fw_metadata_def firewall_metadata_def active_extra_def)

lemma active_extra_engine: "node_extra (engine_request req rc di ex) = active_extra (fw_external_cmdb_id req) ex"
  by (simp add: node_extra_def engine_request_def active_extra_def has_cmdb_id_def)

text \<open>Whatever the client decodes the values to, the patch only reaches the two dictionaries.\<close>

definition only_metadata :: "(wf_node \<Rightarrow> wf_node) \<Rightarrow> bool" where
  "only_metadata f \<longleftrightarrow> (\<forall>n. \<exists>a b. f n = n\<lparr>wn_driver_info := a, wn_extra := b\<rparr>)"

definition meta_path :: "string \<Rightarrow> bool" where
  "meta_path path \<longleftrightarrow> (\<exists>attr k. attr \<in> {''driver_info'', ''extra''} \<and> path = CHR ''/'' # attr @ CHR ''/'' # k \<and> plain_key k)"

lemma metadata_patch_shape:
  assumes "wf_ok env" "\<And>k. k \<in> fst ` set d \<Longrightarrow> plain_key k" "attr \<in> {''driver_info'', ''extra''}"
  shows "\<forall>q \<in> set (we_patch env (metadata_updates attr c d)). meta_path (fst q)"
proof -
  have "split1 CHR ''='' (attr @ CHR ''/'' # k @ CHR ''='' # t) = (attr @ CHR ''/'' # k, t)" if "plain_key k" for k t
    using split1_key [of "CHR ''=''" "attr @ CHR ''/'' # k" t] that assms(3) by (auto simp: plain_key_def)
  moreover have "meta_path (CHR ''/'' # attr @ CHR ''/'' # k)" if "plain_key k" for k
    using that assms(3) unfolding meta_path_def by blast
  moreover have "plain_key k" if "(k, v) \<in> set d" for k v using assms(2) that by (force simp: image_iff)
  ultimately show ?thesis unfolding patchD [OF assms(1)] metadata_updates_def by auto
qed

lemma only_metadata_fold:
  assumes "\<forall>q \<in> set ps. meta_path (fst q)"
  shows "only_metadata (fold patch_node ps)"
  unfolding only_metadata_def
proof
  fix n show "\<exists>a b. fold patch_node ps n = n\<lparr>wn_driver_info := a, wn_extra := b\<rparr>"
    using assms
  proof (induction ps arbitrary: n)
    case Nil
    have "n = n\<lparr>wn_driver_info := wn_driver_info n, wn_extra := wn_extra n\<rparr>" by simp
    then show ?case unfolding fold_simps by blast
  next
    case (Cons q ps)
    obtain a b where "patch_node q n = n\<lparr>wn_driver_info := a, wn_extra := b\<rparr>"
    proof (cases q)
      case (Pair path v)
      then obtain k attr where "attr \<in> {''driver_info'', ''extra''}" "path = CHR ''/'' # attr @ CHR ''/'' # k"
        using Cons.prems by (auto simp: meta_path_def)
      then have "patch_node q n = n\<lparr>wn_driver_info := wn_driver_info (patch_node q n), wn_extra := wn_extra (patch_node q n)\<rparr>"
        unfolding Pair by auto
      then show ?thesis by (rule that)
    qed
    moreover obtain c d where "fold patch_node ps (patch_node q n) = (patch_node q n)\<lparr>wn_driver_info := c, wn_extra := d\<rparr>"
      using Cons.IH [of "patch_node q n"] Cons.prems by auto
    ultimately have "fold patch_node (q # ps) n = n\<lparr>wn_driver_info := c, wn_extra := d\<rparr>" by simp
    then show ?case by blast
  qed
qed

lemma only_metadata_id [simp]: "only_metadata id"
proof -
  have "n = n\<lparr>wn_driver_info := wn_driver_info n, wn_extra := wn_extra n\<rparr>" for n by simp
  then show ?thesis unfolding only_metadata_def id_def by blast
qed

lemma apply_node_metadata_spec:
  assumes "wf_ok env" "\<And>k. k \<in> fst ` set di \<Longrightarrow> plain_key k" "\<And>k. k \<in> fst ` set ex \<Longrightarrow> plain_key k"
    and "apply_node_metadata env node di ex s = (r, s')"
  obtains f where "s' = on_wnode (wn_uuid node) f s" "only_metadata f"
    "r = Inr () \<longrightarrow> f = fold patch_node (we_patch env (metadata_updates ''driver_info'' (wn_driver_info node) di @
        metadata_updates ''extra'' (wn_extra node) ex))"
proof -
  let ?us = "metadata_updates ''driver_info'' (wn_driver_info node) di @ metadata_updates ''extra'' (wn_extra node) ex"
  have paths: "\<forall>q \<in> set (we_patch env ?us). meta_path (fst q)"
    using metadata_patch_shape [OF assms(1,2), of _ "''driver_info''" "wn_driver_info node"]
      metadata_patch_shape [OF assms(1,3), of _ "''extra''" "wn_extra node"]
    unfolding we_patch_append [OF assms(1)] set_append ball_Un by blast
  have shape: "only_metadata (fold patch_node (we_patch env ?us))" using only_metadata_fold [OF paths] .
  have patchable: "list_all patchable (we_patch env ?us)"
    using paths unfolding list_all_iff meta_path_def by (auto split: prod.split)
  show ?thesis
  proof (cases "?us = []")
    case True
    then have "s' = on_wnode (wn_uuid node) id s" "we_patch env ?us = []" using assms(4)
      by (simp_all add: apply_node_metadata_def patchD [OF assms(1)])
    then show ?thesis using that [of id] by simp
  next
    case False
    then have "we_update_node env (wn_uuid node) (we_patch env ?us) s = (r, s')"
      using assms(4) by (simp add: apply_node_metadata_def Let_def split: if_splits)
    then show ?thesis
    proof (rule update_nodeD [OF assms(1)])
      fix e assume "r = Inl e" "s' = s"
      then show ?thesis using that [of id] by simp
    next
      fix f assume "s' = on_wnode (wn_uuid node) f s" "list_all patchable (we_patch env ?us) \<Longrightarrow> f = fold patch_node (we_patch env ?us)"
      then show ?thesis using that [of f] shape patchable by simp
    qed
  qed
qed

lemma reject_plans_Inr:
  "reject_plans u name pn node_ports nps = Inr () \<longleftrightarrow> (\<forall>port \<in> set nps.
     plan_netdev_port u name pn port (ports_by_name node_ports (port_name name port)) (ports_by_mac node_ports) = Inr None)"
  by (induction nps) (auto simp: sbnd_def split: sum.split option.split)

lemma plan_None_holds:
  assumes "plan_netdev_port u name pn port (ports_by_name (filter (\<lambda>p. wp_node_uuid p = u) (ws_ports s)) (port_name name port)) by_mac = Inr None"
  shows "port_holds u name pn port s"
proof (cases "ports_by_name (filter (\<lambda>p. wp_node_uuid p = u) (ws_ports s)) (port_name name port)")
  case None
  then show ?thesis using assms by (auto simp: plan_netdev_port_def split: option.splits)
next
  case (Some p)
  then have "port_patch_ops (pn, port) p = []" using assms by (auto simp: plan_netdev_port_def Let_def split: if_splits)
  then have "settled_port (pn, port) p" using port_patching.ops_Nil_iff by blast
  then show ?thesis using Some is_named_lookup [of u name port s] by (auto simp: port_holds_def is_named_def)
qed

lemma update_active_cases:
  assumes ok: "wf_ok env" and md: "fw_metadata req = (di, ex)"
    and run: "update_active_firewall env n req rc di ex s = (r, s')"
  obtains (refused) e where "r = Inl e" "s' = s"
  | (patched) f nps where "s' = on_wnode (wn_uuid n) f s" "only_metadata f"
      "wn_driver n = ''netdev''" "wn_resource_class n = Some rc" "build_netdev_ports (fw_ports req) = Inr nps"
      "\<forall>port \<in> set nps. port_holds (wn_uuid n) (fw_name req) (fw_physical_network req) port s"
      "r = Inr () \<longrightarrow> f = fold patch_node (we_patch env (metadata_updates ''driver_info'' (wn_driver_info n) di @
         metadata_updates ''extra'' (wn_extra n) (active_extra (fw_external_cmdb_id req) ex)))"
proof -
  let ?x = "active_extra (fw_external_cmdb_id req) ex"
  obtain q s1 where l: "we_list_ports env (wn_uuid n) s = (q, s1)" by force
  note ports = list_portsD [OF ok l]
  show ?thesis
  proof (cases "\<exists>nps ps. wn_driver n = ''netdev'' \<and> wn_resource_class n = Some rc \<and> build_netdev_ports (fw_ports req) = Inr nps \<and>
      q = Inr ps \<and> reject_plans (wn_uuid n) (fw_name req) (fw_physical_network req) ps nps = Inr ()")
    case True
    then obtain nps ps where t: "wn_driver n = ''netdev''" "wn_resource_class n = Some rc" "build_netdev_ports (fw_ports req) = Inr nps"
      "q = Inr ps" "reject_plans (wn_uuid n) (fw_name req) (fw_physical_network req) ps nps = Inr ()" by blast
    have ps: "ps = filter (\<lambda>p. wp_node_uuid p = wn_uuid n) (ws_ports s)" "s1 = s" using ports t(4) by simp_all
    have h: "\<forall>port \<in> set nps. port_holds (wn_uuid n) (fw_name req) (fw_physical_network req) port s"
      using t(5) plan_None_holds unfolding reject_plans_Inr ps by blast
    have "apply_node_metadata env n di ?x s = (r, s')"
      using run t l ps(2) by (simp add: update_active_firewall_def reject_structural_drift_def)
    note run' = this
    have k: "\<And>k. k \<in> fst ` set di \<Longrightarrow> plain_key k" "\<And>k. k \<in> fst ` set ?x \<Longrightarrow> plain_key k"
      using plain_fw_keys(1) [of _ req] plain_fw_keys(2) [of _ _ req] md by auto
    obtain f where "s' = on_wnode (wn_uuid n) f s" "only_metadata f"
      "r = Inr () \<longrightarrow> f = fold patch_node (we_patch env (metadata_updates ''driver_info'' (wn_driver_info n) di @
        metadata_updates ''extra'' (wn_extra n) ?x))"
      by (rule apply_node_metadata_spec [OF ok k run'])
    then show ?thesis using patched [OF _ _ t(1-3) h] by blast
  next
    case False
    then have "\<exists>e. r = Inl e \<and> s' = s"
      using run l ports(1)
      by (auto simp: update_active_firewall_def reject_structural_drift_def split: sum.splits if_splits prod.splits) metis
    then show ?thesis using refused by blast
  qed
qed

lemma enroll_fw_found:
  assumes "wf_ok env" "we_get_node env (fw_name req) s = (Inr n, s0)"
  shows "enroll_fw env req s =
    (case require_specific_resource_class (fw_resource_class req) of
       Inl e \<Rightarrow> (Inl e, s)
     | Inr rc \<Rightarrow>
         if wn_provision_state n = ''active'' then update_active_firewall env n req rc (fst (fw_metadata req)) (snd (fw_metadata req)) s
         else enroll env (engine_request req rc (fst (fw_metadata req)) (snd (fw_metadata req))) s)"
  using assms(2) getD(1) [OF assms]
  by (auto simp: enroll_fw_def get_node_or_none_def split_beta split: sum.split)

section \<open>Properties\<close>

text \<open>
  C19: An in-service firewall keeps its base configuration: on a node that is active, \<open>enroll_fw\<close> changes
  no port and nothing of any node but the driver information and extra of that one, whether it
  returns or raises; and it returns only for a netdev node whose ports already are as requested.
\<close>
theorem active_firewall_base_kept:
  assumes "wf_ok env" "we_get_node env (fw_name req) s = (Inr n, s0)" "wn_provision_state n = ''active''"
    and "enroll_fw env req s = (r, s')"
  shows "ws_ports s' = ws_ports s \<and> (\<exists>f. only_metadata f \<and> s' = on_wnode (wn_uuid n) f s) \<and>
    (r = Inr () \<longrightarrow> wn_driver n = ''netdev'' \<and> (\<exists>nps. build_netdev_ports (fw_ports req) = Inr nps \<and>
      (\<forall>port \<in> set nps. port_holds (wn_uuid n) (fw_name req) (fw_physical_network req) port s')))"
proof (cases "require_specific_resource_class (fw_resource_class req)")
  case (Inl e)
  then show ?thesis using assms(4) unfolding enroll_fw_found [OF assms(1,2)]
    by (auto intro!: exI [of _ id])
next
  case (Inr rc)
  then have run: "update_active_firewall env n req rc (fst (fw_metadata req)) (snd (fw_metadata req)) s = (r, s')"
    using assms(3,4) unfolding enroll_fw_found [OF assms(1,2)] by simp
  show ?thesis
  proof (cases rule: update_active_cases [OF assms(1) prod.collapse [symmetric] run])
    case (1 e)
    then show ?thesis by (auto intro!: exI [of _ id])
  next
    case (2 f nps)
    then show ?thesis by (auto simp: port_holds_def)
  qed
qed

lemma require_Inr:
  "require_specific_resource_class x = Inr rc \<Longrightarrow> rc = strip (py_or x []) \<and> rc \<noteq> [] \<and> py_lower rc \<noteq> ''generic''"
  by (auto simp: require_specific_resource_class_def Let_def DEFAULT_RESOURCE_CLASS_def split: if_splits)

definition fw_target :: "wf_env \<Rightarrow> fw_request \<Rightarrow> string \<Rightarrow> meta_target" where
  "fw_target env req rc = target env (engine_request req rc (fst (fw_metadata req)) (snd (fw_metadata req)))"

lemma active_settled:
  assumes "sound_target (fw_target env req rc)" "wn_resource_class n = Some rc" "rc \<noteq> []"
  shows "settled_node (fw_target env req rc) (fold patch_node (we_patch env
    (metadata_updates ''driver_info'' (wn_driver_info n) (fst (fw_metadata req)) @
     metadata_updates ''extra'' (wn_extra n) (active_extra (fw_external_cmdb_id req) (snd (fw_metadata req))))) n)"
proof -
  have "node_patch_ops (fw_target env req rc) n = we_patch env
    (metadata_updates ''driver_info'' (wn_driver_info n) (fst (fw_metadata req)) @
     metadata_updates ''extra'' (wn_extra n) (active_extra (fw_external_cmdb_id req) (snd (fw_metadata req))))"
    using assms(2,3) active_extra_engine [of req rc "fst (fw_metadata req)" "snd (fw_metadata req)"]
    by (simp add: node_patch_ops_def fw_target_def target_def node_updates_def effective_resource_class_def engine_request_def)
  then show ?thesis using metadata_patching.ops_settle [OF assms(1), of n] by simp
qed

text \<open>
  When \<open>enroll_fw\<close> returns, the firewall is described and never in the generic pool: the node
  answering to the name is a netdev node, active or available, whose resource class is the
  requested one without surrounding white space, not empty and not \<open>generic\<close> in any case, whose
  driver information and extra hold the requested metadata, and whose requested ports are in place.
\<close>
lemma enroll_fw_describes_firewall:
  assumes "wf_ok env" "require_specific_resource_class (fw_resource_class req) = Inr rc"
    and "sound_target (fw_target env req rc)" "tables_ok (fw_name req) s" "enroll_fw env req s = (Inr (), s')"
  shows "rc = strip (py_or (fw_resource_class req) []) \<and> rc \<noteq> [] \<and> py_lower rc \<noteq> ''generic'' \<and>
    (\<exists>nps n. build_netdev_ports (fw_ports req) = Inr nps \<and> n \<in> set (ws_nodes s') \<and> answers (fw_name req) n \<and>
      wn_driver n = ''netdev'' \<and> wn_provision_state n \<in> {''active'', ''available''} \<and>
      settled_node (fw_target env req rc) n \<and>
      (\<forall>port \<in> set nps. port_holds (wn_uuid n) (fw_name req) (fw_physical_network req) port s'))"
proof -
  let ?er = "engine_request req rc (fst (fw_metadata req)) (snd (fw_metadata req))"
  note rc = require_Inr [OF assms(2)]
  have names: "er_name ?er = fw_name req" "er_ports ?er = fw_ports req" "er_physical_network ?er = fw_physical_network req"
    by (simp_all add: engine_request_def)
  have "\<exists>nps n. build_netdev_ports (fw_ports req) = Inr nps \<and> n \<in> set (ws_nodes s') \<and> answers (fw_name req) n \<and>
      wn_driver n = ''netdev'' \<and> wn_provision_state n \<in> {''active'', ''available''} \<and>
      settled_node (fw_target env req rc) n \<and>
      (\<forall>port \<in> set nps. port_holds (wn_uuid n) (fw_name req) (fw_physical_network req) port s')"
  proof (cases "enroll env ?er s = (Inr (), s')")
    case True
    obtain nps n where "build_netdev_ports (er_ports ?er) = Inr nps" "enrolled env ?er nps s' n"
      by (rule enroll_result [OF assms(1) assms(3) [unfolded fw_target_def] _ True]) (use assms(4) names in simp_all)
    then show ?thesis unfolding enrolled_def names fw_target_def by blast
  next
    case False
    obtain x s0 where g: "we_get_node env (fw_name req) s = (x, s0)" by force
    have "s0 = s" using getD(1) [OF assms(1) g] .
    then obtain n where x: "x = Inr n"
      using assms(2,5) False g by (cases x) (auto simp: enroll_fw_def get_node_or_none_def split_beta split: exn.splits)
    note found = enroll_fw_found [OF assms(1) g [unfolded x]]
    have act: "wn_provision_state n = ''active''"
      and run: "update_active_firewall env n req rc (fst (fw_metadata req)) (snd (fw_metadata req)) s = (Inr (), s')"
      using assms(2,5) False unfolding found by (auto split: if_splits)
    have n: "n \<in> set (ws_nodes s)" "answers (fw_name req) n" using getD(2,3) [OF assms(1) g] x by (auto simp: answers_def)
    show ?thesis
    proof (cases rule: update_active_cases [OF assms(1) prod.collapse [symmetric] run])
      case (2 f nps)
      obtain a b where f: "f n = n\<lparr>wn_driver_info := a, wn_extra := b\<rparr>" using 2(2) unfolding only_metadata_def by blast
      have "rc \<noteq> []" using rc by blast
      from active_settled [OF assms(3) 2(4) this] have "settled_node (fw_target env req rc) (f n)" using 2(7) by simp
      moreover have "f n \<in> set (ws_nodes s')" using n(1) 2(1) by (auto simp: image_iff)
      moreover have "port_holds (wn_uuid (f n)) (fw_name req) (fw_physical_network req) port s'" if "port \<in> set nps" for port
        using 2(1,6) that f by (simp add: port_holds_def)
      ultimately show ?thesis using 2(3,5) act n(2) f by (intro exI [of _ nps] exI [of _ "f n"]) (simp add: answers_def)
    qed simp
  qed
  with rc show ?thesis by blast
qed

section \<open>Examples\<close>

definition fw_example :: fw_request where
  "fw_example = \<lparr>fw_name = ''fw'', fw_physical_network = ''pn'', fw_ports = [port_entry ''p1'' ''CC''],
     fw_resource_class = Some '' fw-pool'', fw_external_cmdb_id = None, fw_management_ip = ''h'', fw_management_switch = [],
     fw_management_switch_port = [], fw_mate_serial = ''s1''\<rparr>"

definition active_example :: wf_state where
  "active_example = \<lparr>ws_nodes = [\<lparr>wn_uuid = ''u'', wn_name = Some ''fw'', wn_driver = ''netdev'', wn_provision_state = ''active'',
       wn_resource_class = Some ''fw-pool'', wn_driver_info = [], wn_extra = [], wn_boot_interface = None, wn_inspect_interface = None\<rparr>],
     ws_ports = [\<lparr>wp_uuid = ''q'', wp_node_uuid = ''u'', wp_name = Some ''fw:p1'', wp_address = Some ''cc'',
       wp_physical_network = Some ''pn'', wp_category = Some ''network'',
       wp_local_link_connection = Some [(''switch_id'', ''s''), (''switch_info'', ''sw1''), (''port_id'', ''Eth1'')],
       wp_pxe_enabled = False, wp_extra = []\<rparr>], ws_bmc = []\<rparr>"

definition active_after :: wf_state where
  "active_after = snd (enroll_fw wf_example fw_example active_example)"

lemma active_after_eval: "enroll_fw wf_example fw_example active_example = (Inr (), active_after)"
proof -
  have "fst (enroll_fw wf_example fw_example active_example) = Inr ()" by code_simp
  then show ?thesis unfolding active_after_def by (metis prod.collapse)
qed

theorem active_firewall_base_kept_witness:
  "ws_ports active_after = ws_ports active_example \<and> map wn_extra (ws_nodes active_after) = [[(''mate_serial'', JStr ''s1'')]]"
proof -
  obtain n where "we_get_node wf_example (fw_name fw_example) active_example = (Inr n, active_example)"
    "wn_provision_state n = ''active''"
    by (simp add: wf_example_def active_example_def fw_example_def answers_def)
  from active_firewall_base_kept [OF wf_ok_example this active_after_eval]
  have "ws_ports active_after = ws_ports active_example" by blast
  moreover have "map wn_extra (ws_nodes active_after) = [[(''mate_serial'', JStr ''s1'')]]" by code_simp
  ultimately show ?thesis by blast
qed

end
