(* ===== verification/Switch_Names.thy ===== *)
theory Switch_Names
  imports Py_Str "HOL-Library.Sublist" "HOL-Library.Char_ord" "HOL-Library.List_Lexorder"
begin

text \<open>
  \<open>ironic_understack/inspected_port.py\<close> and \<open>ironic_understack/vlan_group_name_convention.py\<close>, with the choice
  of the PXE switches from \<open>ironic_understack/inspect_hook_update_baremetal_ports.py\<close>: what the names of the
  switches a server is cabled to say about its VLAN groups.

  Python's sets of names are lists without repetition here; the code only counts or sorts them.
\<close>

section \<open>Inspected ports\<close>

record inspected_port =
  ip_mac_address :: string
  ip_name :: string
  ip_switch_system_name :: string
  ip_switch_port_id :: string
  ip_switch_chassis_id :: string

definition local_link_connection :: "inspected_port \<Rightarrow> string dict" where
  "local_link_connection p =
     [(''port_id'', ip_switch_port_id p), (''switch_id'', ip_switch_chassis_id p), (''switch_info'', ip_switch_system_name p)]"

record parsed_switch =
  sw_rack_name :: string
  sw_switch_suffix :: string
  sw_data_center_name :: string

definition parsed_name :: "inspected_port \<Rightarrow> exn + parsed_switch" where
  "parsed_name p =
     (let parts = split_on CHR ''.'' (ip_switch_system_name p) in
      if length parts < 2 then Inl (ValueError ''Failed to parse switch hostname - expecting name.dc in %s'')
      else
        (let switch_name = parts ! 0; data_center_name = parts ! 1; halves = rsplit1 CHR ''-'' switch_name in
         if length halves \<noteq> 2 then
           Inl (ValueError (''Unknown switch name format: '' @ switch_name @
             '' - this hook requires that switch names follow the convention <cabinet-name>-<suffix>''))
         else Inr \<lparr>sw_rack_name = halves ! 0, sw_switch_suffix = halves ! 1, sw_data_center_name = data_center_name\<rparr>))"

definition rack_name :: "inspected_port \<Rightarrow> exn + string" where
  "rack_name p = sbnd (parsed_name p) (\<lambda>d. Inr (sw_rack_name d))"

definition switch_suffix :: "inspected_port \<Rightarrow> exn + string" where
  "switch_suffix p = sbnd (parsed_name p) (\<lambda>d. Inr (sw_switch_suffix d))"

definition data_center_name :: "inspected_port \<Rightarrow> exn + string" where
  "data_center_name p = sbnd (parsed_name p) (\<lambda>d. Inr (sw_data_center_name d))"

section \<open>VLAN groups\<close>

definition assert_consistent_data_center :: "inspected_port list \<Rightarrow> exn + unit" where
  "assert_consistent_data_center ports =
     sbnd (smap data_center_name ports) (\<lambda>data_centers.
       if length (remdups data_centers) > 1
       then Inl (TopologyError ''Connected to switches in multiple data centers: %s'') else Inr ())"

definition assert_single_or_paired_racks :: "inspected_port list \<Rightarrow> exn + unit" where
  "assert_single_or_paired_racks ports =
     sbnd (smap rack_name ports) (\<lambda>network_rack_names.
       if length (remdups network_rack_names) > 2
       then Inl (TopologyError ''Connected to switches in more than two racks: %s'') else Inr ())"

fun assert_switch_names_have_known_suffixes :: "inspected_port list \<Rightarrow> string dict \<Rightarrow> exn + unit" where
  "assert_switch_names_have_known_suffixes [] mapping = Inr ()"
| "assert_switch_names_have_known_suffixes (port # ports) mapping =
     sbnd (switch_suffix port) (\<lambda>suffix.
       if suffix \<notin> fst ` set mapping
       then Inl (TopologyError (''Switch suffix '' @ ip_switch_system_name port @ '' is not present in the mapping''))
       else assert_switch_names_have_known_suffixes ports mapping)"

definition assert_redundant_network_connections :: "(inspected_port list) dict \<Rightarrow> exn + unit" where
  "assert_redundant_network_connections vlan_groups =
     (let network_ports = (case dget vlan_groups ''network'' of None \<Rightarrow> [] | Some ps \<Rightarrow> ps);
          switch_names = remdups (map ip_switch_system_name network_ports) in
      if length switch_names \<noteq> 2
      then Inl (TopologyError ''Expected connections to exactly two network switches, got %s'') else Inr ())"

fun group_ports ::
  "string dict \<Rightarrow> inspected_port list \<Rightarrow> (inspected_port list) dict \<Rightarrow> exn + (inspected_port list) dict"
where
  "group_ports mapping [] groups = Inr groups"
| "group_ports mapping (port # ports) groups =
     sbnd (switch_suffix port) (\<lambda>suffix.
       case dget mapping suffix of
         None \<Rightarrow> Inl (KeyError suffix)
       | Some switch_category \<Rightarrow>
           group_ports mapping ports
             (dappend switch_category port groups))"

definition group_by_switch_category :: "inspected_port list \<Rightarrow> string dict \<Rightarrow> exn + (inspected_port list) dict" where
  "group_by_switch_category ports mapping = group_ports mapping ports []"

fun name_groups :: "(inspected_port list) dict \<Rightarrow> string dict \<Rightarrow> exn + string dict" where
  "name_groups [] names = Inr names"
| "name_groups ((switch_category, ports_in_group) # groups) names =
     sbnd (smap rack_name ports_in_group) (\<lambda>rack_names.
       let vlan_group_name = join ''/'' (sort (remdups rack_names)) @ ''-'' @ switch_category in
       name_groups groups (fold (\<lambda>p. dput (ip_switch_system_name p) vlan_group_name) ports_in_group names))"

definition vlan_group_names :: "inspected_port list \<Rightarrow> string dict \<Rightarrow> exn + string dict" where
  "vlan_group_names ports mapping =
     sbnd (assert_consistent_data_center ports) (\<lambda>_.
     sbnd (assert_single_or_paired_racks ports) (\<lambda>_.
     sbnd (assert_switch_names_have_known_suffixes ports mapping) (\<lambda>_.
     sbnd (group_by_switch_category ports mapping) (\<lambda>vlan_groups.
     sbnd (assert_redundant_network_connections vlan_groups) (\<lambda>_.
     name_groups vlan_groups [])))))"

section \<open>PXE switches\<close>

text \<open>The parts \<open>re.split (r"(\d+)", value)\<close> yields, digits read as numbers.\<close>

datatype key_part = KStr string | KInt int

instantiation key_part :: linorder
begin

fun less_eq_key_part :: "key_part \<Rightarrow> key_part \<Rightarrow> bool" where
  "KStr a \<le> KStr b \<longleftrightarrow> a \<le> b"
| "KInt a \<le> KInt b \<longleftrightarrow> a \<le> b"
| "KStr a \<le> KInt b \<longleftrightarrow> True"
| "KInt a \<le> KStr b \<longleftrightarrow> False"

definition less_key_part :: "key_part \<Rightarrow> key_part \<Rightarrow> bool" where
  "less_key_part x y \<longleftrightarrow> x \<le> y \<and> \<not> y \<le> x"

instance
proof
  fix x y z :: key_part
  show "x < y \<longleftrightarrow> x \<le> y \<and> \<not> y \<le> x" by (simp add: less_key_part_def)
  show "x \<le> x" by (cases x) simp_all
  show "x \<le> y \<Longrightarrow> y \<le> z \<Longrightarrow> x \<le> z" by (cases x; cases y; cases z) simp_all
  show "x \<le> y \<Longrightarrow> y \<le> x \<Longrightarrow> x = y" by (cases x; cases y) simp_all
  show "x \<le> y \<or> y \<le> x" by (cases x; cases y) auto
qed

end

function natural_sort_key :: "string \<Rightarrow> key_part list" where
  "natural_sort_key v =
     (let r = dropWhile (\<lambda>c. \<not> is_digit c) v in
      KStr (takeWhile (\<lambda>c. \<not> is_digit c) v) #
      (if r = [] then [] else KInt (the (digits (takeWhile is_digit r))) # natural_sort_key (dropWhile is_digit r)))"
  by pat_completeness auto

lemma drop_digits_shorter: "dropWhile (\<lambda>c. \<not> P c) v \<noteq> [] \<Longrightarrow> length (dropWhile P (dropWhile (\<lambda>c. \<not> P c) v)) < length v"
proof -
  assume "dropWhile (\<lambda>c. \<not> P c) v \<noteq> []"
  then obtain c cs where c: "dropWhile (\<lambda>c. \<not> P c) v = c # cs" by (cases "dropWhile (\<lambda>c. \<not> P c) v") auto
  then have "P c" by (metis dropWhile_eq_Cons_conv)
  then have "length (dropWhile P (c # cs)) \<le> length cs" by (simp add: length_dropWhile_le)
  also have "\<dots> < length v" using c length_dropWhile_le [of "\<lambda>c. \<not> P c" v] by simp
  finally show ?thesis using c by simp
qed

termination natural_sort_key
  by (relation "measure length") (auto intro: drop_digits_shorter)

definition natural_sorted_switch_names :: "string list \<Rightarrow> string list" where
  "natural_sorted_switch_names switch_names = sort_key natural_sort_key switch_names"

definition add_network_switch :: "string \<times> string \<Rightarrow> (string list) dict \<Rightarrow> (string list) dict" where
  "add_network_switch entry network_groups = (case entry of (switch_name, vlan_group) \<Rightarrow>
     if vlan_group \<noteq> [] \<and> suffix ''-network'' vlan_group
     then dappend vlan_group switch_name network_groups
     else network_groups)"

definition pxe_switch_names :: "string dict \<Rightarrow> string list" where
  "pxe_switch_names vlan_groups =
     remdups (map (\<lambda>(_, switch_names). natural_sorted_switch_names switch_names ! 0)
       (filter (\<lambda>(_, switch_names). switch_names \<noteq> []) (fold add_network_switch vlan_groups [])))"

declare natural_sort_key.simps [simp del]

section \<open>What the names say\<close>

definition rack_of :: "inspected_port \<Rightarrow> string" where
  "rack_of p = sw_rack_name (projr (parsed_name p))"

definition data_center_of :: "inspected_port \<Rightarrow> string" where
  "data_center_of p = sw_data_center_name (projr (parsed_name p))"

definition suffix_of :: "inspected_port \<Rightarrow> string" where
  "suffix_of p = sw_switch_suffix (projr (parsed_name p))"

definition category_of :: "string dict \<Rightarrow> inspected_port \<Rightarrow> string" where
  "category_of mapping p = the (dget mapping (suffix_of p))"

definition well_named :: "inspected_port \<Rightarrow> bool" where
  "well_named p \<longleftrightarrow> \<not> isl (parsed_name p)"

definition topology_ok :: "inspected_port set \<Rightarrow> string dict \<Rightarrow> bool" where
  "topology_ok P mapping \<longleftrightarrow> (\<forall>p \<in> P. well_named p \<and> suffix_of p \<in> fst ` set mapping) \<and>
     card (data_center_of ` P) \<le> 1 \<and> card (rack_of ` P) \<le> 2 \<and>
     card (ip_switch_system_name ` {p \<in> P. category_of mapping p = ''network''}) = 2"

definition group_name :: "inspected_port set \<Rightarrow> string dict \<Rightarrow> string \<Rightarrow> string" where
  "group_name P mapping c =
     join ''/'' (sorted_list_of_set (rack_of ` {p \<in> P. category_of mapping p = c})) @ ''-'' @ c"

lemma parsed_props:
  "rack_name p = Inr r \<longleftrightarrow> well_named p \<and> r = rack_of p"
  "switch_suffix p = Inr r \<longleftrightarrow> well_named p \<and> r = suffix_of p"
  "data_center_name p = Inr r \<longleftrightarrow> well_named p \<and> r = data_center_of p"
  by (auto simp: rack_name_def switch_suffix_def data_center_name_def rack_of_def suffix_of_def data_center_of_def
      well_named_def sbnd_def split: sum.split)

lemma smap_props:
  "smap rack_name ps = Inr rs \<longleftrightarrow> (\<forall>p \<in> set ps. well_named p) \<and> rs = map rack_of ps"
  "smap data_center_name ps = Inr rs \<longleftrightarrow> (\<forall>p \<in> set ps. well_named p) \<and> rs = map data_center_of ps"
  by (induction ps arbitrary: rs) (auto simp: sbnd_Inr parsed_props)

lemma data_center_iff:
  "assert_consistent_data_center ps = Inr () \<longleftrightarrow> (\<forall>p \<in> set ps. well_named p) \<and> card (data_center_of ` set ps) \<le> 1"
  by (auto simp: assert_consistent_data_center_def sbnd_Inr smap_props length_remdups_card_conv)

lemma racks_iff:
  "assert_single_or_paired_racks ps = Inr () \<longleftrightarrow> (\<forall>p \<in> set ps. well_named p) \<and> card (rack_of ` set ps) \<le> 2"
  by (auto simp: assert_single_or_paired_racks_def sbnd_Inr smap_props length_remdups_card_conv)

lemma suffixes_iff:
  "assert_switch_names_have_known_suffixes ps mapping = Inr () \<longleftrightarrow>
   (\<forall>p \<in> set ps. well_named p \<and> suffix_of p \<in> fst ` set mapping)"
  by (induction ps) (auto simp: sbnd_Inr parsed_props)

lemma group_ports_known:
  "\<forall>p \<in> set ps. well_named p \<and> suffix_of p \<in> fst ` set mapping \<Longrightarrow>
   group_ports mapping ps gs = Inr (fold (\<lambda>p. dappend (category_of mapping p) p) ps gs)"
proof (induction ps arbitrary: gs)
  case (Cons p ps)
  then have "switch_suffix p = Inr (suffix_of p)" by (simp add: parsed_props)
  moreover have "map_of mapping (suffix_of p) \<noteq> None" using Cons.prems by (simp add: map_of_eq_None_iff)
  then have "dget mapping (suffix_of p) = Some (category_of mapping p)" by (auto simp: dget_def category_of_def)
  ultimately show ?case using Cons by simp
qed simp

abbreviation categories :: "inspected_port list \<Rightarrow> string dict \<Rightarrow> (inspected_port list) dict" where
  "categories ps mapping \<equiv> fold (\<lambda>p. dappend (category_of mapping p) p) ps []"

lemma redundant_iff:
  "assert_redundant_network_connections (categories ps mapping) = Inr () \<longleftrightarrow>
   card (ip_switch_system_name ` {p \<in> set ps. category_of mapping p = ''network''}) = 2"
proof -
  have "(case dget (categories ps mapping) ''network'' of None \<Rightarrow> [] | Some g \<Rightarrow> g) =
      filter (\<lambda>p. category_of mapping p = ''network'') ps"
    using fold_dappend [of "[]" "category_of mapping" ps] by (simp add: dget_def)
  then show ?thesis
    by (simp add: assert_redundant_network_connections_def length_remdups_card_conv)
qed

text \<open>The names are written group by group; each entry is the name of some port's group.\<close>

lemma fold_dput:
  "fst ` set (fold (\<lambda>p. dput (f p) v) ps d) = f ` set ps \<union> fst ` set d"
  "e \<in> set (fold (\<lambda>p. dput (f p) v) ps d) \<Longrightarrow> e \<in> set d \<or> (\<exists>p \<in> set ps. e = (f p, v))"
  "distinct (map fst d) \<Longrightarrow> distinct (map fst (fold (\<lambda>p. dput (f p) v) ps d))"
  by (induction ps arbitrary: d) (auto simp: keys_dput distinct_dput dest: set_dput)

lemma name_groups_spec:
  assumes "\<forall>(c, ps) \<in> set gs. \<forall>p \<in> set ps. well_named p" "distinct (map fst d)"
  shows "\<exists>d'. name_groups gs d = Inr d' \<and> distinct (map fst d') \<and>
    fst ` set d' = fst ` set d \<union> ip_switch_system_name ` (\<Union>(c, ps) \<in> set gs. set ps) \<and>
    (\<forall>e \<in> set d'. e \<in> set d \<or> (\<exists>(c, ps) \<in> set gs. \<exists>p \<in> set ps.
       e = (ip_switch_system_name p, join ''/'' (sorted_list_of_set (rack_of ` set ps)) @ ''-'' @ c)))"
  using assms
proof (induction gs arbitrary: d)
  case (Cons g gs)
  obtain c ps where g: "g = (c, ps)" by (cases g)
  have r: "smap rack_name ps = Inr (map rack_of ps)" using Cons.prems(1) by (auto simp: smap_props g)
  have n: "sort (remdups (map rack_of ps)) = sorted_list_of_set (rack_of ` set ps)"
    by (simp add: sorted_list_of_set_sort_remdups flip: set_map)
  let ?v = "join ''/'' (sorted_list_of_set (rack_of ` set ps)) @ ''-'' @ c"
  let ?d = "fold (\<lambda>p. dput (ip_switch_system_name p) ?v) ps d"
  have "name_groups (g # gs) d = name_groups gs ?d" by (simp add: g r n Let_def)
  moreover have w: "\<forall>(c, ps) \<in> set gs. \<forall>p \<in> set ps. well_named p" using Cons.prems(1) by simp
  from Cons.IH [OF w fold_dput(3) [OF Cons.prems(2)]] obtain d' where d': "name_groups gs ?d = Inr d'" "distinct (map fst d')"
    and k: "fst ` set d' = fst ` set ?d \<union> ip_switch_system_name ` (\<Union>(c, ps) \<in> set gs. set ps)"
    and e: "\<forall>e \<in> set d'. e \<in> set ?d \<or> (\<exists>(c, ps) \<in> set gs. \<exists>p \<in> set ps.
       e = (ip_switch_system_name p, join ''/'' (sorted_list_of_set (rack_of ` set ps)) @ ''-'' @ c))"
    by blast
  moreover have "fst ` set d' = fst ` set d \<union> ip_switch_system_name ` (\<Union>(c, ps) \<in> set (g # gs). set ps)"
    using k by (auto simp: fold_dput(1) g)
  moreover have "\<forall>e \<in> set d'. e \<in> set d \<or> (\<exists>(c, ps) \<in> set (g # gs). \<exists>p \<in> set ps.
       e = (ip_switch_system_name p, join ''/'' (sorted_list_of_set (rack_of ` set ps)) @ ''-'' @ c))"
    using e fold_dput(2) [of _ ip_switch_system_name ?v ps d] by (fastforce simp: g)
  ultimately show ?case by simp
qed simp

lemma category_of_switch: "ip_switch_system_name p = ip_switch_system_name q \<Longrightarrow> category_of mapping p = category_of mapping q"
  by (simp add: category_of_def suffix_of_def parsed_name_def)

lemma vlan_group_names_Inr:
  assumes "vlan_group_names ps mapping = Inr d"
  shows "topology_ok (set ps) mapping"
proof -
  have k: "\<forall>p \<in> set ps. well_named p \<and> suffix_of p \<in> fst ` set mapping"
    using assms by (auto simp: vlan_group_names_def sbnd_Inr suffixes_iff)
  then show ?thesis
    using assms unfolding vlan_group_names_def sbnd_Inr group_by_switch_category_def group_ports_known [OF k]
    by (auto simp: data_center_iff racks_iff redundant_iff topology_ok_def)
qed

lemma vlan_group_names_ok:
  assumes "topology_ok (set ps) mapping"
  shows "\<exists>d. vlan_group_names ps mapping = Inr d \<and> distinct (map fst d) \<and> fst ` set d = ip_switch_system_name ` set ps \<and>
    (\<forall>p \<in> set ps. dget d (ip_switch_system_name p) = Some (group_name (set ps) mapping (category_of mapping p)))"
proof -
  let ?c = "category_of mapping"
  have k: "\<forall>p \<in> set ps. well_named p \<and> suffix_of p \<in> fst ` set mapping" using assms by (simp add: topology_ok_def)
  note g = fold_dappend_spec(3) [of _ _ ?c ps]
  have w: "\<forall>(c, qs) \<in> set (categories ps mapping). \<forall>p \<in> set qs. well_named p" using k by (auto simp: g)
  obtain d where d: "name_groups (categories ps mapping) [] = Inr d" "distinct (map fst d)"
      "fst ` set d = ip_switch_system_name ` (\<Union>(c, qs) \<in> set (categories ps mapping). set qs)"
    and e: "\<forall>e \<in> set d. \<exists>(c, qs) \<in> set (categories ps mapping). \<exists>p \<in> set qs.
       e = (ip_switch_system_name p, join ''/'' (sorted_list_of_set (rack_of ` set qs)) @ ''-'' @ c)"
    using name_groups_spec [OF w, of "[]"] by auto
  have u: "(\<Union>(c, qs) \<in> set (categories ps mapping). set qs) = set ps"
  proof (intro equalityI subsetI)
    fix p assume "p \<in> set ps"
    then have "(?c p, filter (\<lambda>q. ?c q = ?c p) ps) \<in> set (categories ps mapping)" "p \<in> set (filter (\<lambda>q. ?c q = ?c p) ps)"
      by (auto simp: g)
    then show "p \<in> (\<Union>(c, qs) \<in> set (categories ps mapping). set qs)" by blast
  qed (auto simp: g)
  have "vlan_group_names ps mapping = Inr d"
    using assms k d(1) unfolding vlan_group_names_def group_by_switch_category_def group_ports_known [OF k]
    by (simp add: sbnd_Inr data_center_iff racks_iff suffixes_iff redundant_iff topology_ok_def)
  moreover have "dget d (ip_switch_system_name p) = Some (group_name (set ps) mapping (?c p))" if p: "p \<in> set ps" for p
  proof -
    have "ip_switch_system_name p \<in> fst ` set d" using d(3) p unfolding u by simp
    then have "dget d (ip_switch_system_name p) \<noteq> None" by (simp add: dget_def map_of_eq_None_iff)
    then obtain v where v: "dget d (ip_switch_system_name p) = Some v" "(ip_switch_system_name p, v) \<in> set d"
      by (auto simp: dget_def dest: map_of_SomeD)
    from e v(2) obtain c qs q where q: "(c, qs) \<in> set (categories ps mapping)" "q \<in> set qs"
      "ip_switch_system_name p = ip_switch_system_name q" "v = join ''/'' (sorted_list_of_set (rack_of ` set qs)) @ ''-'' @ c"
      by force
    then have "c = ?c p" "set qs = {p \<in> set ps. ?c p = c}" using category_of_switch [OF q(3), of mapping] by (auto simp: g)
    with q v(1) show ?thesis by (simp add: group_name_def)
  qed
  ultimately show ?thesis using d unfolding u by blast
qed

text \<open>
  C28: The VLAN groups of a node are computed exactly for the cablings the convention allows: every switch
  has a name of the form \<open>rack-suffix.datacenter\<close> with a known suffix, all are in one data center and at
  most two racks, and exactly two of them are network switches.  Then every connected switch, and no
  other, has a group, named after the racks of all switches of its category and the category.
\<close>
theorem vlan_groups_exact:
  "case vlan_group_names ps mapping of
     Inl e \<Rightarrow> \<not> topology_ok (set ps) mapping
   | Inr d \<Rightarrow> topology_ok (set ps) mapping \<and> distinct (map fst d) \<and> fst ` set d = ip_switch_system_name ` set ps \<and>
       (\<forall>p \<in> set ps. dget d (ip_switch_system_name p) = Some (group_name (set ps) mapping (category_of mapping p)))"
  using vlan_group_names_ok [of ps mapping] vlan_group_names_Inr [of ps mapping]
  by (cases "vlan_group_names ps mapping") auto

definition port_to :: "string \<Rightarrow> string \<Rightarrow> inspected_port" where
  "port_to mac switch = \<lparr>ip_mac_address = mac, ip_name = ''n'', ip_switch_system_name = switch, ip_switch_port_id = ''Ethernet1/1'',
     ip_switch_chassis_id = ''c4:7e:e0:e4:10:7f''\<rparr>"

definition ports_example :: "inspected_port list" where
  "ports_example = [port_to ''m1'' ''f20-3-1.iad3.rackspace.net'', port_to ''m2'' ''f20-4-2.iad3.rackspace.net'',
     port_to ''m3'' ''f20-3-1f.iad3.rackspace.net'']"

definition mapping_example :: "string dict" where
  "mapping_example = [(''1'', ''network''), (''2'', ''network''), (''1f'', ''storage'')]"

theorem vlan_groups_exact_witness:
  "\<exists>d. vlan_group_names ports_example mapping_example = Inr d \<and>
     dget d ''f20-4-2.iad3.rackspace.net'' = Some ''f20-3/f20-4-network'' \<and>
     group_name (set ports_example) mapping_example ''network'' = ''f20-3/f20-4-network''"
proof -
  obtain d where d: "vlan_group_names ports_example mapping_example = Inr d"
    and v: "dget d ''f20-4-2.iad3.rackspace.net'' = Some ''f20-3/f20-4-network''"
  proof -
    have "vlan_group_names ports_example mapping_example = Inr [(''f20-3-1.iad3.rackspace.net'', ''f20-3/f20-4-network''),
        (''f20-4-2.iad3.rackspace.net'', ''f20-3/f20-4-network''), (''f20-3-1f.iad3.rackspace.net'', ''f20-3-storage'')]"
      by code_simp
    then show ?thesis using that by (simp add: dget_def)
  qed
  let ?p = "port_to ''m2'' ''f20-4-2.iad3.rackspace.net''"
  have "?p \<in> set ports_example" by (simp add: ports_example_def)
  with vlan_groups_exact [of ports_example mapping_example] d
  have "dget d (ip_switch_system_name ?p) = Some (group_name (set ports_example) mapping_example (category_of mapping_example ?p))"
    by simp
  moreover have "ip_switch_system_name ?p = ''f20-4-2.iad3.rackspace.net''" "category_of mapping_example ?p = ''network''"
    by code_simp+
  ultimately show ?thesis using d v by simp
qed

section \<open>The order of switch names\<close>

text \<open>Text and numbers alternate, so comparing two keys never compares a text with a number.\<close>

lemma natural_key_kinds:
  "i < length (natural_sort_key v) \<Longrightarrow> (\<exists>w. natural_sort_key v ! i = KStr w) \<longleftrightarrow> even i"
proof (induction v arbitrary: i rule: natural_sort_key.induct)
  case (1 v)
  let ?r = "dropWhile (\<lambda>c. \<not> is_digit c) v"
  note e = natural_sort_key.simps [of v]
  show ?case
  proof (cases "?r = [] \<or> i < 2")
    case True
    then show ?thesis using 1(2) unfolding e by (cases "?r = []") (auto simp: less_2_cases_iff Let_def)
  next
    case False
    then obtain j where j: "i = Suc (Suc j)" by (metis add_2_eq_Suc le_add_diff_inverse not_less)
    have "j < length (natural_sort_key (dropWhile is_digit ?r))" using 1(2) False unfolding e j by (auto simp: Let_def split: if_splits)
    from 1(1) [OF refl _ this] False show ?thesis unfolding e j by (auto simp: Let_def)
  qed
qed

lemma natural_key_append:
  assumes "p = [] \<or> \<not> is_digit (last p)" "ds \<noteq> []" "list_all is_digit ds" "q = [] \<or> \<not> is_digit (hd q)"
  shows "natural_sort_key (p @ ds @ q) = natural_sort_key p @ KInt (the (digits ds)) # natural_sort_key q"
  using assms(1)
proof (induction p rule: natural_sort_key.induct)
  case (1 p)
  let ?r = "dropWhile (\<lambda>c. \<not> is_digit c) p"
  have tq: "takeWhile is_digit (ds @ q) = ds" "dropWhile is_digit (ds @ q) = q"
    using assms(3,4) by (cases q; auto simp: takeWhile_append dropWhile_append list_all_iff)+
  show ?case
  proof (cases "?r = []")
    case True
    obtain d ds' where ds: "ds = d # ds'" "is_digit d" using assms(2,3) by (cases ds) auto
    have p: "\<forall>c \<in> set p. \<not> is_digit c" using True by simp
    have "takeWhile (\<lambda>c. \<not> is_digit c) (p @ ds @ q) = p" "dropWhile (\<lambda>c. \<not> is_digit c) (p @ ds @ q) = ds @ q"
      using p ds by (simp_all add: takeWhile_append dropWhile_append)
    then show ?thesis using True p tq assms(2) natural_sort_key.simps [of "p @ ds @ q"] natural_sort_key.simps [of p]
      by (simp add: takeWhile_eq_all_conv [THEN iffD2])
  next
    case False
    then obtain c where c: "c \<in> set p" "is_digit c" by (auto simp: dropWhile_eq_Nil_conv)
    have l: "last ?r = last p" using False last_appendR [of ?r "takeWhile (\<lambda>c. \<not> is_digit c) p"] by simp
    have "\<not> is_digit (last ?r)" using 1(2) False l by auto
    then have n: "\<exists>c \<in> set ?r. \<not> is_digit c" using False by (meson last_in_set)
    then have s: "dropWhile is_digit ?r \<noteq> []" by auto
    have l2: "last (dropWhile is_digit ?r) = last p" using s l last_appendR [of "dropWhile is_digit ?r" "takeWhile is_digit ?r"] by simp
    have "takeWhile (\<lambda>c. \<not> is_digit c) (p @ ds @ q) = takeWhile (\<lambda>c. \<not> is_digit c) p"
      "dropWhile (\<lambda>c. \<not> is_digit c) (p @ ds @ q) = ?r @ ds @ q"
      using c by (simp_all add: takeWhile_append1 dropWhile_append1)
    moreover have "takeWhile is_digit (?r @ ds @ q) = takeWhile is_digit ?r" "dropWhile is_digit (?r @ ds @ q) = dropWhile is_digit ?r @ ds @ q"
      using n by (metis takeWhile_append1, metis dropWhile_append1)
    moreover have "natural_sort_key (dropWhile is_digit ?r @ ds @ q) =
        natural_sort_key (dropWhile is_digit ?r) @ KInt (the (digits ds)) # natural_sort_key q"
      using 1(1) [OF refl] False s l2 1(2) by auto
    ultimately show ?thesis using False natural_sort_key.simps [of "p @ ds @ q"] natural_sort_key.simps [of p]
      by (simp add: Let_def)
  qed
qed

lemma less_at: "a < b \<Longrightarrow> xs @ a # ys < xs @ b # (zs :: 'a :: linorder list)"
  by (induction xs) simp_all

text \<open>Of two names that differ first in a number, the one with the smaller number comes first.\<close>

lemma natural_order_numeric:
  assumes "p = [] \<or> \<not> is_digit (last p)" "q = [] \<or> \<not> is_digit (hd q)" "q' = [] \<or> \<not> is_digit (hd q')"
    and "ds \<noteq> []" "list_all is_digit ds" "ds' \<noteq> []" "list_all is_digit ds'" "the (digits ds) < the (digits ds')"
  shows "natural_sort_key (p @ ds @ q) < natural_sort_key (p @ ds' @ q')"
  unfolding natural_key_append [OF assms(1,4,5,2)] natural_key_append [OF assms(1,6,7,3)]
  using assms(8) by (intro less_at) (simp add: less_key_part_def)

section \<open>The PXE switches\<close>

lemma fold_add_network:
  "fold add_network_switch d gs =
   fold (\<lambda>e. dappend (snd e) (fst e)) (filter (\<lambda>e. suffix ''-network'' (snd e)) d) gs"
  by (induction d arbitrary: gs) (auto simp: add_network_switch_def)

lemma sort_key_hd:
  assumes "xs \<noteq> []"
  shows "sort_key f xs ! 0 \<in> set xs" "x \<in> set xs \<Longrightarrow> f (sort_key f xs ! 0) \<le> f x"
proof -
  obtain y ys where y: "sort_key f xs = y # ys" using assms by (metis length_sort list.exhaust length_0_conv)
  then have m: "set xs = insert y (set ys)" by (metis list.simps(15) set_sort)
  then show "sort_key f xs ! 0 \<in> set xs" using y by simp
  have "sorted (map f (y # ys))" by (metis sorted_sort_key y)
  then show "x \<in> set xs \<Longrightarrow> f (sort_key f xs ! 0) \<le> f x" using m y by auto
qed

text \<open>The switches of a group, and the choice among them.\<close>

definition members_of :: "string dict \<Rightarrow> string \<Rightarrow> string list" where
  "members_of d g = map fst (filter (\<lambda>e. snd e = g) d)"

lemma pxe_switch_names_set:
  "set (pxe_switch_names d) = {natural_sorted_switch_names (members_of d g) ! 0 | g. g \<in> snd ` set d \<and> suffix ''-network'' g}"
proof -
  let ?n = "filter (\<lambda>e. suffix ''-network'' (snd e)) d"
  have m: "map fst (filter (\<lambda>e. snd e = g) ?n) = members_of d g" if "suffix ''-network'' g" for g
    unfolding members_of_def filter_filter using that by (intro arg_cong [where f = "map fst"] filter_cong) auto
  have ne: "members_of d g \<noteq> [] \<longleftrightarrow> g \<in> snd ` set d" for g by (auto simp: members_of_def filter_empty_conv)
  have k: "g \<in> snd ` set ?n \<longleftrightarrow> g \<in> snd ` set d \<and> suffix ''-network'' g" for g by auto
  have "set (pxe_switch_names d) = {natural_sorted_switch_names x ! 0 | g x.
      (g, x) \<in> set (fold (\<lambda>e. dappend (snd e) (fst e)) ?n []) \<and> x \<noteq> []}"
    unfolding pxe_switch_names_def fold_add_network by force
  also have "\<dots> = {natural_sorted_switch_names (members_of d g) ! 0 | g. g \<in> snd ` set d \<and> suffix ''-network'' g}"
    unfolding fold_dappend_with_spec(3) k using m ne by (intro Collect_cong) metis
  finally show ?thesis .
qed

text \<open>
  Of the switches of each network VLAN group exactly one is a PXE switch, the first in natural order,
  where numbers inside a name count as numbers; no other switch is one.
\<close>
lemma pxe_switch_first:
  assumes "distinct (map fst d)"
  shows "(\<forall>sw \<in> set (pxe_switch_names d). \<exists>g. dget d sw = Some g \<and> suffix ''-network'' g \<and>
      (\<forall>other. dget d other = Some g \<longrightarrow> natural_sort_key sw \<le> natural_sort_key other)) \<and>
    (\<forall>sw g. dget d sw = Some g \<and> suffix ''-network'' g \<longrightarrow> (\<exists>!p. p \<in> set (pxe_switch_names d) \<and> dget d p = Some g))"
proof -
  have mem: "sw \<in> set (members_of d g) \<longleftrightarrow> dget d sw = Some g" for sw g
    using assms by (force simp: members_of_def dget_def)
  let ?first = "\<lambda>g. natural_sorted_switch_names (members_of d g) ! 0"
  have f: "dget d (?first g) = Some g" "dget d other = Some g \<Longrightarrow> natural_sort_key (?first g) \<le> natural_sort_key other"
    if "g \<in> snd ` set d" for g other
  proof -
    have "members_of d g \<noteq> []" using that by (auto simp: members_of_def filter_empty_conv)
    note h = sort_key_hd [OF this, where f = natural_sort_key, folded natural_sorted_switch_names_def]
    show "dget d (?first g) = Some g" using h(1) by (simp add: mem)
    show "dget d other = Some g \<Longrightarrow> natural_sort_key (?first g) \<le> natural_sort_key other" using h(2) by (simp add: mem)
  qed
  have "\<exists>!p. p \<in> set (pxe_switch_names d) \<and> dget d p = Some g" if "dget d sw = Some g" "suffix ''-network'' g" for sw g
  proof (rule ex1I [of _ "?first g"])
    have "g \<in> snd ` set d" using that(1) unfolding dget_def by (metis image_eqI map_of_SomeD snd_conv)
    then show "?first g \<in> set (pxe_switch_names d) \<and> dget d (?first g) = Some g"
      using f that(2) unfolding pxe_switch_names_set by blast
    fix p assume "p \<in> set (pxe_switch_names d) \<and> dget d p = Some g"
    then obtain g' where "p = ?first g'" "g' \<in> snd ` set d" "dget d p = Some g" unfolding pxe_switch_names_set by blast
    then show "p = ?first g" using f(1) [of g'] by simp
  qed
  moreover have "\<exists>g. dget d sw = Some g \<and> suffix ''-network'' g \<and>
      (\<forall>other. dget d other = Some g \<longrightarrow> natural_sort_key sw \<le> natural_sort_key other)" if s: "sw \<in> set (pxe_switch_names d)" for sw
  proof -
    obtain g where "sw = ?first g" "g \<in> snd ` set d" "suffix ''-network'' g" using s unfolding pxe_switch_names_set by blast
    then show ?thesis using f(1) [of g] f(2) [of g] by (intro exI [of _ g]) simp
  qed
  ultimately show ?thesis by (intro conjI ballI allI impI) (blast, elim conjE, blast)
qed

definition groups_example :: "string dict" where
  "groups_example = [(''f20-10-1.iad3'', ''n-network''), (''f20-9-1.iad3'', ''n-network''), (''f20-3-1f.iad3'', ''n-storage'')]"

end
