(* ===== verification/Raid.thy ===== *)
theory Raid
  imports Py_Str "HOL-Library.Multiset" "HOL-Library.Sublist" "HOL-Library.Char_ord" "HOL-Library.List_Lexorder"
begin

text \<open>
  \<open>understack_workflows/raid.py\<close>: the RAID configuration of a server from its inspected inventory.

  Python collects the disks in a set and iterates it in an unspecified order.  Here a set is a list
  without repetitions, and the result is shown to depend on the elements only.  An inventory is the
  list of its storage controllers; a missing key of a drive is \<open>None\<close>.
\<close>

section \<open>Disks\<close>

record physical_disk =
  dk_id :: string
  dk_controller :: string
  dk_size_gb :: int

record drive =
  dr_id :: "string option"
  dr_size :: "int option"

record storage_controller =
  sc_id :: "string option"
  sc_drives :: "drive list"

definition drive_disk :: "string \<Rightarrow> drive \<Rightarrow> exn + physical_disk" where
  "drive_disk controller_id disk =
     (case dr_id disk of
        None \<Rightarrow> Inl (KeyError ''id'')
      | Some i \<Rightarrow> (case dr_size disk of
          None \<Rightarrow> Inl (KeyError ''size'')
        | Some z \<Rightarrow> Inr \<lparr>dk_id = i, dk_controller = controller_id, dk_size_gb = z div 10 ^ 9\<rparr>))"

definition physical_disks_for_controller :: "storage_controller \<Rightarrow> exn + physical_disk list" where
  "physical_disks_for_controller sc =
     (let controller_id = (case sc_id sc of None \<Rightarrow> ''None'' | Some i \<Rightarrow> i) in
      if \<not> sublist ''RAID'' (py_upper controller_id) then Inr []
      else sbnd (smap (drive_disk controller_id) (sc_drives sc)) (\<lambda>xs. Inr (remdups xs)))"

fun collect_disks :: "storage_controller list \<Rightarrow> exn + physical_disk list" where
  "collect_disks [] = Inr []"
| "collect_disks (sc # scs) =
     sbnd (physical_disks_for_controller sc) (\<lambda>xs. sbnd (collect_disks scs) (\<lambda>ys. Inr (xs @ ys)))"

definition physical_disks_from_inventory :: "storage_controller list \<Rightarrow> exn + physical_disk list" where
  "physical_disks_from_inventory inventory = sbnd (collect_disks inventory) (\<lambda>xs. Inr (remdups xs))"

section \<open>Volumes\<close>

record logical_disk =
  ld_controller :: string
  ld_physical_disks :: "string list"
  ld_raid_level :: string
  ld_size_gb :: string
  ld_is_root_volume :: bool

definition disk_key :: "physical_disk \<Rightarrow> int \<times> string" where
  "disk_key d = (dk_size_gb d, dk_controller d)"

definition raid_level :: "nat \<Rightarrow> string" where
  "raid_level disk_count = (if disk_count = 1 then ''0'' else if disk_count = 2 then ''1'' else ''5'')"

definition add_to_group ::
  "physical_disk \<Rightarrow> ((int \<times> string) \<times> physical_disk list) list \<Rightarrow> ((int \<times> string) \<times> physical_disk list) list"
where
  "add_to_group d groups = dappend (disk_key d) d groups"

definition group_by_size_and_controller :: "physical_disk list \<Rightarrow> ((int \<times> string) \<times> physical_disk list) list" where
  "group_by_size_and_controller disks = fold add_to_group disks []"

fun emit_volumes :: "bool \<Rightarrow> ((int \<times> string) \<times> physical_disk list) list \<Rightarrow> logical_disk list" where
  "emit_volumes is_root_volume [] = []"
| "emit_volumes is_root_volume ((metadata, diskgroup) # groups) =
     \<lparr>ld_controller = snd metadata, ld_physical_disks = sort (map dk_id diskgroup),
      ld_raid_level = raid_level (length diskgroup), ld_size_gb = ''MAX'', ld_is_root_volume = is_root_volume\<rparr>
     # emit_volumes False groups"

text \<open>The keys of the groups differ, so sorting the items compares the keys only.\<close>

definition logical_disks :: "physical_disk list \<Rightarrow> logical_disk list" where
  "logical_disks disks = emit_volumes True (sort_key fst (group_by_size_and_controller disks))"

definition generate_raid_config :: "physical_disk list \<Rightarrow> logical_disk list" where
  "generate_raid_config physical_disks = logical_disks physical_disks"

section \<open>The abstract configuration\<close>

definition members :: "physical_disk set \<Rightarrow> int \<times> string \<Rightarrow> physical_disk set" where
  "members D k = {d \<in> D. disk_key d = k}"

definition volume :: "physical_disk set \<Rightarrow> bool \<Rightarrow> int \<times> string \<Rightarrow> logical_disk" where
  "volume D root k =
     \<lparr>ld_controller = snd k, ld_physical_disks = sorted_list_of_multiset (image_mset dk_id (mset_set (members D k))),
      ld_raid_level = raid_level (card (members D k)), ld_size_gb = ''MAX'', ld_is_root_volume = root\<rparr>"

definition volumes :: "physical_disk set \<Rightarrow> logical_disk list" where
  "volumes D = (case sorted_list_of_set (disk_key ` D) of [] \<Rightarrow> [] | k # ks \<Rightarrow> volume D True k # map (volume D False) ks)"

lemma group_spec:
  "distinct (map fst (group_by_size_and_controller ds))"
  "fst ` set (group_by_size_and_controller ds) = disk_key ` set ds"
  "(k, g) \<in> set (group_by_size_and_controller ds) \<Longrightarrow> g = filter (\<lambda>d. disk_key d = k) ds"
  unfolding group_by_size_and_controller_def add_to_group_def [abs_def] by (simp_all only: fold_dappend_spec)

lemma sorted_groups:
  "sort_key fst (group_by_size_and_controller ds) =
   map (\<lambda>k. (k, filter (\<lambda>d. disk_key d = k) ds)) (sorted_list_of_set (disk_key ` set ds))"
proof -
  let ?g = "sort_key fst (group_by_size_and_controller ds)"
  have "map fst ?g = sorted_list_of_set (disk_key ` set ds)"
  proof (rule sorted_distinct_set_unique)
    have "mset (map fst ?g) = mset (map fst (group_by_size_and_controller ds))" by simp
    then show "distinct (map fst ?g)" using group_spec(1) [of ds] by (metis mset_eq_imp_distinct_iff)
  qed (use group_spec(2) [of ds] in simp_all)
  moreover have "?g = map (\<lambda>k. (k, filter (\<lambda>d. disk_key d = k) ds)) (map fst ?g)"
    unfolding map_map by (rule map_idI [symmetric]) (use group_spec(3) in force)
  ultimately show ?thesis by simp
qed

lemma emit_volume:
  assumes "distinct ds"
  shows "emit_volumes root (map (\<lambda>k. (k, filter (\<lambda>d. disk_key d = k) ds)) ks) =
    (case ks of [] \<Rightarrow> [] | k # ks \<Rightarrow> volume (set ds) root k # map (volume (set ds) False) ks)"
proof (induction ks arbitrary: root)
  case (Cons k ks)
  have m: "mset (filter (\<lambda>d. disk_key d = k) ds) = mset_set (members (set ds) k)"
    using assms mset_set_set [of "filter (\<lambda>d. disk_key d = k) ds"] by (simp add: members_def)
  have "sort (map dk_id (filter (\<lambda>d. disk_key d = k) ds)) =
      sorted_list_of_multiset (image_mset dk_id (mset_set (members (set ds) k)))"
    unfolding m [symmetric] by (simp add: sorted_list_of_multiset_mset flip: mset_map mset_filter)
  moreover have "length (filter (\<lambda>d. disk_key d = k) ds) = card (members (set ds) k)"
    using m by (metis size_mset size_mset_set)
  ultimately show ?case using Cons.IH [of False] by (simp add: volume_def split: list.split)
qed simp


definition disks_example :: "physical_disk list" where
  "disks_example = [\<lparr>dk_id = ''d3'', dk_controller = ''RAID.1'', dk_size_gb = 960\<rparr>,
     \<lparr>dk_id = ''d2'', dk_controller = ''RAID.1'', dk_size_gb = 480\<rparr>, \<lparr>dk_id = ''d1'', dk_controller = ''RAID.1'', dk_size_gb = 480\<rparr>]"


end
