(* ===== verification/Redfish.thy ===== *)
theory Redfish
  imports Json
begin

text \<open>
  \<open>understack_workflows/bmc.py\<close> and \<open>bmc_credentials.py\<close>: the client of a server's management controller
  (BMC), and the workflow that brings its password to the production standard.

  The methods of \<open>Bmc\<close> are acts on a pair: the world the requests reach, and the \<open>Bmc\<close> object with the
  resource paths it caches.  \<open>requests.request\<close>, \<open>sleep\<close> and the process environment are parameters (\<open>bmc_env\<close>); a response carries the
  result of its \<open>json\<close> method.  The options \<open>verify\<close> and \<open>timeout\<close> are the same for every call and left out.
\<close>

section \<open>Requests\<close>

record http_request =
  rq_method :: string
  rq_url :: string
  rq_auth :: "(string \<times> string) option"
  rq_headers :: "string dict"
  rq_json :: "json option"

record http_response =
  rs_status :: int
  rs_reason :: string
  rs_text :: string
  rs_headers :: "string dict"
  rs_json :: "exn + json"

record 's bmc_env =
  be_request :: "http_request \<Rightarrow> ('s, http_response) act"
  be_sleep :: "int \<Rightarrow> ('s, unit) act"
  be_getenv :: "string \<Rightarrow> string option"

record bmc =
  bm_ip_address :: string
  bm_username :: string
  bm_password :: string
  bm_base_path :: "string option"
  bm_system_path :: "string option"
  bm_manager_path :: "string option"

type_synonym ('s, 'a) bmc_act = "('s \<times> bmc, 'a) act"

definition HEADERS :: "string dict" where
  "HEADERS = [(''Accept'', ''application/json''), (''Content-Type'', ''application/json; charset=utf-8'')]"

definition new_bmc :: "string \<Rightarrow> string option \<Rightarrow> string \<Rightarrow> bmc" where
  "new_bmc ip_address password username = \<lparr>bm_ip_address = ip_address, bm_username = username,
     bm_password = (if truthy password then the password else []), bm_base_path = None, bm_system_path = None, bm_manager_path = None\<rparr>"

definition bmc_url :: "bmc \<Rightarrow> string" where
  "bmc_url b = ''https://'' @ bm_ip_address b"

text \<open>Calls on the world, and a block of calls on a \<open>Bmc\<close> object.\<close>

definition on_world :: "('s, 'a) act \<Rightarrow> ('s, 'a) bmc_act" where
  "on_world m = (\<lambda>(s, b). case m s of (r, s') \<Rightarrow> (r, (s', b)))"

definition use_bmc :: "bmc \<Rightarrow> ('s, 'a) bmc_act \<Rightarrow> ('s, 'a \<times> bmc) act" where
  "use_bmc b m = (\<lambda>s. case m (s, b) of (Inl e, (s', _)) \<Rightarrow> (Inl e, s') | (Inr x, (s', b')) \<Rightarrow> (Inr (x, b'), s'))"

definition with_bmc :: "bmc \<Rightarrow> ('s, 'a) bmc_act \<Rightarrow> ('s, 'a) act" where
  "with_bmc b m = bnd (use_bmc b m) (\<lambda>(x, _). ret x)"

text \<open>The keys of \<open>r.headers\<close> are compared without regard to case.\<close>

definition header :: "http_response \<Rightarrow> string \<Rightarrow> string option" where
  "header r k = map_option snd (find (\<lambda>(h, _). py_lower h = py_lower k) (rs_headers r))"

definition bmc_failure :: "string \<Rightarrow> http_response \<Rightarrow> exn" where
  "bmc_failure url r = RedfishRequestError (''BMC communications failure HTTP '' @ show_int (rs_status r) @ '' '' @
     rs_reason r @ '' from '' @ url @ '' - '' @ rs_text r)"

definition redfish_request ::
  "'s bmc_env \<Rightarrow> string \<Rightarrow> string \<Rightarrow> json option \<Rightarrow> string option \<Rightarrow> ('s, json) bmc_act"
where
  "redfish_request env path method payload token =
     bnd (reads snd) (\<lambda>b.
       let url = bmc_url b @ path in
       bnd (on_world (be_request env \<lparr>rq_method = method, rq_url = url,
         rq_auth = (if truthy token then None else Some (bm_username b, bm_password b)),
         rq_headers = (if truthy token then dput ''X-Auth-Token'' (the token) HEADERS else HEADERS), rq_json = payload\<rparr>)) (\<lambda>r.
       if rs_status r \<ge> 400 then raise_exn (bmc_failure url r)
       else if rs_text r \<noteq> [] then of_sum (rs_json r) else ret (JObj [])))"

abbreviation redfish_get :: "'s bmc_env \<Rightarrow> string \<Rightarrow> ('s, json) bmc_act" where
  "redfish_get env path \<equiv> redfish_request env path ''GET'' None None"

definition session_location :: "string \<Rightarrow> string \<Rightarrow> http_response \<Rightarrow> json \<Rightarrow> exn + json" where
  "session_location ip_address url r data =
     sbnd (jin ''@odata.id'' data) (\<lambda>present.
       if present then jitem data ''@odata.id''
       else (case header r ''Location'' of
           None \<Rightarrow> Inl (RedfishRequestError (''No location from BMC: '' @ rs_text r))
         | Some location_header \<Rightarrow>
             if ip_address = [] then Inl (ValueError ''empty separator'')
             else (case split_str ip_address location_header of
                 _ # location # _ \<Rightarrow> Inr (JStr location)
               | _ \<Rightarrow> Inl (RedfishRequestError (''Cannot parse Location Header '' @ url)))))"

definition session_request :: "'s bmc_env \<Rightarrow> string \<Rightarrow> string \<Rightarrow> json \<Rightarrow> ('s, (string \<times> json) option) bmc_act" where
  "session_request env path method payload =
     bnd (reads snd) (\<lambda>b.
       let url = bmc_url b @ path in
       bnd (on_world (be_request env \<lparr>rq_method = method, rq_url = url, rq_auth = None, rq_headers = HEADERS,
         rq_json = Some payload\<rparr>)) (\<lambda>r.
       if rs_status r \<ge> 400 then raise_exn (bmc_failure url r)
       else if rs_text r = [] then ret None
       else (case header r ''X-Auth-Token'' of
           None \<Rightarrow> raise_exn (KeyError ''x-auth-token'')
         | Some token \<Rightarrow>
             bnd (of_sum (rs_json r)) (\<lambda>data.
             if token = [] then raise_exn (RedfishRequestError (''No token from BMC: '' @ rs_text r))
             else bnd (of_sum (session_location (bm_ip_address b) url r data)) (\<lambda>location. ret (Some (token, location)))))))"

section \<open>Resource paths\<close>

definition first_member_path :: "json \<Rightarrow> exn + json" where
  "first_member_path data = sbnd (jitem data ''Members'') (\<lambda>ms. sbnd (jindex0 ms) (\<lambda>m. jitem m ''@odata.id''))"

definition stripped_path :: "json \<Rightarrow> exn + string" where
  "stripped_path v = sbnd (jstring ''rstrip'' v) (\<lambda>t. Inr (rstrip_char CHR ''/'' t))"

definition get_base_path :: string where
  "get_base_path = ''/redfish/v1''"

definition get_system_path :: "'s bmc_env \<Rightarrow> ('s, string) bmc_act" where
  "get_system_path env = bnd (redfish_get env ''/redfish/v1/Systems/'') (\<lambda>data.
     of_sum (sbnd (first_member_path data) stripped_path))"

definition get_manager_path :: "'s bmc_env \<Rightarrow> ('s, string) bmc_act" where
  "get_manager_path env = bnd (redfish_get env ''/redfish/v1/Managers/'') (\<lambda>data.
     of_sum (sbnd (first_member_path data) stripped_path))"

text \<open>\<open>base_path\<close> stores what it returns as the system path.\<close>

definition base_path :: "('s, string) bmc_act" where
  "base_path = bnd (reads (\<lambda>(_, b). py_or (bm_base_path b) get_base_path)) (\<lambda>p.
     andthen (updates (\<lambda>(s, b). (s, b\<lparr>bm_system_path := Some p\<rparr>))) (ret p))"

definition system_path :: "'s bmc_env \<Rightarrow> ('s, string) bmc_act" where
  "system_path env = bnd (reads (\<lambda>(_, b). bm_system_path b)) (\<lambda>cached.
     if truthy cached then ret (the cached)
     else bnd (get_system_path env) (\<lambda>p. andthen (updates (\<lambda>(s, b). (s, b\<lparr>bm_system_path := Some p\<rparr>))) (ret p)))"

definition manager_path :: "'s bmc_env \<Rightarrow> ('s, string) bmc_act" where
  "manager_path env = bnd (reads (\<lambda>(_, b). bm_manager_path b)) (\<lambda>cached.
     if truthy cached then ret (the cached)
     else bnd (get_manager_path env) (\<lambda>p. andthen (updates (\<lambda>(s, b). (s, b\<lparr>bm_manager_path := Some p\<rparr>))) (ret p)))"

definition get_manufacturer :: "'s bmc_env \<Rightarrow> ('s, string) bmc_act" where
  "get_manufacturer env = bnd (system_path env) (\<lambda>p. bnd (redfish_get env p) (\<lambda>data.
     of_sum (sbnd (jitem data ''Manufacturer'') (\<lambda>v. sbnd (jstring ''lower'' v) (\<lambda>t. Inr (py_lower t))))))"

section \<open>Accounts and sessions\<close>

definition linked_path :: "string \<Rightarrow> json \<Rightarrow> exn + string" where
  "linked_path k data = sbnd (jitem data k) (\<lambda>v. sbnd (jitem v ''@odata.id'') (\<lambda>p. Inr (json_str p)))"

definition get_user_accounts :: "'s bmc_env \<Rightarrow> string option \<Rightarrow> ('s, json) bmc_act" where
  "get_user_accounts env token =
     bnd base_path (\<lambda>path.
     bnd (redfish_request env path ''GET'' None token) (\<lambda>root.
     bnd (of_sum (linked_path ''AccountService'' root)) (\<lambda>path.
     bnd (redfish_request env path ''GET'' None token) (\<lambda>service.
     bnd (of_sum (linked_path ''Accounts'' service)) (\<lambda>path.
     bnd (redfish_request env path ''GET'' None token) (\<lambda>accounts.
     of_sum (jitem accounts ''Members'')))))))"

fun find_account :: "'s bmc_env \<Rightarrow> string option \<Rightarrow> string \<Rightarrow> json list \<Rightarrow> ('s, json option) bmc_act" where
  "find_account env token username [] = ret None"
| "find_account env token username (account # accounts) =
     bnd (of_sum (jitem account ''@odata.id'')) (\<lambda>account_url.
     bnd (redfish_request env (json_str account_url) ''GET'' None token) (\<lambda>a.
     bnd (of_sum (jitem a ''UserName'')) (\<lambda>name.
       if name = JStr username then ret (Some a) else find_account env token username accounts)))"

definition set_bmc_creds :: "'s bmc_env \<Rightarrow> string \<Rightarrow> string option \<Rightarrow> ('s, unit) bmc_act" where
  "set_bmc_creds env password token =
     bnd (get_user_accounts env token) (\<lambda>members.
     bnd (of_sum (jiter members)) (\<lambda>accounts.
     bnd (reads (\<lambda>(_, b). bm_username b)) (\<lambda>username.
     bnd (find_account env token username accounts) (\<lambda>matched_account.
       case matched_account of
         None \<Rightarrow> raise_exn (AuthException (''Unable to find BMC account for '' @ username))
       | Some a \<Rightarrow>
           bnd (of_sum (jitem a ''@odata.id'')) (\<lambda>account_uri.
           bnd (redfish_request env (json_str account_uri) ''PATCH'' (Some (JObj [(''Password'', JStr password)])) token) (\<lambda>_.
           ret ()))))))"

definition get_session :: "'s bmc_env \<Rightarrow> string \<Rightarrow> ('s, (string \<times> json) option) bmc_act" where
  "get_session env password =
     bnd (reads (\<lambda>(_, b). bm_username b)) (\<lambda>username.
     bnd (session_request env ''/redfish/v1/SessionService/Sessions'' ''POST''
       (JObj [(''UserName'', JStr username), (''Password'', JStr password)])) (\<lambda>answer.
     ret (case answer of
         Some (token, session) \<Rightarrow> if token \<noteq> [] \<and> json_truthy session then Some (token, session) else None
       | None \<Rightarrow> None)))"

definition close_session :: "'s bmc_env \<Rightarrow> json \<Rightarrow> string option \<Rightarrow> ('s, unit) bmc_act" where
  "close_session env session token = bnd (redfish_request env (json_str session) ''DELETE'' None token) (\<lambda>_. ret ())"

text \<open>\<open>with bmc.session (password) as token: body\<close>.\<close>

definition with_session :: "'s bmc_env \<Rightarrow> string \<Rightarrow> (string option \<Rightarrow> ('s, unit) bmc_act) \<Rightarrow> ('s, unit) bmc_act" where
  "with_session env password body =
     bnd (get_session env password) (\<lambda>answer.
       case answer of
         None \<Rightarrow> body None
       | Some (token, session) \<Rightarrow> finally_act (body (Some token)) (close_session env session (Some token)))"

section \<open>The production password\<close>

definition FACTORY_PASSWORDS :: "string list" where
  "FACTORY_PASSWORDS = [''calvin'', ''calvincalvin'', ''calvin1'', ''calvincalvin1'']"

definition remove_dups_and_nulls :: "string option list \<Rightarrow> string list" where
  "remove_dups_and_nulls args =
     foldl (\<lambda>result x. if truthy x \<and> the x \<notin> set result then result @ [the x] else result) [] args"

definition candidate_passwords :: "string \<Rightarrow> string option \<Rightarrow> string list" where
  "candidate_passwords new_password old_password =
     remove_dups_and_nulls (Some new_password # old_password # map Some FACTORY_PASSWORDS)"

definition log_in_and_set_password :: "'s bmc_env \<Rightarrow> string \<Rightarrow> string \<Rightarrow> ('s, unit) bmc_act" where
  "log_in_and_set_password env password new_password =
     andthen (when_act (password \<noteq> new_password) (with_session env password (set_bmc_creds env new_password)))
       (with_session env new_password (\<lambda>_. ret ()))"

fun try_passwords :: "'s bmc_env \<Rightarrow> string \<Rightarrow> string \<Rightarrow> nat \<Rightarrow> string list \<Rightarrow> ('s, unit) bmc_act" where
  "try_passwords env ip_address new_password attempt [] =
     raise_exn (AuthException (''Unable to log in to BMC '' @ ip_address @ '' with any known password!''))"
| "try_passwords env ip_address new_password attempt (password # passwords) =
     andthen (when_act (attempt > 1) (on_world (be_sleep env 60)))
     (try_except (log_in_and_set_password env password new_password)
       (\<lambda>e. case e of
          RedfishRequestError _ \<Rightarrow> try_passwords env ip_address new_password (attempt + 1) passwords
        | _ \<Rightarrow> raise_exn e))"

definition set_bmc_password :: "'s bmc_env \<Rightarrow> string \<Rightarrow> string \<Rightarrow> string \<Rightarrow> string option \<Rightarrow> ('s, unit) act" where
  "set_bmc_password env ip_address new_password username old_password =
     with_bmc (new_bmc ip_address None username)
       (try_passwords env ip_address new_password 0 (candidate_passwords new_password old_password))"

section \<open>What the account service promises\<close>

text \<open>
  For the controller at one address: \<open>pw s u\<close> is the password of the account \<open>u\<close>, \<open>owner\<close> the account an account
  resource belongs to.  A session is only granted for the current password, the resource of an account
  names it, and a password is only changed by a \<open>PATCH\<close> of the account's resource with the new one.
\<close>

definition session_url :: "string \<Rightarrow> string" where
  "session_url ip = ''https://'' @ ip @ ''/redfish/v1/SessionService/Sessions''"

definition credentials :: "string \<Rightarrow> string \<Rightarrow> json" where
  "credentials u p = JObj [(''UserName'', JStr u), (''Password'', JStr p)]"

definition accounts_ok ::
  "'s bmc_env \<Rightarrow> string \<Rightarrow> ('s \<Rightarrow> string \<Rightarrow> string option) \<Rightarrow> (string \<Rightarrow> string option) \<Rightarrow> bool"
where
  "accounts_ok env ip pw owner \<longleftrightarrow>
     (\<forall>rq s rs s' u p. be_request env rq s = (Inr rs, s') \<longrightarrow> rs_status rs < 400 \<longrightarrow> rq_method rq = ''POST'' \<longrightarrow>
        rq_url rq = session_url ip \<longrightarrow> rq_json rq = Some (credentials u p) \<longrightarrow> pw s u = Some p) \<and>
     (\<forall>rq s rs s' d u n. be_request env rq s = (Inr rs, s') \<longrightarrow> rs_status rs < 400 \<longrightarrow> rq_method rq = ''GET'' \<longrightarrow>
        rs_json rs = Inr (JObj d) \<longrightarrow> dget d ''UserName'' = Some (JStr n) \<longrightarrow> dget d ''@odata.id'' = Some u \<longrightarrow>
        owner (json_str u) = Some n) \<and>
     (\<forall>rq s r s'. be_request env rq s = (r, s') \<longrightarrow> pw s' = pw s \<or>
        (\<exists>path p n. rq_method rq = ''PATCH'' \<and> rq_url rq = ''https://'' @ ip @ path \<and> rq_json rq = Some (JObj [(''Password'', JStr p)]) \<and>
           owner path = Some n \<and> pw s' = (pw s)(n \<mapsto> p))) \<and>
     (\<forall>n s r s'. be_sleep env n s = (r, s') \<longrightarrow> pw s' = pw s)"

text \<open>The state of the passwords, for the \<open>Bmc\<close> object of one user and address.\<close>

definition passwords :: "string \<Rightarrow> string \<Rightarrow> ('s \<Rightarrow> string \<Rightarrow> string option) \<Rightarrow> (string \<Rightarrow> string option) \<Rightarrow> 's \<times> bmc \<Rightarrow> bool" where
  "passwords ip user pw P = (\<lambda>(s, b). bm_ip_address b = ip \<and> bm_username b = user \<and> bm_base_path b = None \<and> pw s = P)"

definition may_change :: "string \<Rightarrow> string \<Rightarrow> string set \<Rightarrow> (string \<Rightarrow> string option) \<Rightarrow> (string \<Rightarrow> string option) \<Rightarrow> bool" where
  "may_change user new cands P P' \<longleftrightarrow> P' = P \<or> (P' = P(user \<mapsto> new) \<and> (\<exists>p \<in> cands. P user = Some p))"

lemma valid_ex: "(\<And>x. valid (A x) m Q E) \<Longrightarrow> valid (\<lambda>s. \<exists>x. A x s) m Q E"
  by (fastforce simp: valid_def)

lemma valid_keeps: "keeps I m \<Longrightarrow> (\<And>s. I s \<Longrightarrow> J s) \<Longrightarrow> valid I m (\<lambda>_. I) (\<lambda>_. J)"
  by (rule valid_conseq [of I m "\<lambda>_. I" "\<lambda>_. I"]) (simp_all add: keeps_valid)

lemma valid_when_true: "(c \<Longrightarrow> valid P m (\<lambda>_. Q) E) \<Longrightarrow> valid (\<lambda>s. P s \<and> c) m (\<lambda>_ s. Q s \<and> c) E"
  by (fastforce simp: valid_def split: prod.splits sum.splits)

lemma valid_finally: "valid P m (\<lambda>_. R) (\<lambda>_. R) \<Longrightarrow> keeps R f \<Longrightarrow> valid P (finally_act m f) (\<lambda>_. R) (\<lambda>_. R)"
  by (fastforce simp: valid_def keeps_def split: prod.splits sum.splits)

lemma may_change_trans: "may_change user new C P P' \<Longrightarrow> may_change user new C P' P'' \<Longrightarrow> may_change user new C P P''"
  by (auto simp: may_change_def)

lemma on_world_apply [simp]: "on_world m (s, b) = (case m s of (r, s') \<Rightarrow> (r, (s', b)))"
  by (simp add: on_world_def)

lemma accounts_okD:
  assumes "accounts_ok env ip pw owner"
  shows "be_request env rq s = (Inr rs, s') \<Longrightarrow> rs_status rs < 400 \<Longrightarrow> rq_method rq = ''POST'' \<Longrightarrow>
      rq_url rq = session_url ip \<Longrightarrow> rq_json rq = Some (credentials u p) \<Longrightarrow> pw s u = Some p"
    and "be_request env rq s = (Inr rs, s') \<Longrightarrow> rs_status rs < 400 \<Longrightarrow> rq_method rq = ''GET'' \<Longrightarrow>
      rs_json rs = Inr (JObj d) \<Longrightarrow> dget d ''UserName'' = Some (JStr n) \<Longrightarrow> dget d ''@odata.id'' = Some v \<Longrightarrow> owner (json_str v) = Some n"
    and "be_request env rq s = (r, s') \<Longrightarrow> rq_method rq \<noteq> ''PATCH'' \<Longrightarrow> pw s' = pw s"
    and "be_request env rq s = (r, s') \<Longrightarrow> rq_url rq = ''https://'' @ ip @ path \<Longrightarrow> rq_json rq = Some (JObj [(''Password'', JStr p)]) \<Longrightarrow>
      owner path = Some n \<Longrightarrow> pw s' = pw s \<or> pw s' = (pw s)(n \<mapsto> p)"
    and "be_sleep env k s = (r', s') \<Longrightarrow> pw s' = pw s"
proof -
  note c = assms [unfolded accounts_ok_def]
  note c1 = c [THEN conjunct1] and c2 = c [THEN conjunct2, THEN conjunct1] and c3 = c [THEN conjunct2, THEN conjunct2, THEN conjunct1]
  show "be_request env rq s = (Inr rs, s') \<Longrightarrow> rs_status rs < 400 \<Longrightarrow> rq_method rq = ''POST'' \<Longrightarrow>
      rq_url rq = session_url ip \<Longrightarrow> rq_json rq = Some (credentials u p) \<Longrightarrow> pw s u = Some p"
    using c1 by blast
  show "be_request env rq s = (Inr rs, s') \<Longrightarrow> rs_status rs < 400 \<Longrightarrow> rq_method rq = ''GET'' \<Longrightarrow>
      rs_json rs = Inr (JObj d) \<Longrightarrow> dget d ''UserName'' = Some (JStr n) \<Longrightarrow> dget d ''@odata.id'' = Some v \<Longrightarrow> owner (json_str v) = Some n"
    using c2 by blast
  show "be_request env rq s = (r, s') \<Longrightarrow> rq_method rq \<noteq> ''PATCH'' \<Longrightarrow> pw s' = pw s" using c3 by blast
  show "pw s' = pw s \<or> pw s' = (pw s)(n \<mapsto> p)"
    if "be_request env rq s = (r, s')" "rq_url rq = ''https://'' @ ip @ path" "rq_json rq = Some (JObj [(''Password'', JStr p)])" "owner path = Some n"
    using c3 [rule_format, OF that(1)] that(2-4) by auto
  show "be_sleep env k s = (r', s') \<Longrightarrow> pw s' = pw s" using c by blast
qed

lemma keeps_passwords_request [act_rules]:
  assumes "accounts_ok env ip pw owner" "method \<noteq> ''PATCH''"
  shows "keeps (passwords ip user pw P) (redfish_request env path method payload token)"
  using accounts_okD(3) [OF assms(1)] assms(2)
  by (auto simp: keeps_def redfish_request_def passwords_def Let_def split: prod.split sum.split)

lemma valid_get:
  assumes "accounts_ok env ip pw owner"
  shows "valid (passwords ip user pw P) (redfish_request env path ''GET'' None token)
    (\<lambda>a x. passwords ip user pw P x \<and> (\<forall>d n u. a = JObj d \<longrightarrow> dget d ''UserName'' = Some (JStr n) \<longrightarrow> dget d ''@odata.id'' = Some u \<longrightarrow>
       owner (json_str u) = Some n)) (\<lambda>_. passwords ip user pw P)"
  using accounts_okD(2,3) [OF assms]
  by (fastforce simp: valid_def redfish_request_def passwords_def Let_def dget_def split: prod.split sum.split)

lemma keeps_base_path [act_rules]: "keeps (passwords ip user pw P) base_path"
  by (auto simp: keeps_def base_path_def passwords_def)

lemma keeps_user_accounts [act_rules]:
  "accounts_ok env ip pw owner \<Longrightarrow> keeps (passwords ip user pw P) (get_user_accounts env token)"
  unfolding get_user_accounts_def by (intro act_rules) simp_all

lemma valid_find_account:
  assumes "accounts_ok env ip pw owner"
  shows "valid (passwords ip user pw P) (find_account env token user accounts)
    (\<lambda>r x. passwords ip user pw P x \<and> (\<forall>a v. r = Some a \<longrightarrow> jitem a ''@odata.id'' = Inr v \<longrightarrow> owner (json_str v) = Some user))
    (\<lambda>_. passwords ip user pw P)"
proof (induction accounts)
  case (Cons account accounts)
  show ?case
    unfolding find_account.simps
  proof (rule valid_bnd [OF _ valid_bnd [OF valid_get [OF assms]]])
    show "valid (passwords ip user pw P) (of_sum (jitem account ''@odata.id'')) (\<lambda>_. passwords ip user pw P) (\<lambda>_. passwords ip user pw P)"
      using keeps_of_sum keeps_valid by blast
    show "valid (\<lambda>x. passwords ip user pw P x \<and> (\<forall>d n u. a = JObj d \<longrightarrow> dget d ''UserName'' = Some (JStr n) \<longrightarrow> dget d ''@odata.id'' = Some u \<longrightarrow>
         owner (json_str u) = Some n))
       (bnd (of_sum (jitem a ''UserName'')) (\<lambda>name. if name = JStr user then ret (Some a) else find_account env token user accounts))
       (\<lambda>r x. passwords ip user pw P x \<and> (\<forall>a v. r = Some a \<longrightarrow> jitem a ''@odata.id'' = Inr v \<longrightarrow> owner (json_str v) = Some user))
       (\<lambda>_. passwords ip user pw P)" for a
    proof (cases "jitem a ''UserName''")
      case (Inr name)
      show ?thesis
      proof (cases "name = JStr user")
        case True
        with Inr show ?thesis by (auto simp: valid_def jitem_Inr)
      next
        case False
        with Inr Cons.IH show ?thesis by (simp add: valid_def)
      qed
    qed (simp add: valid_def)
  qed
qed (simp add: valid_def)

lemma valid_patch:
  assumes "accounts_ok env ip pw owner" "owner path = Some user"
  shows "valid (passwords ip user pw P) (redfish_request env path ''PATCH'' (Some (JObj [(''Password'', JStr new)])) token)
    (\<lambda>_ x. \<exists>P'. passwords ip user pw P' x \<and> (P' = P \<or> P' = P(user \<mapsto> new)))
    (\<lambda>_ x. \<exists>P'. passwords ip user pw P' x \<and> (P' = P \<or> P' = P(user \<mapsto> new)))"
  using accounts_okD(4) [OF assms(1) _ _ _ assms(2)]
  by (fastforce simp: valid_def redfish_request_def passwords_def bmc_url_def Let_def split: prod.split sum.split)

lemma valid_set_creds:
  assumes "accounts_ok env ip pw owner"
  shows "valid (passwords ip user pw P) (set_bmc_creds env new token)
    (\<lambda>_ x. \<exists>P'. passwords ip user pw P' x \<and> (P' = P \<or> P' = P(user \<mapsto> new)))
    (\<lambda>_ x. \<exists>P'. passwords ip user pw P' x \<and> (P' = P \<or> P' = P(user \<mapsto> new)))"
    (is "valid ?A _ (\<lambda>_. ?B) (\<lambda>_. ?B)")
proof -
  have w: "?B x" if "?A x" for x using that by blast
  have found: "valid ?A (bnd (of_sum (jitem a ''@odata.id'')) (\<lambda>v.
      bnd (redfish_request env (json_str v) ''PATCH'' (Some (JObj [(''Password'', JStr new)])) token) (\<lambda>_. ret ()))) (\<lambda>_. ?B) (\<lambda>_. ?B)"
    if "\<forall>v. jitem a ''@odata.id'' = Inr v \<longrightarrow> owner (json_str v) = Some user" for a
  proof (cases "jitem a ''@odata.id''")
    case (Inr v)
    have "valid ?A (bnd (redfish_request env (json_str v) ''PATCH'' (Some (JObj [(''Password'', JStr new)])) token) (\<lambda>_. ret ()))
        (\<lambda>_. ?B) (\<lambda>_. ?B)"
      using that Inr by (intro valid_bnd [OF valid_patch [OF assms]] valid_ret) auto
    with Inr show ?thesis by (simp add: valid_def)
  qed (use w in \<open>simp add: valid_def\<close>)
  have chosen: "valid (\<lambda>x. ?A x \<and> (\<forall>a v. m = Some a \<longrightarrow> jitem a ''@odata.id'' = Inr v \<longrightarrow> owner (json_str v) = Some user))
      (case m of None \<Rightarrow> raise_exn e | Some a \<Rightarrow> bnd (of_sum (jitem a ''@odata.id'')) (\<lambda>v.
        bnd (redfish_request env (json_str v) ''PATCH'' (Some (JObj [(''Password'', JStr new)])) token) (\<lambda>_. ret ()))) (\<lambda>_. ?B) (\<lambda>_. ?B)" for m e
  proof (cases m)
    case (Some a)
    show ?thesis unfolding Some option.case valid_def using found [of a] by (fastforce simp: valid_def)
  qed (use w in \<open>auto simp: valid_def\<close>)
  have user: "valid ?A (bnd (reads (\<lambda>(_, b). bm_username b)) f) (\<lambda>_. ?B) (\<lambda>_. ?B)" if "valid ?A (f user) (\<lambda>_. ?B) (\<lambda>_. ?B)"
    for f :: "string \<Rightarrow> ('a, unit) bmc_act"
    using that by (auto simp: valid_def passwords_def)
  have find: "valid ?A (find_account env token user accounts)
      (\<lambda>m x. ?A x \<and> (\<forall>a v. m = Some a \<longrightarrow> jitem a ''@odata.id'' = Inr v \<longrightarrow> owner (json_str v) = Some user)) (\<lambda>_. ?B)" for accounts
    by (rule valid_conseq [OF valid_find_account [OF assms]]) (use w in auto)
  show ?thesis unfolding set_bmc_creds_def
    by (intro valid_bnd [OF valid_keeps [OF keeps_user_accounts [OF assms]]] valid_bnd [OF valid_keeps [OF keeps_of_sum]] user
        valid_bnd [OF find chosen]) (use w in auto)
qed

lemma valid_get_session:
  assumes "accounts_ok env ip pw owner"
  shows "valid (passwords ip user pw P) (get_session env p) (\<lambda>_ x. passwords ip user pw P x \<and> P user = Some p) (\<lambda>_. passwords ip user pw P)"
proof -
  have "valid (passwords ip user pw P) (session_request env ''/redfish/v1/SessionService/Sessions'' ''POST'' (credentials user p))
      (\<lambda>_ x. passwords ip user pw P x \<and> P user = Some p) (\<lambda>_. passwords ip user pw P)"
    using accounts_okD(1,3) [OF assms]
    by (fastforce simp: valid_def session_request_def passwords_def bmc_url_def session_url_def Let_def not_le
        split: prod.split sum.split option.split)
  then show ?thesis
    unfolding get_session_def credentials_def [symmetric]
    by (fastforce simp: valid_def passwords_def split: prod.splits sum.splits)
qed

lemma valid_session:
  assumes "accounts_ok env ip pw owner"
    and "\<And>t. P user = Some p \<Longrightarrow> valid (passwords ip user pw P) (body t) (\<lambda>_ x. \<exists>P' \<in> S. passwords ip user pw P' x) (\<lambda>_ x. \<exists>P' \<in> S. passwords ip user pw P' x)"
    and "P \<in> S"
  shows "valid (passwords ip user pw P) (with_session env p body)
    (\<lambda>_ x. (\<exists>P' \<in> S. passwords ip user pw P' x) \<and> P user = Some p) (\<lambda>_ x. \<exists>P' \<in> S. passwords ip user pw P' x)"
proof -
  have close: "keeps (passwords ip user pw P') (close_session env l t)" for P' l t
    unfolding close_session_def by (intro act_rules keeps_passwords_request [OF assms(1)]) simp
  let ?R = "\<lambda>x. \<exists>P' \<in> S. passwords ip user pw P' x"
  have closing: "valid (passwords ip user pw P) (finally_act (body t) (close_session env l t')) (\<lambda>_. ?R) (\<lambda>_. ?R)"
    if "P user = Some p" for t l t'
  proof -
    have "keeps ?R (close_session env l t')" using close by (fastforce simp: keeps_def)
    with assms(2) [OF that, of t] show ?thesis by (rule valid_finally)
  qed
  have "valid (passwords ip user pw P)
      (case a of None \<Rightarrow> body None | Some (token, session) \<Rightarrow> finally_act (body (Some token)) (close_session env session (Some token)))
      (\<lambda>_. ?R) (\<lambda>_. ?R)" if "P user = Some p" for a
    using assms(2) [OF that] closing [OF that] by (cases a) (auto simp only: option.case split: prod.split)
  then have "valid (\<lambda>x. passwords ip user pw P x \<and> P user = Some p)
      (case a of None \<Rightarrow> body None | Some (token, session) \<Rightarrow> finally_act (body (Some token)) (close_session env session (Some token)))
      (\<lambda>_ x. ?R x \<and> P user = Some p) (\<lambda>_. ?R)" for a
    by (rule valid_when_true)
  moreover have "valid (passwords ip user pw P) (get_session env p) (\<lambda>_ x. passwords ip user pw P x \<and> P user = Some p) (\<lambda>_. ?R)"
    by (rule valid_conseq [OF valid_get_session [OF assms(1)]]) (use assms(3) in auto)
  ultimately show ?thesis unfolding with_session_def by (rule valid_bnd [rotated])
qed

abbreviation reached where
  "reached ip user new C pw P x \<equiv> \<exists>P'. may_change user new C P P' \<and> passwords ip user pw P' x"

lemma valid_log_in:
  assumes "accounts_ok env ip pw owner" "p \<in> C"
  shows "valid (passwords ip user pw P) (log_in_and_set_password env p new)
    (\<lambda>_ x. \<exists>P'. may_change user new C P P' \<and> passwords ip user pw P' x \<and> P' user = Some new) (\<lambda>_. reached ip user new C pw P)"
  unfolding log_in_and_set_password_def
proof (rule valid_andthen)
  let ?S = "{P'. may_change user new C P P'}"
  have "valid (passwords ip user pw P) (with_session env p (set_bmc_creds env new))
      (\<lambda>_ x. (\<exists>P' \<in> ?S. passwords ip user pw P' x) \<and> P user = Some p) (\<lambda>_ x. \<exists>P' \<in> ?S. passwords ip user pw P' x)"
  proof (rule valid_session [OF assms(1)])
    show "valid (passwords ip user pw P) (set_bmc_creds env new t)
        (\<lambda>_ x. \<exists>P' \<in> ?S. passwords ip user pw P' x) (\<lambda>_ x. \<exists>P' \<in> ?S. passwords ip user pw P' x)" if "P user = Some p" for t
      by (rule valid_conseq [OF valid_set_creds [OF assms(1)]]) (use that assms(2) in \<open>auto simp: may_change_def\<close>)
  qed (simp add: may_change_def)
  then have "valid (passwords ip user pw P) (with_session env p (set_bmc_creds env new))
      (\<lambda>_. reached ip user new C pw P) (\<lambda>_. reached ip user new C pw P)" by (rule valid_conseq) auto
  then show "valid (passwords ip user pw P) (when_act (p \<noteq> new) (with_session env p (set_bmc_creds env new)))
      (\<lambda>_. reached ip user new C pw P) (\<lambda>_. reached ip user new C pw P)"
    by (cases "p = new") (auto simp: valid_def may_change_def when_act_def)
  have last: "valid (passwords ip user pw P') (with_session env new (\<lambda>_. ret ()))
      (\<lambda>_ x. (\<exists>P'' \<in> {P'}. passwords ip user pw P'' x) \<and> P' user = Some new) (\<lambda>_ x. \<exists>P'' \<in> {P'}. passwords ip user pw P'' x)" for P'
    by (rule valid_session [OF assms(1)]) (auto intro: valid_ret)
  show "valid (reached ip user new C pw P) (with_session env new (\<lambda>_. ret ()))
      (\<lambda>_ x. \<exists>P'. may_change user new C P P' \<and> passwords ip user pw P' x \<and> P' user = Some new) (\<lambda>_. reached ip user new C pw P)"
  proof (rule valid_ex)
    show "valid (\<lambda>x. may_change user new C P P' \<and> passwords ip user pw P' x) (with_session env new (\<lambda>_. ret ()))
        (\<lambda>_ x. \<exists>P'. may_change user new C P P' \<and> passwords ip user pw P' x \<and> P' user = Some new) (\<lambda>_. reached ip user new C pw P)" for P'
      using last [of P'] unfolding valid_def by (fastforce split: prod.splits sum.splits)
  qed
qed

lemma valid_try:
  "valid P m Q E' \<Longrightarrow> (\<And>e. valid (E' e) (h e) Q E) \<Longrightarrow> valid P (try_except m h) Q E"
  by (fastforce simp: valid_def split: prod.splits sum.splits)

lemma valid_try_passwords:
  assumes "accounts_ok env ip pw owner"
  shows "set ps \<subseteq> C \<Longrightarrow> valid (reached ip user new C pw P) (try_passwords env a new k ps)
    (\<lambda>_ x. \<exists>P'. may_change user new C P P' \<and> passwords ip user pw P' x \<and> P' user = Some new) (\<lambda>_. reached ip user new C pw P)"
proof (induction ps arbitrary: k)
  case (Cons p ps)
  let ?Q = "\<lambda>_ x. \<exists>P'. may_change user new C P P' \<and> passwords ip user pw P' x \<and> P' user = Some new"
  have "keeps (reached ip user new C pw P) (when_act (k > 1) (on_world (be_sleep env 60)))"
    using accounts_okD(5) [OF assms] by (intro act_rules) (fastforce simp: keeps_def passwords_def split: prod.splits)
  then have w: "valid (reached ip user new C pw P) (when_act (k > 1) (on_world (be_sleep env 60)))
      (\<lambda>_. reached ip user new C pw P) (\<lambda>_. reached ip user new C pw P)" by (simp only: keeps_valid)
  have "valid (\<lambda>x. may_change user new C P P' \<and> passwords ip user pw P' x) (log_in_and_set_password env p new) ?Q (\<lambda>_. reached ip user new C pw P)" for P'
  proof (cases "may_change user new C P P'")
    case True
    have "p \<in> C" using Cons.prems by simp
    from valid_log_in [OF assms this, of user P' new] show ?thesis
      by (rule valid_conseq) (use may_change_trans [OF True] in blast)+
  qed (simp add: valid_def)
  then have l: "valid (reached ip user new C pw P) (log_in_and_set_password env p new) ?Q (\<lambda>_. reached ip user new C pw P)"
    by (rule valid_ex)
  have h: "valid (reached ip user new C pw P) (case e of RedfishRequestError _ \<Rightarrow> try_passwords env a new (k + 1) ps | _ \<Rightarrow> raise_exn e)
      ?Q (\<lambda>_. reached ip user new C pw P)" for e
    using Cons by (cases e) (simp_all add: valid_def)
  show ?case unfolding try_passwords.simps by (rule valid_andthen [OF w valid_try [OF l h]])
qed (simp add: valid_def)

lemma password_outcome:
  assumes "accounts_ok env ip pw owner"
    and "set_bmc_password env ip new user old s = (r, s')"
  shows "(r = Inr () \<longrightarrow> pw s' user = Some new) \<and> (\<forall>u. u \<noteq> user \<longrightarrow> pw s' u = pw s u) \<and>
    (pw s' user = pw s user \<or>
     pw s' user = Some new \<and> (\<exists>p \<in> set (candidate_passwords new old). pw s user = Some p))"
proof -
  let ?C = "set (candidate_passwords new old)"
  obtain x where m: "try_passwords env ip new 0 (candidate_passwords new old) (s, new_bmc ip None user) = (r, (s', x))"
    using assms(2) by (auto simp: set_bmc_password_def with_bmc_def use_bmc_def split: prod.splits sum.splits)
  have pre: "reached ip user new ?C pw (pw s) (s, new_bmc ip None user)"
    by (auto simp: may_change_def passwords_def new_bmc_def)
  note v = validD [OF valid_try_passwords [OF assms(1) order_refl] pre]
  have "\<exists>P'. may_change user new ?C (pw s) P' \<and> passwords ip user pw P' (s', x) \<and> (r = Inr () \<longrightarrow> P' user = Some new)"
  proof (cases r)
    case (Inl e)
    with v(2) m show ?thesis by simp
  next
    case (Inr y)
    with v(1) m show ?thesis by simp
  qed
  then show ?thesis by (auto simp: may_change_def passwords_def)
qed

text \<open>
  C23: Setting the password of a BMC account is safe whatever the BMC answers: if it returns, the production
  password is the account's password; no other account's password changes; and the account's own password
  only ever changes to the production one, from one of the candidates.
\<close>
theorem bmc_password_safe:
  assumes "accounts_ok env ip pw owner"
    and "set_bmc_password env ip new user old s = (r, s')"
  shows "(r = Inr () \<longrightarrow> pw s' user = Some new) \<and> (\<forall>u. u \<noteq> user \<longrightarrow> pw s' u = pw s u) \<and>
    (pw s' user = pw s user \<or>
     pw s' user = Some new \<and> (\<exists>p \<in> set (candidate_passwords new old). pw s user = Some p))"
  by (rule password_outcome [OF assms])

section \<open>A service that answers\<close>

text \<open>
  What it takes for the password to be set: the controller grants a session for the current password and
  answers requests that carry one of its tokens (\<open>tok\<close>).  \<open>accounts\<close> are the paths of the account resources.
\<close>

definition answered :: "http_response \<Rightarrow> json \<Rightarrow> bool" where
  "answered rs j \<longleftrightarrow> rs_status rs < 400 \<and> rs_text rs \<noteq> [] \<and> rs_json rs = Inr j"

definition accepted :: "http_response \<Rightarrow> bool" where
  "accepted rs \<longleftrightarrow> rs_status rs < 400 \<and> (rs_text rs = [] \<or> (\<exists>j. rs_json rs = Inr j))"

definition sessions_served :: "'s bmc_env \<Rightarrow> string \<Rightarrow> ('s \<Rightarrow> string \<Rightarrow> string option) \<Rightarrow> ('s \<Rightarrow> string set) \<Rightarrow> bool" where
  "sessions_served env ip pw tok \<longleftrightarrow>
     (\<forall>rq s u p. rq_method rq = ''POST'' \<longrightarrow> rq_url rq = session_url ip \<longrightarrow> rq_json rq = Some (credentials u p) \<longrightarrow>
        (\<exists>rs s'. be_request env rq s = (Inr rs, s') \<and> pw s' = pw s \<and>
           (if pw s u = Some p
            then \<exists>t d l. answered rs (JObj d) \<and> header rs ''X-Auth-Token'' = Some t \<and> t \<noteq> [] \<and>
              dget d ''@odata.id'' = Some (JStr l) \<and> l \<noteq> [] \<and> t \<in> tok s'
            else rs_status rs \<ge> 400))) \<and>
     (\<forall>rq s t. rq_method rq = ''DELETE'' \<longrightarrow> t \<in> tok s \<longrightarrow> dget (rq_headers rq) ''X-Auth-Token'' = Some t \<longrightarrow>
        (\<exists>rs s'. be_request env rq s = (Inr rs, s') \<and> accepted rs \<and> pw s' = pw s)) \<and>
     (\<forall>n s. \<exists>s'. be_sleep env n s = (Inr (), s') \<and> pw s' = pw s)"

text \<open>The resources of the account service, and what each answers.\<close>

definition account_resources :: "string \<Rightarrow> string \<Rightarrow> string list \<Rightarrow> (string \<Rightarrow> string option) \<Rightarrow> (string \<times> (json \<Rightarrow> bool)) set" where
  "account_resources service collection accounts owner =
     {(''/redfish/v1'', \<lambda>j. linked_path ''AccountService'' j = Inr service),
      (service, \<lambda>j. linked_path ''Accounts'' j = Inr collection),
      (collection, \<lambda>j. \<exists>ms. jitem j ''Members'' = Inr (JList ms) \<and> map (\<lambda>m. jitem m ''@odata.id'') ms = map (\<lambda>a. Inr (JStr a)) accounts)} \<union>
     {(a, \<lambda>j. jitem j ''@odata.id'' = Inr (JStr a) \<and> (\<exists>n. owner a = Some n \<and> jitem j ''UserName'' = Inr (JStr n))) | a. a \<in> set accounts}"

definition accounts_served ::
  "'s bmc_env \<Rightarrow> string \<Rightarrow> ('s \<Rightarrow> string \<Rightarrow> string option) \<Rightarrow> ('s \<Rightarrow> string set) \<Rightarrow> string \<Rightarrow> string \<Rightarrow> string list \<Rightarrow> (string \<Rightarrow> string option) \<Rightarrow> bool"
where
  "accounts_served env ip pw tok service collection accounts owner \<longleftrightarrow>
     (\<forall>rq s t path spec. rq_method rq = ''GET'' \<longrightarrow> t \<in> tok s \<longrightarrow> dget (rq_headers rq) ''X-Auth-Token'' = Some t \<longrightarrow>
        rq_url rq = ''https://'' @ ip @ path \<longrightarrow> (path, spec) \<in> account_resources service collection accounts owner \<longrightarrow>
        (\<exists>rs s' j. be_request env rq s = (Inr rs, s') \<and> answered rs j \<and> spec j \<and> pw s' = pw s \<and> tok s' = tok s)) \<and>
     (\<forall>rq s t a n p. rq_method rq = ''PATCH'' \<longrightarrow> t \<in> tok s \<longrightarrow> dget (rq_headers rq) ''X-Auth-Token'' = Some t \<longrightarrow>
        rq_url rq = ''https://'' @ ip @ a \<longrightarrow> a \<in> set accounts \<longrightarrow> owner a = Some n \<longrightarrow> rq_json rq = Some (JObj [(''Password'', JStr p)]) \<longrightarrow>
        (\<exists>rs s'. be_request env rq s = (Inr rs, s') \<and> accepted rs \<and> pw s' = (pw s)(n \<mapsto> p) \<and> tok s' = tok s))"

text \<open>With a token that is accepted.\<close>

definition logged_in ::
  "string \<Rightarrow> string \<Rightarrow> ('s \<Rightarrow> string \<Rightarrow> string option) \<Rightarrow> ('s \<Rightarrow> string set) \<Rightarrow> string \<Rightarrow> (string \<Rightarrow> string option) \<Rightarrow> 's \<times> bmc \<Rightarrow> bool"
where
  "logged_in ip user pw tok t P = (\<lambda>x. passwords ip user pw P x \<and> t \<in> tok (fst x) \<and> t \<noteq> [])"

lemma returns_get:
  assumes "accounts_served env ip pw tok service collection accounts owner"
    and "(path, spec) \<in> account_resources service collection accounts owner"
  shows "returns (logged_in ip user pw tok t P) (redfish_request env path ''GET'' None (Some t))
    (\<lambda>j x. spec j \<and> logged_in ip user pw tok t P x)"
proof (rule returnsI, clarsimp simp: logged_in_def passwords_def)
  fix s b assume t: "t \<in> tok s" "t \<noteq> []"
  let ?rq = "\<lparr>rq_method = ''GET'', rq_url = bmc_url b @ path, rq_auth = None,
    rq_headers = dput ''X-Auth-Token'' t HEADERS, rq_json = None\<rparr>"
  assume "P = pw s" "ip = bm_ip_address b" "user = bm_username b" and n: "bm_base_path b = None"
  then obtain rs s' j where "be_request env ?rq s = (Inr rs, s')" "answered rs j" "spec j" "pw s' = pw s" "tok s' = tok s"
    using assms t unfolding accounts_served_def
    by (elim conjE allE [of _ ?rq] allE [of _ s] allE [of _ t] allE [of _ path] allE [of _ spec]) (auto simp: dget_def bmc_url_def)
  then show "\<exists>j s'. (\<exists>b'. redfish_request env path ''GET'' None (Some t) (s, b) = (Inr j, s', b') \<and> spec j \<and>
       bm_ip_address b' = bm_ip_address b \<and> bm_username b' = bm_username b \<and> bm_base_path b' = None \<and> pw s' = pw s \<and> t \<in> tok s')"
    using t n by (auto simp: redfish_request_def answered_def Let_def)
qed

lemma returns_base_path:
  "returns (logged_in ip user pw tok t P) base_path (\<lambda>p x. p = ''/redfish/v1'' \<and> logged_in ip user pw tok t P x)"
  by (auto simp: returns_def base_path_def logged_in_def passwords_def get_base_path_def)

lemma returns_if: "(c \<Longrightarrow> returns P m Q) \<Longrightarrow> returns (\<lambda>s. c \<and> P s) m Q"
  by (auto simp: returns_def)

lemma returns_user_accounts:
  assumes "accounts_served env ip pw tok service collection accounts owner"
  shows "returns (logged_in ip user pw tok t P) (get_user_accounts env (Some t))
    (\<lambda>j x. (\<exists>ms. j = JList ms \<and> map (\<lambda>m. jitem m ''@odata.id'') ms = map (\<lambda>a. Inr (JStr a)) accounts) \<and> logged_in ip user pw tok t P x)"
proof -
  let ?L = "logged_in ip user pw tok t P"
  note g = returns_get [OF assms, of _ _ user t P]
  have root: "returns ?L (redfish_request env ''/redfish/v1'' ''GET'' None (Some t)) (\<lambda>j x. linked_path ''AccountService'' j = Inr service \<and> ?L x)"
    by (rule g) (simp add: account_resources_def)
  have svc: "returns ?L (redfish_request env service ''GET'' None (Some t)) (\<lambda>j x. linked_path ''Accounts'' j = Inr collection \<and> ?L x)"
    by (rule g) (simp add: account_resources_def)
  have coll: "returns ?L (redfish_request env collection ''GET'' None (Some t)) (\<lambda>j x.
      (\<exists>ms. jitem j ''Members'' = Inr (JList ms) \<and> map (\<lambda>m. jitem m ''@odata.id'') ms = map (\<lambda>a. Inr (JStr a)) accounts) \<and> ?L x)"
    by (rule g) (simp add: account_resources_def)
  show ?thesis unfolding get_user_accounts_def
    by (rule returns_bnd [OF returns_base_path], rule returns_if, simp only:, rule returns_bnd [OF root], rule returns_if,
        rule returns_bnd, rule returns_pure [where Q = "\<lambda>p x. p = service \<and> ?L x"], simp, rule returns_if, simp only:,
        rule returns_bnd [OF svc], rule returns_if,
        rule returns_bnd, rule returns_pure [where Q = "\<lambda>p x. p = collection \<and> ?L x"], simp, rule returns_if, simp only:,
        rule returns_bnd [OF coll], rule returns_if, erule exE, rule returns_pure, auto)
qed

lemma returns_find_account:
  assumes "accounts_served env ip pw tok service collection accounts owner" "set as \<subseteq> set accounts" "Some user \<in> owner ` set as"
    and "map (\<lambda>m. jitem m ''@odata.id'') ms = map (\<lambda>a. Inr (JStr a)) as"
  shows "returns (logged_in ip user pw tok t P) (find_account env (Some t) user ms)
    (\<lambda>r x. (\<exists>a \<in> set accounts. owner a = Some user \<and> (\<exists>v. r = Some v \<and> jitem v ''@odata.id'' = Inr (JStr a))) \<and> logged_in ip user pw tok t P x)"
  using assms(2-4)
proof (induction ms arbitrary: as)
  case (Cons m ms)
  let ?L = "logged_in ip user pw tok t P"
  let ?R = "\<lambda>r x. (\<exists>a \<in> set accounts. owner a = Some user \<and> (\<exists>v. r = Some v \<and> jitem v ''@odata.id'' = Inr (JStr a))) \<and> ?L x"
  obtain a as' where as: "as = a # as'" "jitem m ''@odata.id'' = Inr (JStr a)" "map (\<lambda>m. jitem m ''@odata.id'') ms = map (\<lambda>a. Inr (JStr a)) as'"
    using Cons.prems(3) by (cases as) auto
  have a: "a \<in> set accounts" using Cons.prems(1) as(1) by simp
  have g: "returns ?L (redfish_request env a ''GET'' None (Some t)) (\<lambda>j x.
      (jitem j ''@odata.id'' = Inr (JStr a) \<and> (\<exists>n. owner a = Some n \<and> jitem j ''UserName'' = Inr (JStr n))) \<and> ?L x)"
    by (rule returns_get [OF assms(1)]) (use a in \<open>auto simp: account_resources_def\<close>)
  have "returns (\<lambda>x. (jitem j ''@odata.id'' = Inr (JStr a) \<and> (\<exists>n. owner a = Some n \<and> jitem j ''UserName'' = Inr (JStr n))) \<and> ?L x)
      (bnd (of_sum (jitem j ''UserName'')) (\<lambda>name. if name = JStr user then ret (Some j) else find_account env (Some t) user ms)) ?R" for j
  proof (rule returns_if, elim conjE exE)
    fix n assume j: "jitem j ''@odata.id'' = Inr (JStr a)" "owner a = Some n" "jitem j ''UserName'' = Inr (JStr n)"
    show "returns ?L (bnd (of_sum (jitem j ''UserName'')) (\<lambda>name. if name = JStr user then ret (Some j) else find_account env (Some t) user ms)) ?R"
    proof (cases "n = user")
      case True
      with j a show ?thesis by (auto simp: returns_def)
    next
      case False
      then have "Some user \<in> owner ` set as'" using Cons.prems(2) as(1) j(2) by auto
      then have "returns ?L (find_account env (Some t) user ms) ?R"
        using Cons.IH [of as'] Cons.prems(1) as by simp
      with False j(3) show ?thesis by (simp add: returns_def)
    qed
  qed
  then have "returns ?L (bnd (redfish_request env a ''GET'' None (Some t)) (\<lambda>j. bnd (of_sum (jitem j ''UserName''))
      (\<lambda>name. if name = JStr user then ret (Some j) else find_account env (Some t) user ms))) ?R" by (rule returns_bnd [OF g])
  then show ?case by (simp add: as(2) returns_def)
qed simp

lemma returns_patch:
  assumes "accounts_served env ip pw tok service collection accounts owner" "a \<in> set accounts" "owner a = Some user"
  shows "returns (logged_in ip user pw tok t P) (redfish_request env a ''PATCH'' (Some (JObj [(''Password'', JStr new)])) (Some t))
    (\<lambda>_. logged_in ip user pw tok t (P(user \<mapsto> new)))"
proof (rule returnsI, clarsimp simp: logged_in_def passwords_def)
  fix s b assume t: "t \<in> tok s" "t \<noteq> []"
  let ?rq = "\<lparr>rq_method = ''PATCH'', rq_url = bmc_url b @ a, rq_auth = None,
    rq_headers = dput ''X-Auth-Token'' t HEADERS, rq_json = Some (JObj [(''Password'', JStr new)])\<rparr>"
  assume n: "P = pw s" "ip = bm_ip_address b" "user = bm_username b" "bm_base_path b = None"
  then obtain rs s' where "be_request env ?rq s = (Inr rs, s')" "accepted rs" "pw s' = (pw s)(user \<mapsto> new)" "tok s' = tok s"
    using assms(1) [unfolded accounts_served_def, THEN conjunct2, rule_format, of ?rq t s a user new] assms(2,3) t
    by (auto simp: dget_def bmc_url_def)
  then show "\<exists>x s'. (\<exists>b'. redfish_request env a ''PATCH'' (Some (JObj [(''Password'', JStr new)])) (Some t) (s, b) = (Inr x, s', b') \<and>
       bm_ip_address b' = bm_ip_address b \<and> bm_username b' = bm_username b \<and> bm_base_path b' = None \<and>
       pw s' = (pw s)(bm_username b \<mapsto> new) \<and> t \<in> tok s')"
    using t n by (auto simp: redfish_request_def accepted_def Let_def)
qed

lemma returns_creds:
  assumes "accounts_served env ip pw tok service collection accounts owner" "Some user \<in> owner ` set accounts"
  shows "returns (logged_in ip user pw tok t P) (set_bmc_creds env new (Some t)) (\<lambda>_. logged_in ip user pw tok t (P(user \<mapsto> new)))"
proof -
  let ?L = "logged_in ip user pw tok t P" and ?L' = "logged_in ip user pw tok t (P(user \<mapsto> new))"
  have patch: "returns ?L (case v of None \<Rightarrow> raise_exn e | Some a' \<Rightarrow> bnd (of_sum (jitem a' ''@odata.id'')) (\<lambda>uri.
        bnd (redfish_request env (json_str uri) ''PATCH'' (Some (JObj [(''Password'', JStr new)])) (Some t)) (\<lambda>_. ret ()))) (\<lambda>_. ?L')"
    if "\<exists>a \<in> set accounts. owner a = Some user \<and> (\<exists>j. v = Some j \<and> jitem j ''@odata.id'' = Inr (JStr a))" for v e
  proof -
    from that obtain a j where a: "a \<in> set accounts" "owner a = Some user" "v = Some j" "jitem j ''@odata.id'' = Inr (JStr a)" by blast
    have "returns ?L (bnd (redfish_request env a ''PATCH'' (Some (JObj [(''Password'', JStr new)])) (Some t)) (\<lambda>_. ret ())) (\<lambda>_. ?L')"
      by (rule returns_bnd [OF returns_patch [OF assms(1) a(1,2)]], rule returns_ret)
    with a(3,4) show ?thesis by (simp add: returns_def)
  qed
  have found: "returns ?L (bnd (find_account env (Some t) user ms) (\<lambda>v. case v of None \<Rightarrow> raise_exn e | Some a' \<Rightarrow> bnd (of_sum (jitem a' ''@odata.id'')) (\<lambda>uri.
        bnd (redfish_request env (json_str uri) ''PATCH'' (Some (JObj [(''Password'', JStr new)])) (Some t)) (\<lambda>_. ret ())))) (\<lambda>_. ?L')"
    if "map (\<lambda>m. jitem m ''@odata.id'') ms = map (\<lambda>a. Inr (JStr a)) accounts" for ms e
    by (rule returns_bnd [OF returns_find_account [OF assms(1) order_refl assms(2) that]], rule returns_if, rule patch)
  have user: "returns ?L (bnd (of_sum (jiter j)) (\<lambda>ms. bnd (reads (\<lambda>(_, b). bm_username b)) (f ms))) (\<lambda>_. ?L')"
    if h: "\<And>ms. j = JList ms \<Longrightarrow> returns ?L (f ms user) (\<lambda>_. ?L')" and e: "\<exists>ms. j = JList ms"
    for j and f :: "json list \<Rightarrow> string \<Rightarrow> ('a, unit) bmc_act"
  proof -
    obtain ms where ms: "j = JList ms" using e by blast
    then show ?thesis using h [OF ms] by (auto simp: returns_def logged_in_def passwords_def)
  qed
  show ?thesis unfolding set_bmc_creds_def
  proof (rule returns_bnd [OF returns_user_accounts [OF assms(1)]], rule returns_if)
    fix j assume j: "\<exists>ms. j = JList ms \<and> map (\<lambda>m. jitem m ''@odata.id'') ms = map (\<lambda>a. Inr (JStr a)) accounts"
    show "returns ?L (bnd (of_sum (jiter j)) (\<lambda>ms. bnd (reads (\<lambda>(_, b). bm_username b)) (\<lambda>username.
        bnd (find_account env (Some t) username ms) (\<lambda>v.
          case v of None \<Rightarrow> raise_exn (AuthException (''Unable to find BMC account for '' @ username))
          | Some a \<Rightarrow> bnd (of_sum (jitem a ''@odata.id'')) (\<lambda>uri.
            bnd (redfish_request env (json_str uri) ''PATCH'' (Some (JObj [(''Password'', JStr new)])) (Some t)) (\<lambda>_. ret ())))))) (\<lambda>_. ?L')"
      by (rule user) (use j found in auto)
  qed
qed

lemma sessions_servedD:
  assumes "sessions_served env ip pw tok"
  shows "rq_method rq = ''POST'' \<Longrightarrow> rq_url rq = session_url ip \<Longrightarrow> rq_json rq = Some (credentials u p) \<Longrightarrow> pw s u = Some p \<Longrightarrow>
      \<exists>rs s' t d l. be_request env rq s = (Inr rs, s') \<and> pw s' = pw s \<and> answered rs (JObj d) \<and> header rs ''X-Auth-Token'' = Some t \<and> t \<noteq> [] \<and>
        dget d ''@odata.id'' = Some (JStr l) \<and> l \<noteq> [] \<and> t \<in> tok s'"
    and "rq_method rq = ''POST'' \<Longrightarrow> rq_url rq = session_url ip \<Longrightarrow> rq_json rq = Some (credentials u p) \<Longrightarrow> pw s u \<noteq> Some p \<Longrightarrow>
      \<exists>rs s'. be_request env rq s = (Inr rs, s') \<and> pw s' = pw s \<and> rs_status rs \<ge> 400"
    and "rq_method rq = ''DELETE'' \<Longrightarrow> t \<in> tok s \<Longrightarrow> dget (rq_headers rq) ''X-Auth-Token'' = Some t \<Longrightarrow>
      \<exists>rs s'. be_request env rq s = (Inr rs, s') \<and> accepted rs \<and> pw s' = pw s"
    and "\<exists>s'. be_sleep env k s = (Inr (), s') \<and> pw s' = pw s"
proof -
  note c = assms [unfolded sessions_served_def]
  note c1 = c [THEN conjunct1, rule_format, of rq u p s] and c2 = c [THEN conjunct2, THEN conjunct1] and c3 = c [THEN conjunct2, THEN conjunct2]
  show "\<exists>rs s' t d l. be_request env rq s = (Inr rs, s') \<and> pw s' = pw s \<and> answered rs (JObj d) \<and> header rs ''X-Auth-Token'' = Some t \<and> t \<noteq> [] \<and>
        dget d ''@odata.id'' = Some (JStr l) \<and> l \<noteq> [] \<and> t \<in> tok s'"
    if "rq_method rq = ''POST''" "rq_url rq = session_url ip" "rq_json rq = Some (credentials u p)" "pw s u = Some p"
    using c1 [OF that(1-3)] that(4) by (simp only: if_True simp_thms) blast
  show "\<exists>rs s'. be_request env rq s = (Inr rs, s') \<and> pw s' = pw s \<and> rs_status rs \<ge> 400"
    if "rq_method rq = ''POST''" "rq_url rq = session_url ip" "rq_json rq = Some (credentials u p)" "pw s u \<noteq> Some p"
    using c1 [OF that(1-3)] that(4) by (simp only: if_False simp_thms)
  show "rq_method rq = ''DELETE'' \<Longrightarrow> t \<in> tok s \<Longrightarrow> dget (rq_headers rq) ''X-Auth-Token'' = Some t \<Longrightarrow>
      \<exists>rs s'. be_request env rq s = (Inr rs, s') \<and> accepted rs \<and> pw s' = pw s" using c2 by blast
  show "\<exists>s'. be_sleep env k s = (Inr (), s') \<and> pw s' = pw s" using c3 by blast
qed

lemma returns_session_request:
  assumes "sessions_served env ip pw tok" "P user = Some p"
  shows "returns (passwords ip user pw P) (get_session env p) (\<lambda>r x. \<exists>t l. r = Some (t, l) \<and> logged_in ip user pw tok t P x)"
proof (rule returnsI, clarsimp simp: passwords_def)
  fix s and b :: bmc assume b: "P = pw s" "ip = bm_ip_address b" "user = bm_username b" "bm_base_path b = None"
  let ?rq = "\<lparr>rq_method = ''POST'', rq_url = bmc_url b @ ''/redfish/v1/SessionService/Sessions'', rq_auth = None, rq_headers = HEADERS,
     rq_json = Some (credentials user p)\<rparr>"
  obtain rs s' t d l where r: "be_request env ?rq s = (Inr rs, s')" "pw s' = pw s" "answered rs (JObj d)"
    "header rs ''X-Auth-Token'' = Some t" "t \<noteq> []" "dget d ''@odata.id'' = Some (JStr l)" "l \<noteq> []" "t \<in> tok s'"
    using sessions_servedD(1) [OF assms(1), of ?rq user p s] assms(2) b by (auto simp: bmc_url_def session_url_def)
  then have "get_session env p (s, b) = (Inr (Some (t, JStr l)), (s', b))"
    using b by (simp add: get_session_def session_request_def answered_def session_location_def credentials_def Let_def)
  with r b show "\<exists>r s' b'. get_session env p (s, b) = (Inr r, s', b') \<and> (\<exists>t. (\<exists>l. r = Some (t, l)) \<and> logged_in (bm_ip_address b) (bm_username b) pw tok t (pw s) (s', b'))"
    by (auto simp: logged_in_def passwords_def)
qed

definition refuses :: "('s \<Rightarrow> bool) \<Rightarrow> ('s, 'a) act \<Rightarrow> bool" where
  "refuses P m \<longleftrightarrow> (\<forall>s. P s \<longrightarrow> (\<exists>e s'. m s = (Inl (RedfishRequestError e), s') \<and> P s'))"

lemma refuses_andthen: "refuses P m \<Longrightarrow> refuses P (andthen m k)"
  by (fastforce simp: refuses_def)

lemma refuses_session:
  assumes "sessions_served env ip pw tok" "P user \<noteq> Some p"
  shows "refuses (passwords ip user pw P) (with_session env p body)"
proof (unfold refuses_def, intro allI impI, clarsimp simp: passwords_def)
  fix s and b :: bmc assume b: "P = pw s" "ip = bm_ip_address b" "user = bm_username b" "bm_base_path b = None"
  let ?rq = "\<lparr>rq_method = ''POST'', rq_url = bmc_url b @ ''/redfish/v1/SessionService/Sessions'', rq_auth = None, rq_headers = HEADERS,
     rq_json = Some (credentials user p)\<rparr>"
  obtain rs s' where r: "be_request env ?rq s = (Inr rs, s')" "pw s' = pw s" "rs_status rs \<ge> 400"
    using sessions_servedD(2) [OF assms(1), of ?rq user p s] assms(2) b by (auto simp: bmc_url_def session_url_def)
  then have "with_session env p body (s, b) = (Inl (bmc_failure (bmc_url b @ ''/redfish/v1/SessionService/Sessions'') rs), (s', b))"
    using b by (simp add: with_session_def get_session_def session_request_def credentials_def Let_def)
  with r b show "\<exists>e s' b'. with_session env p body (s, b) = (Inl (RedfishRequestError e), s', b') \<and>
      bm_ip_address b' = bm_ip_address b \<and> bm_username b' = bm_username b \<and> bm_base_path b' = None \<and> pw s' = pw s"
    by (auto simp: bmc_failure_def)
qed

lemma returns_session:
  assumes "sessions_served env ip pw tok" "P user = Some p"
    and "\<And>t. returns (logged_in ip user pw tok t P) (body (Some t)) (\<lambda>_. logged_in ip user pw tok t P')"
  shows "returns (passwords ip user pw P) (with_session env p body) (\<lambda>_. passwords ip user pw P')"
proof -
  have close: "returns (logged_in ip user pw tok t P') (close_session env l (Some t)) (\<lambda>_. passwords ip user pw P')" for t l
  proof (rule returnsI, clarsimp simp: logged_in_def passwords_def)
    fix s and b :: bmc assume t: "t \<in> tok s" "t \<noteq> []" and b: "P' = pw s" "ip = bm_ip_address b" "user = bm_username b" "bm_base_path b = None"
    let ?rq = "\<lparr>rq_method = ''DELETE'', rq_url = bmc_url b @ json_str l, rq_auth = None,
      rq_headers = dput ''X-Auth-Token'' t HEADERS, rq_json = None\<rparr>"
    obtain rs s' where "be_request env ?rq s = (Inr rs, s')" "accepted rs" "pw s' = pw s"
      using sessions_servedD(3) [OF assms(1), of ?rq t s] t by (auto simp: dget_def)
    then show "\<exists>s' b'. close_session env l (Some t) (s, b) = (Inr (), s', b') \<and> bm_ip_address b' = bm_ip_address b \<and>
        bm_username b' = bm_username b \<and> bm_base_path b' = None \<and> pw s' = pw s"
      using t b by (auto simp: close_session_def redfish_request_def accepted_def Let_def)
  qed
  have "returns (\<lambda>x. \<exists>t l. a = Some (t, l) \<and> logged_in ip user pw tok t P x)
      (case a of None \<Rightarrow> body None | Some (token, session) \<Rightarrow> finally_act (body (Some token)) (close_session env session (Some token)))
      (\<lambda>_. passwords ip user pw P')" for a
  proof (cases a)
    case (Some tl)
    obtain t l where "tl = (t, l)" by force
    with Some returns_finally [OF assms(3) close, of t l] show ?thesis by (simp add: returns_def)
  qed (simp add: returns_def)
  then show ?thesis unfolding with_session_def by (rule returns_bnd [OF returns_session_request [where P = P and user = user, OF assms(1,2)]])
qed

lemma returns_log_in:
  assumes "sessions_served env ip pw tok" "accounts_served env ip pw tok service collection accounts owner"
    and "Some user \<in> owner ` set accounts" "P user = Some p"
  shows "returns (passwords ip user pw P) (log_in_and_set_password env p new) (\<lambda>_. passwords ip user pw (P(user \<mapsto> new)))"
  unfolding log_in_and_set_password_def
proof (rule returns_andthen)
  have "returns (passwords ip user pw P) (with_session env p (set_bmc_creds env new)) (\<lambda>_. passwords ip user pw (P(user \<mapsto> new)))"
    by (rule returns_session [where P = P and user = user, OF assms(1,4)], rule returns_creds [OF assms(2,3)])
  moreover have "P(user \<mapsto> new) = P" if "p = new" using assms(4) that by auto
  ultimately show "returns (passwords ip user pw P) (when_act (p \<noteq> new) (with_session env p (set_bmc_creds env new)))
      (\<lambda>_. passwords ip user pw (P(user \<mapsto> new)))"
    by (cases "p = new") (auto simp: when_act_def intro: returns_ret)
  show "returns (passwords ip user pw (P(user \<mapsto> new))) (with_session env new (\<lambda>_. ret ())) (\<lambda>_. passwords ip user pw (P(user \<mapsto> new)))"
    by (rule returns_session [OF assms(1)]) (auto intro: returns_ret)
qed

lemma refuses_log_in:
  assumes "sessions_served env ip pw tok" "P user \<noteq> Some p"
  shows "refuses (passwords ip user pw P) (log_in_and_set_password env p new)"
proof (cases "p = new")
  case True
  then show ?thesis using refuses_session [where P = P and user = user, OF assms, of "\<lambda>_. ret ()"]
    by (simp add: refuses_def log_in_and_set_password_def)
next
  case False
  then show ?thesis using refuses_session [where P = P and user = user, OF assms, of "set_bmc_creds env new"]
    unfolding log_in_and_set_password_def by (intro refuses_andthen) (simp add: when_act_def)
qed

lemma returns_try_passwords:
  assumes "sessions_served env ip pw tok" "accounts_served env ip pw tok service collection accounts owner"
    and "Some user \<in> owner ` set accounts" "P user = Some p"
  shows "p \<in> set ps \<Longrightarrow> returns (passwords ip user pw P) (try_passwords env a new k ps) (\<lambda>_. passwords ip user pw (P(user \<mapsto> new)))"
proof (induction ps arbitrary: k)
  case (Cons q ps)
  let ?P = "passwords ip user pw P" and ?Q = "\<lambda>_. passwords ip user pw (P(user \<mapsto> new))"
  have "\<exists>s'. on_world (be_sleep env 60) (s, b) = (Inr (), (s', b)) \<and> pw s' = pw s" for s and b :: bmc
    using sessions_servedD(4) [OF assms(1), of 60 s] by auto
  then have "returns ?P (on_world (be_sleep env 60)) (\<lambda>_. ?P)"
    by (fastforce simp: returns_def passwords_def simp del: on_world_apply)
  then have sleep: "returns ?P (when_act (k > 1) (on_world (be_sleep env 60))) (\<lambda>_. ?P)"
    by (cases "k > 1") (auto simp: when_act_def intro: returns_ret)
  show ?case unfolding try_passwords.simps
  proof (rule returns_andthen [OF sleep])
    show "returns ?P (try_except (log_in_and_set_password env q new) (\<lambda>e. case e of
        RedfishRequestError _ \<Rightarrow> try_passwords env a new (k + 1) ps | _ \<Rightarrow> raise_exn e)) ?Q"
    proof (cases "q = p")
      case True
      then show ?thesis using returns_log_in [where P = P and user = user, OF assms, of new] by (fastforce simp: returns_def)
    next
      case False
      then have "refuses ?P (log_in_and_set_password env q new)" using assms(4) by (intro refuses_log_in [OF assms(1)]) simp
      moreover have "returns ?P (try_passwords env a new (k + 1) ps) ?Q" using Cons.prems False by (intro Cons.IH) simp
      ultimately show ?thesis by (fastforce simp: refuses_def returns_def)
    qed
  qed
qed simp


section \<open>A controller\<close>

text \<open>
  A controller with one account, \<open>root\<close>, whose password is part of the world's state; the other resources are
  constant and accept any \<open>PATCH\<close>.
\<close>

fun login_of :: "json option \<Rightarrow> (string \<times> string) option" where
  "login_of (Some (JObj [(a, JStr u), (b, JStr p)])) = (if a = ''UserName'' \<and> b = ''Password'' then Some (u, p) else None)"
| "login_of _ = None"

fun password_of :: "json option \<Rightarrow> string option" where
  "password_of (Some (JObj [(a, JStr p)])) = (if a = ''Password'' then Some p else None)"
| "password_of _ = None"

definition root_account :: string where
  "root_account = ''/redfish/v1/AccountService/Accounts/1''"

definition link :: "string \<Rightarrow> json" where
  "link path = JObj [(''@odata.id'', JStr path)]"

definition account_docs :: "json dict" where
  "account_docs = [(''/redfish/v1'', JObj [(''AccountService'', link ''/redfish/v1/AccountService'')]),
     (''/redfish/v1/AccountService'', JObj [(''Accounts'', link ''/redfish/v1/AccountService/Accounts'')]),
     (''/redfish/v1/AccountService/Accounts'', JObj [(''Members'', JList [link root_account])]),
     (root_account, JObj [(''@odata.id'', JStr root_account), (''UserName'', JStr ''root'')])]"

definition reply :: "int \<Rightarrow> json \<Rightarrow> string dict \<Rightarrow> http_response" where
  "reply status j headers = \<lparr>rs_status = status, rs_reason = [], rs_text = ''{}'', rs_headers = headers, rs_json = Inr j\<rparr>"

definition controller :: "('s \<Rightarrow> string dict) \<Rightarrow> (string dict \<Rightarrow> 's \<Rightarrow> 's) \<Rightarrow> string \<Rightarrow> json dict \<Rightarrow> 's bmc_env" where
  "controller look store ip docs = \<lparr>be_request = (\<lambda>rq s.
     if rq_method rq = ''POST'' then
       (case login_of (rq_json rq) of
          Some (u, p) \<Rightarrow> if rq_url rq = session_url ip \<and> dget (look s) u = Some p
            then (Inr (reply 201 (link ''/redfish/v1/SessionService/Sessions/1'') [(''x-auth-token'', ''secret'')]), s) else (Inr (reply 401 (JObj []) []), s)
        | None \<Rightarrow> (Inr (reply 400 (JObj []) []), s))
     else if rq_method rq = ''GET'' then
       (case dget (account_docs @ docs) (drop (length (''https://'' @ ip)) (rq_url rq)) of
          Some j \<Rightarrow> (Inr (reply 200 j []), s) | None \<Rightarrow> (Inr (reply 404 (JObj []) []), s))
     else if rq_method rq = ''PATCH'' \<and> rq_url rq = ''https://'' @ ip @ root_account then
       (case password_of (rq_json rq) of
          Some p \<Rightarrow> (Inr (reply 200 (JObj []) []), store (dput ''root'' p (look s)) s) | None \<Rightarrow> (Inr (reply 400 (JObj []) []), s))
     else (Inr (reply 200 (JObj []) []), s)), be_sleep = (\<lambda>_. ret ()), be_getenv = (\<lambda>_. None)\<rparr>"

definition root_owner :: "string \<Rightarrow> string option" where
  "root_owner path = (if path = root_account then Some ''root'' else None)"

lemma login_of_credentials [simp]: "login_of (Some (credentials u p)) = Some (u, p)"
  by (simp add: credentials_def)

lemma password_of_Some: "password_of j = Some p \<longleftrightarrow> j = Some (JObj [(''Password'', JStr p)])"
  by (induction j rule: password_of.induct) auto

definition no_accounts :: "json dict \<Rightarrow> bool" where
  "no_accounts docs = list_all (\<lambda>(_, j). case j of JObj d \<Rightarrow> dget d ''UserName'' = None | _ \<Rightarrow> True) docs"

lemma controller_GET:
  assumes "no_accounts docs" "dget (account_docs @ docs) path = Some (JObj d)" "dget d ''UserName'' = Some (JStr n)" "dget d ''@odata.id'' = Some u"
  shows "root_owner (json_str u) = Some n"
proof -
  have "(path, JObj d) \<in> set (account_docs @ docs)" using assms(2) unfolding dget_def by (rule map_of_SomeD)
  moreover have "(path, JObj d) \<notin> set docs" using assms(1,3) by (fastforce simp: no_accounts_def list_all_iff)
  ultimately have "(path, JObj d) \<in> set account_docs" by simp
  then show ?thesis using assms(3,4) by (auto simp: account_docs_def link_def dget_def root_owner_def split: if_splits)
qed

lemma accounts_ok_controller:
  assumes "no_accounts docs" "\<And>d s. look (store d s) = d"
  shows "accounts_ok (controller look store ip docs) ip (\<lambda>s u. dget (look s) u) root_owner"
  unfolding accounts_ok_def
proof (intro conjI allI impI)
  show "dget (look s) u = Some p"
    if "be_request (controller look store ip docs) rq s = (Inr rs, s')" "rs_status rs < 400" "rq_method rq = ''POST''"
      "rq_json rq = Some (credentials u p)" for rq s rs s' u p
    using that by (auto simp: controller_def reply_def split: if_splits)
  show "root_owner (json_str u) = Some n"
    if "be_request (controller look store ip docs) rq s = (Inr rs, s')" "rs_status rs < 400" "rq_method rq = ''GET''"
      "rs_json rs = Inr (JObj d)" "dget d ''UserName'' = Some (JStr n)" "dget d ''@odata.id'' = Some u" for rq s rs s' d u n
    using that controller_GET [OF assms(1)] by (auto simp: controller_def reply_def split: option.splits)
  show "(\<lambda>u. dget (look s') u) = (\<lambda>u. dget (look s) u) \<or> (\<exists>path p n. rq_method rq = ''PATCH'' \<and> rq_url rq = ''https://'' @ ip @ path \<and>
      rq_json rq = Some (JObj [(''Password'', JStr p)]) \<and> root_owner path = Some n \<and> (\<lambda>u. dget (look s') u) = (\<lambda>u. dget (look s) u)(n \<mapsto> p))"
    if "be_request (controller look store ip docs) rq s = (r, s')" for rq s r s'
  proof (cases "rq_method rq = ''PATCH'' \<and> rq_url rq = ''https://'' @ ip @ root_account \<and> password_of (rq_json rq) \<noteq> None")
    case True
    then obtain p where p: "rq_json rq = Some (JObj [(''Password'', JStr p)])" by (auto simp: password_of_Some)
    then have "s' = store (dput ''root'' p (look s)) s" using that True by (auto simp: controller_def)
    then have "(\<lambda>u. dget (look s') u) = (\<lambda>u. dget (look s) u)(''root'' \<mapsto> p)" using assms(2) by (auto simp: dget_def)
    moreover have "root_owner root_account = Some ''root''" by (simp add: root_owner_def)
    ultimately show ?thesis using True p by blast
  next
    case False
    then have "s' = s" using that by (auto simp: controller_def split: if_splits option.splits)
    then show ?thesis by simp
  qed
  show "(\<lambda>u. dget (look s') u) = (\<lambda>u. dget (look s) u)" if "be_sleep (controller look store ip docs) k s = (r, s')" for k s r s'
    using that by (simp add: controller_def)
qed

lemma sessions_served_controller:
  "sessions_served (controller look store ip docs) ip (\<lambda>s u. dget (look s) u) (\<lambda>_. {''secret''})"
  unfolding sessions_served_def
proof (intro conjI allI impI)
  fix rq :: http_request and s u p
  assume rq: "rq_method rq = ''POST''" "rq_url rq = session_url ip" "rq_json rq = Some (credentials u p)"
  let ?env = "controller look store ip docs"
  show "\<exists>rs s'. be_request ?env rq s = (Inr rs, s') \<and> (\<lambda>u. dget (look s') u) = (\<lambda>u. dget (look s) u) \<and>
    (if dget (look s) u = Some p then \<exists>t d l. answered rs (JObj d) \<and> header rs ''X-Auth-Token'' = Some t \<and> t \<noteq> [] \<and>
        dget d ''@odata.id'' = Some (JStr l) \<and> l \<noteq> [] \<and> t \<in> {''secret''}
     else rs_status rs \<ge> 400)"
  proof (cases "dget (look s) u = Some p")
    case True
    have "header (reply 201 j [(''x-auth-token'', ''secret'')]) ''X-Auth-Token'' = Some ''secret''" for j
      by (simp add: header_def reply_def, code_simp)
    with True rq show ?thesis by (simp add: controller_def answered_def link_def dget_def) (simp add: reply_def)
  qed (use rq in \<open>simp add: controller_def reply_def\<close>)
next
  fix rq :: http_request and s t assume "rq_method rq = ''DELETE''"
  then show "\<exists>rs s'. be_request (controller look store ip docs) rq s = (Inr rs, s') \<and> accepted rs \<and> (\<lambda>u. dget (look s') u) = (\<lambda>u. dget (look s) u)"
    by (simp add: controller_def accepted_def reply_def)
qed (simp add: controller_def)

lemma accounts_served_controller:
  assumes "\<And>d s. look (store d s) = d"
  shows "accounts_served (controller look store ip docs) ip (\<lambda>s u. dget (look s) u) (\<lambda>_. {''secret''})
    ''/redfish/v1/AccountService'' ''/redfish/v1/AccountService/Accounts'' [root_account] root_owner"
  unfolding accounts_served_def
proof (intro conjI allI impI)
  fix rq :: http_request and s path spec
  assume rq: "rq_method rq = ''GET''" "rq_url rq = ''https://'' @ ip @ path"
    and r: "(path, spec) \<in> account_resources ''/redfish/v1/AccountService'' ''/redfish/v1/AccountService/Accounts'' [root_account] root_owner"
  have "\<exists>j. dget account_docs path = Some j \<and> spec j"
    using r by (auto simp: account_resources_def account_docs_def linked_path_def link_def dget_def root_account_def root_owner_def)
  then obtain j where j: "dget (account_docs @ docs) path = Some j" "spec j" by (auto simp: dget_def map_add_def)
  from rq j(1) have "be_request (controller look store ip docs) rq s = (Inr (reply 200 j []), s)"
    by (simp add: controller_def)
  with j(2) show "\<exists>rs s' j. be_request (controller look store ip docs) rq s = (Inr rs, s') \<and> answered rs j \<and> spec j \<and>
      (\<lambda>u. dget (look s') u) = (\<lambda>u. dget (look s) u) \<and> {''secret''} = {''secret''}"
    by (auto simp: answered_def reply_def)
next
  fix rq :: http_request and s a n p
  assume rq: "rq_method rq = ''PATCH''" "rq_url rq = ''https://'' @ ip @ a" "a \<in> set [root_account]" "root_owner a = Some n"
    "rq_json rq = Some (JObj [(''Password'', JStr p)])"
  then have "n = ''root''" by (simp add: root_owner_def)
  moreover have "be_request (controller look store ip docs) rq s = (Inr (reply 200 (JObj []) []), store (dput ''root'' p (look s)) s)"
    using rq by (simp add: controller_def)
  ultimately show "\<exists>rs s'. be_request (controller look store ip docs) rq s = (Inr rs, s') \<and> accepted rs \<and>
      (\<lambda>u. dget (look s') u) = (\<lambda>u. dget (look s) u)(n \<mapsto> p) \<and> {''secret''} = {''secret''}"
    by (auto simp: accepted_def reply_def assms dget_def)
qed

lemma controller_keeps:
  assumes "\<And>d. f (store d s) = f s"
  shows "f (snd (be_request (controller look store ip docs) rq s)) = f s" "f (snd (be_sleep (controller look store ip docs) n s)) = f s"
  using assms by (auto simp: controller_def split: option.split)

definition id_controller :: "(string dict) bmc_env" where
  "id_controller = controller (\<lambda>s. s) (\<lambda>d _. d) ''10.0.0.1'' []"

lemmas id_controller_ok =
  accounts_ok_controller [where look = "\<lambda>s. s" and store = "\<lambda>d _. d" and ip = "''10.0.0.1''" and docs = "[]", folded id_controller_def, simplified no_accounts_def, simplified]

theorem bmc_password_safe_witness:
  "\<exists>s'. set_bmc_password id_controller ''10.0.0.1'' ''prod'' ''root'' None [(''root'', ''calvin'')] = (Inr (), s') \<and> dget s' ''root'' = Some ''prod''"
proof -
  obtain r s' where e: "set_bmc_password id_controller ''10.0.0.1'' ''prod'' ''root'' None [(''root'', ''calvin'')] = (r, s')" by force
  have "fst (set_bmc_password id_controller ''10.0.0.1'' ''prod'' ''root'' None [(''root'', ''calvin'')]) = Inr ()" by code_simp
  with e have "r = Inr ()" by simp
  with e bmc_password_safe [OF id_controller_ok e] show ?thesis by simp
qed


end
