(* ===== verification/Py_Net.thy ===== *)
theory Py_Net
  imports Py_Str
begin

text \<open>
  The functions of Python's \<open>ipaddress\<close> and \<open>base64\<close> modules that the management controller workflows use:
  IPv4 addresses and interfaces with their text, the syntax of IPv6 addresses, and \<open>b64encode\<close>.
\<close>

section \<open>IPv4\<close>

definition octet :: "string \<Rightarrow> int option" where
  "octet t =
     (if t = [] \<or> \<not> list_all is_digit t \<or> length t > 3 \<or> (t \<noteq> ''0'' \<and> hd t = CHR ''0'') then None
      else case digits t of Some n \<Rightarrow> if n > 255 then None else Some n | None \<Rightarrow> None)"

definition ipv4_address :: "string \<Rightarrow> exn + int" where
  "ipv4_address s =
     (let octets = map octet (split_on CHR ''.'' s) in
      if length octets = 4 \<and> None \<notin> set octets then Inr (fold (\<lambda>n acc. acc * 256 + the n) octets 0) else Inl (ValueError s))"

definition netmask_int :: "nat \<Rightarrow> int" where
  "netmask_int p = 2 ^ 32 - 2 ^ (32 - p)"

definition prefix_of_mask :: "int \<Rightarrow> nat option" where
  "prefix_of_mask m = find (\<lambda>p. netmask_int p = m) [0..<33]"

text \<open>A netmask is a prefix length, a mask or an inverted mask.\<close>

definition make_netmask :: "string \<Rightarrow> exn + nat" where
  "make_netmask t =
     (case (if t \<noteq> [] \<and> list_all is_digit t then digits t else None) of
        Some n \<Rightarrow> if n \<le> 32 then Inr (nat n) else Inl (ValueError t)
      | None \<Rightarrow> sbnd (ipv4_address t) (\<lambda>m.
          case prefix_of_mask m of
            Some p \<Rightarrow> Inr p
          | None \<Rightarrow> (case prefix_of_mask (2 ^ 32 - 1 - m) of Some p \<Rightarrow> Inr p | None \<Rightarrow> Inl (ValueError t))))"

record ipv4_interface =
  ii_ip :: int
  ii_prefixlen :: nat

definition parse_ipv4_interface :: "string \<Rightarrow> exn + ipv4_interface" where
  "parse_ipv4_interface s =
     (case split_on CHR ''/'' s of
        [a] \<Rightarrow> sbnd (ipv4_address a) (\<lambda>i. Inr \<lparr>ii_ip = i, ii_prefixlen = 32\<rparr>)
      | [a, m] \<Rightarrow> sbnd (ipv4_address a) (\<lambda>i. sbnd (make_netmask m) (\<lambda>p. Inr \<lparr>ii_ip = i, ii_prefixlen = p\<rparr>))
      | _ \<Rightarrow> Inl (ValueError s))"

definition ipv4_text :: "int \<Rightarrow> string" where
  "ipv4_text i = join ''.'' (map show_int [i div 2 ^ 24 mod 256, i div 2 ^ 16 mod 256, i div 2 ^ 8 mod 256, i mod 256])"

section \<open>IPv6\<close>

definition hextet_ok :: "string \<Rightarrow> bool" where
  "hextet_ok t \<longleftrightarrow> t \<noteq> [] \<and> length t \<le> 4 \<and> list_all (\<lambda>c. hex_val c \<noteq> None) t"

text \<open>The parts between colons; an IPv4 address at the end stands for two of them.\<close>

definition ipv6_parts_ok :: "string list \<Rightarrow> bool" where
  "ipv6_parts_ok parts =
     (let skips = filter (\<lambda>i. parts ! i = []) [1..<length parts - 1] in
      length parts \<le> 9 \<and>
      (case skips of
         [] \<Rightarrow> length parts = 8 \<and> list_all hextet_ok parts
       | [k] \<Rightarrow>
           let hi = (if hd parts = [] then k - 1 else k);
               lo = (if last parts = [] then length parts - k - 2 else length parts - k - 1) in
           (hd parts = [] \<longrightarrow> hi = 0) \<and> (last parts = [] \<longrightarrow> lo = 0) \<and> hi + lo < 8 \<and>
           list_all hextet_ok (take hi parts) \<and> list_all hextet_ok (drop (length parts - lo) parts)
       | _ \<Rightarrow> False))"

definition ipv6_ok :: "string \<Rightarrow> bool" where
  "ipv6_ok s =
     (case split_on CHR ''%'' s of
        [] \<Rightarrow> False
      | address # scope \<Rightarrow>
          (scope = [] \<or> (length scope = 1 \<and> scope \<noteq> [[]])) \<and> CHR ''/'' \<notin> set s \<and>
          (let parts = split_on CHR '':'' address in
           length parts \<ge> 3 \<and>
           (if CHR ''.'' \<in> set (last parts)
            then (case ipv4_address (last parts) of Inr _ \<Rightarrow> True | Inl _ \<Rightarrow> False) \<and> ipv6_parts_ok (butlast parts @ [''0'', ''0''])
            else ipv6_parts_ok parts)))"

definition ip_address_ok :: "string \<Rightarrow> bool" where
  "ip_address_ok s \<longleftrightarrow> (case ipv4_address s of Inr _ \<Rightarrow> True | Inl _ \<Rightarrow> ipv6_ok s)"

section \<open>Base 64\<close>

definition b64_char :: "nat \<Rightarrow> char" where
  "b64_char n = char_of (if n < 26 then 65 + n else if n < 52 then 71 + n else if n < 62 then n - 4 else if n = 62 then 43 else 47)"

fun b64encode :: "nat list \<Rightarrow> string" where
  "b64encode (a # b # c # bs) =
     map b64_char [a div 4, a mod 4 * 16 + b div 16, b mod 16 * 4 + c div 64, c mod 64] @ b64encode bs"
| "b64encode [a, b] = map b64_char [a div 4, a mod 4 * 16 + b div 16, b mod 16 * 4] @ ''=''"
| "b64encode [a] = map b64_char [a div 4, a mod 4 * 16] @ ''==''"
| "b64encode [] = []"

lemma length_b64encode: "length (b64encode bs) = 4 * ((length bs + 2) div 3)"
proof (induction bs rule: b64encode.induct)
  case (1 a b c bs)
  have "length (a # b # c # bs) + 2 = (length bs + 2) + 3" by simp
  then have "(length (a # b # c # bs) + 2) div 3 = (length bs + 2) div 3 + 1" by (simp only: div_add_self2 [of "3 :: nat"])
  with 1 show ?case by simp
qed simp_all

end
