(* ===== verification/Bmc_Config.thy ===== *)
theory Bmc_Config
  imports Redfish Py_Net
begin

text \<open>
  The settings of a management controller and of the server behind it: \<open>bmc_bios.py\<close>, \<open>bmc_settings.py\<close>,
  \<open>bmc_hostname.py\<close>, \<open>bmc_network_config.py\<close>, \<open>bmc_power.py\<close>, \<open>bmc_chassis_info.py\<close>, \<open>bmc_password_standard.py\<close> and
  \<open>bmc_for_ip_address\<close> of \<open>bmc.py\<close>, all in \<open>understack_workflows\<close>.

  The key derivation \<open>pbkdf2_hmac\<close> is a parameter, the bytes it derives from a text.
\<close>

section \<open>BIOS settings\<close>

definition required_bios_settings :: "string option \<Rightarrow> string dict" where
  "required_bios_settings pxe_interface =
     [(''HttpDev1TlsMode'', ''None''), (''TimeZone'', ''UTC''), (''OS-BMC.1.AdminState'', ''Disabled''),
      (''IPMILan.1.Enable'', ''Disabled''), (''SecureBoot'', ''Disabled''), (''PxeDev1EnDis'', ''Disabled''),
      (''HttpDev1EnDis'', ''Enabled''), (''HttpDev2EnDis'', ''Disabled''), (''HttpDev3EnDis'', ''Disabled''),
      (''HttpDev4EnDis'', ''Disabled'')] @
     (if truthy pxe_interface then [(''HttpDev1Interface'', the pxe_interface)] else [])"

definition required_change_for_bios_setting :: "string \<Rightarrow> string \<Rightarrow> json dict \<Rightarrow> json dict \<Rightarrow> string option" where
  "required_change_for_bios_setting key required_value current_settings pending_settings =
     (if jget current_settings key = None then None
      else if jget pending_settings key = Some (JStr required_value) then None
      else if jget pending_settings key \<noteq> None then Some required_value
      else if jget current_settings key = Some (JStr required_value) then None
      else Some required_value)"

definition bios_changes :: "string dict \<Rightarrow> json dict \<times> json dict \<Rightarrow> string dict" where
  "bios_changes required_settings settings = (case settings of (current_settings, pending_settings) \<Rightarrow>
     concat (map (\<lambda>(key, required_value).
       case required_change_for_bios_setting key required_value current_settings pending_settings of
         None \<Rightarrow> [] | Some v \<Rightarrow> [(key, v)]) required_settings))"

definition bios_payload :: "string dict \<Rightarrow> json" where
  "bios_payload new_settings = JObj [(''@Redfish.SettingsApplyTime'', JObj [(''ApplyTime'', JStr ''OnReset'')]),
     (''Attributes'', JObj (map (\<lambda>(k, v). (k, JStr v)) new_settings))]"

definition patch_bios_settings :: "'s bmc_env \<Rightarrow> string dict \<Rightarrow> ('s, unit) bmc_act" where
  "patch_bios_settings env new_settings =
     bnd (system_path env) (\<lambda>path.
     try_except (bnd (redfish_request env (path @ ''/Bios/Settings'') ''PATCH'' (Some (bios_payload new_settings)) None) (\<lambda>_. ret ()))
       (\<lambda>e. case e of
          RedfishRequestError m \<Rightarrow> if contains ''Pending configuration values'' m then ret () else raise_exn e
        | _ \<Rightarrow> raise_exn e))"

definition update_dell_bios_settings :: "'s bmc_env \<Rightarrow> string option \<Rightarrow> ('s, string dict) bmc_act" where
  "update_dell_bios_settings env pxe_interface =
     bnd (system_path env) (\<lambda>path.
     bnd (redfish_get env (path @ ''/Bios'')) (\<lambda>bios.
     bnd (of_sum (jitem bios ''Attributes'')) (\<lambda>current_settings.
     bnd (system_path env) (\<lambda>path.
     bnd (redfish_get env (path @ ''/Bios/Settings'')) (\<lambda>settings.
     bnd (of_sum (jobject ''get'' settings)) (\<lambda>d.
     bnd (of_sum (jobject ''get'' current_settings)) (\<lambda>current.
     bnd (of_sum (jobject ''get'' (jget_default d ''Attributes'' (JObj [])))) (\<lambda>pending.
       let required_changes = bios_changes (required_bios_settings pxe_interface) (current, pending) in
       andthen (when_act (required_changes \<noteq> []) (patch_bios_settings env required_changes)) (ret required_changes)))))))))"

section \<open>Controller settings\<close>

definition env_value :: "'s bmc_env \<Rightarrow> string \<Rightarrow> json" where
  "env_value env name = (case be_getenv env name of None \<Rightarrow> JNull | Some t \<Rightarrow> JStr t)"

definition REQUIRED_VALUES :: "'s bmc_env \<Rightarrow> json dict" where
  "REQUIRED_VALUES env =
     [(''SNMP.1.AgentEnable'', JStr ''Enabled''), (''SNMP.1.SNMPProtocol'', JStr ''All''), (''SNMP.1.AgentCommunity'', JStr ''public''),
      (''SNMP.1.AlertPort'', JNum 161), (''SwitchConnectionView.1.Enable'', JStr ''Enabled''),
      (''NTPConfigGroup.1.NTPEnable'', JStr ''Disabled''), (''Time.1.Timezone'', JStr ''UTC''),
      (''IPv4.1.DNS1'', env_value env ''DNS_SERVER_IPV4_ADDR_1''), (''IPv4.1.DNS2'', env_value env ''DNS_SERVER_IPV4_ADDR_2'')]"

definition VALUES_TO_POST :: "'s bmc_env \<Rightarrow> json dict" where
  "VALUES_TO_POST env = dput ''SNMP.1.SNMPProtocol'' (JStr ''0'') (dput ''SNMP.1.AgentEnable'' (JStr ''1'') (REQUIRED_VALUES env))"

fun drac_changes :: "json dict \<Rightarrow> json \<Rightarrow> json dict \<Rightarrow> exn + json dict" where
  "drac_changes to_post current_values [] = Inr []"
| "drac_changes to_post current_values ((key, required_value) # required) =
     (if \<not> json_truthy required_value then drac_changes to_post current_values required
      else sbnd (jin key current_values) (\<lambda>present.
        if \<not> present then drac_changes to_post current_values required
        else sbnd (jitem current_values key) (\<lambda>v.
          if v = required_value then drac_changes to_post current_values required
          else (case dget to_post key of
              None \<Rightarrow> Inl (KeyError key)
            | Some post \<Rightarrow> sbnd (drac_changes to_post current_values required) (\<lambda>rest. Inr ((key, post) # rest))))))"

definition update_dell_drac_settings :: "'s bmc_env \<Rightarrow> ('s, json dict) bmc_act" where
  "update_dell_drac_settings env =
     bnd (manager_path env) (\<lambda>path.
     bnd (redfish_get env (path @ ''/Attributes'')) (\<lambda>data.
     bnd (of_sum (jitem data ''Attributes'')) (\<lambda>current_values.
     bnd (of_sum (drac_changes (VALUES_TO_POST env) current_values (REQUIRED_VALUES env))) (\<lambda>required_changes.
     andthen (when_act (required_changes \<noteq> [])
       (bnd (redfish_request env (path @ ''/Attributes'') ''PATCH'' (Some (JObj [(''Attributes'', JObj required_changes)])) None) (\<lambda>_. ret ())))
     (ret required_changes)))))"

definition bmc_get_mgmt_interface :: "'s bmc_env \<Rightarrow> ('s, string) bmc_act" where
  "bmc_get_mgmt_interface env = bnd (manager_path env) (\<lambda>path. bnd (redfish_get env (path @ ''/EthernetInterfaces'')) (\<lambda>data.
     of_sum (sbnd (first_member_path data) (\<lambda>p. Inr (json_str p)))))"

definition bmc_set_hostname :: "'s bmc_env \<Rightarrow> string \<Rightarrow> string \<Rightarrow> ('s, unit) bmc_act" where
  "bmc_set_hostname env current_name new_name =
     (if current_name = [] \<or> new_name = [] then raise_exn (ValueError ''Invalid input parameters'')
      else if current_name = new_name then ret ()
      else bnd (bmc_get_mgmt_interface env) (\<lambda>interface_path.
        bnd (redfish_request env interface_path ''PATCH'' (Some (JObj [(''HostName'', JStr new_name)])) None) (\<lambda>_. ret ())))"

definition bmc_power_on :: "'s bmc_env \<Rightarrow> ('s, unit) bmc_act" where
  "bmc_power_on env = bnd (system_path env) (\<lambda>path.
     bnd (redfish_request env (path @ ''/Actions/ComputerSystem.Reset'') ''POST'' (Some (JObj [(''ResetType'', JStr ''On'')])) None) (\<lambda>_. ret ()))"

section \<open>The chassis\<close>

record interface_info =
  if_name :: string
  if_description :: string
  if_mac_address :: string
  if_hostname :: "json option"
  if_ipv4_address :: "ipv4_interface option"
  if_ipv4_gateway :: "int option"
  if_dhcp :: bool

record chassis =
  ch_manufacturer :: string
  ch_model_number :: json
  ch_serial_number :: json
  ch_bmc_ip_address :: string
  ch_bios_version :: json
  ch_power_on :: bool
  ch_bmc_interface :: interface_info
  ch_memory_gib :: json
  ch_cpu :: json

definition bmc_hostname :: "chassis \<Rightarrow> string" where
  "bmc_hostname c = (case if_hostname (ch_bmc_interface c) of None \<Rightarrow> ''None'' | Some v \<Rightarrow> json_str v)"

definition normalise_manufacturer :: "string \<Rightarrow> exn + string" where
  "normalise_manufacturer name =
     (if contains ''DELL'' (py_upper name) then Inr ''Dell''
      else if contains ''HP'' (py_upper name) then Inr ''HP''
      else Inl (ValueError (''Server manufacturer '' @ name @ '' not supported'')))"

fun hex_upper :: "nat \<Rightarrow> string" where
  "hex_upper n = (if n < 16 then [upper_char (hex_char n)] else hex_upper (n div 16) @ [upper_char (hex_char (n mod 16))])"

declare hex_upper.simps [simp del]

text \<open>\<open>f"{n:02X}"\<close>.\<close>

definition format_02X :: "int \<Rightarrow> string" where
  "format_02X n = (if n < 0 then CHR ''-'' # hex_upper (nat (- n))
     else let t = hex_upper (nat n) in if length t < 2 then CHR ''0'' # t else t)"

definition normalise_mac :: "string \<Rightarrow> exn + string" where
  "normalise_mac mac =
     sbnd (smap (\<lambda>n. case py_int16 n of None \<Rightarrow> Inl (ValueError n) | Some i \<Rightarrow> Inr (format_02X i)) (split_on CHR '':'' mac))
       (\<lambda>parts. Inr (join '':'' parts))"

definition lower_keys :: "json dict \<Rightarrow> json dict" where
  "lower_keys data = foldl (\<lambda>d (k, v). dput (py_lower k) v d) [] data"

definition parse_ipv4 :: "json \<Rightarrow> exn + (ipv4_interface \<times> int \<times> bool) option" where
  "parse_ipv4 data =
     (if \<not> json_truthy data then Inr None
      else sbnd (jindex0 data) (\<lambda>first.
        sbnd (jitem first ''AddressOrigin'') (\<lambda>origin.
        sbnd (jitem first ''Address'') (\<lambda>address.
        sbnd (jitem first ''SubnetMask'') (\<lambda>netmask.
        sbnd (jitem first ''Gateway'') (\<lambda>gateway.
        sbnd (parse_ipv4_interface (json_str address @ ''/'' @ json_str netmask)) (\<lambda>ipv4_address.
        sbnd (Py_Net.ipv4_address (json_str gateway)) (\<lambda>ipv4_gateway.
        Inr (Some (ipv4_address, ipv4_gateway, origin = JStr ''DHCP''))))))))))"

definition get_system_vendor :: "'s bmc_env \<Rightarrow> ('s, string) bmc_act" where
  "get_system_vendor env = bnd (system_path env) (\<lambda>path. bnd (redfish_get env path) (\<lambda>data.
     of_sum (sbnd (jitem data ''Oem'') (\<lambda>oem. sbnd (jiter oem) (\<lambda>vendors.
       case vendors of
         [] \<Rightarrow> Inl (PyException ''StopIteration'' [])
       | v # _ \<Rightarrow> sbnd (jstring ''upper'' v) normalise_manufacturer)))))"

definition opt_str :: "json option \<Rightarrow> string" where
  "opt_str v = (case v of None \<Rightarrow> ''None'' | Some j \<Rightarrow> json_str j)"

definition bmc_interface :: "'s bmc_env \<Rightarrow> ('s, interface_info) bmc_act" where
  "bmc_interface env =
     bnd (manager_path env) (\<lambda>path.
     bnd (redfish_get env (path @ ''/EthernetInterfaces/'')) (\<lambda>index_data.
     bnd (of_sum (first_member_path index_data)) (\<lambda>interface.
     bnd (redfish_get env (json_str interface)) (\<lambda>raw.
     bnd (of_sum (sbnd (jitem raw ''IPv4Addresses'') parse_ipv4)) (\<lambda>ipv4.
     bnd (of_sum (sbnd (jobject ''items'' raw) (\<lambda>d. Inr (lower_keys d)))) (\<lambda>data.
     bnd (get_system_vendor env) (\<lambda>vendor.
     bnd (if vendor = ''Dell'' then ret (''iDRAC'', ''Dedicated iDRAC interface'')
          else bnd (get_system_vendor env) (\<lambda>vendor.
            ret (if vendor = ''HP'' then ''iLO'' else ''BMC'', opt_str (jget data ''name'')))) (\<lambda>(bmc_name, bmc_description).
     bnd (of_sum (normalise_mac (opt_str (jget data ''macaddress'')))) (\<lambda>bmc_mac.
     ret \<lparr>if_name = bmc_name, if_description = bmc_description, if_mac_address = bmc_mac, if_hostname = jget data ''hostname'',
          if_ipv4_address = map_option fst ipv4, if_ipv4_gateway = map_option (\<lambda>(_, g, _). g) ipv4,
          if_dhcp = (case ipv4 of None \<Rightarrow> False | Some (_, _, dhcp) \<Rightarrow> dhcp)\<rparr>)))))))))"

definition nested_get :: "json dict \<Rightarrow> string \<Rightarrow> string \<Rightarrow> json \<Rightarrow> exn + json" where
  "nested_get d k k' v = sbnd (jobject ''get'' (jget_default d k (JObj []))) (\<lambda>e. Inr (jget_default e k' v))"

definition chassis_info :: "'s bmc_env \<Rightarrow> ('s, chassis) bmc_act" where
  "chassis_info env =
     bnd (system_path env) (\<lambda>path.
     bnd (redfish_get env path) (\<lambda>chassis_data.
     bnd (of_sum (sbnd (jitem chassis_data ''Manufacturer'') (\<lambda>v. sbnd (jstring ''upper'' v) normalise_manufacturer))) (\<lambda>manufacturer.
     bnd (of_sum (jitem chassis_data ''Model'')) (\<lambda>model.
     bnd (of_sum (jitem chassis_data ''SKU'')) (\<lambda>serial.
     bnd (of_sum (jitem chassis_data ''BiosVersion'')) (\<lambda>bios_version.
     bnd (of_sum (jitem chassis_data ''PowerState'')) (\<lambda>power_state.
     bnd (reads (\<lambda>(_, b). bm_ip_address b)) (\<lambda>ip_address.
     bnd (of_sum (jobject ''get'' chassis_data)) (\<lambda>d.
     bnd (of_sum (nested_get d ''MemorySummary'' ''TotalSystemMemoryGiB'' (JNum 0))) (\<lambda>memory.
     bnd (bmc_interface env) (\<lambda>interface.
     bnd (of_sum (nested_get d ''ProcessorSummary'' ''Model'' (JStr []))) (\<lambda>cpu.
     ret \<lparr>ch_manufacturer = manufacturer, ch_model_number = model, ch_serial_number = serial, ch_bmc_ip_address = ip_address,
          ch_bios_version = bios_version, ch_power_on = (power_state = JStr ''On''), ch_bmc_interface = interface,
          ch_memory_gib = memory, ch_cpu = cpu\<rparr>))))))))))))"

definition server_interface_name :: "string \<Rightarrow> string" where
  "server_interface_name name = (if prefix ''iDRAC.Embedded'' name then ''iDRAC'' else name)"

definition interface_detail :: "'s bmc_env \<Rightarrow> string \<Rightarrow> ('s, json dict) bmc_act" where
  "interface_detail env path = bnd (redfish_get env path) (\<lambda>data.
     bnd (of_sum (jobject ''items'' data)) (\<lambda>d.
       let low = lower_keys d;
           description = jget_default low ''description'' (JStr []);
           mac_addr = jget_default low ''macaddress'' (JStr []) in
       bnd (of_sum (sbnd (jitem data ''Id'') (jstring ''startswith''))) (\<lambda>i.
       bnd (if mac_addr = JStr [] then ret mac_addr
            else of_sum (sbnd (jstring ''split'' mac_addr) (\<lambda>t. sbnd (normalise_mac t) (\<lambda>m. Inr (JStr m))))) (\<lambda>mac.
       ret [(''name'', JStr (server_interface_name i)),
            (''description'', if description = JStr [] then jget_default low ''name'' JNull else description),
            (''mac_address'', mac), (''hostname'', jget_default low ''hostname'' (JStr []))]))))"

text \<open>What \<open>re.sub (r"-\d$", "", url)\<close> leaves of a URL that matches.\<close>

definition partition_of :: "string \<Rightarrow> string option" where
  "partition_of url = (let t = chomp url; n = length t in
     if n \<ge> 2 \<and> is_digit (t ! (n - 1)) \<and> t ! (n - 2) = CHR ''-'' then Some (take (n - 2) t @ drop n url) else None)"

definition wanted_url :: "json list \<Rightarrow> json \<Rightarrow> exn + bool" where
  "wanted_url urls url =
     (case url of
        JStr t \<Rightarrow> Inr (case partition_of t of None \<Rightarrow> True | Some base \<Rightarrow> JStr base \<notin> set urls)
      | _ \<Rightarrow> Inl (TypeError ''expected string or bytes-like object''))"

fun interface_details :: "'s bmc_env \<Rightarrow> json list \<Rightarrow> json list \<Rightarrow> ('s, json dict list) bmc_act" where
  "interface_details env urls [] = ret []"
| "interface_details env urls (url # rest) =
     bnd (of_sum (wanted_url urls url)) (\<lambda>wanted.
       if wanted then bnd (interface_detail env (json_str url)) (\<lambda>x. bnd (interface_details env urls rest) (\<lambda>xs. ret (x # xs)))
       else interface_details env urls rest)"

definition in_band_interfaces :: "'s bmc_env \<Rightarrow> ('s, json dict list) bmc_act" where
  "in_band_interfaces env =
     bnd (system_path env) (\<lambda>path.
     bnd (redfish_get env (path @ ''/EthernetInterfaces/'')) (\<lambda>index_data.
     bnd (of_sum (sbnd (sbnd (jitem index_data ''Members'') jiter) (smap (\<lambda>m. jitem m ''@odata.id'')))) (\<lambda>urls.
     interface_details env urls urls)))"

definition bmc_set_permanent_ip_addr :: "'s bmc_env \<Rightarrow> interface_info \<Rightarrow> ('s, unit) bmc_act" where
  "bmc_set_permanent_ip_addr env interface_info =
     (if \<not> if_dhcp interface_info then ret ()
      else (case (if_ipv4_address interface_info, if_ipv4_gateway interface_info) of
          (Some a, Some g) \<Rightarrow>
            bnd (manager_path env) (\<lambda>path.
            bnd (redfish_request env (path @ ''/Attributes'') ''PATCH'' (Some (JObj [(''Attributes'', JObj
              [(''IPv4.1.DHCPEnable'', JStr ''Disabled''), (''IPv4.1.Address'', JStr (ipv4_text (ii_ip a))),
               (''IPv4.1.Gateway'', JStr (ipv4_text g)), (''IPv4.1.Netmask'', JStr (ipv4_text (netmask_int (ii_prefixlen a))))])])) None) (\<lambda>_.
            ret ()))
        | _ \<Rightarrow> raise_exn (ValueError ''BMC InterfaceInfo has missing IP information'')))"

section \<open>Standard passwords\<close>

definition derived_password :: "(string \<Rightarrow> nat list) \<Rightarrow> string \<Rightarrow> string" where
  "derived_password pbkdf2 text = b64encode (pbkdf2 text)"

definition standard_password :: "(string \<Rightarrow> nat list) \<Rightarrow> string \<Rightarrow> string \<Rightarrow> exn + string" where
  "standard_password pbkdf2 ip_addr master_key =
     (if \<not> ip_address_ok ip_addr then Inl (ValueError (''Need an IPv4 address, not '' @ ip_addr))
      else if master_key = [] then Inl (ValueError ''Missing/empty master_key!'')
      else Inr (derived_password pbkdf2 (master_key @ ip_addr)))"

definition bmc_for_ip_address ::
  "'s bmc_env \<Rightarrow> (string \<Rightarrow> nat list) \<Rightarrow> ('s, string) act \<Rightarrow> string \<Rightarrow> string \<Rightarrow> string option \<Rightarrow> ('s, bmc) act"
where
  "bmc_for_ip_address env pbkdf2 credential ip_address username password =
     (case password of
        Some p \<Rightarrow> ret (new_bmc ip_address (Some p) username)
      | None \<Rightarrow>
          bnd (if truthy (be_getenv env ''BMC_MASTER'') then ret (the (be_getenv env ''BMC_MASTER'')) else credential) (\<lambda>bmc_master.
          bnd (of_sum (standard_password pbkdf2 ip_address bmc_master)) (\<lambda>p. ret (new_bmc ip_address (Some p) username))))"

section \<open>What the calls leave alone\<close>

text \<open>
  A fact about the world that requests keep is kept by every call of a \<open>Bmc\<close> object.  Apart from
  \<open>set_bmc_password\<close>, the calls only send requests that carry no new password.
\<close>

definition harmless :: "http_request \<Rightarrow> bool" where
  "harmless rq \<longleftrightarrow> \<not> (rq_method rq = ''PATCH'' \<and> (\<exists>p. rq_json rq = Some (JObj [(''Password'', JStr p)])))"

lemma keeps_on_world: "keeps J m \<Longrightarrow> keeps (\<lambda>x. J (fst x)) (on_world m)"
  by (auto simp: keeps_def on_world_def split: prod.split)

lemma keeps_redfish:
  assumes "\<And>rq. rq_method rq = method \<Longrightarrow> rq_json rq = payload \<Longrightarrow> keeps J (be_request env rq)"
  shows "keeps (\<lambda>x. J (fst x)) (redfish_request env path method payload token)"
  unfolding redfish_request_def Let_def by (intro act_rules keeps_on_world assms) simp_all

lemma keeps_object: "keeps (\<lambda>x. J (fst x)) (updates (\<lambda>(s, b). (s, f b)))"
  by (auto simp: keeps_def)

lemma keeps_use_bmc: "keeps (\<lambda>x. J (fst x)) m \<Longrightarrow> keeps J (use_bmc b m)"
proof (unfold keeps_def, intro allI impI)
  fix s assume k: "\<forall>x. J (fst x) \<longrightarrow> J (fst (snd (m x)))" and "J s"
  then have "J (fst (snd (m (s, b))))" by simp
  then show "J (snd (use_bmc b m s))" by (simp add: use_bmc_def split_beta split: sum.split)
qed

definition keeps_requests :: "'s bmc_env \<Rightarrow> ('s \<Rightarrow> bool) \<Rightarrow> bool" where
  "keeps_requests env J \<longleftrightarrow> (\<forall>rq. harmless rq \<longrightarrow> keeps J (be_request env rq))"

lemma keeps_redfish_harmless:
  assumes "keeps_requests env J" "\<And>p. payload \<noteq> Some (JObj [(''Password'', JStr p)])"
  shows "keeps (\<lambda>x. J (fst x)) (redfish_request env path method payload token)"
  by (rule keeps_redfish) (use assms in \<open>auto simp: keeps_requests_def harmless_def\<close>)

lemma keeps_get: "keeps_requests env J \<Longrightarrow> keeps (\<lambda>x. J (fst x)) (redfish_get env path)"
  by (rule keeps_redfish_harmless) simp_all

lemma keeps_system_path: "keeps_requests env J \<Longrightarrow> keeps (\<lambda>x. J (fst x)) (system_path env)"
  unfolding system_path_def get_system_path_def by (intro act_rules keeps_get keeps_object)

lemma keeps_manager_path: "keeps_requests env J \<Longrightarrow> keeps (\<lambda>x. J (fst x)) (manager_path env)"
  unfolding manager_path_def get_manager_path_def by (intro act_rules keeps_get keeps_object)

lemma keeps_system_vendor: "keeps_requests env J \<Longrightarrow> keeps (\<lambda>x. J (fst x)) (get_system_vendor env)"
  unfolding get_system_vendor_def by (intro act_rules keeps_get keeps_system_path)

lemma keeps_bmc_interface: "keeps_requests env J \<Longrightarrow> keeps (\<lambda>x. J (fst x)) (bmc_interface env)"
  unfolding bmc_interface_def by (intro act_rules keeps_get keeps_manager_path keeps_system_vendor)

lemma keeps_chassis_info: "keeps_requests env J \<Longrightarrow> keeps (\<lambda>x. J (fst x)) (chassis_info env)"
  unfolding chassis_info_def by (intro act_rules keeps_get keeps_system_path keeps_bmc_interface)

lemma keeps_drac: "keeps_requests env J \<Longrightarrow> keeps (\<lambda>x. J (fst x)) (update_dell_drac_settings env)"
  unfolding update_dell_drac_settings_def by (intro act_rules keeps_get keeps_manager_path keeps_redfish_harmless) simp_all

lemma keeps_hostname: "keeps_requests env J \<Longrightarrow> keeps (\<lambda>x. J (fst x)) (bmc_set_hostname env current new)"
  unfolding bmc_set_hostname_def bmc_get_mgmt_interface_def
  by (intro act_rules keeps_get keeps_manager_path keeps_redfish_harmless) simp_all

lemma keeps_bios: "keeps_requests env J \<Longrightarrow> keeps (\<lambda>x. J (fst x)) (update_dell_bios_settings env pxe)"
proof -
  assume a: "keeps_requests env J"
  have "keeps (\<lambda>x. J (fst x)) (case e of RedfishRequestError m \<Rightarrow> if contains ''Pending configuration values'' m then ret () else raise_exn e | _ \<Rightarrow> raise_exn e)" for e
    by (cases e) simp_all
  then show ?thesis using a unfolding update_dell_bios_settings_def patch_bios_settings_def Let_def
    by (intro act_rules keeps_get keeps_system_path keeps_redfish_harmless) (simp_all add: bios_payload_def)
qed

text \<open>The password workflow sends requests of every kind.\<close>

lemma keeps_set_bmc_password:
  assumes "\<And>rq. keeps J (be_request env rq)" "\<And>n. keeps J (be_sleep env n)"
  shows "keeps J (set_bmc_password env ip new user old)"
proof -
  let ?I = "\<lambda>x. J (fst x)"
  have r: "keeps ?I (redfish_request env path m payload token)" for path m payload token
    by (rule keeps_redfish) (rule assms(1))
  have acc: "keeps ?I (get_user_accounts env t)" for t
    unfolding get_user_accounts_def base_path_def by (intro act_rules r keeps_object)
  have find: "keeps ?I (find_account env t u accounts)" for t u accounts
  proof (induction accounts)
    case (Cons a accounts)
    show ?case unfolding find_account.simps by (intro act_rules r Cons)
  qed (simp del: ret_apply add: find_account.simps)
  have creds: "keeps ?I (set_bmc_creds env p t)" for p t
    unfolding set_bmc_creds_def by (intro act_rules r acc find)
  have ses: "keeps ?I (get_session env p)" for p
    unfolding get_session_def session_request_def Let_def by (intro act_rules keeps_on_world assms(1))
  have with_s: "keeps ?I (with_session env p body)" if "\<And>t. keeps ?I (body t)" for p body
    unfolding with_session_def close_session_def by (intro act_rules ses that r)
  have log: "keeps ?I (log_in_and_set_password env p q)" for p q
    unfolding log_in_and_set_password_def by (intro act_rules with_s creds)
  have loop: "keeps ?I (try_passwords env a q k ps)" for a q k ps
  proof (induction ps arbitrary: k)
    case (Cons p ps)
    have "keeps ?I (case e of RedfishRequestError _ \<Rightarrow> try_passwords env a q (k + 1) ps | _ \<Rightarrow> raise_exn e)" for e
      using Cons by (cases e) simp_all
    then show ?case unfolding try_passwords.simps by (intro act_rules keeps_on_world assms(2) log)
  qed simp
  show ?thesis unfolding set_bmc_password_def with_bmc_def by (intro act_rules keeps_use_bmc loop)
qed

section \<open>BIOS settings converge\<close>

text \<open>The settings after the next reset: pending values take effect.\<close>

definition after_reset :: "json dict \<times> json dict \<Rightarrow> string \<Rightarrow> json option" where
  "after_reset settings key = (case settings of (current, pending) \<Rightarrow>
     case jget pending key of Some v \<Rightarrow> Some v | None \<Rightarrow> jget current key)"

definition bios_settled :: "string dict \<Rightarrow> json dict \<times> json dict \<Rightarrow> bool" where
  "bios_settled required settings \<longleftrightarrow>
     (\<forall>(key, v) \<in> set required. jget (fst settings) key \<noteq> None \<longrightarrow> after_reset settings key = Some (JStr v))"

definition bios_patch :: "string \<times> string \<Rightarrow> json dict \<times> json dict \<Rightarrow> json dict \<times> json dict" where
  "bios_patch change settings = (case change of (key, v) \<Rightarrow> (fst settings, dput key (JStr v) (snd settings)))"

lemma jget_dput: "jget (dput k v d) k' = (if k' = k then (case v of JNull \<Rightarrow> None | _ \<Rightarrow> Some v) else jget d k')"
  by (simp add: jget_def dget_def split: json.split)

lemma required_change_None:
  "required_change_for_bios_setting key v c p = None \<longleftrightarrow> (jget c key \<noteq> None \<longrightarrow> after_reset (c, p) key = Some (JStr v))"
  by (auto simp: required_change_for_bios_setting_def after_reset_def split: option.split)

lemma required_change_Some: "required_change_for_bios_setting key v c p = Some w \<Longrightarrow> w = v \<and> jget c key \<noteq> None"
  by (auto simp: required_change_for_bios_setting_def split: if_splits)

lemma set_bios_changes:
  "set (bios_changes required (c, p)) =
     {(k, v). (k, v) \<in> set required \<and> jget c k \<noteq> None \<and> after_reset (c, p) k \<noteq> Some (JStr v)}"
proof -
  have "(k, v) \<in> set (bios_changes required (c, p)) \<longleftrightarrow>
      (k, v) \<in> set required \<and> required_change_for_bios_setting k v c p = Some v" for k v
  proof -
    have "(k, v) \<in> set (bios_changes required (c, p)) \<longleftrightarrow> (\<exists>b. (k, b) \<in> set required \<and> required_change_for_bios_setting k b c p = Some v)"
      by (force simp: bios_changes_def split: option.splits)
    then show ?thesis by (auto dest: required_change_Some)
  qed
  moreover have "required_change_for_bios_setting k v c p = Some v \<longleftrightarrow> jget c k \<noteq> None \<and> after_reset (c, p) k \<noteq> Some (JStr v)" for k v
    using required_change_None [of k v c p] required_change_Some [of k v c p] by (cases "required_change_for_bios_setting k v c p") auto
  ultimately show ?thesis by auto
qed

lemma fold_bios_patch:
  "fold bios_patch changes (c, p) = (c, fold (\<lambda>(k, v). dput k (JStr v)) changes p)"
  by (induction changes arbitrary: p) (auto simp: bios_patch_def)

lemma jget_fold_patch:
  "distinct (map fst changes) \<Longrightarrow>
   jget (fold (\<lambda>(k, v). dput k (JStr v)) changes p) key = (case map_of changes key of Some v \<Rightarrow> Some (JStr v) | None \<Rightarrow> jget p key)"
proof (induction changes arbitrary: p)
  case (Cons x changes)
  obtain k v where x: "x = (k, v)" by force
  have "map_of changes k = None" using Cons.prems x by (simp add: map_of_eq_None_iff)
  with Cons x show ?case by (simp add: jget_dput split: option.split)
qed simp

lemma distinct_bios_changes: "distinct (map fst required) \<Longrightarrow> distinct (map fst (bios_changes required (c, p)))"
proof (induction required)
  case (Cons x xs)
  obtain k v where x: "x = (k, v)" by force
  have "bios_changes (x # xs) (c, p) =
      (case required_change_for_bios_setting k v c p of None \<Rightarrow> [] | Some w \<Rightarrow> [(k, w)]) @ bios_changes xs (c, p)"
    by (simp add: bios_changes_def x)
  moreover have "k \<notin> fst ` set (bios_changes xs (c, p))" using Cons.prems x by (auto simp: set_bios_changes)
  ultimately show ?case using Cons x by (auto split: option.split)
qed (simp add: bios_changes_def)

interpretation bios: converging_patch bios_changes bios_patch bios_settled "\<lambda>required. distinct (map fst required)"
proof unfold_locales
  fix required :: "string dict" and x :: "json dict \<times> json dict"
  assume d: "distinct (map fst required)"
  obtain c p where x: "x = (c, p)" by force
  show "bios_changes required x = [] \<longleftrightarrow> bios_settled required x"
    unfolding x bios_settled_def set_empty [symmetric] set_bios_changes fst_conv by blast
  show "bios_settled required (fold bios_patch (bios_changes required x) x)"
    unfolding x fold_bios_patch bios_settled_def
  proof (intro ballI, clarify)
    fix k v w assume kv: "(k, v) \<in> set required" "jget (fst (c, fold (\<lambda>(k, v). dput k (JStr v)) (bios_changes required (c, p)) p)) k = Some w"
    have m: "map_of (bios_changes required (c, p)) k = (if after_reset (c, p) k = Some (JStr v) then None else Some v)"
    proof (cases "after_reset (c, p) k = Some (JStr v)")
      case True
      then have "k \<notin> fst ` set (bios_changes required (c, p))"
        using kv(1) d by (auto simp: set_bios_changes dest: eq_key_imp_eq_value)
      with True show ?thesis by (simp add: map_of_eq_None_iff)
    next
      case False
      then have "(k, v) \<in> set (bios_changes required (c, p))" using kv by (simp add: set_bios_changes)
      with False show ?thesis using distinct_bios_changes [OF d] by simp
    qed
    then show "after_reset (c, fold (\<lambda>(k, v). dput k (JStr v)) (bios_changes required (c, p)) p) k = Some (JStr v)"
      by (auto simp: after_reset_def jget_fold_patch [OF distinct_bios_changes [OF d]] split: if_splits option.splits)
  qed
qed

text \<open>
  The BIOS resource of the system at \<open>sp\<close>: reads report the current and the pending settings, an accepted
  \<open>PATCH\<close> makes its settings pending and a refused one changes nothing.
\<close>

definition rs_body :: "http_response \<Rightarrow> exn + json" where
  "rs_body rs = (if rs_text rs \<noteq> [] then rs_json rs else Inr (JObj []))"

definition bios_ok :: "'s bmc_env \<Rightarrow> string \<Rightarrow> string \<Rightarrow> ('s \<Rightarrow> json dict) \<Rightarrow> ('s \<Rightarrow> json dict) \<Rightarrow> bool" where
  "bios_ok env ip sp cur pend \<longleftrightarrow>
     (\<forall>rq s r s'. be_request env rq s = (r, s') \<longrightarrow>
        (\<forall>m. r \<noteq> Inl (RedfishRequestError m)) \<and>
        (rq_method rq = ''GET'' \<longrightarrow> cur s' = cur s \<and> pend s' = pend s) \<and>
        (\<forall>rs j c. r = Inr rs \<longrightarrow> rs_status rs < 400 \<longrightarrow> rq_method rq = ''GET'' \<longrightarrow> rq_url rq = ''https://'' @ ip @ sp @ ''/Bios'' \<longrightarrow>
           rs_body rs = Inr j \<longrightarrow> jitem j ''Attributes'' = Inr (JObj c) \<longrightarrow> c = cur s) \<and>
        (\<forall>rs d p. r = Inr rs \<longrightarrow> rs_status rs < 400 \<longrightarrow> rq_method rq = ''GET'' \<longrightarrow> rq_url rq = ''https://'' @ ip @ sp @ ''/Bios/Settings'' \<longrightarrow>
           rs_body rs = Inr (JObj d) \<longrightarrow> jget_default d ''Attributes'' (JObj []) = JObj p \<longrightarrow> p = pend s) \<and>
        (\<forall>rs ch. r = Inr rs \<longrightarrow> rq_method rq = ''PATCH'' \<longrightarrow> rq_url rq = ''https://'' @ ip @ sp @ ''/Bios/Settings'' \<longrightarrow>
           rq_json rq = Some (bios_payload ch) \<longrightarrow> cur s' = cur s \<and>
           pend s' = (if rs_status rs < 400 then fold (\<lambda>(k, v). dput k (JStr v)) ch (pend s) else pend s)))"

lemma bios_okD:
  assumes "bios_ok env ip sp cur pend" "be_request env rq s = (r, s')"
  shows "r \<noteq> Inl (RedfishRequestError m)"
    and "rq_method rq = ''GET'' \<Longrightarrow> cur s' = cur s \<and> pend s' = pend s"
    and "r = Inr rs \<Longrightarrow> rs_status rs < 400 \<Longrightarrow> rq_method rq = ''GET'' \<Longrightarrow> rq_url rq = ''https://'' @ ip @ sp @ ''/Bios'' \<Longrightarrow>
      rs_body rs = Inr j \<Longrightarrow> jitem j ''Attributes'' = Inr (JObj c) \<Longrightarrow> c = cur s"
    and "r = Inr rs \<Longrightarrow> rs_status rs < 400 \<Longrightarrow> rq_method rq = ''GET'' \<Longrightarrow> rq_url rq = ''https://'' @ ip @ sp @ ''/Bios/Settings'' \<Longrightarrow>
      rs_body rs = Inr (JObj d) \<Longrightarrow> jget_default d ''Attributes'' (JObj []) = JObj p \<Longrightarrow> p = pend s"
    and "r = Inr rs \<Longrightarrow> rq_method rq = ''PATCH'' \<Longrightarrow> rq_url rq = ''https://'' @ ip @ sp @ ''/Bios/Settings'' \<Longrightarrow>
      rq_json rq = Some (bios_payload ch) \<Longrightarrow> cur s' = cur s \<and>
      pend s' = (if rs_status rs < 400 then fold (\<lambda>(k, v). dput k (JStr v)) ch (pend s) else pend s)"
proof -
  note c = assms(1) [unfolded bios_ok_def, THEN spec, THEN spec, THEN spec, THEN spec, THEN mp, OF assms(2)]
  note c2 = c [THEN conjunct2] note c3 = c2 [THEN conjunct2] note c4 = c3 [THEN conjunct2]
  show "r \<noteq> Inl (RedfishRequestError m)" by (rule c [THEN conjunct1, THEN spec])
  show "rq_method rq = ''GET'' \<Longrightarrow> cur s' = cur s \<and> pend s' = pend s" by (rule c2 [THEN conjunct1, THEN mp])
  show "r = Inr rs \<Longrightarrow> rs_status rs < 400 \<Longrightarrow> rq_method rq = ''GET'' \<Longrightarrow> rq_url rq = ''https://'' @ ip @ sp @ ''/Bios'' \<Longrightarrow>
      rs_body rs = Inr j \<Longrightarrow> jitem j ''Attributes'' = Inr (JObj c) \<Longrightarrow> c = cur s" by (rule c3 [THEN conjunct1, rule_format])
  show "r = Inr rs \<Longrightarrow> rs_status rs < 400 \<Longrightarrow> rq_method rq = ''GET'' \<Longrightarrow> rq_url rq = ''https://'' @ ip @ sp @ ''/Bios/Settings'' \<Longrightarrow>
      rs_body rs = Inr (JObj d) \<Longrightarrow> jget_default d ''Attributes'' (JObj []) = JObj p \<Longrightarrow> p = pend s" by (rule c4 [THEN conjunct1, rule_format])
  show "r = Inr rs \<Longrightarrow> rq_method rq = ''PATCH'' \<Longrightarrow> rq_url rq = ''https://'' @ ip @ sp @ ''/Bios/Settings'' \<Longrightarrow>
      rq_json rq = Some (bios_payload ch) \<Longrightarrow> cur s' = cur s \<and>
      pend s' = (if rs_status rs < 400 then fold (\<lambda>(k, v). dput k (JStr v)) ch (pend s) else pend s)"
    by (rule c4 [THEN conjunct2, rule_format])
qed

lemma redfish_Inr:
  "redfish_request env path method payload None (s, b) = (Inr j, x) \<longleftrightarrow>
     (\<exists>rs s'. x = (s', b) \<and> be_request env \<lparr>rq_method = method, rq_url = bmc_url b @ path,
        rq_auth = Some (bm_username b, bm_password b), rq_headers = HEADERS, rq_json = payload\<rparr> s = (Inr rs, s') \<and>
      rs_status rs < 400 \<and> rs_body rs = Inr j)"
proof -
  let ?rq = "\<lparr>rq_method = method, rq_url = bmc_url b @ path,
        rq_auth = Some (bm_username b, bm_password b), rq_headers = HEADERS, rq_json = payload\<rparr>"
  obtain r s' where e: "be_request env ?rq s = (r, s')" by force
  show ?thesis
  proof (cases r)
    case (Inl er)
    with e show ?thesis by (simp add: redfish_request_def Let_def)
  next
    case (Inr rs)
    with e show ?thesis by (cases "rs_status rs < 400"; cases "rs_text rs = []") (auto simp: redfish_request_def rs_body_def Let_def)
  qed
qed

lemma system_path_Inr:
  assumes "system_path env (s, b) = (Inr sp, (s1, b1))"
  shows "bm_ip_address b1 = bm_ip_address b \<and> (sp \<noteq> [] \<longrightarrow> bm_system_path b1 = Some sp) \<and>
    (s1 = s \<or> (\<exists>r rq. rq_method rq = ''GET'' \<and> be_request env rq s = (r, s1)))"
proof (cases "truthy (bm_system_path b)")
  case True
  with assms show ?thesis by (auto simp: system_path_def elim: truthyE)
next
  case False
  with assms obtain j s2 b2 where "redfish_get env ''/redfish/v1/Systems/'' (s, b) = (Inr j, (s2, b2))" and e: "s1 = s2" "b1 = b2\<lparr>bm_system_path := Some sp\<rparr>"
    by (auto simp: system_path_def get_system_path_def split: prod.splits sum.splits)
  then show ?thesis unfolding redfish_Inr by fastforce
qed

lemma system_path_cached: "bm_system_path b = Some sp \<Longrightarrow> sp \<noteq> [] \<Longrightarrow> system_path env (s, b) = (Inr sp, (s, b))"
  by (simp add: system_path_def)

lemma patch_bios_effect:
  assumes ok: "bios_ok env (bm_ip_address b) sp cur pend" and b: "bm_system_path b = Some sp" "sp \<noteq> []"
    and e: "patch_bios_settings env ch (s, b) = (Inr (), (s', b'))"
  shows "cur s' = cur s \<and> (pend s' = fold (\<lambda>(k, v). dput k (JStr v)) ch (pend s) \<or> pend s' = pend s)"
proof -
  let ?rq = "\<lparr>rq_method = ''PATCH'', rq_url = bmc_url b @ sp @ ''/Bios/Settings'',
        rq_auth = Some (bm_username b, bm_password b), rq_headers = HEADERS, rq_json = Some (bios_payload ch)\<rparr>"
  obtain r s2 where q: "be_request env ?rq s = (r, s2)" by force
  have "s' = s2 \<and> (\<exists>rs. r = Inr rs)"
  proof (cases r)
    case (Inl x)
    then show ?thesis using e q bios_okD(1) [OF ok q] system_path_cached [OF b, of env s]
      by (cases x) (auto simp: patch_bios_settings_def redfish_request_def Let_def)
  next
    case (Inr rs)
    then show ?thesis using e q system_path_cached [OF b, of env s]
      by (auto simp: patch_bios_settings_def redfish_request_def Let_def bmc_failure_def split: if_splits prod.splits sum.splits exn.splits)
  qed
  then show ?thesis using bios_okD(5) [OF ok q, of _ ch] by (auto simp: bmc_url_def split: if_splits)
qed

lemma required_bios_distinct: "distinct (map fst (required_bios_settings pxe))"
  by (simp add: required_bios_settings_def)

lemma dget_fold_other:
  "k \<notin> fst ` set ch \<Longrightarrow> dget (fold (\<lambda>(k, v). dput k (f k v)) ch p) k = dget p k"
  by (induction ch arbitrary: p) (auto simp: dget_def)


section \<open>Controller settings converge\<close>

text \<open>
  \<open>shown key v\<close> is the value the controller reports for an attribute after \<open>v\<close> was posted: an attribute that
  takes numbers reports names.
\<close>

definition drac_plan :: "json dict \<times> json dict \<Rightarrow> json dict \<Rightarrow> json dict" where
  "drac_plan d current = (case drac_changes (snd d) (JObj current) (fst d) of Inr ch \<Rightarrow> ch | Inl _ \<Rightarrow> [])"

definition drac_patch :: "(string \<Rightarrow> json \<Rightarrow> json) \<Rightarrow> string \<times> json \<Rightarrow> json dict \<Rightarrow> json dict" where
  "drac_patch shown change current = (case change of (key, v) \<Rightarrow> dput key (shown key v) current)"

definition drac_settled :: "json dict \<times> json dict \<Rightarrow> json dict \<Rightarrow> bool" where
  "drac_settled d current \<longleftrightarrow> (\<forall>(key, v) \<in> set (fst d). json_truthy v \<longrightarrow> dget current key \<noteq> None \<longrightarrow> dget current key = Some v)"

definition drac_sound :: "(string \<Rightarrow> json \<Rightarrow> json) \<Rightarrow> json dict \<times> json dict \<Rightarrow> bool" where
  "drac_sound shown d \<longleftrightarrow> distinct (map fst (fst d)) \<and>
     (\<forall>(key, v) \<in> set (fst d). json_truthy v \<longrightarrow> (\<exists>w. dget (snd d) key = Some w \<and> shown key w = v))"

lemma drac_changes_spec:
  "(\<forall>(key, v) \<in> set req. json_truthy v \<longrightarrow> dget post key \<noteq> None) \<Longrightarrow> drac_changes post (JObj current) req =
     Inr (map (\<lambda>(key, v). (key, the (dget post key))) (filter (\<lambda>(key, v). json_truthy v \<and> dget current key \<notin> {None, Some v}) req))"
proof (induction req)
  case (Cons x req)
  obtain key v where x: "x = (key, v)" by force
  show ?case
  proof (cases "json_truthy v \<and> dget current key \<notin> {None, Some v}")
    case True
    then obtain c w where "dget current key = Some c" "c \<noteq> v" "dget post key = Some w" using Cons.prems x by auto
    with True Cons x show ?thesis by simp
  next
    case False
    with Cons x show ?thesis by auto
  qed
qed simp

lemma drac_plan_spec:
  "drac_sound shown d \<Longrightarrow> drac_plan d current =
     map (\<lambda>(key, v). (key, the (dget (snd d) key))) (filter (\<lambda>(key, v). json_truthy v \<and> dget current key \<notin> {None, Some v}) (fst d))"
  by (subst drac_plan_def, subst drac_changes_spec) (fastforce simp: drac_sound_def)+

lemma fold_drac_patch:
  assumes "distinct (map fst req)"
  shows "dget (fold (drac_patch shown) (map (\<lambda>(key, v). (key, f key)) (filter P req)) current) k =
    (if \<exists>v. (k, v) \<in> set req \<and> P (k, v) then Some (shown k (f k)) else dget current k)"
  using assms
proof (induction req arbitrary: current)
  case (Cons x req)
  obtain key v where x: "x = (key, v)" by force
  have "\<nexists>w. (key, w) \<in> set req" using Cons.prems x by force
  with Cons x show ?case by (auto simp: drac_patch_def dget_def)
qed simp

interpretation drac: converging_patch drac_plan "drac_patch shown" drac_settled "drac_sound shown"
proof unfold_locales
  fix d :: "json dict \<times> json dict" and x :: "json dict"
  assume d: "drac_sound shown d"
  show "drac_plan d x = [] \<longleftrightarrow> drac_settled d x"
    unfolding drac_plan_spec [OF d] by (auto simp: drac_settled_def filter_empty_conv)
  have u: "v = w" if "(k, v) \<in> set (fst d)" "(k, w) \<in> set (fst d)" for k v w
    using that d unfolding drac_sound_def by (meson eq_key_imp_eq_value)
  show "drac_settled d (fold (drac_patch shown) (drac_plan d x) x)"
    unfolding drac_settled_def
  proof (intro ballI, clarify)
    fix k v w
    assume kv: "(k, v) \<in> set (fst d)" "json_truthy v" and p: "dget (fold (drac_patch shown) (drac_plan d x) x) k = Some w"
    let ?P = "\<lambda>(key, v). json_truthy v \<and> dget x key \<notin> {None, Some v}"
    obtain w' where w: "dget (snd d) k = Some w'" "shown k w' = v" using d kv by (fastforce simp: drac_sound_def)
    have "(\<exists>v'. (k, v') \<in> set (fst d) \<and> ?P (k, v')) \<longleftrightarrow> dget x k \<notin> {None, Some v}" using u [OF kv(1)] kv by blast
    moreover have "dget (fold (drac_patch shown) (drac_plan d x) x) k =
        (if \<exists>v'. (k, v') \<in> set (fst d) \<and> ?P (k, v') then Some (shown k (the (dget (snd d) k))) else dget x k)"
      using d unfolding drac_plan_spec [OF d] by (intro fold_drac_patch) (simp add: drac_sound_def)
    ultimately have f: "dget (fold (drac_patch shown) (drac_plan d x) x) k = (if dget x k \<notin> {None, Some v} then Some v else dget x k)"
      using w by simp
    then show "dget (fold (drac_patch shown) (drac_plan d x) x) k = Some v" using p by (auto split: if_splits)
  qed
qed

definition drac_ok :: "'s bmc_env \<Rightarrow> string \<Rightarrow> string \<Rightarrow> ('s \<Rightarrow> json dict) \<Rightarrow> (string \<Rightarrow> json \<Rightarrow> json) \<Rightarrow> bool" where
  "drac_ok env ip mp attrs shown \<longleftrightarrow>
     (\<forall>rq s rs s'. be_request env rq s = (Inr rs, s') \<longrightarrow>
        (rq_method rq = ''GET'' \<longrightarrow> attrs s' = attrs s) \<and>
        (\<forall>j v. rs_status rs < 400 \<longrightarrow> rq_method rq = ''GET'' \<longrightarrow> rq_url rq = ''https://'' @ ip @ mp @ ''/Attributes'' \<longrightarrow>
           rs_body rs = Inr j \<longrightarrow> jitem j ''Attributes'' = Inr v \<longrightarrow> v = JObj (attrs s)) \<and>
        (\<forall>ch. rs_status rs < 400 \<longrightarrow> rq_method rq = ''PATCH'' \<longrightarrow> rq_url rq = ''https://'' @ ip @ mp @ ''/Attributes'' \<longrightarrow>
           rq_json rq = Some (JObj [(''Attributes'', JObj ch)]) \<longrightarrow> attrs s' = fold (drac_patch shown) ch (attrs s)))"

lemma drac_okD:
  assumes "drac_ok env ip mp attrs shown" "be_request env rq s = (Inr rs, s')"
  shows "rq_method rq = ''GET'' \<Longrightarrow> attrs s' = attrs s"
    and "rs_status rs < 400 \<Longrightarrow> rq_method rq = ''GET'' \<Longrightarrow> rq_url rq = ''https://'' @ ip @ mp @ ''/Attributes'' \<Longrightarrow>
      rs_body rs = Inr j \<Longrightarrow> jitem j ''Attributes'' = Inr v \<Longrightarrow> v = JObj (attrs s)"
    and "rs_status rs < 400 \<Longrightarrow> rq_method rq = ''PATCH'' \<Longrightarrow> rq_url rq = ''https://'' @ ip @ mp @ ''/Attributes'' \<Longrightarrow>
      rq_json rq = Some (JObj [(''Attributes'', JObj ch)]) \<Longrightarrow> attrs s' = fold (drac_patch shown) ch (attrs s)"
proof -
  note c = assms(1) [unfolded drac_ok_def, THEN spec, THEN spec, THEN spec, THEN spec, THEN mp, OF assms(2)]
  show "rq_method rq = ''GET'' \<Longrightarrow> attrs s' = attrs s" by (rule c [THEN conjunct1, THEN mp])
  show "rs_status rs < 400 \<Longrightarrow> rq_method rq = ''GET'' \<Longrightarrow> rq_url rq = ''https://'' @ ip @ mp @ ''/Attributes'' \<Longrightarrow>
      rs_body rs = Inr j \<Longrightarrow> jitem j ''Attributes'' = Inr v \<Longrightarrow> v = JObj (attrs s)" by (rule c [THEN conjunct2, THEN conjunct1, rule_format])
  show "rs_status rs < 400 \<Longrightarrow> rq_method rq = ''PATCH'' \<Longrightarrow> rq_url rq = ''https://'' @ ip @ mp @ ''/Attributes'' \<Longrightarrow>
      rq_json rq = Some (JObj [(''Attributes'', JObj ch)]) \<Longrightarrow> attrs s' = fold (drac_patch shown) ch (attrs s)"
    by (rule c [THEN conjunct2, THEN conjunct2, rule_format])
qed

lemma manager_path_Inr:
  assumes "manager_path env (s, b) = (Inr mp, (s1, b1))"
  shows "bm_ip_address b1 = bm_ip_address b \<and> (s1 = s \<or> (\<exists>rs rq. rq_method rq = ''GET'' \<and> be_request env rq s = (Inr rs, s1)))"
proof (cases "truthy (bm_manager_path b)")
  case True
  with assms show ?thesis by (auto simp: manager_path_def)
next
  case False
  with assms obtain j s2 b2 where "redfish_get env ''/redfish/v1/Managers/'' (s, b) = (Inr j, (s2, b2))" and e: "s1 = s2" "b1 = b2\<lparr>bm_manager_path := Some mp\<rparr>"
    by (auto simp: manager_path_def get_manager_path_def split: prod.splits sum.splits)
  then show ?thesis unfolding redfish_Inr by fastforce
qed

text \<open>
  Updating the controller's settings converges: when it returns, every required setting that has a value
  and that the controller has is as required, all other attributes are as they were, none was added, and a
  second run finds nothing to change.
\<close>
lemma drac_settings_converge:
  assumes "drac_ok env (bm_ip_address b) mp attrs shown" "manager_path env (s, b) = (Inr mp, x)"
    and "drac_sound shown (REQUIRED_VALUES env, VALUES_TO_POST env)"
    and "update_dell_drac_settings env (s, b) = (Inr changes, (s', b'))"
  shows "drac_settled (REQUIRED_VALUES env, VALUES_TO_POST env) (attrs s') \<and>
    (\<forall>k. k \<notin> fst ` set (REQUIRED_VALUES env) \<or> dget (attrs s) k = None \<longrightarrow> dget (attrs s') k = dget (attrs s) k) \<and>
    drac_changes (VALUES_TO_POST env) (JObj (attrs s')) (REQUIRED_VALUES env) = Inr []"
proof -
  let ?d = "(REQUIRED_VALUES env, VALUES_TO_POST env)"
  obtain s1 b1 where x: "x = (s1, b1)" by force
  note mp = manager_path_Inr [OF assms(2) [unfolded x]]
  have e1: "attrs s1 = attrs s" using mp drac_okD(1) [OF assms(1)] by auto
  have url: "bmc_url b1 = ''https://'' @ bm_ip_address b" using mp by (simp add: bmc_url_def)
  have inr: "drac_changes (VALUES_TO_POST env) (JObj cur) (REQUIRED_VALUES env) = Inr (drac_plan ?d cur)" for cur
    using assms(3) by (subst drac_changes_spec) (fastforce simp: drac_sound_def drac_plan_spec [OF assms(3)])+
  obtain data cv s2 where g: "redfish_get env (mp @ ''/Attributes'') (s1, b1) = (Inr data, (s2, b1))" "jitem data ''Attributes'' = Inr cv"
    and ch: "drac_changes (VALUES_TO_POST env) cv (REQUIRED_VALUES env) = Inr changes"
    and y: "when_act (changes \<noteq> []) (bnd (redfish_request env (mp @ ''/Attributes'') ''PATCH''
       (Some (JObj [(''Attributes'', JObj changes)])) None) (\<lambda>_. ret ())) (s2, b1) = (Inr (), (s', b'))"
    using assms(2,4) unfolding update_dell_drac_settings_def bnd_Inr andthen_Inr x by (auto simp: redfish_Inr)
  obtain rs where q: "be_request env \<lparr>rq_method = ''GET'', rq_url = bmc_url b1 @ mp @ ''/Attributes'', rq_auth = Some (bm_username b1, bm_password b1),
      rq_headers = HEADERS, rq_json = None\<rparr> s1 = (Inr rs, s2)" "rs_status rs < 400" "rs_body rs = Inr data"
    using g(1) by (auto simp: redfish_Inr)
  have e2: "attrs s2 = attrs s" using drac_okD(1) [OF assms(1) q(1)] e1 by simp
  have "cv = JObj (attrs s)" using drac_okD(2) [OF assms(1) q(1,2) _ _ q(3) g(2)] url e1 by simp
  then have plan: "changes = drac_plan ?d (attrs s)" using ch inr by simp
  have f: "attrs s' = fold (drac_patch shown) changes (attrs s)"
  proof (cases "changes = []")
    case True
    then show ?thesis using y e2 by simp
  next
    case False
    then obtain j where "redfish_request env (mp @ ''/Attributes'') ''PATCH'' (Some (JObj [(''Attributes'', JObj changes)])) None (s2, b1) = (Inr j, (s', b'))"
      using y by (auto split: prod.splits sum.splits)
    then obtain rs' where "be_request env \<lparr>rq_method = ''PATCH'', rq_url = bmc_url b1 @ mp @ ''/Attributes'', rq_auth = Some (bm_username b1, bm_password b1),
        rq_headers = HEADERS, rq_json = Some (JObj [(''Attributes'', JObj changes)])\<rparr> s2 = (Inr rs', s')" "rs_status rs' < 400"
      by (auto simp: redfish_Inr)
    from drac_okD(3) [OF assms(1) this] show ?thesis using e2 url by simp
  qed
  have "drac_settled ?d (attrs s')" "drac_plan ?d (attrs s') = []"
    unfolding f plan using drac.ops_settle [OF assms(3)] drac.second_run_empty [OF assms(3)] by blast+
  moreover have "dget (attrs s') k = dget (attrs s) k" if "k \<notin> fst ` set (REQUIRED_VALUES env) \<or> dget (attrs s) k = None" for k
    using that assms(3) unfolding f plan drac_plan_spec [OF assms(3)] drac_sound_def by (subst fold_drac_patch) force+
  ultimately show ?thesis using inr by simp
qed

section \<open>Examples\<close>

text \<open>A controller whose state is the current and pending BIOS settings and its own attributes.\<close>

fun attributes_of :: "json option \<Rightarrow> json dict" where
  "attributes_of (Some (JObj [_, (_, JObj ch)])) = ch"
| "attributes_of (Some (JObj [(_, JObj ch)])) = ch"
| "attributes_of _ = []"

definition shown_example :: "string \<Rightarrow> json \<Rightarrow> json" where
  "shown_example key v =
     (if key = ''SNMP.1.AgentEnable'' \<and> v = JStr ''1'' then JStr ''Enabled''
      else if key = ''SNMP.1.SNMPProtocol'' \<and> v = JStr ''0'' then JStr ''All'' else v)"

definition settings_example :: "((json dict \<times> json dict) \<times> json dict) bmc_env" where
  "settings_example = \<lparr>be_request = (\<lambda>rq s.
     if rq_method rq = ''GET'' then
       (if rq_url rq = ''https://h/S/Bios'' then (Inr (reply 200 (JObj [(''Attributes'', JObj (fst (fst s)))]) []), s)
        else if rq_url rq = ''https://h/S/Bios/Settings'' then (Inr (reply 200 (JObj [(''Attributes'', JObj (snd (fst s)))]) []), s)
        else if rq_url rq = ''https://h/M/Attributes'' then (Inr (reply 200 (JObj [(''Attributes'', JObj (snd s))]) []), s)
        else if rq_url rq = ''https://h/redfish/v1/Systems/'' then (Inr (reply 200 (JObj [(''Members'', JList [link ''/S/''])]) []), s)
        else if rq_url rq = ''https://h/redfish/v1/Managers/'' then (Inr (reply 200 (JObj [(''Members'', JList [link ''/M/''])]) []), s)
        else (Inr (reply 404 (JObj []) []), s))
     else if rq_url rq = ''https://h/S/Bios/Settings''
       then (Inr (reply 200 (JObj []) []), ((fst (fst s), fold (\<lambda>(k, v). dput k v) (attributes_of (rq_json rq)) (snd (fst s))), snd s))
     else if rq_url rq = ''https://h/M/Attributes''
       then (Inr (reply 200 (JObj []) []), (fst s, fold (drac_patch shown_example) (attributes_of (rq_json rq)) (snd s)))
     else (Inr (reply 404 (JObj []) []), s)),
     be_sleep = (\<lambda>_. ret ()), be_getenv = (\<lambda>_. None)\<rparr>"

lemma reply_sel [simp]: "rs_status (reply st j hs) = st" "rs_body (reply st j hs) = Inr j"
  by (simp_all add: reply_def rs_body_def)

lemma fold_attributes: "fold (\<lambda>(k, v). dput k v) (map (\<lambda>(k, v). (k, JStr v)) ch) p = fold (\<lambda>(k, v). dput k (JStr v)) ch p"
  by (induction ch arbitrary: p) auto

lemma bios_ok_example: "bios_ok settings_example ''h'' ''/S'' (\<lambda>s. fst (fst s)) (\<lambda>s. snd (fst s))"
  unfolding bios_ok_def
proof (intro allI impI conjI)
  fix rq :: http_request and s r s' assume e: "be_request settings_example rq s = (r, s')"
  show "r \<noteq> Inl (RedfishRequestError m)" for m using e by (auto simp: settings_example_def split: if_splits)
  show "fst (fst s') = fst (fst s)" "snd (fst s') = snd (fst s)" if "rq_method rq = ''GET''"
    using e that by (auto simp: settings_example_def split: if_splits)
  show "c = fst (fst s)" if "r = Inr rs" "rs_status rs < 400" "rq_method rq = ''GET''" "rq_url rq = ''https://'' @ ''h'' @ ''/S'' @ ''/Bios''"
    "rs_body rs = Inr j" "jitem j ''Attributes'' = Inr (JObj c)" for rs j c
    using e that by (auto simp: settings_example_def dget_def)
  show "p = snd (fst s)" if "r = Inr rs" "rs_status rs < 400" "rq_method rq = ''GET''" "rq_url rq = ''https://'' @ ''h'' @ ''/S'' @ ''/Bios/Settings''"
    "rs_body rs = Inr (JObj d)" "jget_default d ''Attributes'' (JObj []) = JObj p" for rs d p
    using e that by (auto simp: settings_example_def dget_def jget_default_def)
  show "fst (fst s') = fst (fst s)" "snd (fst s') = (if rs_status rs < 400 then fold (\<lambda>(k, v). dput k (JStr v)) ch (snd (fst s)) else snd (fst s))"
    if "r = Inr rs" "rq_method rq = ''PATCH''" "rq_url rq = ''https://'' @ ''h'' @ ''/S'' @ ''/Bios/Settings''" "rq_json rq = Some (bios_payload ch)" for rs ch
    using e that by (auto simp: settings_example_def bios_payload_def fold_attributes)
qed

definition bios_before :: "(json dict \<times> json dict) \<times> json dict" where
  "bios_before = (([(''TimeZone'', JStr ''CST''), (''SecureBoot'', JStr ''Enabled''), (''Other'', JStr ''x'')], [(''SecureBoot'', JStr ''Disabled'')]),
     [(''SNMP.1.AgentEnable'', JStr ''Disabled''), (''SNMP.1.AlertPort'', JNum 161), (''Other'', JNum 1)])"


lemma drac_ok_example: "drac_ok settings_example ''h'' ''/M'' snd shown_example"
  unfolding drac_ok_def
proof (intro allI impI conjI)
  fix rq :: http_request and s rs s' assume e: "be_request settings_example rq s = (Inr rs, s')"
  show "snd s' = snd s" if "rq_method rq = ''GET''" using e that by (auto simp: settings_example_def split: if_splits)
  show "v = JObj (snd s)" if "rs_status rs < 400" "rq_method rq = ''GET''" "rq_url rq = ''https://'' @ ''h'' @ ''/M'' @ ''/Attributes''"
    "rs_body rs = Inr j" "jitem j ''Attributes'' = Inr v" for j v
    using e that by (auto simp: settings_example_def dget_def)
  show "snd s' = fold (drac_patch shown_example) ch (snd s)" if "rq_method rq = ''PATCH''" "rq_url rq = ''https://'' @ ''h'' @ ''/M'' @ ''/Attributes''"
    "rq_json rq = Some (JObj [(''Attributes'', JObj ch)])" for ch
    using e that by (auto simp: settings_example_def)
qed

end
