(* ===== verification/Server_Enroll.thy ===== *)
theory Server_Enroll
  imports Netdev_Enroll Raid Bmc_Config
begin

text \<open>
  \<open>understack_workflows/ironic_node.py\<close>, \<open>configure_raid\<close> of \<open>raid.py\<close> and \<open>main/enroll_server.py\<close>: the
  enrollment of a server as an Ironic node, driven through Ironic's provision states.

  Besides the Ironic client, the parameters (\<open>server_env\<close>) are the remaining client calls, the requests to the
  server's management controller, which do not reach Ironic's tables (\<open>server_ok\<close>), the key derivation
  function and the file with the master key.
\<close>

section \<open>The node\<close>

definition FIRMWARE_UPDATE_TRAIT_PREFIX :: string where
  "FIRMWARE_UPDATE_TRAIT_PREFIX = ''CUSTOM_FIRMWARE_UPDATE_''"

definition STEADY_STATE_BOOT_INTERFACE :: string where
  "STEADY_STATE_BOOT_INTERFACE = ''http-ipxe''"

definition VIRTUAL_MEDIA_BOOT_INTERFACE :: "string dict" where
  "VIRTUAL_MEDIA_BOOT_INTERFACE =
     [(''idrac'', ''idrac-redfish-virtual-media''), (''redfish'', ''redfish-virtual-media''),
      (''ilo'', ''ilo-virtual-media''), (''ilo5'', ''ilo-virtual-media''), (''fake-hardware'', ''fake'')]"

definition ENROLLABLE_STATES :: "string list" where
  "ENROLLABLE_STATES = [''clean failed'', ''inspect failed'', ''enroll'', ''manageable'']"

record server_env =
  sv_ironic :: wf_env
  sv_unset :: "string \<Rightarrow> string list \<Rightarrow> (wf_state, unit) act"
  sv_set_raid :: "string \<Rightarrow> logical_disk list \<Rightarrow> (wf_state, unit) act"
  sv_traits :: "string \<Rightarrow> (wf_state, string list) act"
  sv_runbook :: "string \<Rightarrow> (wf_state, string) act"
  sv_inventory :: "string \<Rightarrow> (wf_state, storage_controller list) act"
  sv_bmc :: "wf_state bmc_env"
  sv_pbkdf2 :: "string \<Rightarrow> nat list"
  sv_credential :: "(wf_state, string) act"

definition driver_for :: "string \<Rightarrow> string \<times> string" where
  "driver_for manufacturer = (if prefix ''Dell'' manufacturer then (''idrac'', ''idrac-redfish'') else (''redfish'', ''redfish''))"

definition virtual_media_boot_interface_for :: "string \<Rightarrow> exn + string" where
  "virtual_media_boot_interface_for driver =
     (case dget VIRTUAL_MEDIA_BOOT_INTERFACE driver of
        Some i \<Rightarrow> Inr i
      | None \<Rightarrow> Inl (ValueError (''No virtual-media boot_interface configured for driver '' @ quoted driver)))"

text \<open>\<open>if external_cmdb_id\<close>: zero and the empty string count as absent.\<close>

fun meta_truthy :: "meta option \<Rightarrow> bool" where
  "meta_truthy None = False"
| "meta_truthy (Some (MStr t)) = (t \<noteq> [])"
| "meta_truthy (Some (MInt i)) = (i \<noteq> 0)"

definition update_ironic_node ::
  "wf_env \<Rightarrow> bmc \<Rightarrow> string \<Rightarrow> string \<Rightarrow> string \<Rightarrow> string \<Rightarrow> meta option \<Rightarrow> (wf_state, unit) act"
where
  "update_ironic_node env b node_uuid name driver inspect_interface external_cmdb_id =
     we_update_node env node_uuid (we_patch env
       ([''name='' @ name, ''driver='' @ driver, ''driver_info/redfish_address='' @ bmc_url b,
         ''driver_info/redfish_verify_ca=false'', ''driver_info/redfish_username='' @ bm_username b,
         ''driver_info/redfish_password='' @ bm_password b, ''boot_interface='' @ STEADY_STATE_BOOT_INTERFACE,
         ''inspect_interface='' @ inspect_interface] @
        (if meta_truthy external_cmdb_id then [''extra/external_cmdb_id='' @ meta_text (the external_cmdb_id)] else [])))"

definition create_ironic_node ::
  "wf_env \<Rightarrow> bmc \<Rightarrow> string \<Rightarrow> string \<Rightarrow> string \<Rightarrow> meta option \<Rightarrow> (wf_state, wf_node) act"
where
  "create_ironic_node env b name driver inspect_interface external_cmdb_id =
     we_create_node env
       ([(''name'', JStr name), (''driver'', JStr driver),
         (''driver_info'', JObj [(''redfish_address'', JStr (bmc_url b)), (''redfish_verify_ca'', JBool False),
            (''redfish_username'', JStr (bm_username b)), (''redfish_password'', JStr (bm_password b))]),
         (''boot_interface'', JStr STEADY_STATE_BOOT_INTERFACE), (''deploy_interface'', JStr ''direct''),
         (''inspect_interface'', JStr inspect_interface)] @
        (if meta_truthy external_cmdb_id then [(''extra'', JObj [(''external_cmdb_id'', meta_json (the external_cmdb_id))])] else []) @
        (if driver = ''fake-hardware'' then [(''resource_class'', JStr ''fakehw'')] else []))"

definition create_or_update ::
  "wf_env \<Rightarrow> bmc \<Rightarrow> string \<Rightarrow> string \<Rightarrow> meta option \<Rightarrow> (wf_state, wf_node) act"
where
  "create_or_update env b name manufacturer external_cmdb_id =
     (case driver_for manufacturer of (driver, inspect_interface) \<Rightarrow>
      try_except
        (bnd (we_get_node env name) (\<lambda>node.
           if wn_provision_state node \<notin> set ENROLLABLE_STATES then
             raise_exn (PyException ''Re-enroll cannot proceed'' [wn_uuid node, wn_provision_state node])
           else andthen
             (when_act (wn_provision_state node \<noteq> ''manageable'') (move_to env (wn_uuid node) ''manage'' ''manageable''))
             (andthen (update_ironic_node env b (wn_uuid node) name driver inspect_interface external_cmdb_id)
             (ret node))))
        (\<lambda>e. case e of
           NotFound _ \<Rightarrow>
             bnd (create_ironic_node env b name driver inspect_interface external_cmdb_id) (\<lambda>node.
             andthen (move_to env (wn_uuid node) ''manage'' ''manageable'') (ret node))
         | _ \<Rightarrow> raise_exn e))"

definition patch_updates :: "wf_env \<Rightarrow> string \<Rightarrow> string list \<Rightarrow> (wf_state, unit) act" where
  "patch_updates env node_uuid ups =
     (if ups = [] then ret () else we_update_node env node_uuid (we_patch env ups))"

definition inspect_out_of_band :: "server_env \<Rightarrow> string \<Rightarrow> (wf_state, unit) act" where
  "inspect_out_of_band env node_uuid =
     andthen (sv_unset env node_uuid [''inspect_interface'']) (move_to (sv_ironic env) node_uuid ''inspect'' ''manageable'')"

definition pxe_enabled_bios_name :: "wf_env \<Rightarrow> string \<Rightarrow> (wf_state, string option) act" where
  "pxe_enabled_bios_name env node_uuid =
     bnd (we_list_ports env node_uuid) (\<lambda>ports.
       ret (case find (\<lambda>port. wp_pxe_enabled port \<and> truthy (dget (wp_extra port) ''bios_name'') \<and>
                   wp_physical_network port \<noteq> Some ''enrol'') ports of
              None \<Rightarrow> None
            | Some port \<Rightarrow> dget (wp_extra port) ''bios_name''))"

definition inspect :: "wf_env \<Rightarrow> string \<Rightarrow> string \<Rightarrow> (wf_state, unit) act" where
  "inspect env node_uuid inspect_interface =
     bnd (we_get_node env node_uuid) (\<lambda>refreshed_node.
     andthen (when_act (wn_inspect_interface refreshed_node \<noteq> Some inspect_interface)
       (patch_updates env node_uuid [''inspect_interface='' @ inspect_interface]))
     (move_to env node_uuid ''inspect'' ''manageable''))"

section \<open>Firmware\<close>

definition firmware_trait_sort_key :: "string \<Rightarrow> int \<times> string" where
  "firmware_trait_sort_key trait =
     (let parts = split_on CHR ''_'' trait;
          order = (if length parts > 3 then parts ! 3 else []) in
      if order \<noteq> [] \<and> list_all is_digit order then (the (digits order), trait) else (10 ^ 9, trait))"

definition firmware_update_traits :: "string list \<Rightarrow> string list" where
  "firmware_update_traits traits = sort_key firmware_trait_sort_key (filter (prefix FIRMWARE_UPDATE_TRAIT_PREFIX) traits)"

definition apply_firmware_updates :: "server_env \<Rightarrow> string \<Rightarrow> (wf_state, unit) act" where
  "apply_firmware_updates env node_uuid =
     bnd (sv_traits env node_uuid) (\<lambda>traits.
       for_each (\<lambda>trait. bnd (sv_runbook env trait) (\<lambda>runbook.
         transition (sv_ironic env) node_uuid ''clean'' (Some ''manageable'')
           \<lparr>to_clean_steps = None, to_runbook = Some runbook, to_disable_ramdisk = None\<rparr>))
       (firmware_update_traits traits))"

definition configure_raid :: "server_env \<Rightarrow> string \<Rightarrow> storage_controller list \<Rightarrow> (wf_state, unit) act" where
  "configure_raid env node_uuid inventory =
     bnd (of_sum (physical_disks_from_inventory inventory)) (\<lambda>physical_disks.
       if physical_disks = [] then ret ()
       else andthen (sv_set_raid env node_uuid (generate_raid_config physical_disks))
         (transition (sv_ironic env) node_uuid ''clean'' (Some ''manageable'')
           \<lparr>to_clean_steps = Some [(''raid'', ''delete_configuration''), (''raid'', ''create_configuration'')],
            to_runbook = None, to_disable_ramdisk = Some False\<rparr>))"

section \<open>Enrollment\<close>

definition device_name :: "chassis \<Rightarrow> string" where
  "device_name device_info = ch_manufacturer device_info @ ''-'' @ json_str (ch_serial_number device_info)"

definition initialize_bmc :: "server_env \<Rightarrow> bmc \<Rightarrow> string option \<Rightarrow> (wf_state, chassis \<times> bmc) act" where
  "initialize_bmc env b old_password =
     andthen (set_bmc_password (sv_bmc env) (bm_ip_address b) (bm_password b) ''root'' old_password)
     (use_bmc b (bnd (chassis_info (sv_bmc env)) (\<lambda>device_info.
       andthen (when_act (ch_manufacturer device_info = ''Dell'') (bnd (update_dell_drac_settings (sv_bmc env)) (\<lambda>_. ret ())))
       (andthen (bmc_set_hostname (sv_bmc env) (bmc_hostname device_info) (device_name device_info))
       (ret device_info)))))"

definition agent_inspection :: "wf_env \<Rightarrow> string \<Rightarrow> bool \<Rightarrow> (wf_state, unit) act" where
  "agent_inspection env node_uuid virtual_media =
     bnd (if virtual_media
          then bnd (we_get_node env node_uuid) (\<lambda>refreshed. of_sum (virtual_media_boot_interface_for (wn_driver refreshed)))
          else ret STEADY_STATE_BOOT_INTERFACE) (\<lambda>boot_interface.
     andthen (patch_updates env node_uuid [''boot_interface='' @ boot_interface])
     (andthen (inspect env node_uuid ''agent'')
     (patch_updates env node_uuid [''boot_interface='' @ STEADY_STATE_BOOT_INTERFACE])))"

text \<open>The part of \<open>enroll\<close> after the node has been created or updated.\<close>

definition provision_server :: "server_env \<Rightarrow> bmc \<Rightarrow> string \<Rightarrow> bool \<Rightarrow> bool \<Rightarrow> (wf_state, unit) act" where
  "provision_server env b node_uuid firmware_update raid_configure =
     andthen (inspect_out_of_band env node_uuid)
     (bnd (sv_inventory env node_uuid) (\<lambda>inventory.
     bnd (pxe_enabled_bios_name (sv_ironic env) node_uuid) (\<lambda>first_pxe.
     bnd (use_bmc b (update_dell_bios_settings (sv_bmc env) first_pxe)) (\<lambda>(_, b).
     andthen (agent_inspection (sv_ironic env) node_uuid (\<not> truthy first_pxe))
     (bnd (pxe_enabled_bios_name (sv_ironic env) node_uuid) (\<lambda>pxe_interface.
       if \<not> truthy pxe_interface then
         raise_exn (RuntimeError (''[node:'' @ node_uuid @
           ''] Agent inspection produced no pxe_enabled ports cannot configure HTTP boot.''))
       else
         andthen (use_bmc b (update_dell_bios_settings (sv_bmc env) pxe_interface))
         (andthen (when_act raid_configure
           (andthen (configure_raid env node_uuid inventory) (inspect_out_of_band env node_uuid)))
         (andthen (when_act firmware_update (apply_firmware_updates env node_uuid))
         (move_to (sv_ironic env) node_uuid ''provide'' ''available'')))))))))"

definition enroll_server ::
  "server_env \<Rightarrow> string \<Rightarrow> bool \<Rightarrow> bool \<Rightarrow> string option \<Rightarrow> meta option \<Rightarrow> (wf_state, unit) act"
where
  "enroll_server env ip_address firmware_update raid_configure old_password external_cmdb_id =
     bnd (bmc_for_ip_address (sv_bmc env) (sv_pbkdf2 env) (sv_credential env) ip_address ''root'' None) (\<lambda>b.
     bnd (initialize_bmc env b old_password) (\<lambda>(device_info, b).
     bnd (create_or_update (sv_ironic env) b (device_name device_info) (ch_manufacturer device_info) external_cmdb_id) (\<lambda>node.
       provision_server env b (wn_uuid node) firmware_update raid_configure)))"

section \<open>The calls' contract\<close>

text \<open>
  Inspection fills in much of a node and its ports, so less is known of a transition than for a
  network device: it touches only its node, and the node keeps its boot interface.
\<close>

definition changes :: "string \<Rightarrow> (wf_node \<Rightarrow> wf_node \<Rightarrow> bool) \<Rightarrow> wf_state \<Rightarrow> wf_state \<Rightarrow> bool" where
  "changes u R s s' \<longleftrightarrow> (\<exists>f. ws_nodes s' = map (\<lambda>n. if wn_uuid n = u then f n else n) (ws_nodes s) \<and>
     (\<forall>n. wn_uuid (f n) = wn_uuid n \<and> R n (f n)))"

definition keeps_nodes :: "(wf_state, 'a) act \<Rightarrow> bool" where
  "keeps_nodes m \<longleftrightarrow> (\<forall>s. ws_nodes (snd (m s)) = ws_nodes s)"

definition boot_patched :: "node_patch \<Rightarrow> wf_node \<Rightarrow> wf_node \<Rightarrow> bool" where
  "boot_patched ps n n' \<longleftrightarrow> wn_provision_state n' = wn_provision_state n \<and>
     (\<forall>t. ps = [(''/boot_interface'', JStr t)] \<longrightarrow> wn_boot_interface n' = Some t) \<and>
     (''/boot_interface'' \<notin> fst ` set ps \<longrightarrow> wn_boot_interface n' = wn_boot_interface n)"

definition ironic_calls_ok :: "wf_env \<Rightarrow> bool" where
  "ironic_calls_ok w \<longleftrightarrow>
     (\<forall>i s r s'. we_get_node w i s = (r, s') \<longrightarrow> s' = s \<and> (\<forall>n. r = Inr n \<longrightarrow> n \<in> set (ws_nodes s))) \<and>
     (\<forall>d s n s'. we_create_node w d s = (Inr n, s') \<longrightarrow> ws_nodes s' = ws_nodes s @ [n] \<and>
        wn_provision_state n = ''enroll'' \<and> wn_uuid n \<notin> wn_uuid ` set (ws_nodes s)) \<and>
     (\<forall>u ps s r s'. we_update_node w u ps s = (r, s') \<longrightarrow> r = Inr () \<longrightarrow> changes u (boot_patched ps) s s') \<and>
     (\<forall>u v os s r s'. we_set_state w u v os s = (r, s') \<longrightarrow> r = Inr () \<longrightarrow>
        changes u (\<lambda>n n'. wn_boot_interface n' = wn_boot_interface n) s s') \<and>
     (\<forall>u e s r s'. we_wait w u e s = (r, s') \<longrightarrow> r = Inr () \<longrightarrow>
        changes u (\<lambda>n n'. wn_provision_state n' = e \<and> wn_boot_interface n' = wn_boot_interface n) s s') \<and>
     (\<forall>u. keeps_nodes (we_list_ports w u)) \<and> patch_ok w \<and>
     (\<forall>t \<in> set (STEADY_STATE_BOOT_INTERFACE # map snd VIRTUAL_MEDIA_BOOT_INTERFACE). we_decode w t = JStr t)"

definition server_ok :: "server_env \<Rightarrow> bool" where
  "server_ok env \<longleftrightarrow> ironic_calls_ok (sv_ironic env) \<and>
     (\<forall>u s r s'. sv_unset env u [''inspect_interface''] s = (r, s') \<longrightarrow> r = Inr () \<longrightarrow>
        changes u (\<lambda>n n'. wn_provision_state n' = wn_provision_state n \<and> wn_boot_interface n' = wn_boot_interface n) s s') \<and>
     (\<forall>u c. keeps_nodes (sv_set_raid env u c)) \<and> (\<forall>u. keeps_nodes (sv_traits env u)) \<and> (\<forall>t. keeps_nodes (sv_runbook env t)) \<and>
     (\<forall>u. keeps_nodes (sv_inventory env u)) \<and> keeps_nodes (sv_credential env) \<and>
     (\<forall>rq. keeps_nodes (be_request (sv_bmc env) rq)) \<and> (\<forall>n. keeps_nodes (be_sleep (sv_bmc env) n))"

text \<open>Ironic's state machine: from which provision states each of the verbs used is accepted.\<close>

definition legal :: "string \<Rightarrow> string \<Rightarrow> bool" where
  "legal verb state \<longleftrightarrow>
     (verb = ''manage'' \<and> state \<in> {''enroll'', ''available'', ''clean failed'', ''inspect failed'', ''adopt failed''}) \<or>
     (verb \<in> {''inspect'', ''clean'', ''provide''} \<and> state = ''manageable'')"

definition guard_verbs :: "wf_env \<Rightarrow> wf_env" where
  "guard_verbs w = w\<lparr>we_set_state := (\<lambda>u v os s.
     if \<exists>n \<in> set (ws_nodes s). wn_uuid n = u \<and> \<not> legal v (wn_provision_state n)
     then (Inl (Foreign ''invalid state for verb''), s) else we_set_state w u v os s)\<rparr>"

definition guard_server :: "server_env \<Rightarrow> server_env" where
  "guard_server env = env\<lparr>sv_ironic := guard_verbs (sv_ironic env)\<rparr>"

text \<open>The node exists, in one of the given states, and (where asked) with the steady boot interface.\<close>

definition node_at :: "string \<Rightarrow> string set \<Rightarrow> bool \<Rightarrow> wf_state \<Rightarrow> bool" where
  "node_at u S steady s \<longleftrightarrow> u \<in> wn_uuid ` set (ws_nodes s) \<and>
     (\<forall>n \<in> set (ws_nodes s). wn_uuid n = u \<longrightarrow> wn_provision_state n \<in> S \<and>
        (steady \<longrightarrow> wn_boot_interface n = Some STEADY_STATE_BOOT_INTERFACE))"

section \<open>Lemmas\<close>

lemma guard_verbs_sel [simp]:
  "we_get_node (guard_verbs w) = we_get_node w" "we_create_node (guard_verbs w) = we_create_node w"
  "we_update_node (guard_verbs w) = we_update_node w" "we_wait (guard_verbs w) = we_wait w"
  "we_list_ports (guard_verbs w) = we_list_ports w" "we_patch (guard_verbs w) = we_patch w"
  by (simp_all add: guard_verbs_def)

lemma guard_server_sel [simp]:
  "sv_ironic (guard_server env) = guard_verbs (sv_ironic env)" "sv_unset (guard_server env) = sv_unset env"
  "sv_set_raid (guard_server env) = sv_set_raid env" "sv_traits (guard_server env) = sv_traits env"
  "sv_runbook (guard_server env) = sv_runbook env" "sv_inventory (guard_server env) = sv_inventory env"
  "sv_bmc (guard_server env) = sv_bmc env" "sv_pbkdf2 (guard_server env) = sv_pbkdf2 env"
  "sv_credential (guard_server env) = sv_credential env"
  by (simp_all add: guard_server_def)

lemma changes_node_at:
  assumes "changes u R s s'" "node_at u S b s"
    and "\<And>n n'. R n n' \<Longrightarrow> wn_provision_state n \<in> S \<Longrightarrow> (b \<longrightarrow> wn_boot_interface n = Some STEADY_STATE_BOOT_INTERFACE) \<Longrightarrow>
      wn_provision_state n' \<in> S' \<and> (b' \<longrightarrow> wn_boot_interface n' = Some STEADY_STATE_BOOT_INTERFACE)"
  shows "node_at u S' b' s'"
proof -
  obtain f where f: "ws_nodes s' = map (\<lambda>n. if wn_uuid n = u then f n else n) (ws_nodes s)"
    "\<And>n. wn_uuid (f n) = wn_uuid n" "\<And>n. R n (f n)" using assms(1) by (auto simp: changes_def)
  have "wn_uuid ` set (ws_nodes s') = wn_uuid ` set (ws_nodes s)"
    unfolding f(1) set_map image_image using f(2) by (intro image_cong) simp_all
  moreover have "wn_provision_state m \<in> S' \<and> (b' \<longrightarrow> wn_boot_interface m = Some STEADY_STATE_BOOT_INTERFACE)"
    if "m \<in> set (ws_nodes s')" "wn_uuid m = u" for m
  proof -
    have "m \<in> (\<lambda>n. if wn_uuid n = u then f n else n) ` set (ws_nodes s)" using that(1) f(1) by simp
    then obtain n where n: "n \<in> set (ws_nodes s)" "m = (if wn_uuid n = u then f n else n)" by blast
    then have "wn_uuid n = u" "m = f n" using that(2) f(2) by (auto split: if_splits)
    then show ?thesis using assms(2,3) f(3) n(1) by (auto simp: node_at_def)
  qed
  ultimately show ?thesis using assms(2) unfolding node_at_def by auto
qed

lemma keeps_nodes_valid:
  assumes "keeps_nodes m" and "\<And>s s'. ws_nodes s' = ws_nodes s \<Longrightarrow> P s \<Longrightarrow> P s'"
  shows "alike P m m (\<lambda>_. P) (\<lambda>_ _. True)"
proof (rule alike_same, rule validI)
  fix s x s' assume "P s" "m s = (Inr x, s')"
  moreover from this have "ws_nodes s' = ws_nodes s" using assms(1) unfolding keeps_nodes_def by (metis snd_conv)
  ultimately show "P s'" using assms(2) by blast
qed simp

lemma changing_valid:
  assumes "\<And>s s'. m s = (Inr (), s') \<Longrightarrow> changes u R s s'"
    and "\<And>n n'. R n n' \<Longrightarrow> wn_provision_state n \<in> S \<Longrightarrow> (b \<longrightarrow> wn_boot_interface n = Some STEADY_STATE_BOOT_INTERFACE) \<Longrightarrow>
      wn_provision_state n' \<in> S' \<and> (b' \<longrightarrow> wn_boot_interface n' = Some STEADY_STATE_BOOT_INTERFACE)"
  shows "valid (node_at u S b) m (\<lambda>_. node_at u S' b') (\<lambda>_ _. True)"
  by (rule validI) (auto intro: changes_node_at [OF assms(1) _ assms(2)])

lemma node_at_cong: "ws_nodes s' = ws_nodes s \<Longrightarrow> node_at u S b s \<Longrightarrow> node_at u S b s'"
  by (simp add: node_at_def)

lemma alike_keeps: "keeps_nodes m \<Longrightarrow> alike (node_at u S b) m m (\<lambda>_. node_at u S b) (\<lambda>_ _. True)"
  by (rule keeps_nodes_valid) (auto intro: node_at_cong)

lemma ironic_calls_okD:
  assumes "ironic_calls_ok w"
  shows "we_update_node w u ps s = (Inr (), s') \<Longrightarrow> changes u (boot_patched ps) s s'"
    and "we_set_state w u v os s = (Inr (), s') \<Longrightarrow> changes u (\<lambda>n n'. wn_boot_interface n' = wn_boot_interface n) s s'"
    and "we_wait w u e s = (Inr (), s') \<Longrightarrow>
      changes u (\<lambda>n n'. wn_provision_state n' = e \<and> wn_boot_interface n' = wn_boot_interface n) s s'"
    and "we_get_node w i s = (r, s') \<Longrightarrow> s' = s" "we_get_node w i s = (Inr n, s') \<Longrightarrow> n \<in> set (ws_nodes s)"
    and "we_create_node w d s = (Inr n, s') \<Longrightarrow> ws_nodes s' = ws_nodes s @ [n] \<and>
        wn_provision_state n = ''enroll'' \<and> wn_uuid n \<notin> wn_uuid ` set (ws_nodes s)"
    and "keeps_nodes (we_list_ports w u)" "patch_ok w"
    and "t \<in> set (STEADY_STATE_BOOT_INTERFACE # map snd VIRTUAL_MEDIA_BOOT_INTERFACE) \<Longrightarrow> we_decode w t = JStr t"
proof -
  note c = assms [unfolded ironic_calls_ok_def]
  note c2 = c [THEN conjunct2] and c3 = c [THEN conjunct2, THEN conjunct2]
  note c4 = c3 [THEN conjunct2] note c5 = c4 [THEN conjunct2] note c6 = c5 [THEN conjunct2] note c7 = c6 [THEN conjunct2]
  show "we_update_node w u ps s = (Inr (), s') \<Longrightarrow> changes u (boot_patched ps) s s'" using c3 [THEN conjunct1] by simp
  show "we_set_state w u v os s = (Inr (), s') \<Longrightarrow> changes u (\<lambda>n n'. wn_boot_interface n' = wn_boot_interface n) s s'"
    using c4 [THEN conjunct1] by simp
  show "we_wait w u e s = (Inr (), s') \<Longrightarrow>
      changes u (\<lambda>n n'. wn_provision_state n' = e \<and> wn_boot_interface n' = wn_boot_interface n) s s'"
    using c5 [THEN conjunct1] by simp
  show "we_get_node w i s = (r, s') \<Longrightarrow> s' = s" "we_get_node w i s = (Inr n, s') \<Longrightarrow> n \<in> set (ws_nodes s)"
    using c [THEN conjunct1] by simp_all
  show "we_create_node w d s = (Inr n, s') \<Longrightarrow> ws_nodes s' = ws_nodes s @ [n] \<and>
        wn_provision_state n = ''enroll'' \<and> wn_uuid n \<notin> wn_uuid ` set (ws_nodes s)"
    using c2 [THEN conjunct1] by simp
  show "keeps_nodes (we_list_ports w u)" using c6 [THEN conjunct1] by simp
  show "patch_ok w" using c7 [THEN conjunct1] .
  show "t \<in> set (STEADY_STATE_BOOT_INTERFACE # map snd VIRTUAL_MEDIA_BOOT_INTERFACE) \<Longrightarrow> we_decode w t = JStr t"
    using c7 [THEN conjunct2] by blast
qed

lemma alike_transition:
  assumes "ironic_calls_ok w" "\<And>st. st \<in> S \<Longrightarrow> legal v st" "e \<noteq> []"
  shows "alike (node_at u S b) (transition w u v (Some e) os) (transition (guard_verbs w) u v (Some e) os)
    (\<lambda>_. node_at u {e} b) (\<lambda>_ _. True)"
  unfolding transition_def option.case
proof (rule alike_andthen)
  show "alike (node_at u S b) (we_set_state w u v os) (we_set_state (guard_verbs w) u v os)
      (\<lambda>_. node_at u UNIV b) (\<lambda>_ _. True)"
  proof (rule alikeI)
    fix s assume "node_at u S b s"
    then show "we_set_state (guard_verbs w) u v os s = we_set_state w u v os s"
      using assms(2) by (auto simp: guard_verbs_def node_at_def)
  qed (rule changing_valid [OF ironic_calls_okD(2) [OF assms(1)]], auto)
  show "alike (node_at u UNIV b) (when_act (e \<noteq> []) (we_wait w u e)) (when_act (e \<noteq> []) (we_wait (guard_verbs w) u e))
      (\<lambda>_. node_at u {e} b) (\<lambda>_ _. True)"
    using assms(3) by (intro alike_when) (auto intro!: alike_same changing_valid [OF ironic_calls_okD(3) [OF assms(1)]])
qed

lemma guard_patch [simp]: "patch_updates (guard_verbs w) = patch_updates w"
  by (intro ext) (simp only: patch_updates_def guard_verbs_sel)

lemma guard_pxe [simp]: "pxe_enabled_bios_name (guard_verbs w) = pxe_enabled_bios_name w"
  by (intro ext) (simp only: pxe_enabled_bios_name_def guard_verbs_sel)

lemma we_patch_one:
  "patch_ok w \<Longrightarrow> CHR ''='' \<notin> set k \<Longrightarrow> we_patch w [k @ CHR ''='' # v] = [(CHR ''/'' # k, we_decode w v)]"
  by (simp add: patch_ok_def split1_key)

lemma alike_boot_patch:
  assumes "ironic_calls_ok w"
  shows "alike (node_at u S b) (patch_updates w u [''boot_interface='' @ t]) (patch_updates w u [''boot_interface='' @ t])
    (\<lambda>_. node_at u S (t = STEADY_STATE_BOOT_INTERFACE)) (\<lambda>_ _. True)"
proof -
  have ps: "we_patch w [''boot_interface='' @ t] = [(''/boot_interface'', we_decode w t)]"
    using we_patch_one [OF ironic_calls_okD(8) [OF assms], of "''boot_interface''" t] by simp
  have "we_decode w t = JStr t" if "t = STEADY_STATE_BOOT_INTERFACE" using ironic_calls_okD(9) [OF assms, of t] that by simp
  then show ?thesis
    unfolding patch_updates_def ps
    by (auto intro!: alike_same changing_valid [OF ironic_calls_okD(1) [OF assms]] simp: boot_patched_def)
qed

lemma alike_inspect_patch:
  assumes "ironic_calls_ok w"
  shows "alike (node_at u S b) (patch_updates w u [''inspect_interface='' @ t]) (patch_updates w u [''inspect_interface='' @ t])
    (\<lambda>_. node_at u S b) (\<lambda>_ _. True)"
proof -
  have ps: "we_patch w [''inspect_interface='' @ t] = [(''/inspect_interface'', we_decode w t)]"
    using we_patch_one [OF ironic_calls_okD(8) [OF assms], of "''inspect_interface''" t] by simp
  show ?thesis
    unfolding patch_updates_def ps
    by (auto intro!: alike_same changing_valid [OF ironic_calls_okD(1) [OF assms]] simp: boot_patched_def)
qed

lemma alike_get:
  assumes "ironic_calls_ok w"
  shows "alike P (we_get_node w i) (we_get_node w i) (\<lambda>_. P) (\<lambda>_ _. True)"
  using ironic_calls_okD(4) [OF assms] by (intro alike_same validI) blast+

lemma alike_manageable:
  assumes "ironic_calls_ok w" "v \<in> {''inspect'', ''clean'', ''provide''}" "e \<noteq> []"
  shows "alike (node_at u {''manageable''} b) (transition w u v (Some e) os) (transition (guard_verbs w) u v (Some e) os)
    (\<lambda>_. node_at u {e} b) (\<lambda>_ _. True)"
  using assms by (intro alike_transition) (auto simp: legal_def)

lemma alike_inspect:
  assumes "ironic_calls_ok w"
  shows "alike (node_at u {''manageable''} b) (inspect w u t) (inspect (guard_verbs w) u t)
    (\<lambda>_. node_at u {''manageable''} b) (\<lambda>_ _. True)"
  unfolding inspect_def guard_verbs_sel guard_patch
  by (rule alike_bnd [OF alike_get [OF assms]], rule alike_andthen [OF alike_when [OF alike_inspect_patch [OF assms]]],
      assumption, rule alike_manageable [OF assms]) simp_all

lemma alike_agent:
  assumes "ironic_calls_ok w"
  shows "alike (node_at u {''manageable''} b) (agent_inspection w u vm) (agent_inspection (guard_verbs w) u vm)
    (\<lambda>_. node_at u {''manageable''} True) (\<lambda>_ _. True)"
  unfolding agent_inspection_def guard_verbs_sel guard_patch
proof (rule alike_bnd)
  show "alike (node_at u {''manageable''} b)
      (if vm then bnd (we_get_node w u) (\<lambda>n. of_sum (virtual_media_boot_interface_for (wn_driver n))) else ret STEADY_STATE_BOOT_INTERFACE)
      (if vm then bnd (we_get_node w u) (\<lambda>n. of_sum (virtual_media_boot_interface_for (wn_driver n))) else ret STEADY_STATE_BOOT_INTERFACE)
      (\<lambda>_. node_at u {''manageable''} b) (\<lambda>_ _. True)"
    using ironic_calls_okD(4) [OF assms] by (intro alike_same validI) (auto split: if_splits prod.splits sum.splits)
  show "alike (node_at u {''manageable''} b)
      (andthen (patch_updates w u [''boot_interface='' @ t]) (andthen (inspect w u ''agent'')
        (patch_updates w u [''boot_interface='' @ STEADY_STATE_BOOT_INTERFACE])))
      (andthen (patch_updates w u [''boot_interface='' @ t]) (andthen (inspect (guard_verbs w) u ''agent'')
        (patch_updates w u [''boot_interface='' @ STEADY_STATE_BOOT_INTERFACE])))
      (\<lambda>_. node_at u {''manageable''} True) (\<lambda>_ _. True)" for t
    by (rule alike_andthen [OF alike_boot_patch [OF assms]], rule alike_andthen [OF alike_inspect [OF assms]],
        rule alike_conseq [OF alike_boot_patch [OF assms]]) auto
qed

lemma server_okD:
  assumes "server_ok env"
  shows "ironic_calls_ok (sv_ironic env)" "keeps_nodes (sv_set_raid env u c)" "keeps_nodes (sv_traits env u)"
    "keeps_nodes (sv_runbook env t)" "keeps_nodes (sv_inventory env u)" "keeps_nodes (sv_credential env)"
    "keeps_nodes (be_request (sv_bmc env) rq)" "keeps_nodes (be_sleep (sv_bmc env) n)"
    "sv_unset env u [''inspect_interface''] s = (Inr (), s') \<Longrightarrow> changes u
       (\<lambda>n n'. wn_provision_state n' = wn_provision_state n \<and> wn_boot_interface n' = wn_boot_interface n) s s'"
  using assms unfolding server_ok_def by simp_all

lemma keeps_nodes_iff: "keeps_nodes m \<longleftrightarrow> (\<forall>N. keeps (\<lambda>s. ws_nodes s = N) m)"
  by (auto simp: keeps_nodes_def keeps_def)

lemma server_requests:
  assumes "server_ok env"
  shows "keeps_requests (sv_bmc env) (\<lambda>s. ws_nodes s = N)"
  using server_okD(7) [OF assms] by (simp add: keeps_requests_def keeps_nodes_iff)

lemma keeps_nodes_bios: "server_ok env \<Longrightarrow> keeps_nodes (use_bmc b (update_dell_bios_settings (sv_bmc env) pxe))"
  unfolding keeps_nodes_iff by (intro allI keeps_use_bmc keeps_bios server_requests)

lemma keeps_nodes_initialize:
  assumes "server_ok env"
  shows "keeps_nodes (initialize_bmc env b pw)"
  unfolding keeps_nodes_iff
proof
  fix N
  note r = server_requests [OF assms]
  have "keeps (\<lambda>s. ws_nodes s = N) (be_request (sv_bmc env) rq)" "keeps (\<lambda>s. ws_nodes s = N) (be_sleep (sv_bmc env) n)" for rq n
    using server_okD(7,8) [OF assms] by (simp_all add: keeps_nodes_iff)
  then show "keeps (\<lambda>s. ws_nodes s = N) (initialize_bmc env b pw)" unfolding initialize_bmc_def
    by (intro act_rules keeps_set_bmc_password keeps_use_bmc keeps_chassis_info [OF r] keeps_drac [OF r] keeps_hostname [OF r])
qed

lemma keeps_nodes_bmc_for_ip: "server_ok env \<Longrightarrow> keeps_nodes (bmc_for_ip_address (sv_bmc env) f (sv_credential env) a u p)"
  unfolding keeps_nodes_iff bmc_for_ip_address_def using server_okD(6)
  by (intro allI act_rules) (simp add: keeps_nodes_iff)

lemma alike_oob:
  assumes "server_ok env"
  shows "alike (node_at u {''manageable''} b) (inspect_out_of_band env u) (inspect_out_of_band (guard_server env) u)
    (\<lambda>_. node_at u {''manageable''} b) (\<lambda>_ _. True)"
  unfolding inspect_out_of_band_def guard_server_sel
proof (rule alike_andthen)
  show "alike (node_at u {''manageable''} b) (sv_unset env u [''inspect_interface'']) (sv_unset env u [''inspect_interface''])
      (\<lambda>_. node_at u {''manageable''} b) (\<lambda>_ _. True)"
    by (rule alike_same, rule changing_valid [OF server_okD(9) [OF assms]]) auto
qed (rule alike_manageable [OF server_okD(1) [OF assms]], simp_all)

lemma alike_firmware:
  assumes "server_ok env"
  shows "alike (node_at u {''manageable''} b) (apply_firmware_updates env u) (apply_firmware_updates (guard_server env) u)
    (\<lambda>_. node_at u {''manageable''} b) (\<lambda>_ _. True)"
  unfolding apply_firmware_updates_def guard_server_sel
  by (rule alike_bnd [OF alike_keeps [OF server_okD(3) [OF assms]]], rule alike_for_each,
      rule alike_bnd [OF alike_keeps [OF server_okD(4) [OF assms]]], rule alike_manageable [OF server_okD(1) [OF assms]]) simp_all

lemma alike_raid:
  assumes "server_ok env"
  shows "alike (node_at u {''manageable''} b) (configure_raid env u sc) (configure_raid (guard_server env) u sc)
    (\<lambda>_. node_at u {''manageable''} b) (\<lambda>_ _. True)"
proof -
  have "alike (node_at u {''manageable''} b) (of_sum (physical_disks_from_inventory sc)) (of_sum (physical_disks_from_inventory sc))
      (\<lambda>_. node_at u {''manageable''} b) (\<lambda>_ _. True)"
    by (intro alike_same validI) auto
  then show ?thesis unfolding configure_raid_def guard_server_sel
  proof (rule alike_bnd)
    fix ds show "alike (node_at u {''manageable''} b)
      (if ds = [] then ret () else andthen (sv_set_raid env u (generate_raid_config ds)) (transition (sv_ironic env) u ''clean'' (Some ''manageable'')
           \<lparr>to_clean_steps = Some [(''raid'', ''delete_configuration''), (''raid'', ''create_configuration'')], to_runbook = None, to_disable_ramdisk = Some False\<rparr>))
      (if ds = [] then ret () else andthen (sv_set_raid env u (generate_raid_config ds)) (transition (guard_verbs (sv_ironic env)) u ''clean'' (Some ''manageable'')
           \<lparr>to_clean_steps = Some [(''raid'', ''delete_configuration''), (''raid'', ''create_configuration'')], to_runbook = None, to_disable_ramdisk = Some False\<rparr>))
      (\<lambda>_. node_at u {''manageable''} b) (\<lambda>_ _. True)"
      using alike_andthen [OF alike_keeps [OF server_okD(2) [OF assms]] alike_manageable [OF server_okD(1) [OF assms]]]
      by (cases "ds = []") (simp_all add: alike_ret)
  qed
qed

lemma alike_pxe:
  assumes "server_ok env"
  shows "alike (node_at u S b) (pxe_enabled_bios_name (sv_ironic env) v) (pxe_enabled_bios_name (sv_ironic env) v)
    (\<lambda>_. node_at u S b) (\<lambda>_ _. True)"
  unfolding pxe_enabled_bios_name_def
  by (rule alike_bnd [OF alike_keeps [OF ironic_calls_okD(7) [OF server_okD(1) [OF assms]]]], rule alike_ret)

lemma alike_finish:
  assumes "server_ok env"
  shows "alike (node_at u {''manageable''} True)
     (if \<not> truthy p then raise_exn e else andthen (use_bmc bm (update_dell_bios_settings (sv_bmc env) p))
         (andthen (when_act raid (andthen (configure_raid env u sc) (inspect_out_of_band env u)))
         (andthen (when_act fw (apply_firmware_updates env u)) (move_to (sv_ironic env) u ''provide'' ''available''))))
     (if \<not> truthy p then raise_exn e else andthen (use_bmc bm (update_dell_bios_settings (sv_bmc env) p))
         (andthen (when_act raid (andthen (configure_raid (guard_server env) u sc) (inspect_out_of_band (guard_server env) u)))
         (andthen (when_act fw (apply_firmware_updates (guard_server env) u)) (move_to (guard_verbs (sv_ironic env)) u ''provide'' ''available''))))
     (\<lambda>_. node_at u {''available''} True) (\<lambda>_ _. True)"
proof (cases "truthy p")
  case True
  have r: "alike (node_at u {''manageable''} True) (when_act raid (andthen (configure_raid env u sc) (inspect_out_of_band env u)))
      (when_act raid (andthen (configure_raid (guard_server env) u sc) (inspect_out_of_band (guard_server env) u)))
      (\<lambda>_. node_at u {''manageable''} True) (\<lambda>_ _. True)"
    by (rule alike_when, rule alike_andthen [OF alike_raid [OF assms] alike_oob [OF assms]])
  have f: "alike (node_at u {''manageable''} True) (when_act fw (apply_firmware_updates env u))
      (when_act fw (apply_firmware_updates (guard_server env) u)) (\<lambda>_. node_at u {''manageable''} True) (\<lambda>_ _. True)"
    by (rule alike_when, rule alike_firmware [OF assms])
  have p: "alike (node_at u {''manageable''} True) (move_to (sv_ironic env) u ''provide'' ''available'')
      (move_to (guard_verbs (sv_ironic env)) u ''provide'' ''available'') (\<lambda>_. node_at u {''available''} True) (\<lambda>_ _. True)"
    by (rule alike_manageable [OF server_okD(1) [OF assms]]) simp_all
  have "alike (node_at u {''manageable''} True) (use_bmc bm (update_dell_bios_settings (sv_bmc env) p))
      (use_bmc bm (update_dell_bios_settings (sv_bmc env) p)) (\<lambda>_. node_at u {''manageable''} True) (\<lambda>_ _. True)"
    by (rule alike_keeps [OF keeps_nodes_bios [OF assms]])
  with True show ?thesis by (simp del: andthen_apply) (intro alike_andthen [OF _ alike_andthen [OF r alike_andthen [OF f p]]])
qed (simp add: alike_raise)

lemma alike_prod: "(\<And>a b. x = (a, b) \<Longrightarrow> alike P (f a b) (g a b) Q E) \<Longrightarrow> alike P (case x of (a, b) \<Rightarrow> f a b) (case x of (a, b) \<Rightarrow> g a b) Q E"
  by (cases x) simp

lemma alike_provision:
  assumes "server_ok env"
  shows "alike (node_at u {''manageable''} b) (provision_server env bm u fw raid) (provision_server (guard_server env) bm u fw raid)
    (\<lambda>_. node_at u {''available''} True) (\<lambda>_ _. True)"
  unfolding provision_server_def guard_server_sel guard_pxe
  by (rule alike_andthen [OF alike_oob [OF assms]], rule alike_bnd [OF alike_keeps [OF server_okD(5) [OF assms]]],
      rule alike_bnd [OF alike_pxe [OF assms]], rule alike_bnd [OF alike_keeps [OF keeps_nodes_bios [OF assms]]], rule alike_prod,
      rule alike_andthen [OF alike_agent [OF server_okD(1) [OF assms]]], rule alike_bnd [OF alike_pxe [OF assms]],
      rule alike_finish [OF assms])

definition keyed_nodes :: "wf_state \<Rightarrow> bool" where
  "keyed_nodes s \<longleftrightarrow> distinct (map wn_uuid (ws_nodes s))"

lemma alike_keyed: "keeps_nodes m \<Longrightarrow> alike keyed_nodes m m (\<lambda>_. keyed_nodes) (\<lambda>_ _. True)"
  by (rule keeps_nodes_valid) (simp_all add: keyed_nodes_def)

lemma alike_initialize:
  assumes "server_ok env"
  shows "alike keyed_nodes (initialize_bmc env b pw) (initialize_bmc (guard_server env) b pw) (\<lambda>_. keyed_nodes) (\<lambda>_ _. True)"
proof -
  have "initialize_bmc (guard_server env) b pw = initialize_bmc env b pw" by (simp only: initialize_bmc_def guard_server_sel)
  then show ?thesis using alike_keyed [OF keeps_nodes_initialize [OF assms]] by simp
qed

lemma alike_get_keyed:
  assumes "ironic_calls_ok w"
  shows "alike keyed_nodes (we_get_node w i) (we_get_node w i)
    (\<lambda>n. node_at (wn_uuid n) {wn_provision_state n} False) (\<lambda>_ _. True)"
proof (rule alike_same, rule validI)
  fix s n s' assume k: "keyed_nodes s" and g: "we_get_node w i s = (Inr n, s')"
  then have "n \<in> set (ws_nodes s)" "s' = s" using ironic_calls_okD(4,5) [OF assms] by blast+
  moreover have "m = n" if "m \<in> set (ws_nodes s)" "wn_uuid m = wn_uuid n" for m
    using that k calculation(1) unfolding keyed_nodes_def by (metis distinct_map inj_onD)
  ultimately show "node_at (wn_uuid n) {wn_provision_state n} False s'" by (auto simp: node_at_def)
qed simp

lemma alike_update_ironic:
  assumes "ironic_calls_ok w"
  shows "alike (node_at u S False) (update_ironic_node w b u name d i x) (update_ironic_node (guard_verbs w) b u name d i x)
    (\<lambda>_. node_at u S False) (\<lambda>_ _. True)"
  unfolding update_ironic_node_def guard_verbs_sel
  by (rule alike_same, rule changing_valid [OF ironic_calls_okD(1) [OF assms]]) (auto simp: boot_patched_def)

lemma alike_create_node:
  assumes "ironic_calls_ok w"
  shows "alike (\<lambda>_. True) (create_ironic_node w b name d i x) (create_ironic_node (guard_verbs w) b name d i x)
    (\<lambda>n. node_at (wn_uuid n) {''enroll''} False) (\<lambda>_ _. True)"
  unfolding create_ironic_node_def guard_verbs_sel
  by (rule alike_same, rule validI) (auto dest!: ironic_calls_okD(6) [OF assms] simp: node_at_def, metis image_eqI)

lemma alike_reenroll:
  assumes "ironic_calls_ok w" "st \<in> set ENROLLABLE_STATES"
  shows "alike (node_at u {st} False) (when_act (st \<noteq> ''manageable'') (move_to w u ''manage'' ''manageable''))
    (when_act (st \<noteq> ''manageable'') (move_to (guard_verbs w) u ''manage'' ''manageable''))
    (\<lambda>_. node_at u {''manageable''} False) (\<lambda>_ _. True)"
  by (rule alike_when, rule alike_transition [OF assms(1)]) (use assms(2) in \<open>auto simp: legal_def ENROLLABLE_STATES_def\<close>)

lemma alike_create_or_update:
  assumes "ironic_calls_ok w"
  shows "alike keyed_nodes (create_or_update w b name mf x) (create_or_update (guard_verbs w) b name mf x)
    (\<lambda>node. node_at (wn_uuid node) {''manageable''} False) (\<lambda>_ _. True)"
proof -
  obtain d i where d: "driver_for mf = (d, i)" by force
  let ?Q = "\<lambda>node. node_at (wn_uuid node) {''manageable''} False"
  have found: "alike (node_at (wn_uuid node) {wn_provision_state node} False)
      (if wn_provision_state node \<notin> set ENROLLABLE_STATES then raise_exn (e node) else andthen
         (when_act (wn_provision_state node \<noteq> ''manageable'') (move_to w (wn_uuid node) ''manage'' ''manageable''))
         (andthen (update_ironic_node w b (wn_uuid node) name d i x) (ret node)))
      (if wn_provision_state node \<notin> set ENROLLABLE_STATES then raise_exn (e node) else andthen
         (when_act (wn_provision_state node \<noteq> ''manageable'') (move_to (guard_verbs w) (wn_uuid node) ''manage'' ''manageable''))
         (andthen (update_ironic_node (guard_verbs w) b (wn_uuid node) name d i x) (ret node)))
      ?Q (\<lambda>_ _. True)" for node e
  proof (cases "wn_provision_state node \<in> set ENROLLABLE_STATES")
    case True
    have "alike (node_at (wn_uuid node) {wn_provision_state node} False)
      (andthen (when_act (wn_provision_state node \<noteq> ''manageable'') (move_to w (wn_uuid node) ''manage'' ''manageable''))
         (andthen (update_ironic_node w b (wn_uuid node) name d i x) (ret node)))
      (andthen (when_act (wn_provision_state node \<noteq> ''manageable'') (move_to (guard_verbs w) (wn_uuid node) ''manage'' ''manageable''))
         (andthen (update_ironic_node (guard_verbs w) b (wn_uuid node) name d i x) (ret node)))
      ?Q (\<lambda>_ _. True)"
      by (rule alike_andthen [OF alike_reenroll [OF assms True] alike_andthen [OF alike_update_ironic [OF assms]]], rule alike_ret)
    with True show ?thesis by simp
  qed (simp add: alike_raise)
  have missing: "alike (\<lambda>_. True)
      (bnd (create_ironic_node w b name d i x) (\<lambda>node. andthen (move_to w (wn_uuid node) ''manage'' ''manageable'') (ret node)))
      (bnd (create_ironic_node (guard_verbs w) b name d i x) (\<lambda>node. andthen (move_to (guard_verbs w) (wn_uuid node) ''manage'' ''manageable'') (ret node)))
      ?Q (\<lambda>_ _. True)"
    by (rule alike_bnd [OF alike_create_node [OF assms]], rule alike_andthen [OF alike_transition [OF assms]], simp_all add: legal_def alike_ret)
  show ?thesis unfolding create_or_update_def d prod.case guard_verbs_sel
  proof (rule alike_try)
    show "alike (\<lambda>_. True)
      (case e of NotFound z \<Rightarrow> bnd (create_ironic_node w b name d i x) (\<lambda>node. andthen (move_to w (wn_uuid node) ''manage'' ''manageable'') (ret node)) | _ \<Rightarrow> raise_exn e)
      (case e of NotFound z \<Rightarrow> bnd (create_ironic_node (guard_verbs w) b name d i x) (\<lambda>node. andthen (move_to (guard_verbs w) (wn_uuid node) ''manage'' ''manageable'') (ret node)) | _ \<Rightarrow> raise_exn e)
      ?Q (\<lambda>_ _. True)" for e
      by (cases e) (simp_all add: missing alike_raise)
  qed (rule alike_bnd [OF alike_get_keyed [OF assms] found])
qed

lemma alike_enroll_server:
  assumes "server_ok env"
  shows "alike keyed_nodes (enroll_server env ip fw raid pw x) (enroll_server (guard_server env) ip fw raid pw x)
    (\<lambda>_ s. \<exists>u. node_at u {''available''} True s) (\<lambda>_ _. True)"
  unfolding enroll_server_def guard_server_sel
  by (rule alike_bnd [OF alike_keyed [OF keeps_nodes_bmc_for_ip [OF assms]]], rule alike_bnd [OF alike_initialize [OF assms]], rule alike_prod,
      rule alike_bnd [OF alike_create_or_update [OF server_okD(1) [OF assms]]],
      rule alike_conseq [OF alike_provision [OF assms]]) auto

section \<open>Properties\<close>

text \<open>
  C21: The enrollment of a server only asks Ironic for transitions its state machine allows: against an
  Ironic that rejects every verb not accepted in the node's current state it behaves exactly as
  against one that rejects none, whatever the options, the inventory and the firmware traits.
\<close>
theorem server_transitions_legal:
  assumes "server_ok env" "keyed_nodes s"
  shows "enroll_server (guard_server env) ip firmware raid password cmdb_id s = enroll_server env ip firmware raid password cmdb_id s"
  by (rule alike_eq [OF alike_enroll_server [OF assms(1)] assms(2)])

text \<open>
  C22: When the enrollment of a server returns, the node it created or updated is available, and its boot
  interface is the steady one, also when the agent inspection had to switch it to virtual media.
\<close>
theorem server_enroll_available:
  assumes "server_ok env" "keyed_nodes s"
    and "enroll_server env ip firmware raid password cmdb_id s = (Inr (), s')"
  shows "\<exists>b d b1 node s0 s1 s2. bmc_for_ip_address (sv_bmc env) (sv_pbkdf2 env) (sv_credential env) ip ''root'' None s = (Inr b, s0) \<and>
    initialize_bmc env b password s0 = (Inr (d, b1), s1) \<and> create_or_update (sv_ironic env) b1 (device_name d) (ch_manufacturer d) cmdb_id s1 = (Inr node, s2) \<and>
    node_at (wn_uuid node) {''available''} True s'"
proof -
  obtain b s0 d b1 s1 node s2 where 1: "bmc_for_ip_address (sv_bmc env) (sv_pbkdf2 env) (sv_credential env) ip ''root'' None s = (Inr b, s0)"
    and 2: "initialize_bmc env b password s0 = (Inr (d, b1), s1)"
    and 3: "create_or_update (sv_ironic env) b1 (device_name d) (ch_manufacturer d) cmdb_id s1 = (Inr node, s2)"
    and 4: "provision_server env b1 (wn_uuid node) firmware raid s2 = (Inr (), s')"
    using assms(3) unfolding enroll_server_def by (auto simp: bnd_Inr simp del: bnd_apply)
  have "keyed_nodes s0" using keeps_nodes_bmc_for_ip [OF assms(1), of "sv_pbkdf2 env" ip "''root''" None] assms(2) 1
    by (simp add: keeps_nodes_def keyed_nodes_def) (metis snd_conv)
  then have "keyed_nodes s1" using alike_initialize [OF assms(1)] 2 by (fastforce simp: alike_def dest: validD)
  then have "node_at (wn_uuid node) {''manageable''} False s2"
    using alike_create_or_update [OF server_okD(1) [OF assms(1)]] 3 by (fastforce simp: alike_def dest: validD)
  then have "node_at (wn_uuid node) {''available''} True s'"
    using alike_provision [OF assms(1)] 4 by (fastforce simp: alike_def dest: validD)
  with 1 2 3 show ?thesis by blast
qed

text \<open>The calls other than those to the management controller leave the passwords of its accounts alone.\<close>

definition leaves_bmc :: "server_env \<Rightarrow> (wf_state \<Rightarrow> string \<Rightarrow> string option) \<Rightarrow> bool" where
  "leaves_bmc env pw \<longleftrightarrow> (\<forall>P. let J = (\<lambda>s. pw s = P); w = sv_ironic env in
     (\<forall>i. keeps J (we_get_node w i)) \<and> (\<forall>d. keeps J (we_create_node w d)) \<and> (\<forall>u ps. keeps J (we_update_node w u ps)) \<and>
     (\<forall>u v os. keeps J (we_set_state w u v os)) \<and> (\<forall>u e. keeps J (we_wait w u e)) \<and> (\<forall>u. keeps J (we_list_ports w u)) \<and>
     (\<forall>u as. keeps J (sv_unset env u as)) \<and> (\<forall>u c. keeps J (sv_set_raid env u c)) \<and> (\<forall>u. keeps J (sv_traits env u)) \<and>
     (\<forall>t. keeps J (sv_runbook env t)) \<and> (\<forall>u. keeps J (sv_inventory env u)) \<and> keeps J (sv_credential env))"

lemma leaves_bmcD:
  assumes "leaves_bmc env pw"
  shows "keeps (\<lambda>s. pw s = P) (we_get_node (sv_ironic env) i)" "keeps (\<lambda>s. pw s = P) (we_create_node (sv_ironic env) d)"
    "keeps (\<lambda>s. pw s = P) (we_update_node (sv_ironic env) u ps)" "keeps (\<lambda>s. pw s = P) (we_set_state (sv_ironic env) u v os)"
    "keeps (\<lambda>s. pw s = P) (we_wait (sv_ironic env) u e)" "keeps (\<lambda>s. pw s = P) (we_list_ports (sv_ironic env) u)"
    "keeps (\<lambda>s. pw s = P) (sv_unset env u as)" "keeps (\<lambda>s. pw s = P) (sv_set_raid env u c)" "keeps (\<lambda>s. pw s = P) (sv_traits env u)"
    "keeps (\<lambda>s. pw s = P) (sv_runbook env t)" "keeps (\<lambda>s. pw s = P) (sv_inventory env u)" "keeps (\<lambda>s. pw s = P) (sv_credential env)"
  using assms [unfolded leaves_bmc_def Let_def] by simp_all

lemma keeps_transition_bmc:
  assumes "leaves_bmc env pw"
  shows "keeps (\<lambda>s. pw s = P) (transition (sv_ironic env) u v e os)"
  unfolding transition_def by (intro act_rules leaves_bmcD [OF assms])

lemma keeps_create_or_update_bmc:
  assumes "leaves_bmc env pw"
  shows "keeps (\<lambda>s. pw s = P) (create_or_update (sv_ironic env) b name mf x)"
proof -
  obtain d i where d: "driver_for mf = (d, i)" by force
  note k = leaves_bmcD [OF assms] keeps_transition_bmc [OF assms]
  have h: "keeps (\<lambda>s. pw s = P) (case e of NotFound z \<Rightarrow> bnd (create_ironic_node (sv_ironic env) b name d i x)
      (\<lambda>node. andthen (move_to (sv_ironic env) (wn_uuid node) ''manage'' ''manageable'') (ret node)) | _ \<Rightarrow> raise_exn e)" for e
    unfolding create_ironic_node_def by (cases e) (simp_all only: exn.case, (intro act_rules k)+)
  show ?thesis unfolding create_or_update_def d prod.case update_ironic_node_def by (intro act_rules k h)
qed

lemma keeps_provision_bmc:
  assumes "leaves_bmc env pw" "keeps_requests (sv_bmc env) (\<lambda>s. pw s = P)"
  shows "keeps (\<lambda>s. pw s = P) (provision_server env b u fw raid)"
  unfolding provision_server_def inspect_out_of_band_def pxe_enabled_bios_name_def agent_inspection_def inspect_def
    patch_updates_def configure_raid_def apply_firmware_updates_def
  by (intro act_rules leaves_bmcD [OF assms(1)] keeps_transition_bmc [OF assms(1)] keeps_use_bmc keeps_bios [OF assms(2)])

lemma keeps_eq: "(\<And>P. keeps (\<lambda>s. f s = P) m) \<Longrightarrow> m s = (r, s') \<Longrightarrow> f s' = f s"
  using keepsD [of "\<lambda>x. f x = f s" m s] by simp

lemma accounts_requests:
  assumes "accounts_ok env ip pw owner"
  shows "keeps_requests env (\<lambda>s. pw s = P)"
proof (unfold keeps_requests_def keeps_def, intro allI impI)
  fix rq s assume h: "harmless rq" "pw s = P"
  obtain r s' where e: "be_request env rq s = (r, s')" by force
  note c = assms [unfolded accounts_ok_def, THEN conjunct2, THEN conjunct2, THEN conjunct1, THEN spec, THEN spec, THEN spec, THEN spec, THEN mp, OF e]
  have "pw s' = pw s" using c h(1) unfolding harmless_def by blast
  with e h(2) show "pw (snd (be_request env rq s)) = P" by simp
qed

text \<open>
  C25: When the enrollment of a server returns, the root account of its management controller has the standard
  password of its address, and no other account's password has changed.
\<close>
theorem enrolled_bmc_password:
  assumes "accounts_ok (sv_bmc env) ip pw owner" "leaves_bmc env pw"
    and "enroll_server env ip firmware raid password cmdb_id s = (Inr (), s')"
  shows "\<exists>b s0. bmc_for_ip_address (sv_bmc env) (sv_pbkdf2 env) (sv_credential env) ip ''root'' None s = (Inr b, s0) \<and>
    pw s' ''root'' = Some (bm_password b) \<and> (\<forall>u. u \<noteq> ''root'' \<longrightarrow> pw s' u = pw s u)"
proof -
  obtain b s0 d b1 s1 node s2 where 1: "bmc_for_ip_address (sv_bmc env) (sv_pbkdf2 env) (sv_credential env) ip ''root'' None s = (Inr b, s0)"
    and 2: "initialize_bmc env b password s0 = (Inr (d, b1), s1)"
    and 3: "create_or_update (sv_ironic env) b1 (device_name d) (ch_manufacturer d) cmdb_id s1 = (Inr node, s2)"
    and 4: "provision_server env b1 (wn_uuid node) firmware raid s2 = (Inr (), s')"
    using assms(3) unfolding enroll_server_def by (auto simp: bnd_Inr simp del: bnd_apply)
  note r = accounts_requests [OF assms(1)]
  have ip: "bm_ip_address b = ip"
    using 1 by (auto simp: bmc_for_ip_address_def new_bmc_def split: prod.splits sum.splits if_splits)
  have "keeps (\<lambda>x. pw x = P) (bmc_for_ip_address (sv_bmc env) (sv_pbkdf2 env) (sv_credential env) ip ''root'' None)" for P
    unfolding bmc_for_ip_address_def by (intro act_rules leaves_bmcD [OF assms(2)])
  then have p0: "pw s0 = pw s" using 1 by (rule keeps_eq)
  obtain sp where sp: "set_bmc_password (sv_bmc env) ip (bm_password b) ''root'' password s0 = (Inr (), sp)"
    and cfg: "use_bmc b (bnd (chassis_info (sv_bmc env)) (\<lambda>device_info.
       andthen (when_act (ch_manufacturer device_info = ''Dell'') (bnd (update_dell_drac_settings (sv_bmc env)) (\<lambda>_. ret ())))
       (andthen (bmc_set_hostname (sv_bmc env) (bmc_hostname device_info) (device_name device_info))
       (ret device_info)))) sp = (Inr (d, b1), s1)"
    using 2 unfolding initialize_bmc_def andthen_Inr ip by auto
  have "keeps (\<lambda>x. pw x = P) (use_bmc b (bnd (chassis_info (sv_bmc env)) (\<lambda>device_info.
       andthen (when_act (ch_manufacturer device_info = ''Dell'') (bnd (update_dell_drac_settings (sv_bmc env)) (\<lambda>_. ret ())))
       (andthen (bmc_set_hostname (sv_bmc env) (bmc_hostname device_info) (device_name device_info))
       (ret device_info)))))" for P
    by (intro keeps_use_bmc act_rules keeps_chassis_info [OF r] keeps_drac [OF r] keeps_hostname [OF r])
  then have "pw s1 = pw sp" using cfg by (rule keeps_eq)
  moreover have "pw s2 = pw s1" by (rule keeps_eq [OF keeps_create_or_update_bmc [OF assms(2)] 3])
  moreover have "pw s' = pw s2" by (rule keeps_eq [OF keeps_provision_bmc [OF assms(2) r] 4])
  ultimately show ?thesis using password_outcome [OF assms(1) sp] 1 p0 by auto
qed

section \<open>Examples\<close>

lemma fold_boot: "''/boot_interface'' \<notin> fst ` set ps \<Longrightarrow> wn_boot_interface (fold patch_node ps n) = wn_boot_interface n"
proof (induction ps arbitrary: n)
  case (Cons q ps)
  have "wn_boot_interface (patch_node q n) = wn_boot_interface n" using Cons.prems by (cases q) (auto split: json.split)
  then show ?case using Cons by simp
qed simp

lemma ironic_calls_ok_example: "ironic_calls_ok wf_example"
proof -
  have ok: "wf_ok wf_example" by (rule wf_ok_example)
  have u: "changes u (boot_patched ps) s (on_wnode u (fold patch_node ps) s)" for u ps s
    unfolding changes_def using fold_boot keeps_id_patch [of ps] patch_node_state
    by (intro exI [of _ "fold patch_node ps"]) (auto simp: boot_patched_def keeps_id_def)
  have m: "changes u (\<lambda>n n'. wn_provision_state n' = e \<and> wn_boot_interface n' = wn_boot_interface n) s (on_wnode u (moved e) s)" for u e s
    unfolding changes_def by (intro exI [of _ "moved e"]) (simp add: moved_def)
  have m': "changes u (\<lambda>n n'. wn_boot_interface n' = wn_boot_interface n) s (on_wnode u (moved e) s)" for u e s
    unfolding changes_def by (intro exI [of _ "moved e"]) (simp add: moved_def)
  have t: "\<forall>t \<in> set (STEADY_STATE_BOOT_INTERFACE # map snd VIRTUAL_MEDIA_BOOT_INTERFACE). we_decode wf_example t = JStr t"
    by code_simp
  have c: "ws_nodes s' = ws_nodes s @ [n] \<and> wn_provision_state n = ''enroll'' \<and> wn_uuid n \<notin> wn_uuid ` set (ws_nodes s)"
    if "we_create_node wf_example d s = (Inr n, s')" for d s n s'
    using that by (rule create_nodeD [OF ok]) (auto simp: node_created_as_def)
  have k: "keeps_nodes (we_list_ports wf_example u)" for u by (simp add: keeps_nodes_def wf_example_def)
  have g: "s' = s \<and> (\<forall>n. r = Inr n \<longrightarrow> n \<in> set (ws_nodes s))" if "we_get_node wf_example i s = (r, s')" for i s r s'
    using getD [OF ok that] by blast
  have p: "patch_ok wf_example" using ok by (simp add: wf_ok_def)
  have u': "changes u (boot_patched ps) s s'" if "we_update_node wf_example u ps s = (r, s')" for u ps s r s'
    using that u by (auto simp: wf_example_def)
  have s': "changes u (\<lambda>n n'. wn_boot_interface n' = wn_boot_interface n) s s'" if "we_set_state wf_example u v os s = (r, s')" for u v os s r s'
    using that m' by (auto simp: wf_example_def)
  have w': "changes u (\<lambda>n n'. wn_provision_state n' = e \<and> wn_boot_interface n' = wn_boot_interface n) s s'"
    if "we_wait wf_example u e s = (r, s')" for u e s r s'
    using that m by (auto simp: wf_example_def)
  show ?thesis unfolding ironic_calls_ok_def
  proof (intro conjI)
    show "\<forall>i s r s'. we_get_node wf_example i s = (r, s') \<longrightarrow> s' = s \<and> (\<forall>n. r = Inr n \<longrightarrow> n \<in> set (ws_nodes s))"
      by (intro allI impI) (rule g)
    show "\<forall>d s n s'. we_create_node wf_example d s = (Inr n, s') \<longrightarrow> ws_nodes s' = ws_nodes s @ [n] \<and>
        wn_provision_state n = ''enroll'' \<and> wn_uuid n \<notin> wn_uuid ` set (ws_nodes s)"
      by (intro allI impI) (rule c)
    show "\<forall>u ps s r s'. we_update_node wf_example u ps s = (r, s') \<longrightarrow> r = Inr () \<longrightarrow> changes u (boot_patched ps) s s'"
      by (intro allI impI) (rule u')
    show "\<forall>u v os s r s'. we_set_state wf_example u v os s = (r, s') \<longrightarrow> r = Inr () \<longrightarrow>
        changes u (\<lambda>n n'. wn_boot_interface n' = wn_boot_interface n) s s'" by (intro allI impI) (rule s')
    show "\<forall>u e s r s'. we_wait wf_example u e s = (r, s') \<longrightarrow> r = Inr () \<longrightarrow>
        changes u (\<lambda>n n'. wn_provision_state n' = e \<and> wn_boot_interface n' = wn_boot_interface n) s s'"
      by (intro allI impI) (rule w')
  qed (use k p t in \<open>blast+\<close>)
qed

definition server_docs :: "json dict" where
  "server_docs = [(''/redfish/v1/Systems/'', JObj [(''Members'', JList [link ''/redfish/v1/Systems/1/''])]),
     (''/redfish/v1/Managers/'', JObj [(''Members'', JList [link ''/redfish/v1/Managers/1''])]),
     (''/redfish/v1/Systems/1'', JObj [(''Manufacturer'', JStr ''Dell Inc.''), (''Model'', JStr ''R7615''), (''SKU'', JStr ''1''), (''BiosVersion'', JStr ''1.0''),
        (''PowerState'', JStr ''On''), (''Oem'', JObj [(''Dell'', JNull)])]),
     (''/redfish/v1/Systems/1/Bios'', JObj [(''Attributes'', JObj [(''TimeZone'', JStr ''CST'')])]),
     (''/redfish/v1/Systems/1/Bios/Settings'', JObj []),
     (''/redfish/v1/Managers/1/Attributes'', JObj [(''Attributes'', JObj [(''SNMP.1.AlertPort'', JNum 162)])]),
     (''/redfish/v1/Managers/1/EthernetInterfaces/'', JObj [(''Members'', JList [link ''/redfish/v1/Managers/1/EthernetInterfaces/N'']) ]),
     (''/redfish/v1/Managers/1/EthernetInterfaces'', JObj [(''Members'', JList [link ''/redfish/v1/Managers/1/EthernetInterfaces/N'']) ]),
     (''/redfish/v1/Managers/1/EthernetInterfaces/N'', JObj [(''IPv4Addresses'', JList []), (''HostName'', JStr ''idrac''), (''MACAddress'', JStr ''a:b:1:2:3:4'')])]"

definition server_example :: server_env where
  "server_example = \<lparr>sv_ironic = wf_example, sv_unset = (\<lambda>u as. ret ()), sv_set_raid = (\<lambda>u c. ret ()),
     sv_traits = (\<lambda>u. ret [''CUSTOM_FIRMWARE_UPDATE_10_b'', ''CUSTOM_FIRMWARE_UPDATE_2_a'', ''OTHER'']), sv_runbook = ret,
     sv_inventory = (\<lambda>u. ret [\<lparr>sc_id = Some ''RAID.1'', sc_drives = [\<lparr>dr_id = Some ''d1'', dr_size = Some (10 ^ 12)\<rparr>]\<rparr>]),
     sv_bmc = controller ws_bmc (\<lambda>d s. s\<lparr>ws_bmc := d\<rparr>) ''10.0.0.1'' server_docs, sv_pbkdf2 = (\<lambda>t. replicate 15 0), sv_credential = ret ''key''\<rparr>"

lemma server_ok_example: "server_ok server_example"
proof -
  have "changes u (\<lambda>n n'. wn_provision_state n' = wn_provision_state n \<and> wn_boot_interface n' = wn_boot_interface n) s s" for u s
    unfolding changes_def by (intro exI [of _ "\<lambda>n. n"]) simp
  then show ?thesis by (auto simp: server_ok_def server_example_def ironic_calls_ok_example keeps_nodes_def controller_keeps)
qed

definition server_state :: wf_state where
  "server_state = \<lparr>ws_nodes = [\<lparr>wn_uuid = ''u'', wn_name = Some ''Dell-1'', wn_driver = ''idrac'', wn_provision_state = ''enroll'',
       wn_resource_class = None, wn_driver_info = [], wn_extra = [], wn_boot_interface = None, wn_inspect_interface = None\<rparr>],
     ws_ports = [\<lparr>wp_uuid = ''q'', wp_node_uuid = ''u'', wp_name = None, wp_address = Some ''cc'',
       wp_physical_network = Some ''pn'', wp_category = None, wp_local_link_connection = None, wp_pxe_enabled = True,
       wp_extra = [(''bios_name'', ''NIC.1'')]\<rparr>], ws_bmc = [(''root'', ''calvin'')]\<rparr>"

definition server_after :: wf_state where
  "server_after = snd (enroll_server server_example ''10.0.0.1'' True True None None server_state)"

lemma server_after_eval:
  "enroll_server server_example ''10.0.0.1'' True True None None server_state = (Inr (), server_after)"
proof -
  have "fst (enroll_server server_example ''10.0.0.1'' True True None None server_state) = Inr ()" by code_simp
  then show ?thesis unfolding server_after_def by (metis prod.collapse)
qed

lemma keyed_server_state: "keyed_nodes server_state"
  by (simp add: keyed_nodes_def server_state_def)

theorem server_transitions_legal_witness:
  "enroll_server (guard_server server_example) ''10.0.0.1'' True True None None server_state = (Inr (), server_after)"
  using server_transitions_legal [OF server_ok_example keyed_server_state] server_after_eval by simp

theorem server_enroll_available_witness:
  "map wn_provision_state (ws_nodes server_after) = [''available''] \<and> (\<exists>u. node_at u {''available''} True server_after)"
proof -
  have "map wn_provision_state (ws_nodes server_after) = [''available'']" by code_simp
  then show ?thesis using server_enroll_available [OF server_ok_example keyed_server_state server_after_eval] by blast
qed

lemma leaves_bmc_example: "leaves_bmc server_example (\<lambda>s u. dget (ws_bmc s) u)"
  by (auto simp: leaves_bmc_def server_example_def wf_example_def keeps_def on_wnode_def on_wport_def Let_def split: option.splits list.splits)

theorem enrolled_bmc_password_witness:
  "map snd (ws_bmc server_state) = [''calvin''] \<and> dget (ws_bmc server_after) ''root'' = Some (replicate 20 CHR ''A'')"
proof -
  have "no_accounts server_docs" by code_simp
  then have ok: "accounts_ok (sv_bmc server_example) ''10.0.0.1'' (\<lambda>s u. dget (ws_bmc s) u) root_owner"
    unfolding server_example_def server_env.simps by (rule accounts_ok_controller) simp
  obtain b s0 where b: "bmc_for_ip_address (sv_bmc server_example) (sv_pbkdf2 server_example) (sv_credential server_example)
      ''10.0.0.1'' ''root'' None server_state = (Inr b, s0)" "dget (ws_bmc server_after) ''root'' = Some (bm_password b)"
    using enrolled_bmc_password [OF ok leaves_bmc_example server_after_eval] by blast
  have "fst (bmc_for_ip_address (sv_bmc server_example) (sv_pbkdf2 server_example) (sv_credential server_example)
      ''10.0.0.1'' ''root'' None server_state) = Inr (new_bmc ''10.0.0.1'' (Some (replicate 20 CHR ''A'')) ''root'')" by code_simp
  with b have "bm_password b = replicate 20 CHR ''A''" by (simp add: new_bmc_def)
  with b(2) show ?thesis by (simp add: server_state_def)
qed

end
