(* ===== verification/Inspection.thy ===== *)
theory Inspection
  imports Switch_Names Server_Enroll
begin

text \<open>
  The inspection hooks that \<open>ironic_understack\<close> adds to Ironic's conductor and that write baremetal ports:
  \<open>port_bios_name_hook.py\<close>, run after an out-of-band inspection, and
  \<open>inspect_hook_update_baremetal_ports.py\<close>, run after an agent inspection.

  The state is Ironic's port table, the node object of the task and the node as stored.  The calls of
  Ironic's object layer are parameters (\<open>hook_env\<close>): \<open>Port.list_by_node_id\<close> for the task's node,
  \<open>port.save\<close>, \<open>TraitList.create\<close> and \<open>node.save\<close>.  \<open>hook_ok\<close> states what they do: a save that returns has
  written the object and one that raises has written nothing; saving the node reloads its traits.
\<close>

section \<open>The conductor's objects\<close>

record task_node =
  tn_uuid :: string
  tn_name :: "string option"
  tn_traits :: "string list"
  tn_resource_class :: "string option"

record insp_state =
  is_ports :: "wf_port list"
  is_task :: task_node
  is_stored :: task_node

record hook_env =
  he_list_ports :: "(insp_state, wf_port list) act"
  he_save_port :: "wf_port \<Rightarrow> (insp_state, unit) act"
  he_create_traits :: "string list \<Rightarrow> (insp_state, unit) act"
  he_save_node :: "(insp_state, unit) act"

definition put_port :: "wf_port \<Rightarrow> insp_state \<Rightarrow> insp_state" where
  "put_port p s = s\<lparr>is_ports := map (\<lambda>q. if wp_uuid q = wp_uuid p then p else q) (is_ports s)\<rparr>"

definition on_node :: "insp_state \<Rightarrow> wf_port \<Rightarrow> bool" where
  "on_node s p \<longleftrightarrow> wp_node_uuid p = tn_uuid (is_task s)"

definition saved_node :: "insp_state \<Rightarrow> insp_state" where
  "saved_node s = (let n = (is_task s)\<lparr>tn_traits := tn_traits (is_stored s)\<rparr> in s\<lparr>is_task := n, is_stored := n\<rparr>)"

definition hook_ok :: "hook_env \<Rightarrow> bool" where
  "hook_ok env \<longleftrightarrow>
     (\<forall>s r s'. he_list_ports env s = (r, s') \<longrightarrow> s' = s \<and> (\<forall>ps. r = Inr ps \<longrightarrow> ps = filter (on_node s) (is_ports s))) \<and>
     (\<forall>p s r s'. he_save_port env p s = (r, s') \<longrightarrow> s' = (if isl r then s else put_port p s)) \<and>
     (\<forall>ts s e s'. he_create_traits env ts s = (Inl e, s') \<longrightarrow> s' = s) \<and>
     (\<forall>ts s s'. he_create_traits env ts s = (Inr (), s') \<longrightarrow>
        (\<exists>ts'. set ts' = set ts \<and> s' = s\<lparr>is_stored := (is_stored s)\<lparr>tn_traits := ts'\<rparr>\<rparr>)) \<and>
     (\<forall>s r s'. he_save_node env s = (r, s') \<longrightarrow> s' = (if isl r then s else saved_node s))"

section \<open>After an out-of-band inspection\<close>

definition dkey :: "string dict \<Rightarrow> string \<Rightarrow> exn + string" where
  "dkey d k = (case dget d k of None \<Rightarrow> Inl (KeyError k) | Some v \<Rightarrow> Inr v)"

definition set_port_pxe_placeholder :: "hook_env \<Rightarrow> wf_port \<Rightarrow> (insp_state, unit) act" where
  "set_port_pxe_placeholder env port = he_save_port env (port\<lparr>wp_pxe_enabled := True, wp_physical_network := Some ''enrol'',
     wp_local_link_connection := Some [(''port_id'', ''None''), (''switch_id'', ''00:00:00:00:00:00''), (''switch_info'', ''None'')]\<rparr>)"

text \<open>The port object is changed in memory and saved; each step returns the object it leaves.\<close>

definition clear_unwanted_pxe :: "hook_env \<Rightarrow> wf_port \<Rightarrow> (insp_state, wf_port) act" where
  "clear_unwanted_pxe env port =
     (if truthy (wp_physical_network port) then ret port
      else if \<not> wp_pxe_enabled port then ret port
      else let port' = port\<lparr>wp_pxe_enabled := False\<rparr> in andthen (he_save_port env port') (ret port'))"

definition set_port_extra :: "hook_env \<Rightarrow> string option \<Rightarrow> wf_port \<Rightarrow> (insp_state, wf_port) act" where
  "set_port_extra env required_bios_name port =
     (if dget (wp_extra port) ''bios_name'' \<noteq> required_bios_name then
        let extra = (if truthy required_bios_name then dput ''bios_name'' (the required_bios_name) (wp_extra port)
                     else filter (\<lambda>(k, _). k \<noteq> ''bios_name'') (wp_extra port));
            port' = port\<lparr>wp_extra := extra\<rparr> in
        andthen (he_save_port env port') (ret port')
      else ret port)"

definition set_port_name :: "hook_env \<Rightarrow> string option \<Rightarrow> string option \<Rightarrow> wf_port \<Rightarrow> (insp_state, wf_port) act" where
  "set_port_name env required_bios_name node_name port =
     (if truthy required_bios_name then
        (case node_name of
           None \<Rightarrow> raise_exn (TypeError ''unsupported operand type(s) for +: NoneType and str'')
         | Some n \<Rightarrow>
             let required_port_name = n @ '':'' @ the required_bios_name in
             if wp_name port \<noteq> Some required_port_name then
               let port' = port\<lparr>wp_name := Some required_port_name\<rparr> in andthen (he_save_port env port') (ret port')
             else ret port)
      else ret port)"

definition interface_item :: "string dict \<Rightarrow> exn + (string \<times> string)" where
  "interface_item i = sbnd (dkey i ''mac_address'') (\<lambda>mac. sbnd (dkey i ''name'') (\<lambda>name. Inr (py_upper mac, name)))"

definition interface_names :: "string dict list \<Rightarrow> exn + string dict" where
  "interface_names inspected_interfaces =
     sbnd (smap interface_item inspected_interfaces) (\<lambda>items. Inr (fold (\<lambda>(mac, name). dput mac name) items []))"

definition name_port :: "hook_env \<Rightarrow> string dict \<Rightarrow> string option \<Rightarrow> wf_port \<Rightarrow> (insp_state, wf_port) act" where
  "name_port env names node_name port =
     (case wp_address port of
        None \<Rightarrow> raise_exn (AttributeError ''NoneType object has no attribute upper'')
      | Some address \<Rightarrow>
          let bios_name = dget names (py_upper address) in
          bnd (set_port_extra env bios_name port) (\<lambda>port.
          bnd (set_port_name env bios_name node_name port) (\<lambda>port.
          clear_unwanted_pxe env port)))"

definition port_bios_name_hook :: "hook_env \<Rightarrow> (string dict list) option \<Rightarrow> (insp_state, unit) act" where
  "port_bios_name_hook env inspected_interfaces =
     (case inspected_interfaces of
        None \<Rightarrow> ret ()
      | Some interfaces \<Rightarrow>
          if interfaces = [] then ret ()
          else bnd (of_sum (interface_names interfaces)) (\<lambda>names.
            bnd (he_list_ports env) (\<lambda>ports.
              if ports = [] then ret ()
              else bnd (reads (\<lambda>s. tn_name (is_task s))) (\<lambda>node_name.
                bnd (map_act (name_port env names node_name) ports) (\<lambda>ports.
                when_act (\<not> list_ex wp_pxe_enabled ports) (set_port_pxe_placeholder env (ports ! 0)))))))"

section \<open>After an agent inspection\<close>

record plugin_data =
  pl_all_interfaces :: "((string dict) dict) option"
  pl_parsed_lldp :: "((string dict) dict) option"

definition normalise_switch_name :: "string \<Rightarrow> string" where
  "normalise_switch_name name = (let name = py_lower name in
     if suffix ''.rackspace.net'' name then name else name @ ''.rackspace.net'')"

definition interface_mac :: "string dict \<Rightarrow> exn + (string \<times> string)" where
  "interface_mac i = sbnd (dkey i ''name'') (\<lambda>name. sbnd (dkey i ''mac_address'') (\<lambda>mac. Inr (name, mac)))"

definition inspect_entry :: "string dict \<Rightarrow> string \<times> string dict \<Rightarrow> exn + inspected_port" where
  "inspect_entry mac entry = (case entry of (name, lldp) \<Rightarrow>
     sbnd (dkey mac name) (\<lambda>address.
     sbnd (dkey lldp ''switch_system_name'') (\<lambda>system_name.
     sbnd (dkey lldp ''switch_chassis_id'') (\<lambda>chassis_id.
     sbnd (dkey lldp ''switch_port_id'') (\<lambda>port_id.
       Inr \<lparr>ip_mac_address = address, ip_name = name, ip_switch_system_name = normalise_switch_name system_name,
            ip_switch_port_id = port_id, ip_switch_chassis_id = py_lower chassis_id\<rparr>)))))"

definition parse_plugin_data :: "plugin_data \<Rightarrow> exn + inspected_port list" where
  "parse_plugin_data pd =
     (case pl_all_interfaces pd of
        None \<Rightarrow> Inl (KeyError ''all_interfaces'')
      | Some interfaces \<Rightarrow>
          sbnd (smap interface_mac (map snd interfaces)) (\<lambda>items.
          case pl_parsed_lldp pd of
            None \<Rightarrow> Inl (KeyError ''parsed_lldp'')
          | Some lldp \<Rightarrow> smap (inspect_entry (fold (\<lambda>(name, mac). dput name mac) items [])) lldp))"

text \<open>Python's equality of dictionaries does not look at the order of the entries.\<close>

definition dict_eq :: "string dict \<Rightarrow> string dict \<Rightarrow> bool" where
  "dict_eq a b \<longleftrightarrow> (\<forall>k \<in> fst ` set (a @ b). dget a k = dget b k)"

definition is_ironic_exception :: "exn \<Rightarrow> bool" where
  "is_ironic_exception e = (case e of IronicException _ \<Rightarrow> True | InvalidNodeInventory _ _ \<Rightarrow> True | _ \<Rightarrow> False)"

text \<open>The assignments of \<open>_set_port_attributes\<close>, each made only if the value differs.\<close>

definition set_link :: "string dict \<Rightarrow> wf_port \<Rightarrow> wf_port" where
  "set_link llc port =
     (if (case wp_local_link_connection port of None \<Rightarrow> True | Some d \<Rightarrow> \<not> dict_eq d llc)
      then port\<lparr>wp_local_link_connection := Some llc\<rparr> else port)"

definition set_physical_network :: "string option \<Rightarrow> wf_port \<Rightarrow> wf_port" where
  "set_physical_network physical_network port =
     (if wp_physical_network port \<noteq> physical_network then port\<lparr>wp_physical_network := physical_network\<rparr> else port)"

definition set_category :: "string option \<Rightarrow> wf_port \<Rightarrow> wf_port" where
  "set_category category port = (if wp_category port \<noteq> category then port\<lparr>wp_category := category\<rparr> else port)"

definition set_pxe_enabled :: "bool \<Rightarrow> wf_port \<Rightarrow> wf_port" where
  "set_pxe_enabled pxe_enabled port = (if wp_pxe_enabled port = pxe_enabled then port else port\<lparr>wp_pxe_enabled := pxe_enabled\<rparr>)"

definition with_attributes :: "inspected_port \<Rightarrow> string option \<Rightarrow> bool \<Rightarrow> wf_port \<Rightarrow> wf_port" where
  "with_attributes inspected physical_network pxe_enabled port =
     set_pxe_enabled pxe_enabled
     (set_category (if truthy physical_network then Some (last (split_on CHR ''-'' (the physical_network))) else None)
     (set_physical_network
        (if truthy physical_network \<and> \<not> suffix ''-network'' (the physical_network) then None else physical_network)
     (set_link (local_link_connection inspected) port)))"

definition save_logged :: "hook_env \<Rightarrow> wf_port \<Rightarrow> (insp_state, unit) act" where
  "save_logged env port = try_except (he_save_port env port) (\<lambda>e. if is_ironic_exception e then ret () else raise_exn e)"

definition set_port_attributes ::
  "hook_env \<Rightarrow> wf_port \<Rightarrow> inspected_port \<Rightarrow> string option \<Rightarrow> bool \<Rightarrow> (insp_state, unit) act"
where
  "set_port_attributes env port inspected physical_network pxe_enabled =
     save_logged env (with_attributes inspected physical_network pxe_enabled port)"

definition clear_port_attributes :: "hook_env \<Rightarrow> wf_port \<Rightarrow> (insp_state, unit) act" where
  "clear_port_attributes env port = save_logged env (port\<lparr>wp_local_link_connection := Some [], wp_physical_network := None,
     wp_category := None, wp_pxe_enabled := False\<rparr>)"

definition update_port ::
  "hook_env \<Rightarrow> (string \<times> inspected_port) list \<Rightarrow> string dict \<Rightarrow> string list \<Rightarrow> wf_port \<Rightarrow> (insp_state, unit) act"
where
  "update_port env by_mac vlan_groups pxe_switches port =
     (case (case wp_address port of None \<Rightarrow> None | Some a \<Rightarrow> map_of by_mac a) of
        Some inspected \<Rightarrow> set_port_attributes env port inspected (dget vlan_groups (ip_switch_system_name inspected))
          (ip_switch_system_name inspected \<in> set pxe_switches)
      | None \<Rightarrow> clear_port_attributes env port)"

definition update_port_attrs ::
  "hook_env \<Rightarrow> (string \<times> inspected_port) list \<Rightarrow> string dict \<Rightarrow> string list \<Rightarrow> (insp_state, unit) act"
where
  "update_port_attrs env by_mac vlan_groups pxe_switches =
     bnd (he_list_ports env) (for_each (update_port env by_mac vlan_groups pxe_switches))"

definition switch_trait_name :: "string \<Rightarrow> string" where
  "switch_trait_name vlan_group_name = ''CUSTOM_'' @ last (split_on CHR ''-'' (py_upper vlan_group_name)) @ ''_SWITCH''"

text \<open>The pattern \<open>^CUSTOM_[A-Z0-9]+_SWITCH$\<close>.\<close>

definition is_our_trait :: "string \<Rightarrow> bool" where
  "is_our_trait name = (let t = chomp name in
     prefix ''CUSTOM_'' t \<and> suffix ''_SWITCH'' t \<and> length t > 14 \<and>
     list_all (\<lambda>c. is_digit c \<or> (65 \<le> (of_char c :: nat) \<and> (of_char c :: nat) \<le> 90)) (drop 7 (take (length t - 7) t)))"

definition set_switch_traits :: "hook_env \<Rightarrow> string list \<Rightarrow> (insp_state, unit) act" where
  "set_switch_traits env vlan_groups =
     bnd (reads (\<lambda>s. tn_traits (is_task s))) (\<lambda>existing_traits.
       let vlan_group_traits = map switch_trait_name (filter (\<lambda>x. x \<noteq> []) vlan_groups);
           irrelevant_existing_traits = filter (\<lambda>x. \<not> is_our_trait x) existing_traits;
           required_traits = remdups (irrelevant_existing_traits @ vlan_group_traits) in
       when_act (set existing_traits \<noteq> set required_traits)
         (andthen (he_create_traits env required_traits) (he_save_node env)))"

definition update_baremetal_ports_hook :: "hook_env \<Rightarrow> string dict \<Rightarrow> plugin_data \<Rightarrow> (insp_state, unit) act" where
  "update_baremetal_ports_hook env mapping pd =
     bnd (of_sum (parse_plugin_data pd)) (\<lambda>inspected_ports.
       if inspected_ports = [] then ret ()
       else
         let by_mac = fold (\<lambda>p. dput (ip_mac_address p) p) inspected_ports [] in
         bnd (of_sum (vlan_group_names inspected_ports mapping)) (\<lambda>vlan_groups.
         andthen (update_port_attrs env by_mac vlan_groups (pxe_switch_names vlan_groups))
           (set_switch_traits env (remdups (filter (\<lambda>x. x \<noteq> []) (map snd vlan_groups))))))"

section \<open>Loops over the ports of a node\<close>

text \<open>The row of the port is the object, and uuids are unique.\<close>

definition keyed_ports :: "insp_state \<Rightarrow> bool" where
  "keyed_ports s \<longleftrightarrow> distinct (map wp_uuid (is_ports s))"

lemma hook_okD:
  assumes "hook_ok env"
  shows "he_list_ports env s = (Inr ps, s') \<Longrightarrow> s' = s \<and> ps = filter (on_node s) (is_ports s)"
    and "he_list_ports env s = (Inl e, s') \<Longrightarrow> s' = s"
    and "he_save_port env p s = (Inr (), s') \<Longrightarrow> s' = put_port p s"
    and "he_save_port env p s = (Inl e, s') \<Longrightarrow> s' = s"
    and "he_create_traits env ts s = (Inr (), s') \<Longrightarrow>
      \<exists>ts'. set ts' = set ts \<and> s' = s\<lparr>is_stored := (is_stored s)\<lparr>tn_traits := ts'\<rparr>\<rparr>"
    and "he_create_traits env ts s = (Inl e, s') \<Longrightarrow> s' = s"
    and "he_save_node env s = (Inr (), s') \<Longrightarrow> s' = saved_node s"
proof -
  note c1 = assms [unfolded hook_ok_def] note c2 = c1 [THEN conjunct2] note c3 = c2 [THEN conjunct2]
  note c4 = c3 [THEN conjunct2] note c5 = c4 [THEN conjunct2]
  show "he_list_ports env s = (Inr ps, s') \<Longrightarrow> s' = s \<and> ps = filter (on_node s) (is_ports s)"
    "he_list_ports env s = (Inl e, s') \<Longrightarrow> s' = s" using c1 [THEN conjunct1] by simp_all
  show "he_save_port env p s = (Inr (), s') \<Longrightarrow> s' = put_port p s"
    "he_save_port env p s = (Inl e, s') \<Longrightarrow> s' = s" using c2 [THEN conjunct1] by fastforce+
  show "he_create_traits env ts s = (Inl e, s') \<Longrightarrow> s' = s" using c3 [THEN conjunct1] by simp
  show "he_create_traits env ts s = (Inr (), s') \<Longrightarrow>
      \<exists>ts'. set ts' = set ts \<and> s' = s\<lparr>is_stored := (is_stored s)\<lparr>tn_traits := ts'\<rparr>\<rparr>" using c4 [THEN conjunct1] by simp
  show "he_save_node env s = (Inr (), s') \<Longrightarrow> s' = saved_node s" using c5 by fastforce
qed

lemma keyed_same: "keyed_ports s \<Longrightarrow> p \<in> set (is_ports s) \<Longrightarrow> q \<in> set (is_ports s) \<Longrightarrow> wp_uuid q = wp_uuid p \<Longrightarrow> q = p"
  by (auto simp: keyed_ports_def distinct_map dest: inj_onD)

definition row_updated :: "wf_port \<Rightarrow> wf_port \<Rightarrow> insp_state \<Rightarrow> insp_state" where
  "row_updated p q s = s\<lparr>is_ports := map (\<lambda>x. if x = p then q else x) (is_ports s)\<rparr>"

lemma put_port_row:
  "keyed_ports s \<Longrightarrow> p \<in> set (is_ports s) \<Longrightarrow> wp_uuid q = wp_uuid p \<Longrightarrow> put_port q s = row_updated p q s"
  by (auto simp: put_port_def row_updated_def intro!: arg_cong [where f = "\<lambda>x. s\<lparr>is_ports := x\<rparr>"] dest: keyed_same)

lemma row_updated_same [simp]: "row_updated p p s = s"
  by (simp add: row_updated_def)

lemma keyed_row_updated: "keyed_ports s \<Longrightarrow> wp_uuid q = wp_uuid p \<Longrightarrow> keyed_ports (row_updated p q s)"
proof -
  assume k: "keyed_ports s" and q: "wp_uuid q = wp_uuid p"
  have "wp_uuid \<circ> (\<lambda>x. if x = p then q else x) = wp_uuid" using q by auto
  with k show ?thesis by (simp add: keyed_ports_def row_updated_def)
qed

text \<open>
  A step works on one port: it leaves the row of that port related to the port it was given, and
  nothing else changed.  Run over distinct ports, it does so for each of them.
\<close>

locale port_step =
  fixes step :: "hook_env \<Rightarrow> wf_port \<Rightarrow> (insp_state, 'r) act"
    and rel :: "hook_env \<Rightarrow> wf_port \<Rightarrow> 'r \<Rightarrow> wf_port \<Rightarrow> bool"
  assumes step: "hook_ok env \<Longrightarrow> keyed_ports s \<Longrightarrow> p \<in> set (is_ports s) \<Longrightarrow> step env p s = (Inr r, s') \<Longrightarrow>
      \<exists>q. s' = row_updated p q s \<and> wp_uuid q = wp_uuid p \<and> rel env p r q"
begin

lemma loop:
  assumes ok: "hook_ok env" and "keyed_ports s" "set ps \<subseteq> set (is_ports s)" "distinct ps" "map_act (step env) ps s = (Inr rs, s')"
  shows "\<exists>g h. rs = map h ps \<and> s' = s\<lparr>is_ports := map g (is_ports s)\<rparr> \<and>
    (\<forall>p \<in> set ps. rel env p (h p) (g p)) \<and> (\<forall>p. wp_uuid (g p) = wp_uuid p) \<and> (\<forall>p. p \<notin> set ps \<longrightarrow> g p = p)"
  using assms(2-)
proof (induction ps arbitrary: s rs)
  case Nil
  then show ?case by (intro exI [of _ "\<lambda>p. p"]) simp
next
  case (Cons p ps)
  from Cons.prems(4) obtain r s1 rs' where 1: "step env p s = (Inr r, s1)" and 2: "map_act (step env) ps s1 = (Inr rs', s')" and rs: "rs = r # rs'"
    unfolding map_act.simps bnd_Inr by auto
  from step [OF ok Cons.prems(1) _ 1] Cons.prems(2) obtain q where q: "s1 = row_updated p q s" "wp_uuid q = wp_uuid p" "rel env p r q" by auto
  have "set ps \<subseteq> set (is_ports s1)" using Cons.prems(2,3) by (force simp: q(1) row_updated_def)
  moreover have "keyed_ports s1" unfolding q(1) by (rule keyed_row_updated [OF Cons.prems(1) q(2)])
  moreover have n: "p \<notin> set ps" "distinct ps" using Cons.prems(3) by simp_all
  ultimately obtain g h where
    g: "rs' = map h ps" "s' = s1\<lparr>is_ports := map g (is_ports s1)\<rparr>" "\<forall>p \<in> set ps. rel env p (h p) (g p)"
      "\<forall>p. wp_uuid (g p) = wp_uuid p" "\<forall>p. p \<notin> set ps \<longrightarrow> g p = p" using Cons.IH [OF _ _ _ 2] by blast
  have "g q = q" if "q \<noteq> p"
  proof -
    have "q \<notin> set (is_ports s)" using Cons.prems(1,2) q(2) that by (auto dest: keyed_same)
    then show ?thesis using g(5) Cons.prems(2) by auto
  qed
  then have "g q = q" using n(1) g(5) by (cases "q = p") auto
  let ?g = "\<lambda>x. if x = p then q else g x"
  have "s' = s\<lparr>is_ports := map ?g (is_ports s)\<rparr>"
    using g(2) \<open>g q = q\<close> by (simp add: q(1) row_updated_def comp_def if_distrib [of g] cong: if_cong)
  moreover have "rs = map (\<lambda>x. if x = p then r else h x) (p # ps)" using g(1) n(1) rs by simp
  moreover have "\<forall>x \<in> set (p # ps). rel env x (if x = p then r else h x) (?g x)" "\<forall>x. wp_uuid (?g x) = wp_uuid x"
    "\<forall>x. x \<notin> set (p # ps) \<longrightarrow> ?g x = x" using g(3-5) q(2,3) by simp_all
  ultimately show ?case by blast
qed

end

section \<open>Naming the ports\<close>

definition turns :: "(insp_state, wf_port) act \<Rightarrow> wf_port \<Rightarrow> wf_port \<Rightarrow> bool" where
  "turns m p q \<longleftrightarrow> wp_uuid q = wp_uuid p \<and>
     (\<forall>s r s'. keyed_ports s \<longrightarrow> p \<in> set (is_ports s) \<longrightarrow> m s = (Inr r, s') \<longrightarrow> r = q \<and> s' = row_updated p q s)"

lemma turns_ret: "turns (ret p) p p"
  by (simp add: turns_def)

lemma turns_raise: "wp_uuid q = wp_uuid p \<Longrightarrow> turns (raise_exn e) p q"
  by (simp add: turns_def)

lemma turns_save: "hook_ok env \<Longrightarrow> wp_uuid q = wp_uuid p \<Longrightarrow> turns (andthen (he_save_port env q) (ret q)) p q"
  unfolding turns_def andthen_Inr_unit by (auto dest!: hook_okD(3) simp: put_port_row)

lemma row_updated_twice:
  "keyed_ports s \<Longrightarrow> p \<in> set (is_ports s) \<Longrightarrow> wp_uuid q = wp_uuid p \<Longrightarrow> row_updated q r (row_updated p q s) = row_updated p r s"
  by (auto simp: row_updated_def intro!: arg_cong [where f = "\<lambda>x. s\<lparr>is_ports := x\<rparr>"] dest: keyed_same)

lemma turnsD: "turns m p q \<Longrightarrow> keyed_ports s \<Longrightarrow> p \<in> set (is_ports s) \<Longrightarrow> m s = (Inr r, s') \<Longrightarrow> r = q \<and> s' = row_updated p q s"
  unfolding turns_def by blast

lemma turns_uuid: "turns m p q \<Longrightarrow> wp_uuid q = wp_uuid p"
  by (simp add: turns_def)

lemma turns_bnd:
  assumes m: "turns m p q" and f: "turns (f q) q r"
  shows "turns (bnd m f) p r"
proof -
  note u = turns_uuid [OF m]
  have "x = r \<and> s' = row_updated p r s" if k: "keyed_ports s" "p \<in> set (is_ports s)" and b: "bnd m f s = (Inr x, s')" for s x s'
  proof -
    from b obtain y s1 where 1: "m s = (Inr y, s1)" and 2: "f y s1 = (Inr x, s')" unfolding bnd_Inr by blast
    from turnsD [OF m k 1] have y: "y = q" and s1: "s1 = row_updated p q s" by simp_all
    have "keyed_ports s1" unfolding s1 by (rule keyed_row_updated [OF k(1) u])
    moreover have "q \<in> set (is_ports s1)" using k(2) by (auto simp: s1 row_updated_def)
    ultimately have "x = r" "s' = row_updated q r s1" using turnsD [OF f _ _ 2 [unfolded y]] by simp_all
    then show ?thesis unfolding s1 row_updated_twice [OF k u] by simp
  qed
  then show ?thesis using u turns_uuid [OF f] unfolding turns_def by (metis (no_types, lifting))
qed

text \<open>What a port looks like once it has been named: from the interface names, the node's name and the port.\<close>

definition named_port :: "string dict \<Rightarrow> string \<Rightarrow> wf_port \<Rightarrow> wf_port" where
  "named_port names n p =
     (let b = dget names (py_upper (the (wp_address p))) in
      p\<lparr>wp_extra := (if dget (wp_extra p) ''bios_name'' = b then wp_extra p
                      else if truthy b then dput ''bios_name'' (the b) (wp_extra p)
                      else filter (\<lambda>(k, _). k \<noteq> ''bios_name'') (wp_extra p)),
        wp_name := (if truthy b then Some (n @ '':'' @ the b) else wp_name p),
        wp_pxe_enabled := (wp_pxe_enabled p \<and> truthy (wp_physical_network p))\<rparr>)"

lemma same_field:
  "wp_name p = x \<Longrightarrow> p\<lparr>wp_name := x\<rparr> = p" "wp_pxe_enabled p = y \<Longrightarrow> p\<lparr>wp_pxe_enabled := y\<rparr> = p"
  by (cases p; simp)+

lemma turns_steps:
  assumes "hook_ok env"
  shows "turns (set_port_extra env b p) p
      (p\<lparr>wp_extra := (if dget (wp_extra p) ''bios_name'' = b then wp_extra p
         else if truthy b then dput ''bios_name'' (the b) (wp_extra p) else filter (\<lambda>(k, _). k \<noteq> ''bios_name'') (wp_extra p))\<rparr>)"
    and "turns (set_port_name env b (Some n) p) p (p\<lparr>wp_name := (if truthy b then Some (n @ '':'' @ the b) else wp_name p)\<rparr>)"
    and "turns (clear_unwanted_pxe env p) p (p\<lparr>wp_pxe_enabled := (wp_pxe_enabled p \<and> truthy (wp_physical_network p))\<rparr>)"
  by (auto simp: set_port_extra_def set_port_name_def clear_unwanted_pxe_def Let_def same_field
      intro: turns_ret turns_save [OF assms])

lemma turns_name_port:
  assumes "hook_ok env"
  shows "turns (name_port env names (Some n) p) p (named_port names n p)"
proof (cases "wp_address p")
  case None
  then show ?thesis by (simp add: name_port_def turns_raise named_port_def Let_def)
next
  case (Some a)
  let ?b = "dget names (py_upper a)"
  note t = turns_steps [OF assms]
  let ?p1 = "p\<lparr>wp_extra := (if dget (wp_extra p) ''bios_name'' = ?b then wp_extra p
      else if truthy ?b then dput ''bios_name'' (the ?b) (wp_extra p) else filter (\<lambda>(k, _). k \<noteq> ''bios_name'') (wp_extra p))\<rparr>"
  let ?p2 = "?p1\<lparr>wp_name := (if truthy ?b then Some (n @ '':'' @ the ?b) else wp_name ?p1)\<rparr>"
  have "named_port names n p = ?p2\<lparr>wp_pxe_enabled := (wp_pxe_enabled ?p2 \<and> truthy (wp_physical_network ?p2))\<rparr>"
    by (simp only: named_port_def Let_def Some option.sel) simp
  then have *: "turns (clear_unwanted_pxe env ?p2) ?p2 (named_port names n p)" using t(3) [of ?p2] by (simp only:)
  show ?thesis unfolding name_port_def Some option.case Let_def by (rule turns_bnd [OF t(1)], rule turns_bnd [OF t(2)], rule *)
qed

interpretation bios_names: port_step "\<lambda>env. name_port env names (Some n)" "\<lambda>_ p r q. r = q \<and> q = named_port names n p"
proof
  fix env s p r s'
  assume "hook_ok env" "keyed_ports s" "p \<in> set (is_ports s)" "name_port env names (Some n) p s = (Inr r, s')"
  then show "\<exists>q. s' = row_updated p q s \<and> wp_uuid q = wp_uuid p \<and> r = q \<and> q = named_port names n p"
    using turns_name_port [of env names n p] unfolding turns_def by blast
qed

lemma named_port_fields:
  assumes "b = dget names (py_upper (the (wp_address p)))" "q = named_port names n p"
  shows "truthy b \<Longrightarrow> dget (wp_extra q) ''bios_name'' = b \<and> wp_name q = Some (n @ '':'' @ the b)"
    and "\<not> truthy b \<Longrightarrow> \<not> truthy (dget (wp_extra q) ''bios_name'') \<and> wp_name q = wp_name p"
    and "wp_uuid q = wp_uuid p" "wp_physical_network q = wp_physical_network p"
    and "wp_pxe_enabled q \<longleftrightarrow> wp_pxe_enabled p \<and> truthy (wp_physical_network p)"
  using assms by (auto simp: named_port_def Let_def dget_def map_of_drop not_truthy elim!: truthyE)

lemma distinct_rows: "keyed_ports s \<Longrightarrow> distinct (filter P (is_ports s))"
  unfolding keyed_ports_def by (metis distinct_filter distinct_map)

definition placeholder_port :: "wf_port \<Rightarrow> wf_port" where
  "placeholder_port port = port\<lparr>wp_pxe_enabled := True, wp_physical_network := Some ''enrol'',
     wp_local_link_connection := Some [(''port_id'', ''None''), (''switch_id'', ''00:00:00:00:00:00''), (''switch_info'', ''None'')]\<rparr>"

lemma bios_hook_rows:
  assumes ok: "hook_ok env" and k: "keyed_ports s" and n: "tn_name (is_task s) = Some n"
    and h: "port_bios_name_hook env (Some ifs) s = (Inr (), s')" and "ifs \<noteq> []"
  obtains names g where "interface_names ifs = Inr names" "s' = s\<lparr>is_ports := map g (is_ports s)\<rparr>"
    "\<forall>p. \<not> on_node s p \<longrightarrow> g p = p"
    "(\<exists>p \<in> set (is_ports s). on_node s p \<and> wp_pxe_enabled (named_port names n p)) \<and>
       (\<forall>p \<in> set (is_ports s). on_node s p \<longrightarrow> g p = named_port names n p) \<or>
     (\<exists>f \<in> set (is_ports s). on_node s f \<and> g f = placeholder_port (named_port names n f) \<and>
       (\<forall>p \<in> set (is_ports s). on_node s p \<longrightarrow> \<not> wp_pxe_enabled (named_port names n p) \<and> (p \<noteq> f \<longrightarrow> g p = named_port names n p))) \<or>
     filter (on_node s) (is_ports s) = [] \<and> g = (\<lambda>p. p)"
proof -
  let ?ps = "filter (on_node s) (is_ports s)"
  obtain names where nm: "interface_names ifs = Inr names" using h assms(5)
    by (cases "interface_names ifs") (simp_all add: port_bios_name_hook_def)
  obtain ps s0 where l: "he_list_ports env s = (Inr ps, s0)" using h assms(5) nm unfolding port_bios_name_hook_def
    by (auto split: prod.splits sum.splits)
  from hook_okD(1) [OF ok l] have l: "he_list_ports env s = (Inr ?ps, s)" using l by simp
  show thesis
  proof (cases "?ps = []")
    case True
    then have "s' = s" using h nm l assms(5) by (simp add: port_bios_name_hook_def)
    then show thesis using nm True by (intro that [of names "\<lambda>p. p"]) simp_all
  next
    case False
    with h nm l n assms(5) obtain rs s1 where m: "map_act (name_port env names (Some n)) ?ps s = (Inr rs, s1)"
      and w: "when_act (\<not> list_ex wp_pxe_enabled rs) (set_port_pxe_placeholder env (rs ! 0)) s1 = (Inr (), s')"
      unfolding port_bios_name_hook_def by (auto simp del: when_act_apply split: prod.splits sum.splits)
    obtain g h where g: "rs = map h ?ps" "s1 = s\<lparr>is_ports := map g (is_ports s)\<rparr>"
      "\<forall>p \<in> set ?ps. h p = g p \<and> g p = named_port names n p" "\<forall>p. wp_uuid (g p) = wp_uuid p" "\<forall>p. p \<notin> set ?ps \<longrightarrow> g p = p"
      using bios_names.loop [OF ok k _ distinct_rows [OF k] m] by auto
    let ?g = "\<lambda>p. if p \<in> set ?ps then g p else p"
    have s1: "s1 = s\<lparr>is_ports := map ?g (is_ports s)\<rparr>" unfolding g(2) using g(5) by (intro arg_cong [where f = "\<lambda>x. s\<lparr>is_ports := x\<rparr>"] map_cong) auto
    show thesis
    proof (cases "list_ex wp_pxe_enabled rs")
      case True
      then have "s' = s1" using w by simp
      moreover obtain p where "p \<in> set ?ps" "wp_pxe_enabled (named_port names n p)" using True g(1,3) by (auto simp: list_ex_iff)
      ultimately show thesis using nm s1 g(3) by (intro that [of names ?g]) auto
    next
      case F: False
      let ?f = "?ps ! 0"
      have f: "?f \<in> set ?ps" using False by (intro nth_mem) simp
      have r: "rs ! 0 = named_port names n ?f" using False f g(1,3) by simp
      let ?x = "placeholder_port (named_port names n ?f)"
      have "he_save_port env ?x s1 = (Inr (), s')" using w F r by (simp add: set_port_pxe_placeholder_def placeholder_port_def)
      from hook_okD(3) [OF ok this] have s': "s' = put_port ?x s1" .
      have u: "wp_uuid ?x = wp_uuid ?f" by (simp add: placeholder_port_def named_port_def Let_def)
      let ?g' = "\<lambda>p. if p = ?f then ?x else ?g p"
      have "s' = s\<lparr>is_ports := map ?g' (is_ports s)\<rparr>" unfolding s' s1 put_port_def
        using keyed_same [OF k] f g(4) u by (auto intro!: arg_cong [where f = "\<lambda>x. s\<lparr>is_ports := x\<rparr>"] map_cong)
      moreover have "\<forall>p \<in> set ?ps. \<not> wp_pxe_enabled (named_port names n p)" using F g(1,3) by (auto simp: list_ex_iff)
      ultimately show thesis using nm f g(3) by (intro that [of names ?g']) auto
    qed
  qed
qed

lemma placeholder_fields [simp]:
  "wp_extra (placeholder_port p) = wp_extra p" "wp_name (placeholder_port p) = wp_name p" "wp_pxe_enabled (placeholder_port p)"
  "wp_physical_network (placeholder_port p) = Some ''enrol''"
  by (simp_all add: placeholder_port_def)

text \<open>
  When the BIOS name hook returns, every port of the node whose MAC address the inspection reported
  carries the reported name in its extra data and in its own name, every other port of the node
  carries none; a port is enabled for PXE only with a physical network; ports that were enabled with a
  physical network still are; and a node with ports has a port enabled for PXE.  Ports of other nodes are
  as they were.
\<close>
lemma bios_hook_names_ports:
  assumes "hook_ok env" "keyed_ports s" "tn_name (is_task s) = Some n"
    and "port_bios_name_hook env (Some ifs) s = (Inr (), s')" "ifs \<noteq> []"
  shows "\<exists>names g. interface_names ifs = Inr names \<and> s' = s\<lparr>is_ports := map g (is_ports s)\<rparr> \<and>
    (\<forall>p \<in> set (is_ports s). if on_node s p then
       (let b = dget names (py_upper (the (wp_address p))) in
        if truthy b then dget (wp_extra (g p)) ''bios_name'' = b \<and> wp_name (g p) = Some (n @ '':'' @ the b)
        else \<not> truthy (dget (wp_extra (g p)) ''bios_name'') \<and> wp_name (g p) = wp_name p) \<and>
       (wp_pxe_enabled (g p) \<longrightarrow> truthy (wp_physical_network (g p))) \<and>
       (wp_pxe_enabled p \<and> truthy (wp_physical_network p) \<longrightarrow>
          wp_pxe_enabled (g p) \<and> wp_physical_network (g p) = wp_physical_network p) \<and>
       (\<exists>q \<in> set (is_ports s). on_node s q \<and> wp_pxe_enabled (g q))
     else g p = p)"
proof -
  obtain names g where nm: "interface_names ifs = Inr names" and s': "s' = s\<lparr>is_ports := map g (is_ports s)\<rparr>"
    and o: "\<forall>p. \<not> on_node s p \<longrightarrow> g p = p"
    and c: "(\<exists>p \<in> set (is_ports s). on_node s p \<and> wp_pxe_enabled (named_port names n p)) \<and>
       (\<forall>p \<in> set (is_ports s). on_node s p \<longrightarrow> g p = named_port names n p) \<or>
     (\<exists>f \<in> set (is_ports s). on_node s f \<and> g f = placeholder_port (named_port names n f) \<and>
       (\<forall>p \<in> set (is_ports s). on_node s p \<longrightarrow> \<not> wp_pxe_enabled (named_port names n p) \<and> (p \<noteq> f \<longrightarrow> g p = named_port names n p))) \<or>
     filter (on_node s) (is_ports s) = [] \<and> g = (\<lambda>p. p)"
    using bios_hook_rows [OF assms] by blast
  note f = named_port_fields [OF refl refl, where names = names and n = n]
  have "if on_node s p then
       (let b = dget names (py_upper (the (wp_address p))) in
        if truthy b then dget (wp_extra (g p)) ''bios_name'' = b \<and> wp_name (g p) = Some (n @ '':'' @ the b)
        else \<not> truthy (dget (wp_extra (g p)) ''bios_name'') \<and> wp_name (g p) = wp_name p) \<and>
       (wp_pxe_enabled (g p) \<longrightarrow> truthy (wp_physical_network (g p))) \<and>
       (wp_pxe_enabled p \<and> truthy (wp_physical_network p) \<longrightarrow>
          wp_pxe_enabled (g p) \<and> wp_physical_network (g p) = wp_physical_network p) \<and>
       (\<exists>q \<in> set (is_ports s). on_node s q \<and> wp_pxe_enabled (g q))
     else g p = p" if p: "p \<in> set (is_ports s)" for p
  proof (cases "on_node s p")
    case True
    consider "g p = named_port names n p" | "g p = placeholder_port (named_port names n p)" "\<not> wp_pxe_enabled (named_port names n p)"
      using c p True by (auto simp: filter_empty_conv)
    moreover have "\<exists>q \<in> set (is_ports s). on_node s q \<and> wp_pxe_enabled (g q)"
      using c p True by (auto simp: filter_empty_conv)
    ultimately show ?thesis using True f [where p = p] by cases (auto simp: Let_def)
  qed (use o in simp)
  then show ?thesis using nm s' by blast
qed

section \<open>Ports follow the cabling\<close>

definition cleared_port :: "wf_port \<Rightarrow> wf_port" where
  "cleared_port p = p\<lparr>wp_local_link_connection := Some [], wp_physical_network := None, wp_category := None, wp_pxe_enabled := False\<rparr>"

definition cabled_port :: "(string \<times> inspected_port) list \<Rightarrow> string dict \<Rightarrow> string list \<Rightarrow> wf_port \<Rightarrow> wf_port" where
  "cabled_port by_mac vlan_groups pxe p =
     (case (case wp_address p of None \<Rightarrow> None | Some a \<Rightarrow> map_of by_mac a) of
        Some i \<Rightarrow> with_attributes i (dget vlan_groups (ip_switch_system_name i)) (ip_switch_system_name i \<in> set pxe) p
      | None \<Rightarrow> cleared_port p)"

definition save_refused :: "hook_env \<Rightarrow> bool" where
  "save_refused env \<longleftrightarrow> (\<exists>p s e s'. he_save_port env p s = (Inl e, s') \<and> is_ironic_exception e)"

lemmas set_attr_defs = set_link_def set_physical_network_def set_category_def set_pxe_enabled_def

lemma with_attributes_fields:
  "wp_uuid (with_attributes i v x p) = wp_uuid p" "wp_address (with_attributes i v x p) = wp_address p"
  "wp_node_uuid (with_attributes i v x p) = wp_node_uuid p" "wp_extra (with_attributes i v x p) = wp_extra p"
  "wp_pxe_enabled (with_attributes i v x p) = x"
  "wp_physical_network (with_attributes i v x p) = (if truthy v \<and> \<not> suffix ''-network'' (the v) then None else v)"
  "wp_category (with_attributes i v x p) = (if truthy v then Some (last (split_on CHR ''-'' (the v))) else None)"
  "\<exists>d. wp_local_link_connection (with_attributes i v x p) = Some d \<and> dict_eq d (local_link_connection i)"
proof -
  show "\<exists>d. wp_local_link_connection (with_attributes i v x p) = Some d \<and> dict_eq d (local_link_connection i)"
    by (cases "wp_local_link_connection p") (simp_all add: with_attributes_def set_attr_defs dict_eq_def)
qed (simp_all add: with_attributes_def set_attr_defs)

lemma update_port_saves: "update_port env by_mac d pxe p = save_logged env (cabled_port by_mac d pxe p)"
  by (simp add: update_port_def cabled_port_def cleared_port_def set_port_attributes_def clear_port_attributes_def split: option.split)

lemma cabled_uuid: "wp_uuid (cabled_port by_mac d pxe p) = wp_uuid p"
  by (simp add: cabled_port_def cleared_port_def with_attributes_fields split: option.split)

interpretation cabling: port_step "\<lambda>env. update_port env by_mac d pxe"
  "\<lambda>env p _ q. q = cabled_port by_mac d pxe p \<or> save_refused env \<and> q = p"
proof
  fix env s p r s'
  assume ok: "hook_ok env" and k: "keyed_ports s" "p \<in> set (is_ports s)" and u: "update_port env by_mac d pxe p s = (Inr r, s')"
  let ?q = "cabled_port by_mac d pxe p"
  consider "he_save_port env ?q s = (Inr (), s')" | e where "he_save_port env ?q s = (Inl e, s')" "is_ironic_exception e"
    using u unfolding update_port_saves save_logged_def by (auto split: prod.splits sum.splits if_splits)
  then show "\<exists>q. s' = row_updated p q s \<and> wp_uuid q = wp_uuid p \<and> (q = cabled_port by_mac d pxe p \<or> save_refused env \<and> q = p)"
  proof cases
    case 1
    then show ?thesis using hook_okD(3) [OF ok 1] put_port_row [OF k cabled_uuid] by (intro exI [of _ ?q]) (simp add: cabled_uuid)
  next
    case 2
    then show ?thesis using hook_okD(4) [OF ok 2(1)] unfolding save_refused_def by (intro exI [of _ p]) auto
  qed
qed

lemma traits_keep_ports:
  assumes "hook_ok env" "set_switch_traits env gs s = (Inr (), s')"
  shows "is_ports s' = is_ports s \<and> tn_uuid (is_task s') = tn_uuid (is_task s)"
  using assms(2) unfolding set_switch_traits_def
  by (auto simp: Let_def saved_node_def split: if_splits prod.splits sum.splits dest!: hook_okD(5,7) [OF assms(1)])

lemma update_hook_rows:
  assumes ok: "hook_ok env" and k: "keyed_ports s" and p: "parse_plugin_data pd = Inr ips" "ips \<noteq> []"
    and h: "update_baremetal_ports_hook env mapping pd s = (Inr (), s')"
  obtains d g s1 where "vlan_group_names ips mapping = Inr d" "is_ports s' = map g (is_ports s)" "tn_uuid (is_task s') = tn_uuid (is_task s)"
    "\<forall>p. \<not> on_node s p \<longrightarrow> g p = p"
    "\<forall>p \<in> set (is_ports s). on_node s p \<longrightarrow> g p = cabled_port (fold (\<lambda>p. dput (ip_mac_address p) p) ips []) d (pxe_switch_names d) p \<or>
       save_refused env \<and> g p = p"
    "s1 = s\<lparr>is_ports := map g (is_ports s)\<rparr>" "set_switch_traits env (remdups (filter (\<lambda>x. x \<noteq> []) (map snd d))) s1 = (Inr (), s')"
proof -
  let ?ps = "filter (on_node s) (is_ports s)" and ?m = "fold (\<lambda>p. dput (ip_mac_address p) p) ips []"
  obtain d where d: "vlan_group_names ips mapping = Inr d" using h p
    by (cases "vlan_group_names ips mapping") (simp_all add: update_baremetal_ports_hook_def)
  obtain s1 where u: "update_port_attrs env ?m d (pxe_switch_names d) s = (Inr (), s1)"
    and t: "set_switch_traits env (remdups (filter (\<lambda>x. x \<noteq> []) (map snd d))) s1 = (Inr (), s')"
    using h p d unfolding update_baremetal_ports_hook_def by (auto split: prod.splits sum.splits)
  from u obtain ps s0 where l: "he_list_ports env s = (Inr ps, s0)"
    and f: "for_each (update_port env ?m d (pxe_switch_names d)) ps s0 = (Inr (), s1)" unfolding update_port_attrs_def bnd_Inr by blast
  from hook_okD(1) [OF ok l] f obtain rs where m: "map_act (update_port env ?m d (pxe_switch_names d)) ?ps s = (Inr rs, s1)"
    unfolding for_each_map_act by auto
  obtain g where g: "s1 = s\<lparr>is_ports := map g (is_ports s)\<rparr>"
    "\<forall>p \<in> set ?ps. g p = cabled_port ?m d (pxe_switch_names d) p \<or> save_refused env \<and> g p = p" "\<forall>p. p \<notin> set ?ps \<longrightarrow> g p = p"
    using cabling.loop [OF ok k _ distinct_rows [OF k] m] by auto
  show thesis
    using g d t traits_keep_ports [OF ok t] by (intro that [of d g s1]) auto
qed

lemma find_by_mac:
  assumes "distinct (map ip_mac_address ips)"
  shows "(case a of None \<Rightarrow> None | Some m \<Rightarrow> map_of (fold (\<lambda>p. dput (ip_mac_address p) p) ips []) m) =
    find (\<lambda>i. a = Some (ip_mac_address i)) ips"
proof (cases "find (\<lambda>i. a = Some (ip_mac_address i)) ips")
  case None
  have "map_of (fold (\<lambda>p. dput (ip_mac_address p) p) ips []) m \<noteq> Some v" if "a = Some m" for m v
    using None that map_of_fold_dput [OF assms, of "\<lambda>p. p" m v] by (auto simp: find_None_iff)
  then have "map_of (fold (\<lambda>p. dput (ip_mac_address p) p) ips []) m = None" if "a = Some m" for m using that by (cases "map_of (fold (\<lambda>p. dput (ip_mac_address p) p) ips []) m") auto
  then show ?thesis using None by (simp split: option.split)
next
  case (Some i)
  from find_SomeD [OF Some] show ?thesis using map_of_fold_dput [OF assms, of "\<lambda>p. p"] Some by auto
qed

text \<open>The port \<open>p\<close> as it should be after the inspection, \<open>q\<close>.\<close>

definition matches_cabling :: "string dict \<Rightarrow> inspected_port list \<Rightarrow> string dict \<Rightarrow> wf_port \<Rightarrow> wf_port \<Rightarrow> bool" where
  "matches_cabling mapping ips d p q \<longleftrightarrow>
     wp_uuid q = wp_uuid p \<and> wp_address q = wp_address p \<and> wp_node_uuid q = wp_node_uuid p \<and> wp_extra q = wp_extra p \<and>
     (case find (\<lambda>i. wp_address p = Some (ip_mac_address i)) ips of
        None \<Rightarrow> wp_local_link_connection q = Some [] \<and> wp_physical_network q = None \<and> \<not> wp_pxe_enabled q
      | Some i \<Rightarrow>
          (\<exists>c. wp_local_link_connection q = Some c \<and> dict_eq c (local_link_connection i)) \<and>
          wp_physical_network q = (let v = group_name (set ips) mapping (category_of mapping i) in if suffix ''-network'' v then Some v else None) \<and>
          (wp_pxe_enabled q \<longleftrightarrow> ip_switch_system_name i \<in> set (pxe_switch_names d)))"

lemma cabled_matches:
  assumes d: "vlan_group_names ips mapping = Inr d" and m: "distinct (map ip_mac_address ips)"
  shows "matches_cabling mapping ips d p (cabled_port (fold (\<lambda>p. dput (ip_mac_address p) p) ips []) d (pxe_switch_names d) p)"
proof (cases "find (\<lambda>i. wp_address p = Some (ip_mac_address i)) ips")
  case None
  then show ?thesis unfolding cabled_port_def find_by_mac [OF m] by (simp add: matches_cabling_def cleared_port_def)
next
  case (Some i)
  have "dget d (ip_switch_system_name i) = Some (group_name (set ips) mapping (category_of mapping i))"
    using vlan_group_names_ok [OF vlan_group_names_Inr [OF d]] d find_SomeD [OF Some] by auto
  moreover have "group_name (set ips) mapping (category_of mapping i) \<noteq> []" by (simp add: group_name_def)
  ultimately show ?thesis unfolding cabled_port_def find_by_mac [OF m] using with_attributes_fields(8)
    by (simp add: matches_cabling_def Some with_attributes_fields(1-7) Let_def)
qed

lemma hook_matches_cabling:
  assumes "hook_ok env" "keyed_ports s" "\<not> save_refused env" "parse_plugin_data pd = Inr ips" "ips \<noteq> []"
    and "distinct (map ip_mac_address ips)" "update_baremetal_ports_hook env mapping pd s = (Inr (), s')"
  shows "topology_ok (set ips) mapping \<and> (\<exists>d g. vlan_group_names ips mapping = Inr d \<and> is_ports s' = map g (is_ports s) \<and>
    (\<forall>p \<in> set (is_ports s). if on_node s p then matches_cabling mapping ips d p (g p) else g p = p))"
proof (rule update_hook_rows [OF assms(1,2,4,5,7)])
  fix d g assume d: "vlan_group_names ips mapping = Inr d" and g: "is_ports s' = map g (is_ports s)" "\<forall>p. \<not> on_node s p \<longrightarrow> g p = p"
    "\<forall>p \<in> set (is_ports s). on_node s p \<longrightarrow> g p = cabled_port (fold (\<lambda>p. dput (ip_mac_address p) p) ips []) d (pxe_switch_names d) p \<or>
       save_refused env \<and> g p = p"
  have "\<forall>p \<in> set (is_ports s). if on_node s p then matches_cabling mapping ips d p (g p) else g p = p"
    using g(2,3) assms(3) cabled_matches [OF d assms(6)] by simp
  then show ?thesis using vlan_group_names_Inr [OF d] d g(1) by blast
qed


section \<open>Traits\<close>

lemma switch_trait_of_group: "switch_trait_name (x @ ''-'' @ c) = ''CUSTOM_'' @ last (split_on CHR ''-'' (py_upper c)) @ ''_SWITCH''"
proof -
  have "upper_char CHR ''-'' = CHR ''-''" by code_simp
  then show ?thesis by (simp add: switch_trait_name_def py_upper_def last_split_on)
qed

lemma traits_written:
  assumes "hook_ok env" "andthen (he_create_traits env ts) (he_save_node env) s = (Inr (), s')"
  shows "set (tn_traits (is_stored s')) = set ts"
proof -
  obtain s1 where 1: "he_create_traits env ts s = (Inr (), s1)" and 2: "he_save_node env s1 = (Inr (), s')"
    using assms(2) unfolding andthen_Inr_unit by blast
  obtain ts' where "set ts' = set ts" "s1 = s\<lparr>is_stored := (is_stored s)\<lparr>tn_traits := ts'\<rparr>\<rparr>" using hook_okD(5) [OF assms(1) 1] by blast
  then show ?thesis using hook_okD(7) [OF assms(1) 2] by (simp add: saved_node_def Let_def)
qed

lemma switch_traits_written:
  assumes "hook_ok env" "set (tn_traits (is_task s)) = set (tn_traits (is_stored s))" "set_switch_traits env gs s = (Inr (), s')"
  shows "set (tn_traits (is_stored s')) = {t \<in> set (tn_traits (is_stored s)). \<not> is_our_trait t} \<union> switch_trait_name ` (set gs - {[]})"
proof -
  let ?r = "remdups (filter (\<lambda>x. \<not> is_our_trait x) (tn_traits (is_task s)) @ map switch_trait_name (filter (\<lambda>x. x \<noteq> []) gs))"
  have r: "set ?r = {t \<in> set (tn_traits (is_stored s)). \<not> is_our_trait t} \<union> switch_trait_name ` (set gs - {[]})"
    using assms(2) by auto
  show ?thesis
  proof (cases "set (tn_traits (is_task s)) = set ?r")
    case True
    then have "s' = s" using assms(3) by (simp add: set_switch_traits_def Let_def)
    then show ?thesis using True assms(2) r by simp
  next
    case False
    then have "andthen (he_create_traits env ?r) (he_save_node env) s = (Inr (), s')"
      using assms(3) by (simp add: set_switch_traits_def Let_def del: andthen_apply)
    then show ?thesis using traits_written [OF assms(1)] r by blast
  qed
qed

lemma vlan_groups_values:
  assumes "vlan_group_names ips mapping = Inr d"
  shows "snd ` set d = group_name (set ips) mapping ` category_of mapping ` set ips"
proof -
  have d: "distinct (map fst d)" "fst ` set d = ip_switch_system_name ` set ips"
    "\<forall>p \<in> set ips. dget d (ip_switch_system_name p) = Some (group_name (set ips) mapping (category_of mapping p))"
    using vlan_group_names_ok [OF vlan_group_names_Inr [OF assms]] assms by auto
  show ?thesis
  proof (intro equalityI subsetI)
    fix v assume "v \<in> snd ` set d"
    then obtain k where k: "(k, v) \<in> set d" by auto
    then obtain p where p: "p \<in> set ips" "k = ip_switch_system_name p" using d(2) by (metis fst_conv image_iff)
    have "dget d k = Some v" using k d(1) by (simp add: dget_def)
    then show "v \<in> group_name (set ips) mapping ` category_of mapping ` set ips" using d(3) p by auto
  next
    fix v assume "v \<in> group_name (set ips) mapping ` category_of mapping ` set ips"
    then obtain p where "p \<in> set ips" "v = group_name (set ips) mapping (category_of mapping p)" by auto
    then have "map_of d (ip_switch_system_name p) = Some v" using d(3) by (simp add: dget_def)
    then show "v \<in> snd ` set d" by (metis map_of_SomeD image_eqI snd_conv)
  qed
qed

text \<open>
  When the LLDP hook returns, the node's traits are the ones it had that are not of the form
  \<open>CUSTOM_*_SWITCH\<close>, and one such trait for each category of switch it is cabled to, named after the
  last part of the category; traits for connections it no longer has are gone.
\<close>
lemma switch_traits_exact:
  assumes "hook_ok env" "keyed_ports s" "set (tn_traits (is_task s)) = set (tn_traits (is_stored s))"
    and "parse_plugin_data pd = Inr ips" "ips \<noteq> []" "update_baremetal_ports_hook env mapping pd s = (Inr (), s')"
  shows "set (tn_traits (is_stored s')) = {t \<in> set (tn_traits (is_stored s)). \<not> is_our_trait t} \<union>
    {''CUSTOM_'' @ last (split_on CHR ''-'' (py_upper c)) @ ''_SWITCH'' | c. c \<in> category_of mapping ` set ips}"
proof (rule update_hook_rows [OF assms(1,2,4,5,6)])
  fix d g s1 assume d: "vlan_group_names ips mapping = Inr d" and s1: "s1 = s\<lparr>is_ports := map g (is_ports s)\<rparr>"
    and t: "set_switch_traits env (remdups (filter (\<lambda>x. x \<noteq> []) (map snd d))) s1 = (Inr (), s')"
  have "group_name P m c \<noteq> []" for P m c by (simp add: group_name_def)
  then have e: "set (remdups (filter (\<lambda>x. x \<noteq> []) (map snd d))) - {[]} = group_name (set ips) mapping ` category_of mapping ` set ips"
    using vlan_groups_values [OF d] by auto
  have n: "switch_trait_name (group_name P m c) = ''CUSTOM_'' @ last (split_on CHR ''-'' (py_upper c)) @ ''_SWITCH''" for P m c
    unfolding group_name_def by (rule switch_trait_of_group)
  have "set (tn_traits (is_task s1)) = set (tn_traits (is_stored s1))" using assms(3) s1 by simp
  from switch_traits_written [OF assms(1) this t]
  have "set (tn_traits (is_stored s')) = {t \<in> set (tn_traits (is_stored s)). \<not> is_our_trait t} \<union>
      switch_trait_name ` group_name (set ips) mapping ` category_of mapping ` set ips"
    unfolding e by (simp add: s1)
  moreover have "switch_trait_name ` group_name (set ips) mapping ` category_of mapping ` set ips =
      {''CUSTOM_'' @ last (split_on CHR ''-'' (py_upper c)) @ ''_SWITCH'' | c. c \<in> category_of mapping ` set ips}"
    unfolding image_image [of switch_trait_name] n by blast
  ultimately show ?thesis by (simp only:)
qed

section \<open>The PXE interface of the enrollment\<close>

lemma cabled_is_candidate:
  assumes "matches_cabling mapping ips d p q" "distinct (map ip_mac_address ips)"
  shows "wp_pxe_enabled q \<and> wp_physical_network q \<noteq> Some ''enrol'' \<longleftrightarrow>
    (\<exists>i \<in> set ips. wp_address p = Some (ip_mac_address i) \<and> ip_switch_system_name i \<in> set (pxe_switch_names d))"
proof (cases "find (\<lambda>i. wp_address p = Some (ip_mac_address i)) ips")
  case None
  then have "\<forall>i \<in> set ips. wp_address p \<noteq> Some (ip_mac_address i)" by (auto simp: find_None_iff)
  then show ?thesis using assms(1) unfolding matches_cabling_def None by auto
next
  case (Some i)
  have "j = i" if "j \<in> set ips" "wp_address p = Some (ip_mac_address j)" for j
    using that find_SomeD [OF Some] assms(2) by (auto simp: distinct_map dest: inj_onD)
  moreover have "\<not> suffix ''-network'' ''enrol''" by code_simp
  ultimately show ?thesis using assms(1) find_SomeD [OF Some] unfolding matches_cabling_def Some
    by (auto simp: Let_def split: if_splits)
qed

text \<open>
  After an agent inspection whose hook returned without a refused save, the enrollment of the node
  finds its PXE interface exactly if some port with a BIOS name is plugged into a PXE switch, and the
  interface it finds is the BIOS name of such a port: the placeholder that made the inspection possible
  is no longer taken for one.
\<close>
lemma enroll_finds_pxe_switch:
  assumes "hook_ok env" "keyed_ports s" "\<not> save_refused env" "parse_plugin_data pd = Inr ips" "ips \<noteq> []"
    and "distinct (map ip_mac_address ips)" "update_baremetal_ports_hook env mapping pd s = (Inr (), s')"
    and "wf_ok client" "ws_ports w = is_ports s'" "pxe_enabled_bios_name client (tn_uuid (is_task s)) w = (Inr r, w')"
  shows "\<exists>d. vlan_group_names ips mapping = Inr d \<and>
    (let plugged = (\<lambda>b p. p \<in> set (is_ports s) \<and> on_node s p \<and> dget (wp_extra p) ''bios_name'' = Some b \<and> b \<noteq> [] \<and>
       (\<exists>i \<in> set ips. wp_address p = Some (ip_mac_address i) \<and> ip_switch_system_name i \<in> set (pxe_switch_names d))) in
     case r of None \<Rightarrow> \<nexists>b p. plugged b p | Some b \<Rightarrow> \<exists>p. plugged b p)"
proof -
  obtain d g where d: "vlan_group_names ips mapping = Inr d" and g: "is_ports s' = map g (is_ports s)"
    and c: "\<forall>p \<in> set (is_ports s). if on_node s p then matches_cabling mapping ips d p (g p) else g p = p"
    using hook_matches_cabling [OF assms(1-7)] by blast
  let ?plugged = "\<lambda>b p. p \<in> set (is_ports s) \<and> on_node s p \<and> dget (wp_extra p) ''bios_name'' = Some b \<and> b \<noteq> [] \<and>
       (\<exists>i \<in> set ips. wp_address p = Some (ip_mac_address i) \<and> ip_switch_system_name i \<in> set (pxe_switch_names d))"
  let ?cand = "\<lambda>q. wp_pxe_enabled q \<and> truthy (dget (wp_extra q) ''bios_name'') \<and> wp_physical_network q \<noteq> Some ''enrol''"
  let ?list = "filter (\<lambda>p. wp_node_uuid p = tn_uuid (is_task s)) (map g (is_ports s))"
  have cand: "?cand (g p) \<longleftrightarrow> (\<exists>b. ?plugged b p)" "dget (wp_extra (g p)) = dget (wp_extra p)"
    if p: "p \<in> set (is_ports s)" "on_node s p" for p
  proof -
    have m: "matches_cabling mapping ips d p (g p)" using c p by simp
    then show "dget (wp_extra (g p)) = dget (wp_extra p)" by (simp add: matches_cabling_def)
    with cabled_is_candidate [OF m assms(6)] p show "?cand (g p) \<longleftrightarrow> (\<exists>b. ?plugged b p)" by (auto elim!: truthyE)
  qed
  have "wp_node_uuid (g p) = wp_node_uuid p" if "p \<in> set (is_ports s)" for p
    using c that by (cases "on_node s p") (auto simp: matches_cabling_def)
  then have l: "q \<in> set ?list \<longleftrightarrow> (\<exists>p \<in> set (is_ports s). on_node s p \<and> q = g p)" for q
    by (auto simp: on_node_def)
  from assms(10) obtain ps w1 where ps: "we_list_ports client (tn_uuid (is_task s)) w = (Inr ps, w1)"
    and r: "r = (case find ?cand ps of None \<Rightarrow> None | Some port \<Rightarrow> dget (wp_extra port) ''bios_name'')"
    unfolding pxe_enabled_bios_name_def bnd_Inr by auto
  have ps: "ps = ?list" using list_portsD [OF assms(8) ps] assms(9) g by simp
  have "case r of None \<Rightarrow> \<nexists>b p. ?plugged b p | Some b \<Rightarrow> \<exists>p. ?plugged b p"
  proof (cases "find ?cand ps")
    case None
    then have "\<not> ?cand q" if "q \<in> set ?list" for q using that unfolding ps find_None_iff by blast
    then have "\<not> (\<exists>b. ?plugged b p)" if "p \<in> set (is_ports s)" "on_node s p" for p using l cand(1) that by blast
    then show ?thesis using None by (auto simp: r)
  next
    case (Some q)
    then have q: "?cand q" "q \<in> set ?list" using find_SomeD [OF Some] ps by auto
    then obtain p where p: "p \<in> set (is_ports s)" "on_node s p" "q = g p" using l by auto
    then obtain b where "?plugged b p" using q(1) cand(1) [OF p(1,2)] by blast
    moreover have "r = Some b" using calculation Some cand(2) [OF p(1,2)] p(3) by (simp add: r)
    ultimately show ?thesis by auto
  qed
  then show ?thesis using d unfolding Let_def by blast
qed

section \<open>Examples\<close>

definition hook_example :: hook_env where
  "hook_example = \<lparr>he_list_ports = (\<lambda>s. (Inr (filter (on_node s) (is_ports s)), s)), he_save_port = (\<lambda>p. updates (put_port p)),
     he_create_traits = (\<lambda>ts. updates (\<lambda>s. s\<lparr>is_stored := (is_stored s)\<lparr>tn_traits := ts\<rparr>\<rparr>)), he_save_node = updates saved_node\<rparr>"

lemma hook_ok_example: "hook_ok hook_example"
  by (auto simp: hook_ok_def hook_example_def)

lemma hook_example_saves: "\<not> save_refused hook_example"
  by (simp add: save_refused_def hook_example_def)

definition bm_port :: "string \<Rightarrow> string \<Rightarrow> string \<Rightarrow> wf_port" where
  "bm_port u node mac = \<lparr>wp_uuid = u, wp_node_uuid = node, wp_name = None, wp_address = Some mac, wp_physical_network = None,
     wp_category = None, wp_local_link_connection = None, wp_pxe_enabled = True, wp_extra = [(''bios_name'', ''NIC.'' @ u)]\<rparr>"

definition insp_example :: insp_state where
  "insp_example = (let n = \<lparr>tn_uuid = ''u'', tn_name = Some ''Dell-1'', tn_traits = [''CUSTOM_BMC_SWITCH'', ''HW_A''], tn_resource_class = None\<rparr> in
     \<lparr>is_ports = [bm_port ''1'' ''u'' ''aa'', bm_port ''2'' ''u'' ''bb'', bm_port ''3'' ''v'' ''cc''], is_task = n, is_stored = n\<rparr>)"

lemma keyed_example: "keyed_ports insp_example"
  unfolding keyed_ports_def by code_simp

definition interfaces_example :: "string dict list" where
  "interfaces_example = [[(''name'', ''NIC.Slot.1-1''), (''mac_address'', ''AA'')]]"

definition lldp_example :: plugin_data where
  "lldp_example = \<lparr>pl_all_interfaces = Some [(''eno1'', [(''name'', ''eno1''), (''mac_address'', ''aa'')]), (''eno2'', [(''name'', ''eno2''), (''mac_address'', ''bb'')])],
     pl_parsed_lldp = Some [
       (''eno1'', [(''switch_system_name'', ''F20-3-2.iad3''), (''switch_chassis_id'', ''AA''), (''switch_port_id'', ''Ethernet1/1'')]),
       (''eno2'', [(''switch_system_name'', ''f20-3-1.iad3.rackspace.net''), (''switch_chassis_id'', ''BB''), (''switch_port_id'', ''Ethernet1/1'')])]\<rparr>"

definition lldp_ports :: "inspected_port list" where
  "lldp_ports = projr (parse_plugin_data lldp_example)"

definition after_lldp :: insp_state where
  "after_lldp = (let n = \<lparr>tn_uuid = ''u'', tn_name = Some ''Dell-1'', tn_traits = [''HW_A'', ''CUSTOM_NETWORK_SWITCH''], tn_resource_class = None\<rparr>;
       link = (\<lambda>sw c. Some [(''port_id'', ''Ethernet1/1''), (''switch_id'', c), (''switch_info'', sw)]) in
     \<lparr>is_ports = [
        (bm_port ''1'' ''u'' ''aa'')\<lparr>wp_physical_network := Some ''f20-3-network'', wp_category := Some ''network'',
          wp_local_link_connection := link ''f20-3-2.iad3.rackspace.net'' ''aa'', wp_pxe_enabled := False\<rparr>,
        (bm_port ''2'' ''u'' ''bb'')\<lparr>wp_physical_network := Some ''f20-3-network'', wp_category := Some ''network'',
          wp_local_link_connection := link ''f20-3-1.iad3.rackspace.net'' ''bb''\<rparr>,
        bm_port ''3'' ''v'' ''cc''], is_task = n, is_stored = n\<rparr>)"

lemma lldp_facts:
  "parse_plugin_data lldp_example = Inr lldp_ports" "lldp_ports \<noteq> []" "distinct (map ip_mac_address lldp_ports)"
  "update_baremetal_ports_hook hook_example mapping_example lldp_example insp_example = (Inr (), after_lldp)"
  by code_simp+


definition client_state :: wf_state where
  "client_state = \<lparr>ws_nodes = [], ws_ports = is_ports after_lldp, ws_bmc = []\<rparr>"

end
