(* ===== verification/Inspect_Node.thy ===== *)
theory Inspect_Node
  imports Inspection
begin

text \<open>
  The inspection hooks of \<open>ironic_understack\<close> that write the node: \<open>resource_class.py\<close> with
  \<open>flavor_matcher/matcher.py\<close>, \<open>flavor_matcher/machine.py\<close> and the data of \<open>flavor_matcher/device_type.py\<close>;
  \<open>inspect_hook_node_name_check.py\<close>; \<open>inspect_hook_chassis_model.py\<close>.

  The device types, read from YAML files when the module is loaded, are an argument.  Of the inventory
  only the entries the hooks read are represented, each optional.  Disk sizes are byte counts for which the
  floating point quotient the code takes has the integer quotient as its integral part (below \<open>2 ^ 53\<close>).
\<close>

section \<open>Resource classes\<close>

record cpu_spec =
  cs_cores :: int
  cs_model :: string

record memory_spec =
  ms_size :: int

record drive_spec =
  ds_size :: int

record resource_class =
  rc_name :: string
  rc_cpu :: cpu_spec
  rc_memory :: memory_spec
  rc_drives :: "drive_spec list"
  rc_nic_count :: int

record device_type =
  dt_class :: string
  dt_manufacturer :: string
  dt_model :: string
  dt_resource_class :: "resource_class list"

definition get_resource_class :: "device_type \<Rightarrow> string \<Rightarrow> resource_class option" where
  "get_resource_class dt name = find (\<lambda>rc. rc_name rc = name) (dt_resource_class dt)"

record machine =
  mc_memory_mb :: int
  mc_cpu :: string
  mc_cpu_cores :: int
  mc_disk_gb :: int
  mc_manufacturer :: string
  mc_model :: string

definition memory_gb :: "machine \<Rightarrow> int" where
  "memory_gb m = mc_memory_mb m div 1024"

fun match_classes :: "machine \<Rightarrow> resource_class list \<Rightarrow> exn + resource_class option" where
  "match_classes m [] = Inr None"
| "match_classes m (rc # rcs) =
     (if cs_model (rc_cpu rc) \<noteq> mc_cpu m then match_classes m rcs
      else if ms_size (rc_memory rc) \<noteq> mc_memory_mb m then match_classes m rcs
      else (case rc_drives rc of
          [] \<Rightarrow> Inl (ValueError ''min() iterable argument is empty'')
        | d # ds \<Rightarrow>
            if mc_disk_gb m < fold (\<lambda>x. min (ds_size x)) ds (ds_size d) then match_classes m rcs else Inr (Some rc)))"

fun match_machine :: "machine \<Rightarrow> device_type list \<Rightarrow> exn + (device_type \<times> resource_class) option" where
  "match_machine m [] = Inr None"
| "match_machine m (dt # dts) =
     (if dt_manufacturer dt \<noteq> mc_manufacturer m \<or> dt_model dt \<noteq> mc_model m then match_machine m dts
      else sbnd (match_classes m (dt_resource_class dt)) (\<lambda>r.
        case r of Some rc \<Rightarrow> Inr (Some (dt, rc)) | None \<Rightarrow> match_machine m dts))"

definition classify :: "device_type list \<Rightarrow> machine \<Rightarrow> exn + string" where
  "classify device_types m = sbnd (match_machine m device_types) (\<lambda>r.
     case r of None \<Rightarrow> Inl NoMatchError | Some (_, rc) \<Rightarrow> Inr (rc_name rc))"

record inventory =
  iv_physical_mb :: "int option"
  iv_disks :: "((int option) list) option"
  iv_cpu_model_name :: "string option"
  iv_cpu_count :: "int option"
  iv_manufacturer :: "string option"
  iv_product_name :: "string option"
  iv_serial_number :: "string option"

definition required :: "string \<Rightarrow> 'a option \<Rightarrow> exn + 'a" where
  "required key v = (case v of None \<Rightarrow> Inl (KeyError key) | Some x \<Rightarrow> Inr x)"

definition first_disk_size :: "inventory \<Rightarrow> exn + int" where
  "first_disk_size inventory = sbnd (required ''disks'' (iv_disks inventory)) (\<lambda>disks.
     case disks of [] \<Rightarrow> Inl IndexError | disk # _ \<Rightarrow> required ''size'' disk)"

definition inspected_machine :: "inventory \<Rightarrow> exn + machine" where
  "inspected_machine inventory =
     sbnd (required ''physical_mb'' (iv_physical_mb inventory)) (\<lambda>memory_mb.
     sbnd (first_disk_size inventory) (\<lambda>size.
     sbnd (required ''model_name'' (iv_cpu_model_name inventory)) (\<lambda>cpu_model_name.
       let manufacturer = strip (remove_sub ''Inc.'' (case iv_manufacturer inventory of None \<Rightarrow> [] | Some t \<Rightarrow> t));
           model_name = (case iv_product_name inventory of None \<Rightarrow> [] | Some t \<Rightarrow> t) in
       Inr \<lparr>mc_memory_mb = memory_mb, mc_cpu = cpu_model_name,
            mc_cpu_cores = (case iv_cpu_count inventory of None \<Rightarrow> 0 | Some n \<Rightarrow> n), mc_disk_gb = size div 10 ^ 9,
            mc_manufacturer = (if manufacturer = ''HP'' then ''HPE'' else manufacturer),
            mc_model = strip (split_on CHR ''('' model_name ! 0)\<rparr>)))"

definition set_task_class :: "string option \<Rightarrow> (insp_state, unit) act" where
  "set_task_class c = updates (\<lambda>s. s\<lparr>is_task := (is_task s)\<lparr>tn_resource_class := c\<rparr>\<rparr>)"

definition resource_class_hook :: "hook_env \<Rightarrow> device_type list \<Rightarrow> inventory \<Rightarrow> (insp_state, unit) act" where
  "resource_class_hook env device_types inventory =
     andthen (set_task_class None)
     (andthen
       (try_except
         (bnd (of_sum (inspected_machine inventory)) (\<lambda>m.
          bnd (of_sum (classify device_types m)) (\<lambda>name. set_task_class (Some name))))
         (\<lambda>e. bnd (reads (\<lambda>s. tn_uuid (is_task s))) (\<lambda>node_uuid.
            let refused = raise_exn (InvalidNodeInventory node_uuid
                  (''Inventory has missing hardware information for node '' @ node_uuid @ ''.'')) in
            case e of
              KeyError _ \<Rightarrow> refused | ValueError _ \<Rightarrow> refused | TypeError _ \<Rightarrow> refused
            | NoMatchError \<Rightarrow> ret ()
            | _ \<Rightarrow> raise_exn e)))
       (he_save_node env))"

section \<open>The name of a node\<close>

definition manufacturer_slug :: "string \<Rightarrow> string" where
  "manufacturer_slug manufacturer_name = (let name = py_upper manufacturer_name in
     if sublist ''DELL'' name then ''Dell''
     else if sublist ''HP'' name then ''HP''
     else map (\<lambda>c. if c = CHR '' '' then CHR ''_'' else c) manufacturer_name)"

definition node_name_check :: "task_node \<Rightarrow> inventory \<Rightarrow> exn + unit" where
  "node_name_check node inventory =
     (case iv_serial_number inventory of
        None \<Rightarrow> Inl (InvalidNodeInventory (tn_uuid node) ''No serial number found in inventory data.'')
      | Some serial_number \<Rightarrow>
          (case iv_manufacturer inventory of
             None \<Rightarrow> Inl (InvalidNodeInventory (tn_uuid node) ''No manufacturer found in inventory data.'')
           | Some manufacturer \<Rightarrow>
               if tn_name node = Some (manufacturer @ ''_'' @ serial_number) then Inr ()
               else Inl (RuntimeError ''Hardware Identity Crisis'')))"

section \<open>The chassis model\<close>

definition extract_chassis_model :: "task_node \<Rightarrow> inventory \<Rightarrow> exn + string" where
  "extract_chassis_model node inventory =
     (case iv_product_name inventory of
        None \<Rightarrow> Inl (InvalidNodeInventory (tn_uuid node) ''Missing product_name in inventory data.'')
      | Some chassis_model \<Rightarrow> Inr (sub_parens chassis_model))"

definition extract_manufacturer :: "task_node \<Rightarrow> inventory \<Rightarrow> exn + string" where
  "extract_manufacturer node inventory =
     (case iv_manufacturer inventory of
        None \<Rightarrow> Inl (InvalidNodeInventory (tn_uuid node) ''No manufacturer found in inventory data.'')
      | Some name \<Rightarrow>
          Inr (if sublist ''DELL'' (py_upper name) then ''Dell''
               else if sublist ''HP'' (py_upper name) then ''HP''
               else map (\<lambda>c. if c = CHR '' '' then CHR ''_'' else c) name))"

definition chassis_trait_name :: "string \<Rightarrow> string \<Rightarrow> string" where
  "chassis_trait_name manufacturer chassis_model =
     map (\<lambda>c. if c = CHR '' '' then CHR ''_'' else c) (py_upper (manufacturer @ ''_'' @ chassis_model))"

text \<open>The list of existing traits is compared with a set, so the traits are written every time.\<close>

definition set_prefixed_trait :: "hook_env \<Rightarrow> string \<Rightarrow> string \<Rightarrow> (insp_state, unit) act" where
  "set_prefixed_trait env pfx required_trait =
     bnd (reads (\<lambda>s. tn_traits (is_task s))) (\<lambda>existing_traits.
       let required_trait = pfx @ required_trait;
           required_traits = remdups (required_trait # filter (\<lambda>x. \<not> prefix pfx x) existing_traits) in
       andthen (he_create_traits env required_traits) (he_save_node env))"

definition chassis_model_hook :: "hook_env \<Rightarrow> inventory \<Rightarrow> (insp_state, unit) act" where
  "chassis_model_hook env inventory =
     bnd (reads is_task) (\<lambda>node.
     bnd (of_sum (extract_chassis_model node inventory)) (\<lambda>chassis_model.
     bnd (of_sum (extract_manufacturer node inventory)) (\<lambda>manufacturer.
       set_prefixed_trait env ''CUSTOM_'' (chassis_trait_name manufacturer chassis_model))))"

section \<open>Which class a node gets\<close>

text \<open>The classes on offer, in the order of the device types, and which of them the machine fits.\<close>

definition offers :: "device_type list \<Rightarrow> (device_type \<times> resource_class) list" where
  "offers dts = concat (map (\<lambda>dt. map (Pair dt) (dt_resource_class dt)) dts)"

definition fits :: "machine \<Rightarrow> device_type \<times> resource_class \<Rightarrow> bool" where
  "fits m offer \<longleftrightarrow> (case offer of (dt, rc) \<Rightarrow>
     dt_manufacturer dt = mc_manufacturer m \<and> dt_model dt = mc_model m \<and> cs_model (rc_cpu rc) = mc_cpu m \<and>
     ms_size (rc_memory rc) = mc_memory_mb m \<and> (\<exists>d \<in> set (rc_drives rc). ds_size d \<le> mc_disk_gb m))"

lemma less_fold_min: "(b :: int) < fold (\<lambda>x. min (f x)) ds a \<longleftrightarrow> b < a \<and> (\<forall>d \<in> set ds. b < f d)"
  by (induction ds arbitrary: a) auto

lemma match_classes_find:
  "match_classes m rcs = Inr r \<Longrightarrow> dt_manufacturer dt = mc_manufacturer m \<Longrightarrow> dt_model dt = mc_model m \<Longrightarrow>
   find (fits m) (map (Pair dt) rcs) = map_option (Pair dt) r"
proof (induction rcs)
  case (Cons rc rcs)
  show ?case
  proof (cases "fits m (dt, rc)")
    case True
    then have "cs_model (rc_cpu rc) = mc_cpu m" "ms_size (rc_memory rc) = mc_memory_mb m" "\<exists>d \<in> set (rc_drives rc). \<not> mc_disk_gb m < ds_size d"
      by (auto simp: fits_def not_less)
    then have "r = Some rc" using Cons.prems(1) by (cases "rc_drives rc") (auto simp: less_fold_min split: if_splits)
    then show ?thesis using True by simp
  next
    case False
    have "match_classes m rcs = Inr r"
      using False Cons.prems by (cases "rc_drives rc") (auto simp: fits_def less_fold_min not_le split: if_splits)
    then show ?thesis using False Cons by simp
  qed
qed simp

lemma match_machine_find: "match_machine m dts = Inr r \<Longrightarrow> find (fits m) (offers dts) = r"
proof (induction dts)
  case (Cons dt dts)
  let ?here = "map (Pair dt) (dt_resource_class dt)"
  have o: "offers (dt # dts) = ?here @ offers dts" by (simp add: offers_def)
  show ?case
  proof (cases "dt_manufacturer dt = mc_manufacturer m \<and> dt_model dt = mc_model m")
    case True
    then obtain x where x: "match_classes m (dt_resource_class dt) = Inr x"
      and r: "(case x of Some rc \<Rightarrow> Inr (Some (dt, rc)) | None \<Rightarrow> match_machine m dts) = Inr r"
      using Cons.prems by (auto simp: sbnd_Inr)
    have h: "find (fits m) ?here = map_option (Pair dt) x" using match_classes_find [OF x] True by simp
    show ?thesis
    proof (cases x)
      case None
      then show ?thesis using r h Cons.IH by (simp add: o find_append)
    next
      case (Some rc)
      then have "r = Some (dt, rc)" using r by simp
      then show ?thesis unfolding o find_append h using Some by simp
    qed
  next
    case False
    then have "find (fits m) ?here = None" by (auto simp: find_None_iff fits_def)
    then show ?thesis using False Cons by (auto simp: o find_append)
  qed
qed (simp add: offers_def)

lemma classify_find:
  "classify dts m = Inr name \<Longrightarrow> map_option (rc_name \<circ> snd) (find (fits m) (offers dts)) = Some name"
  "classify dts m = Inl NoMatchError \<Longrightarrow> find (fits m) (offers dts) = None"
proof -
  show "map_option (rc_name \<circ> snd) (find (fits m) (offers dts)) = Some name" if "classify dts m = Inr name"
    using that by (auto simp: classify_def sbnd_Inr split: option.splits dest!: match_machine_find)
  have "match_machine m dts \<noteq> Inl NoMatchError"
  proof (induction dts)
    case (Cons dt dts)
    have "match_classes m rcs \<noteq> Inl NoMatchError" for rcs by (induction rcs) (auto split: list.split)
    then show ?case using Cons by (auto simp: sbnd_def split: sum.splits option.splits)
  qed simp
  then show "find (fits m) (offers dts) = None" if "classify dts m = Inl NoMatchError"
    using that by (auto simp: classify_def sbnd_def split: sum.splits option.splits dest!: match_machine_find)
qed

lemma machine_errors: "inspected_machine iv \<noteq> Inl NoMatchError"
  by (auto simp: inspected_machine_def first_disk_size_def required_def sbnd_def Let_def split: option.splits sum.splits list.splits)

text \<open>
  When the resource class hook returns, the node's stored class is that of the first class on
  offer the machine fits: a device type of its manufacturer and model, a class of its processor and
  memory with a drive no larger than its first disk; and none if it fits no class.
\<close>
lemma resource_class_first_fit:
  assumes "hook_ok env" "resource_class_hook env dts iv s = (Inr (), s')"
  shows "\<exists>m. inspected_machine iv = Inr m \<and>
    tn_resource_class (is_stored s') = map_option (rc_name \<circ> snd) (find (fits m) (offers dts))"
proof -
  let ?s = "\<lambda>c. s\<lparr>is_task := (is_task s)\<lparr>tn_resource_class := c\<rparr>\<rparr>"
  obtain m where m: "inspected_machine iv = Inr m" using assms(2) machine_errors [of iv]
    by (cases "inspected_machine iv") (auto simp: resource_class_hook_def set_task_class_def Let_def split: exn.splits)
  have "he_save_node env (?s (map_option (rc_name \<circ> snd) (find (fits m) (offers dts)))) = (Inr (), s')"
  proof (cases "classify dts m")
    case (Inl e)
    then have "e = NoMatchError" "he_save_node env (?s None) = (Inr (), s')"
      using assms(2) m by (auto simp: resource_class_hook_def set_task_class_def Let_def split: exn.splits)
    then show ?thesis using Inl classify_find(2) by simp
  next
    case (Inr name)
    then have "he_save_node env (?s (Some name)) = (Inr (), s')"
      using assms(2) m by (simp add: resource_class_hook_def set_task_class_def)
    then show ?thesis unfolding classify_find(1) [OF Inr] .
  qed
  from hook_okD(7) [OF assms(1) this] show ?thesis using m by (simp add: saved_node_def Let_def)
qed

definition r740 :: device_type where
  "r740 = \<lparr>dt_class = ''server'', dt_manufacturer = ''Dell'', dt_model = ''R740'', dt_resource_class = [
     \<lparr>rc_name = ''m1.big'', rc_cpu = \<lparr>cs_cores = 32, cs_model = ''X''\<rparr>, rc_memory = \<lparr>ms_size = 2048\<rparr>,
      rc_drives = [\<lparr>ds_size = 960\<rparr>], rc_nic_count = 2\<rparr>,
     \<lparr>rc_name = ''m1.small'', rc_cpu = \<lparr>cs_cores = 16, cs_model = ''X''\<rparr>, rc_memory = \<lparr>ms_size = 2048\<rparr>,
      rc_drives = [\<lparr>ds_size = 480\<rparr>], rc_nic_count = 2\<rparr>]\<rparr>"

definition inventory_example :: inventory where
  "inventory_example = \<lparr>iv_physical_mb = Some 2048, iv_disks = Some [Some (480 * 10 ^ 9 + 5)], iv_cpu_model_name = Some ''X'', iv_cpu_count = None,
     iv_manufacturer = Some ''Dell Inc.'', iv_product_name = Some ''R740 (SKU=1)'', iv_serial_number = Some ''1''\<rparr>"

text \<open>A failed classification leaves the stored node alone; an empty list of disks is not caught.\<close>

lemma resource_class_error:
  assumes "resource_class_hook env dts iv s = (Inl e, s')" "he_save_node env = (\<lambda>s. (Inr (), saved_node s))"
  shows "is_stored s' = is_stored s"
  using assms by (auto simp: resource_class_hook_def set_task_class_def Let_def split: sum.splits exn.splits)

lemma no_disks_escapes: "iv_physical_mb iv \<noteq> None \<Longrightarrow> iv_disks iv = Some [] \<Longrightarrow> fst (resource_class_hook env dts iv s) = Inl IndexError"
  by (auto simp: resource_class_hook_def inspected_machine_def first_disk_size_def required_def set_task_class_def)

section \<open>Who owns the custom traits\<close>

text \<open>A node named by the server enrollment never passes the name check on the same hardware.\<close>

lemma enrolled_name_refused:
  assumes "iv_manufacturer iv = Some (ch_manufacturer d)" "iv_serial_number iv = Some (json_str (ch_serial_number d))" "tn_name node = Some (device_name d)"
  shows "node_name_check node iv = Inl (RuntimeError ''Hardware Identity Crisis'')"
  using assms by (simp add: node_name_check_def device_name_def)

text \<open>
  C29: When the chassis model hook returns, the node has exactly one trait that starts with \<open>CUSTOM_\<close>, the
  one for its manufacturer and model, whatever other such traits it had; all other traits are kept.  So the
  firmware update traits the server enrollment acts on do not survive it, unless the model's own trait is one.
\<close>
theorem chassis_hook_takes_custom_traits:
  assumes "hook_ok env" "set (tn_traits (is_task s)) = set (tn_traits (is_stored s))" "chassis_model_hook env iv s = (Inr (), s')"
  shows "\<exists>model manufacturer. extract_chassis_model (is_task s) iv = Inr model \<and> extract_manufacturer (is_task s) iv = Inr manufacturer \<and>
    (let t = ''CUSTOM_'' @ chassis_trait_name manufacturer model in
     set (tn_traits (is_stored s')) = insert t {x \<in> set (tn_traits (is_stored s)). \<not> prefix ''CUSTOM_'' x} \<and>
     set (firmware_update_traits (tn_traits (is_stored s'))) \<subseteq> {t})"
proof -
  obtain model manufacturer where m: "extract_chassis_model (is_task s) iv = Inr model" "extract_manufacturer (is_task s) iv = Inr manufacturer"
    and h: "set_prefixed_trait env ''CUSTOM_'' (chassis_trait_name manufacturer model) s = (Inr (), s')"
    using assms(3) unfolding chassis_model_hook_def by (auto split: sum.splits prod.splits)
  let ?t = "''CUSTOM_'' @ chassis_trait_name manufacturer model"
  let ?r = "remdups (?t # filter (\<lambda>x. \<not> prefix ''CUSTOM_'' x) (tn_traits (is_task s)))"
  from h have "andthen (he_create_traits env ?r) (he_save_node env) s = (Inr (), s')"
    by (simp add: set_prefixed_trait_def Let_def del: andthen_apply)
  from traits_written [OF assms(1) this]
  have t: "set (tn_traits (is_stored s')) = insert ?t {x \<in> set (tn_traits (is_stored s)). \<not> prefix ''CUSTOM_'' x}"
    using assms(2) by auto
  have "prefix ''CUSTOM_'' x" if "prefix FIRMWARE_UPDATE_TRAIT_PREFIX x" for x
    by (rule prefix_order.trans [OF _ that]) (simp add: FIRMWARE_UPDATE_TRAIT_PREFIX_def)
  then have "set (firmware_update_traits (tn_traits (is_stored s'))) \<subseteq> {?t}" using t by (auto simp: firmware_update_traits_def)
  then show ?thesis using m t unfolding Let_def by blast
qed

theorem chassis_hook_takes_custom_traits_witness:
  "let s' = snd (chassis_model_hook hook_example inventory_example insp_example) in
   set (tn_traits (is_stored s')) = {''CUSTOM_DELL_R740'', ''HW_A''}"
proof -
  let ?s = "snd (chassis_model_hook hook_example inventory_example insp_example)"
  have "fst (chassis_model_hook hook_example inventory_example insp_example) = Inr ()" by code_simp
  then have h: "chassis_model_hook hook_example inventory_example insp_example = (Inr (), ?s)" by (metis prod.collapse)
  have t: "set (tn_traits (is_task insp_example)) = set (tn_traits (is_stored insp_example))" by code_simp
  have m: "extract_chassis_model (is_task insp_example) inventory_example = Inr ''R740''"
    "extract_manufacturer (is_task insp_example) inventory_example = Inr ''Dell''" "chassis_trait_name ''Dell'' ''R740'' = ''DELL_R740''" by code_simp+
  have "{x \<in> set (tn_traits (is_stored insp_example)). \<not> prefix ''CUSTOM_'' x} = {''HW_A''}"
    by (auto simp: insp_example_def Let_def)
  then show ?thesis using chassis_hook_takes_custom_traits [OF hook_ok_example t h] m by (simp add: Let_def)
qed

end
