(* ===== verification/Py_Uuid.thy ===== *)
theory Py_Uuid
  imports Json
begin

text \<open>
  \<open>uuid.UUID\<close> and \<open>int\<close> of decoded JSON values.  A UUID is its 128-bit number; \<open>str\<close> prints it in the
  canonical form, and reading the canonical form gives the UUID back.
\<close>

section \<open>Definitions\<close>

definition hex_of_uuid :: "string \<Rightarrow> string" where
  "hex_of_uuid s = filter (\<lambda>c. c \<noteq> CHR ''-'') (strip_braces (remove_sub ''uuid:'' (remove_sub ''urn:'' s)))"

definition py_uuid :: "json \<Rightarrow> exn + int" where
  "py_uuid v = (case v of
      JStr s \<Rightarrow>
        (let h = hex_of_uuid s in
         if length h \<noteq> 32 then Inl (ValueError ''badly formed hexadecimal UUID string'')
         else (case py_int16 h of
             None \<Rightarrow> Inl (ValueError ''invalid literal for int()'')
           | Some i \<Rightarrow> if 0 \<le> i \<and> i < 2 ^ 128 then Inr i else Inl (ValueError ''int is out of range'')))
    | JNull \<Rightarrow> Inl (TypeError ''one of the hex, bytes, bytes_le, fields, or int arguments must be given'')
    | _ \<Rightarrow> Inl (AttributeError ''replace''))"

text \<open>The last \<open>k\<close> hexadecimal digits of a number, and \<open>str (uuid)\<close>.\<close>

fun hexn :: "nat \<Rightarrow> int \<Rightarrow> string" where
  "hexn 0 i = []"
| "hexn (Suc k) i = hexn k (i div 16) @ [hex_char (nat (i mod 16))]"

definition uuid_str :: "int \<Rightarrow> string" where
  "uuid_str i = (let h = hexn 32 i in
     take 8 h @ ''-'' @ take 4 (drop 8 h) @ ''-'' @ take 4 (drop 12 h) @ ''-'' @ take 4 (drop 16 h) @ ''-'' @ drop 20 h)"

text \<open>\<open>int (v)\<close>.\<close>

fun jint :: "json \<Rightarrow> exn + int" where
  "jint (JNum n) = Inr n"
| "jint (JBool b) = Inr (if b then 1 else 0)"
| "jint (JStr t) = (case py_int t of None \<Rightarrow> Inl (ValueError ''invalid literal for int()'') | Some n \<Rightarrow> Inr n)"
| "jint _ = Inl (TypeError ''int() argument'')"

section \<open>The canonical form\<close>

definition hex_chars :: "char set" where
  "hex_chars = hex_char ` {..<16}"

lemma hex_chars_code: "hex_chars = set ''0123456789abcdef''"
  unfolding hex_chars_def by code_simp

lemma hexn_chars: "set (hexn k i) \<subseteq> hex_chars"
proof (induction k arbitrary: i)
  case (Suc k)
  have "nat (i mod 16) < 16" by (simp add: nat_less_iff)
  then show ?case using Suc by (auto simp: hex_chars_def)
qed simp

lemma hexn_length [simp]: "length (hexn k i) = k"
  by (induction k arbitrary: i) simp_all

lemma hex_val_char: "n < 16 \<Longrightarrow> hex_val (hex_char n) = Some (int n)"
  by (simp add: hex_val_def hex_char_def Let_def)

lemma hex_rest_hexn: "0 \<le> i \<Longrightarrow> i < 16 ^ k \<Longrightarrow> hex_rest acc (hexn k i @ t) = hex_rest (acc * 16 ^ k + i) t"
proof (induction k arbitrary: i acc t)
  case 0
  then have "i = 0" by simp
  then show ?case by simp
next
  case (Suc k)
  have m: "nat (i mod 16) < 16" by (simp add: nat_less_iff)
  have "i div 16 < 16 ^ k" using Suc.prems by (simp add: div_less_iff_less_mult mult.commute)
  moreover have "0 \<le> i div 16" using Suc.prems by simp
  ultimately have "hex_rest acc (hexn (Suc k) i @ t) = hex_rest (acc * 16 ^ k + i div 16) (hex_char (nat (i mod 16)) # t)"
    using Suc.IH [of "i div 16" acc "hex_char (nat (i mod 16)) # t"] by simp
  also have "\<dots> = hex_rest ((acc * 16 ^ k + i div 16) * 16 + i mod 16) t"
    using hex_val_char [OF m] by simp
  also have "(acc * 16 ^ k + i div 16) * 16 + i mod 16 = acc * 16 ^ Suc k + i"
    by (simp add: algebra_simps)
  finally show ?case .
qed

lemma remove_sub_absent: "c \<notin> set s \<Longrightarrow> remove_sub (c # p) s = s"
  by (induction s) auto

lemma strip_outside: "\<forall>c \<in> set s. \<not> P c \<Longrightarrow> rev (dropWhile P (rev (dropWhile P s))) = s"
  by (metis dropWhile_eq_self_iff hd_in_set rev_rev_ident set_rev)

lemma hex_chars_plain: "c \<in> hex_chars \<Longrightarrow> \<not> is_space c \<and> c \<notin> {CHR ''-'', CHR ''+'', CHR ''x'', CHR ''X'', CHR ''_'', CHR ''{'', CHR ''}'', CHR ''u''}"
proof -
  have "\<forall>c \<in> hex_chars. \<not> is_space c \<and> c \<notin> {CHR ''-'', CHR ''+'', CHR ''x'', CHR ''X'', CHR ''_'', CHR ''{'', CHR ''}'', CHR ''u''}"
    unfolding hex_chars_code by code_simp
  then show "c \<in> hex_chars \<Longrightarrow> ?thesis" by blast
qed

lemma py_int16_hexn:
  assumes "0 \<le> i" "i < 16 ^ Suc (Suc k)"
  shows "py_int16 (hexn (Suc (Suc k)) i) = Some i"
proof -
  define h where "h = hexn (Suc (Suc k)) i"
  have c: "set h \<subseteq> hex_chars" unfolding h_def by (rule hexn_chars)
  have "length h = Suc (Suc k)" by (simp add: h_def del: hexn.simps)
  then obtain a b r where h: "h = a # b # r" by (metis length_Suc_conv)
  have p: "\<not> is_space x \<and> x \<notin> {CHR ''-'', CHR ''+'', CHR ''x'', CHR ''X'', CHR ''_'', CHR ''{'', CHR ''}'', CHR ''u''}" if "x \<in> set h" for x
    using hex_chars_plain c that by blast
  have s: "strip h = h" unfolding strip_def using p by (intro strip_outside) blast
  obtain n where n: "n < 16" "a = hex_char n" using c h by (auto simp: hex_chars_def)
  have "hex_rest 0 h = Some i" using hex_rest_hexn [of i "Suc (Suc k)" 0 "[]"] assms by (simp add: h_def del: hexn.simps)
  then have d: "hex_digits h = Some i" unfolding h hex_digits_def using hex_val_char [OF n(1)] n(2) by simp
  have "b \<noteq> CHR ''x''" "b \<noteq> CHR ''X''" "a \<noteq> CHR ''+''" "a \<noteq> CHR ''-''" using p [of a] p [of b] h by auto
  then have "py_int16 h = Some i" unfolding py_int16_def s using d by (simp add: h hex_literal_def)
  then show ?thesis by (simp add: h_def)
qed

lemma uuid_str_chars: "set (uuid_str i) \<subseteq> insert CHR ''-'' hex_chars"
  using hexn_chars [of 32 i] by (auto simp: uuid_str_def Let_def dest: in_set_takeD in_set_dropD simp del: hexn.simps)

lemma pieces: "take 8 h @ take 4 (drop 8 h) @ take 4 (drop 12 h) @ take 4 (drop 16 h) @ drop 20 h = h"
proof -
  have "take 4 (drop 16 h) @ drop 20 h = drop 16 h" using append_take_drop_id [of 4 "drop 16 h"] by simp
  moreover have "take 4 (drop 12 h) @ drop 16 h = drop 12 h" using append_take_drop_id [of 4 "drop 12 h"] by simp
  moreover have "take 4 (drop 8 h) @ drop 12 h = drop 8 h" using append_take_drop_id [of 4 "drop 8 h"] by simp
  ultimately show ?thesis by simp
qed

lemma hex_of_uuid_str: "hex_of_uuid (uuid_str i) = hexn 32 i"
proof -
  define h where "h = hexn 32 i"
  have h: "set h \<subseteq> hex_chars" unfolding h_def by (rule hexn_chars)
  have p: "c \<notin> {CHR ''{'', CHR ''}'', CHR ''u''}" if "c \<in> set (uuid_str i)" for c
    using uuid_str_chars that hex_chars_plain by fastforce
  then have "remove_sub ''urn:'' (uuid_str i) = uuid_str i" "remove_sub ''uuid:'' (uuid_str i) = uuid_str i"
    by (auto intro!: remove_sub_absent)
  moreover have "strip_braces (uuid_str i) = uuid_str i"
    unfolding strip_braces_def Let_def using p by (intro strip_outside) blast
  moreover have "filter (\<lambda>c. c \<noteq> CHR ''-'') xs = xs" if "set xs \<subseteq> set h" for xs
    using that h hex_chars_plain by (intro filter_True) blast
  ultimately show ?thesis
    unfolding hex_of_uuid_def by (simp add: uuid_str_def Let_def pieces set_take_subset set_drop_subset
        subset_trans [OF set_take_subset set_drop_subset] flip: h_def del: hexn.simps)
qed

text \<open>Reading what \<open>str\<close> printed gives the UUID back.\<close>

lemma py_uuid_str: "0 \<le> i \<Longrightarrow> i < 2 ^ 128 \<Longrightarrow> py_uuid (JStr (uuid_str i)) = Inr i"
  using py_int16_hexn [of i 30] by (simp add: py_uuid_def hex_of_uuid_str Let_def numeral_eq_Suc del: hexn.simps)

lemma py_uuid_range: "py_uuid v = Inr i \<Longrightarrow> 0 \<le> i \<and> i < 2 ^ 128"
  by (auto simp: py_uuid_def Let_def split: json.splits if_splits option.splits)

lemma py_uuid_again: "py_uuid v = Inr i \<Longrightarrow> py_uuid (JStr (uuid_str i)) = Inr i"
  using py_uuid_range py_uuid_str by blast

lemma uuid_str_inj: "py_uuid v = Inr i \<Longrightarrow> py_uuid w = Inr j \<Longrightarrow> uuid_str i = uuid_str j \<Longrightarrow> i = j"
  by (metis py_uuid_again sum.inject(2))

end
