(* ===== verification/Nautobot_Ipam.thy ===== *)
theory Nautobot_Ipam
  imports Py_Uuid
begin

text \<open>
  \<open>understack_workflows/oslo_event/neutron_network.py\<close>, \<open>oslo_event/neutron_subnet.py\<close> and
  \<open>main/resync_neutron_to_nautobot.py\<close>: Neutron networks and subnets become IPAM namespaces, UCVNIs and prefixes
  of Nautobot.

  Nautobot is reached through the record \<open>nautobot_ipam\<close> of the client's calls, each a call on the tables
  \<open>ipam\<close>; \<open>namespaces_served\<close>, \<open>prefixes_served\<close> and \<open>ucvnis_served\<close> state what a request that
  returned has done, that a refused one changed nothing, and what the answers 400 and 404 mean.  Nothing is
  assumed about which requests are refused.

  Namespaces are kept by their unique name with the identifier Nautobot chose, prefixes and UCVNIs by their
  identifiers; a prefix refers to its namespace by identifier.
\<close>

section \<open>Nautobot's tables and client\<close>

record ucvni =
  uv_name :: json
  uv_status :: string
  uv_tenant :: string
  uv_ucvni_group :: string
  uv_ucvni_id :: int

record ipam_prefix =
  pf_prefix :: json
  pf_status :: string
  pf_namespace :: string
  pf_tenant :: string

record ipam =
  namespaces :: "string dict"
  prefixes :: "ipam_prefix dict"
  ucvnis :: "ucvni dict"

text \<open>The payload of a prefix names its namespace.\<close>

record prefix_payload =
  pp_id :: string
  pp_prefix :: json
  pp_status :: string
  pp_namespace :: string
  pp_tenant :: string

record nautobot_ipam =
  namespaces_create :: "string \<Rightarrow> (ipam, unit) act"
  namespaces_get :: "string \<Rightarrow> (ipam, string option) act"
  namespace_delete :: "string \<Rightarrow> (ipam, unit) act"
  prefixes_filter :: "string \<Rightarrow> (ipam, string list) act"
  prefix_delete :: "string \<Rightarrow> (ipam, unit) act"
  prefixes_delete :: "string list \<Rightarrow> (ipam, unit) act"
  prefixes_patch :: "string \<Rightarrow> prefix_payload \<Rightarrow> (ipam, unit) act"
  prefixes_create :: "prefix_payload \<Rightarrow> (ipam, unit) act"
  ucvnis_patch :: "string \<Rightarrow> ucvni \<Rightarrow> (ipam, unit) act"
  ucvnis_create :: "string \<Rightarrow> ucvni \<Rightarrow> (ipam, unit) act"
  ucvnis_delete :: "string list \<Rightarrow> (ipam, unit) act"
  env_ucvni_group :: "string option"

text \<open>\<open>except pynautobot.RequestError as e: raise NautobotRequestError (e) from e\<close>.\<close>

definition wrap_request_error :: "exn \<Rightarrow> exn" where
  "wrap_request_error ex = (case ex of RequestError _ _ \<Rightarrow> NautobotRequestError | _ \<Rightarrow> ex)"

section \<open>Networks\<close>

record NetworkEvent =
  ne_event_type :: json
  ne_network_uuid :: int
  ne_network_name :: json
  ne_tenant_id :: int
  ne_external :: bool
  ne_provider_segmentation_id :: int

definition network_from_event_dict :: "json \<Rightarrow> exn + NetworkEvent" where
  "network_from_event_dict data =
     sbnd (jitem data ''payload'') (\<lambda>payload.
     sbnd (jitem payload ''network'') (\<lambda>network.
     sbnd (jitem data ''event_type'') (\<lambda>event_type.
     sbnd (sbnd (jitem network ''id'') py_uuid) (\<lambda>uuid.
     sbnd (jitem network ''name'') (\<lambda>name.
     sbnd (sbnd (jitem network ''project_id'') py_uuid) (\<lambda>tenant.
     sbnd (jitem network ''router:external'') (\<lambda>external.
     sbnd (sbnd (jitem network ''provider:segmentation_id'') jint) (\<lambda>segmentation_id.
     Inr \<lparr>ne_event_type = event_type, ne_network_uuid = uuid, ne_network_name = name, ne_tenant_id = tenant,
          ne_external = json_truthy external, ne_provider_segmentation_id = segmentation_id\<rparr>))))))))"

definition ensure_nautobot_ipam_namespace_exists :: "nautobot_ipam \<Rightarrow> string \<Rightarrow> (ipam, unit) act" where
  "ensure_nautobot_ipam_namespace_exists nb name =
     try_except (namespaces_create nb name) (\<lambda>ex.
       case ex of
         RequestError code txt \<Rightarrow>
           if code = 400 \<and> contains ''namespace with this name already exists'' txt then ret ()
           else raise_exn NautobotRequestError
       | _ \<Rightarrow> raise_exn ex)"

definition ucvni_group_name_or_env :: "nautobot_ipam \<Rightarrow> string option \<Rightarrow> exn + string" where
  "ucvni_group_name_or_env nb ucvni_group_name =
     (case (case ucvni_group_name of None \<Rightarrow> env_ucvni_group nb | Some g \<Rightarrow> Some g) of
        None \<Rightarrow> Inl (RuntimeError ''Please set environment variable UCVNI_GROUP_NAME'')
      | Some g \<Rightarrow> Inr g)"

definition ucvni_payload :: "NetworkEvent \<Rightarrow> string \<Rightarrow> ucvni" where
  "ucvni_payload event ucvni_group =
     \<lparr>uv_name = ne_network_name event, uv_status = ''Active'', uv_tenant = uuid_str (ne_tenant_id event),
      uv_ucvni_group = ucvni_group, uv_ucvni_id = ne_provider_segmentation_id event\<rparr>"

definition update_nautobot_ucvni :: "nautobot_ipam \<Rightarrow> NetworkEvent \<Rightarrow> string option \<Rightarrow> (ipam, bool) act" where
  "update_nautobot_ucvni nb event ucvni_group_name =
     bnd (of_sum (ucvni_group_name_or_env nb ucvni_group_name)) (\<lambda>ucvni_group.
       try_except (andthen (ucvnis_patch nb (uuid_str (ne_network_uuid event)) (ucvni_payload event ucvni_group)) (ret True)) (\<lambda>ex.
         case ex of
           RequestError code txt \<Rightarrow> if code = 404 then ret False else raise_exn NautobotRequestError
         | _ \<Rightarrow> raise_exn ex))"

definition create_nautobot_ucvni :: "nautobot_ipam \<Rightarrow> NetworkEvent \<Rightarrow> string option \<Rightarrow> (ipam, unit) act" where
  "create_nautobot_ucvni nb event ucvni_group_name =
     bnd (of_sum (ucvni_group_name_or_env nb ucvni_group_name)) (\<lambda>ucvni_group.
       try_except (ucvnis_create nb (uuid_str (ne_network_uuid event)) (ucvni_payload event ucvni_group)) (\<lambda>ex.
         case ex of
           RequestError code txt \<Rightarrow>
             if code = 400 \<and> contains ''this Id already exists'' txt then ret ()
             else if code = 400 \<and> contains ''UCVNI with this Ucvni ucvni_group and UCVNI_ID already exists'' txt
             then raise_exn (RuntimeError ''Segmentation ID conflict'')
             else raise_exn NautobotRequestError
         | _ \<Rightarrow> raise_exn ex))"

definition sync_network_ucvni :: "nautobot_ipam \<Rightarrow> string \<Rightarrow> json \<Rightarrow> string \<Rightarrow> int \<Rightarrow> string option \<Rightarrow> (ipam, unit) act" where
  "sync_network_ucvni nb network_id network_name tenant_id segmentation_id ucvni_group_name =
     bnd (of_sum (py_uuid (JStr network_id))) (\<lambda>uuid.
     bnd (of_sum (py_uuid (JStr tenant_id))) (\<lambda>tenant.
       let event = \<lparr>ne_event_type = JStr ''network.sync'', ne_network_uuid = uuid, ne_network_name = network_name,
                    ne_tenant_id = tenant, ne_external = False, ne_provider_segmentation_id = segmentation_id\<rparr> in
       bnd (update_nautobot_ucvni nb event ucvni_group_name) (\<lambda>updated.
         when_act (\<not> updated) (create_nautobot_ucvni nb event ucvni_group_name))))"

definition sync_network_to_nautobot ::
  "nautobot_ipam \<Rightarrow> string \<Rightarrow> json \<Rightarrow> string \<Rightarrow> int option \<Rightarrow> string option \<Rightarrow> (ipam, int) act" where
  "sync_network_to_nautobot nb network_id network_name tenant_id segmentation_id ucvni_group_name =
     try_except
       (andthen (ensure_nautobot_ipam_namespace_exists nb network_id)
       (andthen
         (case segmentation_id of
            None \<Rightarrow> ret ()
          | Some n \<Rightarrow> when_act (n \<noteq> 0) (sync_network_ucvni nb network_id network_name tenant_id n ucvni_group_name))
         (ret 0)))
       (\<lambda>_. ret 1)"

definition handle_network_create_or_update :: "nautobot_ipam \<Rightarrow> json \<Rightarrow> string option \<Rightarrow> (ipam, int) act" where
  "handle_network_create_or_update nb event_data ucvni_group_name =
     bnd (of_sum (network_from_event_dict event_data)) (\<lambda>event.
       sync_network_to_nautobot nb (uuid_str (ne_network_uuid event)) (ne_network_name event)
         (uuid_str (ne_tenant_id event)) (Some (ne_provider_segmentation_id event)) ucvni_group_name)"

definition delete_nautobot_prefixes_in_namespace :: "nautobot_ipam \<Rightarrow> string \<Rightarrow> (ipam, unit) act" where
  "delete_nautobot_prefixes_in_namespace nb namespace_id =
     bnd (prefixes_filter nb namespace_id) (\<lambda>dependent_prefixes. for_each (prefix_delete nb) dependent_prefixes)"

definition delete_nautobot_ipam_namespace :: "nautobot_ipam \<Rightarrow> string \<Rightarrow> (ipam, unit) act" where
  "delete_nautobot_ipam_namespace nb name =
     try_except
       (bnd (namespaces_get nb name) (\<lambda>namespace.
          case namespace of
            None \<Rightarrow> ret ()
          | Some nid \<Rightarrow> andthen (delete_nautobot_prefixes_in_namespace nb nid) (namespace_delete nb nid)))
       (\<lambda>ex. raise_exn (wrap_request_error ex))"

definition handle_network_delete :: "nautobot_ipam \<Rightarrow> json \<Rightarrow> (ipam, int) act" where
  "handle_network_delete nb event_data =
     bnd (of_sum (network_from_event_dict event_data)) (\<lambda>event.
     andthen (delete_nautobot_ipam_namespace nb (uuid_str (ne_network_uuid event)))
     (andthen (ucvnis_delete nb [uuid_str (ne_network_uuid event)])
     (ret 0)))"

section \<open>Subnets\<close>

record SubnetEvent =
  se_event_type :: json
  se_subnet_uuid :: int
  se_subnet_name :: json
  se_tenant_uuid :: int
  se_network_uuid :: int
  se_cidr :: json
  se_gateway_ip :: json
  se_external :: bool
  se_ip_version :: json
  se_subnetpool_id :: "int option"

definition subnet_from_event_dict :: "json \<Rightarrow> exn + SubnetEvent" where
  "subnet_from_event_dict data =
     sbnd (jitem data ''payload'') (\<lambda>payload.
     sbnd (jitem payload ''subnet'') (\<lambda>subnet.
     sbnd (jitem data ''event_type'') (\<lambda>event_type.
     sbnd (sbnd (jitem subnet ''id'') py_uuid) (\<lambda>uuid.
     sbnd (jitem subnet ''name'') (\<lambda>name.
     sbnd (sbnd (jitem subnet ''project_id'') py_uuid) (\<lambda>tenant.
     sbnd (sbnd (jitem subnet ''network_id'') py_uuid) (\<lambda>network.
     sbnd (jitem subnet ''cidr'') (\<lambda>cidr.
     sbnd (jitem subnet ''gateway_ip'') (\<lambda>gateway_ip.
     sbnd (jitem subnet ''router:external'') (\<lambda>external.
     sbnd (jitem subnet ''ip_version'') (\<lambda>ip_version.
     sbnd (jitem subnet ''subnetpool_id'') (\<lambda>pool.
     sbnd (if json_truthy pool then sbnd (py_uuid pool) (\<lambda>i. Inr (Some i)) else Inr None) (\<lambda>subnetpool_id.
     Inr \<lparr>se_event_type = event_type, se_subnet_uuid = uuid, se_subnet_name = name, se_tenant_uuid = tenant,
          se_network_uuid = network, se_cidr = cidr, se_gateway_ip = gateway_ip, se_external = json_truthy external,
          se_ip_version = ip_version, se_subnetpool_id = subnetpool_id\<rparr>)))))))))))))"

definition update_nautobot_prefix :: "nautobot_ipam \<Rightarrow> string \<Rightarrow> prefix_payload \<Rightarrow> (ipam, bool) act" where
  "update_nautobot_prefix nb prefix_id payload =
     try_except (andthen (prefixes_patch nb prefix_id payload) (ret True)) (\<lambda>ex.
       case ex of
         RequestError code txt \<Rightarrow> if code = 404 then ret False else raise_exn NautobotRequestError
       | _ \<Rightarrow> raise_exn ex)"

definition create_nautobot_prefix :: "nautobot_ipam \<Rightarrow> prefix_payload \<Rightarrow> (ipam, unit) act" where
  "create_nautobot_prefix nb payload =
     try_except (prefixes_create nb payload) (\<lambda>ex. raise_exn (wrap_request_error ex))"

definition subnet_payload :: "string \<Rightarrow> string \<Rightarrow> string \<Rightarrow> json \<Rightarrow> bool \<Rightarrow> prefix_payload" where
  "subnet_payload subnet_id network_id tenant_id cidr is_external =
     \<lparr>pp_id = subnet_id, pp_prefix = cidr, pp_status = ''Active'',
      pp_namespace = (if is_external then ''Global'' else network_id), pp_tenant = tenant_id\<rparr>"

definition sync_subnet_to_nautobot :: "nautobot_ipam \<Rightarrow> string \<Rightarrow> string \<Rightarrow> string \<Rightarrow> json \<Rightarrow> bool \<Rightarrow> (ipam, int) act" where
  "sync_subnet_to_nautobot nb subnet_id network_id tenant_id cidr is_external =
     (let payload = subnet_payload subnet_id network_id tenant_id cidr is_external in
      try_except
        (andthen (bnd (update_nautobot_prefix nb subnet_id payload) (\<lambda>updated.
           when_act (\<not> updated) (create_nautobot_prefix nb payload)))
         (ret 0))
        (\<lambda>_. ret 1))"

definition handle_subnet_create_or_update :: "nautobot_ipam \<Rightarrow> json \<Rightarrow> (ipam, int) act" where
  "handle_subnet_create_or_update nb event_data =
     bnd (of_sum (subnet_from_event_dict event_data)) (\<lambda>subnet.
       sync_subnet_to_nautobot nb (uuid_str (se_subnet_uuid subnet)) (uuid_str (se_network_uuid subnet))
         (uuid_str (se_tenant_uuid subnet)) (se_cidr subnet) (se_external subnet))"

definition handle_subnet_delete :: "nautobot_ipam \<Rightarrow> json \<Rightarrow> (ipam, int) act" where
  "handle_subnet_delete nb event_data =
     bnd (of_sum (subnet_from_event_dict event_data)) (\<lambda>event.
       try_except (andthen (prefixes_delete nb [uuid_str (se_subnet_uuid event)]) (ret 0))
         (\<lambda>ex. raise_exn (wrap_request_error ex)))"

section \<open>Resynchronisation\<close>

text \<open>What Neutron's API lists of a network and of a subnet.\<close>

record neutron_network =
  nn_id :: string
  nn_name :: json
  nn_project_id :: string
  nn_provider_segmentation_id :: "int option"
  nn_is_router_external :: "bool option"

record neutron_subnet =
  nsn_id :: string
  nsn_network_id :: string
  nsn_project_id :: string
  nsn_cidr :: json

record SyncResult =
  sr_total :: nat
  sr_failed :: nat
  sr_skipped :: nat

definition count_result :: "int \<Rightarrow> SyncResult \<Rightarrow> SyncResult" where
  "count_result code r = r\<lparr>sr_total := sr_total r + 1, sr_failed := (if code \<noteq> 0 then sr_failed r + 1 else sr_failed r)\<rparr>"

definition new_result :: SyncResult where
  "new_result = \<lparr>sr_total = 0, sr_failed = 0, sr_skipped = 0\<rparr>"

fun resync_networks :: "nautobot_ipam \<Rightarrow> neutron_network list \<Rightarrow> SyncResult \<Rightarrow> (ipam, SyncResult) act" where
  "resync_networks nb [] r = ret r"
| "resync_networks nb (n # ns) r =
     bnd (sync_network_to_nautobot nb (nn_id n) (nn_name n) (nn_project_id n) (nn_provider_segmentation_id n) None) (\<lambda>code.
       resync_networks nb ns (count_result code r))"

definition network_external_map :: "neutron_network list \<Rightarrow> string \<Rightarrow> bool" where
  "network_external_map ns = fold (\<lambda>n m. m(nn_id n := (nn_is_router_external n = Some True))) ns (\<lambda>_. False)"

fun resync_subnets :: "nautobot_ipam \<Rightarrow> (string \<Rightarrow> bool) \<Rightarrow> neutron_subnet list \<Rightarrow> SyncResult \<Rightarrow> (ipam, SyncResult) act" where
  "resync_subnets nb external [] r = ret r"
| "resync_subnets nb external (n # ns) r =
     bnd (sync_subnet_to_nautobot nb (nsn_id n) (nsn_network_id n) (nsn_project_id n) (nsn_cidr n) (external (nsn_network_id n))) (\<lambda>code.
       resync_subnets nb external ns (count_result code r))"

definition sync_neutron_to_nautobot ::
  "nautobot_ipam \<Rightarrow> neutron_network list \<Rightarrow> neutron_subnet list \<Rightarrow> (ipam, SyncResult \<times> SyncResult) act" where
  "sync_neutron_to_nautobot nb networks subnets =
     bnd (resync_networks nb networks new_result) (\<lambda>network_result.
     bnd (resync_subnets nb (network_external_map networks) subnets new_result) (\<lambda>subnet_result.
     ret (network_result, subnet_result)))"

definition log_sync_result :: "SyncResult \<Rightarrow> int" where
  "log_sync_result r = (if sr_failed r \<noteq> 0 then 1 else 0)"

text \<open>\<open>main\<close>: the exit codes are 0 and 1, so \<open>|=\<close> is their maximum.\<close>

definition resync_neutron_main :: "nautobot_ipam \<Rightarrow> neutron_network list \<Rightarrow> neutron_subnet list \<Rightarrow> (ipam, int) act" where
  "resync_neutron_main nb networks subnets =
     bnd (sync_neutron_to_nautobot nb networks subnets) (\<lambda>(network_result, subnet_result).
       ret (max (log_sync_result network_result) (log_sync_result subnet_result)))"

section \<open>What Nautobot promises\<close>

abbreviation ns_id :: "ipam \<Rightarrow> string \<Rightarrow> string option" where
  "ns_id s \<equiv> dget (namespaces s)"

abbreviation prefix_at :: "ipam \<Rightarrow> string \<Rightarrow> ipam_prefix option" where
  "prefix_at s \<equiv> dget (prefixes s)"

abbreviation ucvni_at :: "ipam \<Rightarrow> string \<Rightarrow> ucvni option" where
  "ucvni_at s \<equiv> dget (ucvnis s)"

text \<open>A step that only touches one of the tables.\<close>

definition others_kept :: "ipam \<Rightarrow> ipam \<Rightarrow> bool \<times> bool \<times> bool \<Rightarrow> bool" where
  "others_kept s s' touched = (case touched of (n, p, u) \<Rightarrow>
     (n \<or> ns_id s' = ns_id s) \<and> (p \<or> prefix_at s' = prefix_at s) \<and> (u \<or> ucvni_at s' = ucvni_at s))"

definition same_tables :: "ipam \<Rightarrow> ipam \<Rightarrow> bool" where
  "same_tables s s' \<longleftrightarrow> others_kept s s' (False, False, False)"

definition namespaces_served :: "nautobot_ipam \<Rightarrow> bool" where
  "namespaces_served nb \<longleftrightarrow>
     (\<forall>name s r s'. namespaces_create nb name s = (r, s') \<longrightarrow>
        (case r of
           Inr _ \<Rightarrow> ns_id s name = None \<and> (\<exists>id. id \<notin> ran (ns_id s) \<and> ns_id s' = (ns_id s)(name \<mapsto> id)) \<and> others_kept s s' (True, False, False)
         | Inl ex \<Rightarrow> same_tables s s' \<and>
             (\<forall>txt. ex = RequestError 400 txt \<and> contains ''namespace with this name already exists'' txt \<longrightarrow> ns_id s name \<noteq> None))) \<and>
     (\<forall>name s r s'. namespaces_get nb name s = (r, s') \<longrightarrow> same_tables s s' \<and> (case r of Inr x \<Rightarrow> x = ns_id s name | Inl _ \<Rightarrow> True)) \<and>
     (\<forall>id s r s'. namespace_delete nb id s = (r, s') \<longrightarrow>
        (case r of
           Inr _ \<Rightarrow> ns_id s' = (\<lambda>n. if ns_id s n = Some id then None else ns_id s n) \<and> others_kept s s' (True, False, False)
         | Inl _ \<Rightarrow> same_tables s s'))"

definition prefix_row :: "prefix_payload \<Rightarrow> string \<Rightarrow> ipam_prefix" where
  "prefix_row p nid = \<lparr>pf_prefix = pp_prefix p, pf_status = pp_status p, pf_namespace = nid, pf_tenant = pp_tenant p\<rparr>"

definition prefix_stored :: "prefix_payload \<Rightarrow> ipam \<Rightarrow> ipam \<Rightarrow> bool" where
  "prefix_stored p s s' \<longleftrightarrow>
     (\<exists>id. ns_id s (pp_namespace p) = Some id \<and> prefix_at s' = (prefix_at s)(pp_id p \<mapsto> prefix_row p id)) \<and>
     others_kept s s' (False, True, False)"

definition prefixes_served :: "nautobot_ipam \<Rightarrow> bool" where
  "prefixes_served nb \<longleftrightarrow>
     (\<forall>id s r s'. prefixes_filter nb id s = (r, s') \<longrightarrow> same_tables s s' \<and>
        (case r of Inr xs \<Rightarrow> set xs = {x. \<exists>p. prefix_at s x = Some p \<and> pf_namespace p = id} | Inl _ \<Rightarrow> True)) \<and>
     (\<forall>x s r s'. prefix_delete nb x s = (r, s') \<longrightarrow>
        (case r of Inr _ \<Rightarrow> prefix_at s' = (prefix_at s)(x := None) \<and> others_kept s s' (False, True, False) | Inl _ \<Rightarrow> same_tables s s')) \<and>
     (\<forall>xs s r s'. prefixes_delete nb xs s = (r, s') \<longrightarrow>
        (case r of Inr _ \<Rightarrow> prefix_at s' = (\<lambda>x. if x \<in> set xs then None else prefix_at s x) \<and> others_kept s s' (False, True, False)
         | Inl _ \<Rightarrow> same_tables s s')) \<and>
     (\<forall>p s r s'. prefixes_patch nb (pp_id p) p s = (r, s') \<longrightarrow>
        (case r of Inr _ \<Rightarrow> prefix_stored p s s'
         | Inl ex \<Rightarrow> same_tables s s' \<and> (\<forall>txt. ex = RequestError 404 txt \<longrightarrow> prefix_at s (pp_id p) = None))) \<and>
     (\<forall>p s r s'. prefixes_create nb p s = (r, s') \<longrightarrow>
        (case r of Inr _ \<Rightarrow> prefix_at s (pp_id p) = None \<and> prefix_stored p s s' | Inl _ \<Rightarrow> same_tables s s'))"

definition ucvnis_served :: "nautobot_ipam \<Rightarrow> bool" where
  "ucvnis_served nb \<longleftrightarrow>
     (\<forall>id u s r s'. ucvnis_patch nb id u s = (r, s') \<longrightarrow>
        (case r of Inr _ \<Rightarrow> ucvni_at s' = (ucvni_at s)(id \<mapsto> u) \<and> others_kept s s' (False, False, True)
         | Inl ex \<Rightarrow> same_tables s s' \<and> (\<forall>txt. ex = RequestError 404 txt \<longrightarrow> ucvni_at s id = None))) \<and>
     (\<forall>id u s r s'. ucvnis_create nb id u s = (r, s') \<longrightarrow>
        (case r of Inr _ \<Rightarrow> ucvni_at s id = None \<and> ucvni_at s' = (ucvni_at s)(id \<mapsto> u) \<and> others_kept s s' (False, False, True)
         | Inl ex \<Rightarrow> same_tables s s' \<and>
             (\<forall>txt. ex = RequestError 400 txt \<and> contains ''this Id already exists'' txt \<longrightarrow> ucvni_at s id \<noteq> None))) \<and>
     (\<forall>ids s r s'. ucvnis_delete nb ids s = (r, s') \<longrightarrow>
        (case r of Inr _ \<Rightarrow> ucvni_at s' = (\<lambda>x. if x \<in> set ids then None else ucvni_at s x) \<and> others_kept s s' (False, False, True)
         | Inl _ \<Rightarrow> same_tables s s'))"

lemma others_kept_simps [simp]:
  "others_kept s s' (n, p, u) \<longleftrightarrow>
     (n \<or> ns_id s' = ns_id s) \<and> (p \<or> prefix_at s' = prefix_at s) \<and> (u \<or> ucvni_at s' = ucvni_at s)"
  by (simp add: others_kept_def)

lemma same_tables_iff: "same_tables s s' \<longleftrightarrow> ns_id s' = ns_id s \<and> prefix_at s' = prefix_at s \<and> ucvni_at s' = ucvni_at s"
  by (simp add: same_tables_def)

section \<open>Update or else create\<close>

text \<open>
  Both handlers first update the record and create it when the answer is that there is none.  Without other
  writers in between, either the record is as wanted or nothing has changed.
\<close>

locale upsert =
  fixes ok :: "'e \<Rightarrow> bool"
    and upd :: "'e \<Rightarrow> 'p \<Rightarrow> ('s, bool) act"
    and crt :: "'e \<Rightarrow> 'p \<Rightarrow> ('s, unit) act"
    and stored :: "'e \<Rightarrow> 'p \<Rightarrow> 's \<Rightarrow> 's \<Rightarrow> bool"
    and absent :: "'p \<Rightarrow> 's \<Rightarrow> bool"
    and same :: "'s \<Rightarrow> 's \<Rightarrow> bool"
  assumes upd_True: "ok e \<Longrightarrow> upd e p s = (Inr True, s') \<Longrightarrow> stored e p s s'"
    and upd_False: "ok e \<Longrightarrow> upd e p s = (Inr False, s') \<Longrightarrow> same s s' \<and> absent p s'"
    and upd_raise: "ok e \<Longrightarrow> upd e p s = (Inl ex, s') \<Longrightarrow> same s s'"
    and crt_ret: "ok e \<Longrightarrow> absent p s \<Longrightarrow> crt e p s = (Inr (), s') \<Longrightarrow> stored e p s s'"
    and crt_raise: "ok e \<Longrightarrow> crt e p s = (Inl ex, s') \<Longrightarrow> same s s'"
    and same_trans: "same s s1 \<Longrightarrow> same s1 s2 \<Longrightarrow> same s s2"
    and same_stored: "same s s1 \<Longrightarrow> stored e p s1 s2 \<Longrightarrow> stored e p s s2"
begin

lemma upsert_cases:
  assumes "ok e" "bnd (upd e p) (\<lambda>updated. when_act (\<not> updated) (crt e p)) s = (r, s')"
  obtains "r = Inr ()" "stored e p s s'" | ex where "r = Inl ex" "same s s'"
proof -
  obtain r1 s1 where u: "upd e p s = (r1, s1)" by force
  consider ex where "r1 = Inl ex" | "r1 = Inr True" | "r1 = Inr False" by (cases r1) auto
  then show thesis
  proof cases
    case 1
    then have "r = Inl ex" "s' = s1" using assms(2) u by simp_all
    then show thesis using u 1 upd_raise [OF assms(1)] that(2) by blast
  next
    case 2
    then have "r = Inr ()" "s' = s1" using assms(2) u by simp_all
    then show thesis using u 2 upd_True [OF assms(1)] that(1) by blast
  next
    case 3
    then have s1: "same s s1" "absent p s1" using upd_False [OF assms(1)] u by blast+
    have c: "crt e p s1 = (r, s')" using assms(2) u 3 by simp
    show thesis
    proof (cases r)
      case (Inl ex)
      then show thesis using c crt_raise [OF assms(1)] same_trans [OF s1(1)] that(2) by blast
    next
      case (Inr x)
      then show thesis using c crt_ret [OF assms(1) s1(2)] same_stored [OF s1(1)] that(1) by simp
    qed
  qed
qed

end

text \<open>The updates of UCVNIs and of prefixes are such calls.\<close>

definition ucvni_stored :: "nautobot_ipam \<Rightarrow> NetworkEvent \<times> string option \<Rightarrow> ipam \<Rightarrow> ipam \<Rightarrow> bool" where
  "ucvni_stored nb eg s s' \<longleftrightarrow>
     (\<exists>g. ucvni_group_name_or_env nb (snd eg) = Inr g \<and>
        ucvni_at s' = (ucvni_at s)(uuid_str (ne_network_uuid (fst eg)) \<mapsto> ucvni_payload (fst eg) g)) \<and>
     others_kept s s' (False, False, True)"

lemmas ucvnis_contract =
  ucvnis_served_def [THEN iffD1, THEN conjunct1, rule_format]
  ucvnis_served_def [THEN iffD1, THEN conjunct2, THEN conjunct1, rule_format]
  ucvnis_served_def [THEN iffD1, THEN conjunct2, THEN conjunct2, rule_format]

lemmas namespaces_contract =
  namespaces_served_def [THEN iffD1, THEN conjunct1, rule_format]
  namespaces_served_def [THEN iffD1, THEN conjunct2, THEN conjunct1, rule_format]
  namespaces_served_def [THEN iffD1, THEN conjunct2, THEN conjunct2, rule_format]

lemmas prefixes_contract =
  prefixes_served_def [THEN iffD1, THEN conjunct1, rule_format]
  prefixes_served_def [THEN iffD1, THEN conjunct2, THEN conjunct1, rule_format]
  prefixes_served_def [THEN iffD1, THEN conjunct2, THEN conjunct2, THEN conjunct1, rule_format]
  prefixes_served_def [THEN iffD1, THEN conjunct2, THEN conjunct2, THEN conjunct2, THEN conjunct1, rule_format]
  prefixes_served_def [THEN iffD1, THEN conjunct2, THEN conjunct2, THEN conjunct2, THEN conjunct2, rule_format]

lemma same_refl [simp]: "same_tables s s"
  by (simp add: same_tables_iff)

interpretation uv: upsert ucvnis_served "\<lambda>nb (ev, g). update_nautobot_ucvni nb ev g" "\<lambda>nb (ev, g). create_nautobot_ucvni nb ev g"
  ucvni_stored "\<lambda>(ev, g) s. ucvni_at s (uuid_str (ne_network_uuid ev)) = None" same_tables
proof unfold_locales
  fix nb s s' and p :: "NetworkEvent \<times> string option" assume c: "ucvnis_served nb"
  obtain ev g where p: "p = (ev, g)" by force
  show "(case p of (ev, g) \<Rightarrow> update_nautobot_ucvni nb ev g) s = (Inr True, s') \<Longrightarrow> ucvni_stored nb p s s'"
    unfolding p by (auto simp: update_nautobot_ucvni_def ucvni_stored_def split: sum.splits prod.splits exn.splits if_splits
        dest!: ucvnis_contract(1) [OF c])
  show "(case p of (ev, g) \<Rightarrow> update_nautobot_ucvni nb ev g) s = (Inr False, s') \<Longrightarrow>
      same_tables s s' \<and> (case p of (ev, g) \<Rightarrow> \<lambda>s. ucvni_at s (uuid_str (ne_network_uuid ev)) = None) s'"
    unfolding p by (auto simp: update_nautobot_ucvni_def same_tables_iff split: sum.splits prod.splits exn.splits if_splits
        dest!: ucvnis_contract(1) [OF c])
  show "(case p of (ev, g) \<Rightarrow> update_nautobot_ucvni nb ev g) s = (Inl ex, s') \<Longrightarrow> same_tables s s'" for ex
    unfolding p by (auto simp: update_nautobot_ucvni_def split: sum.splits prod.splits exn.splits if_splits
        dest!: ucvnis_contract(1) [OF c])
  show "(case p of (ev, g) \<Rightarrow> create_nautobot_ucvni nb ev g) s = (Inl ex, s') \<Longrightarrow> same_tables s s'" for ex
    unfolding p by (auto simp: create_nautobot_ucvni_def split: sum.splits prod.splits exn.splits if_splits
        dest!: ucvnis_contract(2) [OF c])
  show "(case p of (ev, g) \<Rightarrow> \<lambda>s. ucvni_at s (uuid_str (ne_network_uuid ev)) = None) s \<Longrightarrow>
      (case p of (ev, g) \<Rightarrow> create_nautobot_ucvni nb ev g) s = (Inr (), s') \<Longrightarrow> ucvni_stored nb p s s'"
    unfolding p by (auto simp: create_nautobot_ucvni_def ucvni_stored_def split: sum.splits prod.splits exn.splits if_splits
        dest!: ucvnis_contract(2) [OF c])
qed (auto simp: same_tables_iff ucvni_stored_def)

interpretation pf: upsert prefixes_served "\<lambda>nb p. update_nautobot_prefix nb (pp_id p) p" create_nautobot_prefix
  "\<lambda>_. prefix_stored" "\<lambda>p s. prefix_at s (pp_id p) = None" same_tables
proof unfold_locales
  fix nb p s s' assume c: "prefixes_served nb"
  show "update_nautobot_prefix nb (pp_id p) p s = (Inr True, s') \<Longrightarrow> prefix_stored p s s'"
    by (auto simp: update_nautobot_prefix_def split: sum.splits prod.splits exn.splits if_splits dest!: prefixes_contract(4) [OF c])
  show "update_nautobot_prefix nb (pp_id p) p s = (Inr False, s') \<Longrightarrow> same_tables s s' \<and> prefix_at s' (pp_id p) = None"
    by (auto simp: update_nautobot_prefix_def same_tables_iff split: sum.splits prod.splits exn.splits if_splits
        dest!: prefixes_contract(4) [OF c])
  show "update_nautobot_prefix nb (pp_id p) p s = (Inl ex, s') \<Longrightarrow> same_tables s s'" for ex
    by (auto simp: update_nautobot_prefix_def split: sum.splits prod.splits exn.splits if_splits dest!: prefixes_contract(4) [OF c])
  show "create_nautobot_prefix nb p s = (Inl ex, s') \<Longrightarrow> same_tables s s'" for ex
    by (auto simp: create_nautobot_prefix_def split: sum.splits prod.splits dest!: prefixes_contract(5) [OF c])
  show "prefix_at s (pp_id p) = None \<Longrightarrow> create_nautobot_prefix nb p s = (Inr (), s') \<Longrightarrow> prefix_stored p s s'"
    by (auto simp: create_nautobot_prefix_def split: sum.splits prod.splits dest!: prefixes_contract(5) [OF c])
qed (auto simp: same_tables_iff prefix_stored_def)

section \<open>What a synchronisation does\<close>

definition ns_ensured :: "string \<Rightarrow> ipam \<Rightarrow> ipam \<Rightarrow> bool" where
  "ns_ensured name s s' \<longleftrightarrow>
     (ns_id s name \<noteq> None \<and> ns_id s' = ns_id s \<or>
      ns_id s name = None \<and> (\<exists>nid. nid \<notin> ran (ns_id s) \<and> ns_id s' = (ns_id s)(name \<mapsto> nid)))"

text \<open>The key and the contents of a network's UCVNI.\<close>

definition wanted_ucvni :: "nautobot_ipam \<Rightarrow> string \<Rightarrow> json \<Rightarrow> string \<Rightarrow> int \<Rightarrow> string option \<Rightarrow> (string \<times> ucvni) option" where
  "wanted_ucvni nb network_id name tenant_id n g =
     (case (py_uuid (JStr network_id), py_uuid (JStr tenant_id), ucvni_group_name_or_env nb g) of
        (Inr i, Inr j, Inr ucvni_group) \<Rightarrow>
          Some (uuid_str i, \<lparr>uv_name = name, uv_status = ''Active'', uv_tenant = uuid_str j, uv_ucvni_group = ucvni_group, uv_ucvni_id = n\<rparr>)
      | _ \<Rightarrow> None)"

definition network_stored ::
  "nautobot_ipam \<Rightarrow> string \<Rightarrow> json \<Rightarrow> string \<Rightarrow> int option \<Rightarrow> string option \<Rightarrow> ipam \<Rightarrow> ipam \<Rightarrow> bool" where
  "network_stored nb network_id name tenant_id seg g s s' \<longleftrightarrow>
     ns_ensured network_id s s' \<and> prefix_at s' = prefix_at s \<and>
     (if seg \<in> {None, Some 0} then ucvni_at s' = ucvni_at s
      else \<exists>k u. wanted_ucvni nb network_id name tenant_id (the seg) g = Some (k, u) \<and> ucvni_at s' = (ucvni_at s)(k \<mapsto> u))"

lemma ensure_cases:
  assumes "namespaces_served nb" "ensure_nautobot_ipam_namespace_exists nb name s = (r, s')"
  obtains "r = Inr ()" "ns_ensured name s s'" "others_kept s s' (True, False, False)" | ex where "r = Inl ex" "same_tables s s'"
proof -
  obtain r1 s1 where c: "namespaces_create nb name s = (r1, s1)" by force
  note k = namespaces_contract(1) [OF assms(1) c]
  show thesis
  proof (cases r1)
    case (Inr x)
    then have "r = Inr ()" "s' = s1" using assms(2) c by (simp_all add: ensure_nautobot_ipam_namespace_exists_def)
    then show thesis using k Inr that(1) by (auto simp: ns_ensured_def)
  next
    case (Inl ex)
    show thesis
    proof (cases "\<exists>txt. ex = RequestError 400 txt \<and> contains ''namespace with this name already exists'' txt")
      case True
      then have "r = Inr ()" "s' = s1" using assms(2) c Inl by (auto simp: ensure_nautobot_ipam_namespace_exists_def)
      moreover have "ns_id s name \<noteq> None" "same_tables s s1" using k Inl True by auto
      ultimately show thesis using that(1) by (simp add: ns_ensured_def same_tables_iff)
    next
      case False
      then have "s' = s1" "\<exists>ex. r = Inl ex"
        using assms(2) c Inl by (auto simp: ensure_nautobot_ipam_namespace_exists_def split: exn.splits if_splits)
      then show thesis using k Inl that(2) by auto
    qed
  qed
qed

lemma sync_ucvni_cases:
  assumes "ucvnis_served nb" "sync_network_ucvni nb network_id name tenant_id n g s = (r, s')"
  obtains k u where "r = Inr ()" "wanted_ucvni nb network_id name tenant_id n g = Some (k, u)"
      "ucvni_at s' = (ucvni_at s)(k \<mapsto> u)" "others_kept s s' (False, False, True)"
    | ex where "r = Inl ex" "same_tables s s'"
proof (cases "py_uuid (JStr network_id)")
  case (Inl ex)
  then show thesis using assms(2) that(2) by (auto simp: sync_network_ucvni_def)
next
  case i: (Inr i)
  show thesis
  proof (cases "py_uuid (JStr tenant_id)")
    case (Inl ex)
    then show thesis using assms(2) i that(2) by (auto simp: sync_network_ucvni_def)
  next
    case (Inr j)
    define ev where "ev = \<lparr>ne_event_type = JStr ''network.sync'', ne_network_uuid = i, ne_network_name = name,
                    ne_tenant_id = j, ne_external = False, ne_provider_segmentation_id = n\<rparr>"
    have u: "bnd ((\<lambda>nb (ev, g). update_nautobot_ucvni nb ev g) nb (ev, g)) (\<lambda>updated. when_act (\<not> updated)
        ((\<lambda>nb (ev, g). create_nautobot_ucvni nb ev g) nb (ev, g))) s = (r, s')"
      using assms(2) i Inr by (simp add: sync_network_ucvni_def ev_def Let_def)
    show thesis
    proof (rule uv.upsert_cases [OF assms(1) u])
      assume "r = Inr ()" and st: "ucvni_stored nb (ev, g) s s'"
      moreover obtain grp where "ucvni_group_name_or_env nb g = Inr grp"
        "ucvni_at s' = (ucvni_at s)(uuid_str i \<mapsto> ucvni_payload ev grp)" using st by (auto simp: ucvni_stored_def ev_def)
      ultimately show thesis using i Inr that(1) by (auto simp: wanted_ucvni_def ucvni_stored_def ucvni_payload_def ev_def)
    qed (rule that(2))
  qed
qed

lemma sync_network_cases:
  assumes "namespaces_served nb" "ucvnis_served nb"
    "sync_network_to_nautobot nb network_id name tenant_id seg g s = (r, s')"
  obtains "r = Inr 0" "network_stored nb network_id name tenant_id seg g s s'"
    | "r = Inr 1" "same_tables s s' \<or> ns_ensured network_id s s' \<and> others_kept s s' (True, False, False)"
proof -
  obtain r1 s1 where e: "ensure_nautobot_ipam_namespace_exists nb network_id s = (r1, s1)" by force
  show thesis
  proof (rule ensure_cases [OF assms(1) e])
    fix ex assume "r1 = Inl ex" "same_tables s s1"
    then show thesis using e assms(3) that(2) by (simp add: sync_network_to_nautobot_def)
  next
    assume r1: "r1 = Inr ()" "ns_ensured network_id s s1" "others_kept s s1 (True, False, False)"
    show thesis
    proof (cases "seg \<in> {None, Some 0}")
      case True
      then have "r = Inr 0" "s' = s1" using e assms(3) r1(1) by (auto simp: sync_network_to_nautobot_def)
      then show thesis using r1 True that(1) by (auto simp: network_stored_def)
    next
      case False
      then obtain n where n: "seg = Some n" "n \<noteq> 0" by auto
      obtain r2 s2 where u: "sync_network_ucvni nb network_id name tenant_id n g s1 = (r2, s2)" by force
      show thesis
      proof (rule sync_ucvni_cases [OF assms(2) u])
        fix k v assume v: "r2 = Inr ()" "wanted_ucvni nb network_id name tenant_id n g = Some (k, v)"
          "ucvni_at s2 = (ucvni_at s1)(k \<mapsto> v)" "others_kept s1 s2 (False, False, True)"
        then have "r = Inr 0" "s' = s2" using e assms(3) r1(1) n u by (simp_all add: sync_network_to_nautobot_def)
        then show thesis using r1 v n that(1) by (auto simp: network_stored_def ns_ensured_def)
      next
        fix ex assume "r2 = Inl ex" "same_tables s1 s2"
        moreover from this have "r = Inr 1" "s' = s2" using e assms(3) r1(1) n u by (simp_all add: sync_network_to_nautobot_def)
        ultimately show thesis using r1 that(2) by (auto simp: same_tables_iff ns_ensured_def)
      qed
    qed
  qed
qed

lemma sync_subnet_cases:
  assumes "prefixes_served nb" "sync_subnet_to_nautobot nb subnet_id network_id tenant_id cidr external s = (r, s')"
  obtains "r = Inr 0" "prefix_stored (subnet_payload subnet_id network_id tenant_id cidr external) s s'"
    | "r = Inr 1" "same_tables s s'"
proof -
  let ?p = "subnet_payload subnet_id network_id tenant_id cidr external"
  have i: "pp_id ?p = subnet_id" by (simp add: subnet_payload_def)
  obtain r1 s1 where u: "bnd (update_nautobot_prefix nb (pp_id ?p) ?p) (\<lambda>updated. when_act (\<not> updated) (create_nautobot_prefix nb ?p)) s = (r1, s1)"
    by force
  have r: "(r, s') = (case r1 of Inl _ \<Rightarrow> (Inr 1, s1) | Inr _ \<Rightarrow> (Inr 0, s1))"
    unfolding assms(2) [symmetric] sync_subnet_to_nautobot_def Let_def try_except_apply andthen_apply u [unfolded i]
    by (cases r1) simp_all
  show thesis
    by (rule pf.upsert_cases [OF assms(1) u]) (use r that in auto)
qed

section \<open>The life of a network\<close>

definition ipam_sound :: "ipam \<Rightarrow> bool" where
  "ipam_sound s \<longleftrightarrow> (\<forall>x p. prefix_at s x = Some p \<longrightarrow> pf_namespace p \<in> ran (ns_id s))"

text \<open>What a network and its subnets have added to the tables.\<close>

definition network_added :: "string \<Rightarrow> ipam \<Rightarrow> ipam \<Rightarrow> bool" where
  "network_added name s t \<longleftrightarrow>
     (ns_id t = ns_id s \<or> (\<exists>nid. nid \<notin> ran (ns_id s) \<and> ns_id t = (ns_id s)(name \<mapsto> nid))) \<and>
     (\<forall>x. prefix_at t x = prefix_at s x \<or>
        prefix_at s x = None \<and> (\<exists>p. prefix_at t x = Some p \<and> ns_id t name = Some (pf_namespace p))) \<and>
     (\<forall>x. x \<noteq> name \<longrightarrow> ucvni_at t x = ucvni_at s x)"

lemma network_event_added:
  assumes "namespaces_served nb" "ucvnis_served nb" and ev: "network_from_event_dict d = Inr ev" "name = uuid_str (ne_network_uuid ev)"
    and "handle_network_create_or_update nb d g s = (Inr code, t)" "ns_id s name = None"
  shows "network_added name s t"
proof -
  have "0 \<le> ne_network_uuid ev \<and> ne_network_uuid ev < 2 ^ 128"
    using ev(1) by (auto simp: network_from_event_dict_def sbnd_Inr dest: py_uuid_range)
  then have i: "py_uuid (JStr name) = Inr (ne_network_uuid ev)" unfolding ev(2) using py_uuid_str by blast
  have "sync_network_to_nautobot nb name (ne_network_name ev) (uuid_str (ne_tenant_id ev)) (Some (ne_provider_segmentation_id ev)) g s = (Inr code, t)"
    using assms(5) ev by (simp add: handle_network_create_or_update_def)
  then show ?thesis
  proof (rule sync_network_cases [OF assms(1,2)])
    assume "network_stored nb name (ne_network_name ev) (uuid_str (ne_tenant_id ev)) (Some (ne_provider_segmentation_id ev)) g s t"
    then show ?thesis using assms(6) i ev(2)
      by (auto simp: network_stored_def network_added_def ns_ensured_def wanted_ucvni_def split: if_splits sum.splits)
  next
    assume "same_tables s t \<or> ns_ensured name s t \<and> others_kept s t (True, False, False)"
    then show ?thesis using assms(6) by (auto simp: network_added_def ns_ensured_def same_tables_iff)
  qed
qed

lemma subnet_event_added:
  assumes "prefixes_served nb" and ev: "subnet_from_event_dict d = Inr se" "uuid_str (se_network_uuid se) = name" "\<not> se_external se"
    and "handle_subnet_create_or_update nb d t = (Inr code, t')" "prefix_at s (uuid_str (se_subnet_uuid se)) = None" "network_added name s t"
  shows "network_added name s t'"
proof -
  have "sync_subnet_to_nautobot nb (uuid_str (se_subnet_uuid se)) name (uuid_str (se_tenant_uuid se)) (se_cidr se) False t = (Inr code, t')"
    using assms(5) ev by (simp add: handle_subnet_create_or_update_def)
  then show ?thesis
  proof (rule sync_subnet_cases [OF assms(1)])
    assume "prefix_stored (subnet_payload (uuid_str (se_subnet_uuid se)) name (uuid_str (se_tenant_uuid se)) (se_cidr se) False) t t'"
    then obtain nid where "ns_id t name = Some nid" "ns_id t' = ns_id t" "ucvni_at t' = ucvni_at t"
      "prefix_at t' = (prefix_at t)(uuid_str (se_subnet_uuid se) \<mapsto>
        prefix_row (subnet_payload (uuid_str (se_subnet_uuid se)) name (uuid_str (se_tenant_uuid se)) (se_cidr se) False) nid)"
      by (auto simp: prefix_stored_def) (simp add: subnet_payload_def)
    then show ?thesis using assms(6,7) by (auto simp: network_added_def prefix_row_def)
  next
    assume "same_tables t t'"
    then show ?thesis using assms(7) by (simp add: network_added_def same_tables_iff)
  qed
qed

lemma subnet_events_added:
  assumes "prefixes_served nb"
    and "\<forall>d \<in> set ds. \<exists>se. subnet_from_event_dict d = Inr se \<and> uuid_str (se_network_uuid se) = name \<and> \<not> se_external se \<and>
      prefix_at s (uuid_str (se_subnet_uuid se)) = None"
    and "map_act (handle_subnet_create_or_update nb) ds t = (Inr codes, t')" "network_added name s t"
  shows "network_added name s t'"
  using assms(2-)
proof (induction ds arbitrary: t codes)
  case (Cons d ds)
  obtain c t1 cs where d: "handle_subnet_create_or_update nb d t = (Inr c, t1)" "map_act (handle_subnet_create_or_update nb) ds t1 = (Inr cs, t')"
    using Cons.prems(2) unfolding map_act.simps bnd_Inr by auto
  obtain se where "subnet_from_event_dict d = Inr se" "uuid_str (se_network_uuid se) = name" "\<not> se_external se"
      "prefix_at s (uuid_str (se_subnet_uuid se)) = None" using Cons.prems(1) by auto
  from subnet_event_added [OF assms(1) this(1-3) d(1) this(4) Cons.prems(3)] show ?case
    using Cons.IH d(2) Cons.prems(1) by simp
qed simp

lemma prefixes_deleted:
  "prefixes_served nb \<Longrightarrow> for_each (prefix_delete nb) xs t = (Inr (), t') \<Longrightarrow>
   prefix_at t' = (\<lambda>x. if x \<in> set xs then None else prefix_at t x) \<and> others_kept t t' (False, True, False)"
proof (induction xs arbitrary: t)
  case (Cons x xs)
  obtain t1 where d: "prefix_delete nb x t = (Inr (), t1)" "for_each (prefix_delete nb) xs t1 = (Inr (), t')"
    using Cons.prems(2) unfolding for_each.simps andthen_Inr_unit by blast
  show ?case using prefixes_contract(2) [OF Cons.prems(1) d(1)] Cons.IH [OF Cons.prems(1) d(2)] by auto
qed simp

text \<open>Deleting a namespace takes its prefixes and nothing else.\<close>

lemma namespace_deleted:
  assumes "namespaces_served nb" "prefixes_served nb" "delete_nautobot_ipam_namespace nb name t = (Inr (), t')"
  shows "ns_id t' = (\<lambda>n. if ns_id t name \<noteq> None \<and> ns_id t n = ns_id t name then None else ns_id t n) \<and>
    prefix_at t' = (\<lambda>x. case prefix_at t x of None \<Rightarrow> None | Some p \<Rightarrow> if ns_id t name = Some (pf_namespace p) then None else Some p) \<and>
    ucvni_at t' = ucvni_at t"
proof -
  obtain x t1 where g: "namespaces_get nb name t = (Inr x, t1)"
    and k: "(case x of None \<Rightarrow> ret () | Some nid \<Rightarrow> andthen (delete_nautobot_prefixes_in_namespace nb nid) (namespace_delete nb nid)) t1 = (Inr (), t')"
    using assms(3) by (auto simp: delete_nautobot_ipam_namespace_def split: sum.splits prod.splits)
  have t1: "same_tables t t1" "x = ns_id t name" using namespaces_contract(2) [OF assms(1) g] by simp_all
  show ?thesis
  proof (cases x)
    case None
    then show ?thesis using k t1 by (auto simp: same_tables_iff fun_eq_iff split: option.split)
  next
    case (Some nid)
    obtain xs t2 t3 where f: "prefixes_filter nb nid t1 = (Inr xs, t2)" "for_each (prefix_delete nb) xs t2 = (Inr (), t3)"
        "namespace_delete nb nid t3 = (Inr (), t')"
      using k unfolding Some option.case delete_nautobot_prefixes_in_namespace_def andthen_Inr_unit bnd_Inr by blast
    note c = prefixes_contract(1) [OF assms(2) f(1)] prefixes_deleted [OF assms(2) f(2)] namespaces_contract(3) [OF assms(1) f(3)]
    show ?thesis using c t1 Some by (auto simp: same_tables_iff fun_eq_iff split: option.split)
  qed
qed

lemma added_then_deleted:
  assumes "namespaces_served nb" "prefixes_served nb" "ucvnis_served nb"
    and "network_from_event_dict d = Inr dv" "uuid_str (ne_network_uuid dv) = name"
    and "network_added name s t" "ipam_sound s" "ns_id s name = None" "ucvni_at s name = None"
    and "handle_network_delete nb d t = (Inr r, t')"
  shows "r = 0 \<and> same_tables s t'"
proof -
  obtain t1 where del: "delete_nautobot_ipam_namespace nb name t = (Inr (), t1)" "ucvnis_delete nb [name] t1 = (Inr (), t')" and r: "r = 0"
    using assms(10) unfolding handle_network_delete_def assms(4) of_sum_apply bnd_Inr assms(5) andthen_Inr_unit
    by (auto simp: assms(5) split: sum.splits prod.splits)
  note a = assms(6) [unfolded network_added_def, THEN conjunct2, THEN conjunct1, rule_format]
  note n = namespace_deleted [OF assms(1,2) del(1)] and u = ucvnis_contract(3) [OF assms(3) del(2)]
  have "ucvni_at t' = ucvni_at s" using n u assms(6,9) by (auto simp: network_added_def fun_eq_iff)
  moreover have "ns_id t' x = ns_id s x" for x
    using n u assms(6,8) unfolding network_added_def by (cases "x = name") (auto simp: ran_def)
  moreover have "prefix_at t' x = prefix_at s x" for x
  proof (cases "prefix_at s x")
    case None
    then have "prefix_at t x = None \<or> (\<exists>p. prefix_at t x = Some p \<and> ns_id t name = Some (pf_namespace p))"
      using a [of x] by auto
    then show ?thesis using n u None by auto
  next
    case (Some p)
    then have "pf_namespace p \<in> ran (ns_id s)" using assms(7) by (simp add: ipam_sound_def)
    then have "ns_id t name \<noteq> Some (pf_namespace p)" using assms(6,8) by (auto simp: network_added_def)
    moreover have "prefix_at t x = Some p" using a [of x] Some by auto
    ultimately show ?thesis using n u Some by simp
  qed
  ultimately show ?thesis using r by (auto simp: same_tables_iff fun_eq_iff)
qed

text \<open>
  C32: Create a network that Nautobot does not know, then any number of its internal subnets, and delete
  the network again: if the handlers return, whatever they reported in between, the last one reports success and
  Nautobot's namespaces, prefixes and UCVNIs are exactly those from before.
\<close>

theorem network_lifecycle:
  assumes "namespaces_served nb" "prefixes_served nb" "ucvnis_served nb"
    and "network_from_event_dict created = Inr ev" "network_from_event_dict deleted = Inr dv" "ne_network_uuid dv = ne_network_uuid ev"
    and "ipam_sound s" "ns_id s (uuid_str (ne_network_uuid ev)) = None" "ucvni_at s (uuid_str (ne_network_uuid ev)) = None"
    and "\<forall>d \<in> set ds. \<exists>se. subnet_from_event_dict d = Inr se \<and> uuid_str (se_network_uuid se) = uuid_str (ne_network_uuid ev) \<and>
      \<not> se_external se \<and> prefix_at s (uuid_str (se_subnet_uuid se)) = None"
    and "andthen (handle_network_create_or_update nb created g)
      (andthen (map_act (handle_subnet_create_or_update nb) ds) (handle_network_delete nb deleted)) s = (Inr r, s')"
  shows "r = 0 \<and> same_tables s s'"
proof -
  obtain c cs t1 t2 where run: "handle_network_create_or_update nb created g s = (Inr c, t1)"
      "map_act (handle_subnet_create_or_update nb) ds t1 = (Inr cs, t2)" "handle_network_delete nb deleted t2 = (Inr r, s')"
    using assms(11) unfolding andthen_Inr by blast
  have "network_added (uuid_str (ne_network_uuid ev)) s t1" by (rule network_event_added [OF assms(1,3,4) refl run(1) assms(8)])
  from subnet_events_added [OF assms(2,10) run(2) this] show ?thesis
    by (rule added_then_deleted [OF assms(1-3,5) arg_cong [OF assms(6), of uuid_str] _ assms(7-9) run(3)])
qed

section \<open>A complete resynchronisation\<close>

definition canonical_uuid :: "string \<Rightarrow> bool" where
  "canonical_uuid x \<longleftrightarrow> (case py_uuid (JStr x) of Inl _ \<Rightarrow> False | Inr i \<Rightarrow> uuid_str i = x)"

definition network_current :: "nautobot_ipam \<Rightarrow> ipam \<Rightarrow> neutron_network \<Rightarrow> bool" where
  "network_current nb s n \<longleftrightarrow> ns_id s (nn_id n) \<noteq> None \<and>
     (\<forall>k. nn_provider_segmentation_id n = Some k \<and> k \<noteq> 0 \<longrightarrow>
        (\<exists>u. wanted_ucvni nb (nn_id n) (nn_name n) (nn_project_id n) k None = Some (nn_id n, u) \<and> ucvni_at s (nn_id n) = Some u))"

definition subnet_current :: "(string \<Rightarrow> bool) \<Rightarrow> ipam \<Rightarrow> neutron_subnet \<Rightarrow> bool" where
  "subnet_current external s n \<longleftrightarrow>
     (\<exists>nid. ns_id s (if external (nsn_network_id n) then ''Global'' else nsn_network_id n) = Some nid \<and>
        prefix_at s (nsn_id n) = Some \<lparr>pf_prefix = nsn_cidr n, pf_status = ''Active'', pf_namespace = nid, pf_tenant = nsn_project_id n\<rparr>)"

lemma wanted_key: "canonical_uuid network_id \<Longrightarrow> wanted_ucvni nb network_id name t n g = Some (k, u) \<Longrightarrow> k = network_id"
  by (auto simp: canonical_uuid_def wanted_ucvni_def split: sum.splits)

lemma stored_current:
  assumes "network_stored nb (nn_id n) (nn_name n) (nn_project_id n) (nn_provider_segmentation_id n) None s s'" "canonical_uuid (nn_id n)"
  shows "network_current nb s' n" "x \<noteq> nn_id n \<Longrightarrow> ns_id s' x = ns_id s x \<and> ucvni_at s' x = ucvni_at s x" "prefix_at s' = prefix_at s"
proof -
  show "network_current nb s' n"
    using assms wanted_key [OF assms(2)] by (fastforce simp: network_stored_def network_current_def ns_ensured_def)
  show "prefix_at s' = prefix_at s" using assms by (simp add: network_stored_def)
  show "ns_id s' x = ns_id s x \<and> ucvni_at s' x = ucvni_at s x" if "x \<noteq> nn_id n"
    using assms that wanted_key [OF assms(2)] by (auto simp: network_stored_def ns_ensured_def split: if_splits)
qed

lemma failed_grows: "sr_failed r \<le> sr_failed (count_result c r)" "sr_failed (count_result c r) = sr_failed r \<longleftrightarrow> c = 0"
  by (simp_all add: count_result_def)

lemma resync_networks_returns:
  assumes "namespaces_served nb" "ucvnis_served nb"
  shows "\<exists>r' s'. resync_networks nb ns r s = (Inr r', s') \<and> sr_failed r \<le> sr_failed r'"
proof (induction ns arbitrary: r s)
  case (Cons n ns)
  obtain c s1 where c: "sync_network_to_nautobot nb (nn_id n) (nn_name n) (nn_project_id n) (nn_provider_segmentation_id n) None s = (Inr c, s1)"
    using sync_network_cases [OF assms] by (metis surj_pair)
  obtain r' s' where "resync_networks nb ns (count_result c r) s1 = (Inr r', s')" "sr_failed (count_result c r) \<le> sr_failed r'"
    using Cons.IH by blast
  then show ?case using c failed_grows(1) [of r c] by simp
qed simp

lemma resync_networks_current:
  assumes "namespaces_served nb" "ucvnis_served nb"
  shows "resync_networks nb ns r s = (Inr r', s') \<Longrightarrow> sr_failed r' = sr_failed r \<Longrightarrow> distinct (map nn_id ns) \<Longrightarrow> \<forall>n \<in> set ns. canonical_uuid (nn_id n) \<Longrightarrow>
    (\<forall>n \<in> set ns. network_current nb s' n) \<and> (\<forall>x. x \<notin> nn_id ` set ns \<longrightarrow> ns_id s' x = ns_id s x \<and> ucvni_at s' x = ucvni_at s x) \<and>
    prefix_at s' = prefix_at s"
proof (induction ns arbitrary: r s)
  case (Cons n ns)
  obtain c s1 where c: "sync_network_to_nautobot nb (nn_id n) (nn_name n) (nn_project_id n) (nn_provider_segmentation_id n) None s = (Inr c, s1)"
      "resync_networks nb ns (count_result c r) s1 = (Inr r', s')"
    using Cons.prems(1) unfolding resync_networks.simps bnd_Inr by blast
  have "sr_failed (count_result c r) \<le> sr_failed r'" using resync_networks_returns [OF assms, of ns "count_result c r" s1] c(2) by auto
  then have z: "c = 0" "sr_failed r' = sr_failed (count_result c r)"
    using failed_grows(1) [of r c] failed_grows(2) [of c r] Cons.prems(2) by linarith+
  have st: "network_stored nb (nn_id n) (nn_name n) (nn_project_id n) (nn_provider_segmentation_id n) None s s1"
    by (rule sync_network_cases [OF assms c(1)]) (simp_all add: z)
  have n: "canonical_uuid (nn_id n)" "nn_id n \<notin> nn_id ` set ns" using Cons.prems(3,4) by auto
  note now = stored_current [OF st n(1)]
  have IH: "(\<forall>n \<in> set ns. network_current nb s' n) \<and> (\<forall>x. x \<notin> nn_id ` set ns \<longrightarrow> ns_id s' x = ns_id s1 x \<and> ucvni_at s' x = ucvni_at s1 x) \<and>
      prefix_at s' = prefix_at s1"
    using Cons.IH [OF c(2) z(2)] Cons.prems(3,4) by simp
  then have "network_current nb s' n" using now(1) n(2) by (simp add: network_current_def)
  then show ?case using IH now(2,3) by auto
qed simp

lemma resync_subnets_returns:
  assumes "prefixes_served nb"
  shows "\<exists>r' s'. resync_subnets nb external ns r s = (Inr r', s') \<and> sr_failed r \<le> sr_failed r'"
proof (induction ns arbitrary: r s)
  case (Cons n ns)
  obtain c s1 where c: "sync_subnet_to_nautobot nb (nsn_id n) (nsn_network_id n) (nsn_project_id n) (nsn_cidr n) (external (nsn_network_id n)) s = (Inr c, s1)"
    using sync_subnet_cases [OF assms] by (metis surj_pair)
  obtain r' s' where "resync_subnets nb external ns (count_result c r) s1 = (Inr r', s')" "sr_failed (count_result c r) \<le> sr_failed r'"
    using Cons.IH by blast
  then show ?case using c failed_grows(1) [of r c] by simp
qed simp

lemma resync_subnets_current:
  assumes "prefixes_served nb"
  shows "resync_subnets nb external ns r s = (Inr r', s') \<Longrightarrow> sr_failed r' = sr_failed r \<Longrightarrow> distinct (map nsn_id ns) \<Longrightarrow>
    (\<forall>n \<in> set ns. subnet_current external s' n) \<and> (\<forall>x. x \<notin> nsn_id ` set ns \<longrightarrow> prefix_at s' x = prefix_at s x) \<and>
    others_kept s s' (False, True, False)"
proof (induction ns arbitrary: r s)
  case (Cons n ns)
  obtain c s1 where c: "sync_subnet_to_nautobot nb (nsn_id n) (nsn_network_id n) (nsn_project_id n) (nsn_cidr n) (external (nsn_network_id n)) s = (Inr c, s1)"
      "resync_subnets nb external ns (count_result c r) s1 = (Inr r', s')"
    using Cons.prems(1) unfolding resync_subnets.simps bnd_Inr by blast
  have "sr_failed (count_result c r) \<le> sr_failed r'" using resync_subnets_returns [OF assms, of external ns "count_result c r" s1] c(2) by auto
  then have z: "c = 0" "sr_failed r' = sr_failed (count_result c r)"
    using failed_grows(1) [of r c] failed_grows(2) [of c r] Cons.prems(2) by linarith+
  have st: "prefix_stored (subnet_payload (nsn_id n) (nsn_network_id n) (nsn_project_id n) (nsn_cidr n) (external (nsn_network_id n))) s s1"
    by (rule sync_subnet_cases [OF assms c(1)]) (simp_all add: z)
  have IH: "(\<forall>n \<in> set ns. subnet_current external s' n) \<and> (\<forall>x. x \<notin> nsn_id ` set ns \<longrightarrow> prefix_at s' x = prefix_at s1 x) \<and>
      others_kept s1 s' (False, True, False)"
    using Cons.IH [OF c(2) z(2)] Cons.prems(3) by simp
  then have "subnet_current external s' n"
    using st Cons.prems(3) by (auto simp: subnet_current_def prefix_stored_def subnet_payload_def prefix_row_def)
  then show ?case using IH st by (auto simp: prefix_stored_def subnet_payload_def)
qed simp

lemma external_map: "distinct (map nn_id ns) \<Longrightarrow>
  network_external_map ns x \<longleftrightarrow> (\<exists>n \<in> set ns. nn_id n = x \<and> nn_is_router_external n = Some True)"
proof -
  have "fold (\<lambda>n m. m(nn_id n := (nn_is_router_external n = Some True))) ns m x \<longleftrightarrow>
      (\<exists>n \<in> set ns. nn_id n = x \<and> nn_is_router_external n = Some True) \<or> x \<notin> nn_id ` set ns \<and> m x"
    if "distinct (map nn_id ns)" for m
    using that by (induction ns arbitrary: m) auto
  then show "distinct (map nn_id ns) \<Longrightarrow> ?thesis" by (simp add: network_external_map_def)
qed

text \<open>
  C31: When the resynchronisation exits with 0, every network Neutron listed has its namespace and, with a
  segmentation id, a UCVNI with the network's name, owner and id; every listed subnet has a prefix with its address range and
  owner in the namespace of its network, or in the global one for an external network; and no record of anything else
  has changed.
\<close>

theorem resync_complete:
  assumes "namespaces_served nb" "prefixes_served nb" "ucvnis_served nb"
    and "distinct (map nn_id networks)" "\<forall>n \<in> set networks. canonical_uuid (nn_id n)" "distinct (map nsn_id subnets)"
    and "resync_neutron_main nb networks subnets s = (Inr 0, s')"
  shows "(\<forall>n \<in> set networks. network_current nb s' n) \<and>
    (\<forall>n \<in> set subnets. subnet_current (\<lambda>x. \<exists>m \<in> set networks. nn_id m = x \<and> nn_is_router_external m = Some True) s' n) \<and>
    (\<forall>x. x \<notin> nn_id ` set networks \<longrightarrow> ns_id s' x = ns_id s x \<and> ucvni_at s' x = ucvni_at s x) \<and>
    (\<forall>x. x \<notin> nsn_id ` set subnets \<longrightarrow> prefix_at s' x = prefix_at s x)"
proof -
  obtain r1 r2 s1 where r: "resync_networks nb networks new_result s = (Inr r1, s1)"
      "resync_subnets nb (network_external_map networks) subnets new_result s1 = (Inr r2, s')"
      and z: "max (log_sync_result r1) (log_sync_result r2) = 0"
    using assms(7) by (auto simp: resync_neutron_main_def sync_neutron_to_nautobot_def split: sum.splits prod.splits)
  have z: "sr_failed r1 = sr_failed new_result" "sr_failed r2 = sr_failed new_result"
    using z by (auto simp: log_sync_result_def new_result_def split: if_splits)
  have e: "network_external_map networks = (\<lambda>x. \<exists>m \<in> set networks. nn_id m = x \<and> nn_is_router_external m = Some True)"
    using external_map [OF assms(4)] by (simp add: fun_eq_iff)
  note n = resync_networks_current [OF assms(1,3) r(1) z(1) assms(4,5)]
    and u = resync_subnets_current [OF assms(2) r(2) z(2) assms(6), unfolded e]
  have "network_current nb s' m" if "m \<in> set networks" for m
    using n u that by (simp add: network_current_def)
  then show ?thesis using n u by simp
qed

section \<open>A Nautobot\<close>

text \<open>A server that keeps the contract, refusing what would break the keys of its tables.\<close>

definition without_keys :: "(string \<Rightarrow> bool) \<Rightarrow> 'v dict \<Rightarrow> 'v dict" where
  "without_keys P d = filter (\<lambda>e. \<not> P (fst e)) d"

lemma dget_without [simp]: "dget (without_keys P d) = (\<lambda>k. if P k then None else dget d k)"
  by (induction d) (auto simp: without_keys_def dget_def fun_eq_iff)

declare dget_dput [simp]

definition refuse :: "int \<Rightarrow> string \<Rightarrow> ('s, 'a) act" where
  "refuse code txt = raise_exn (RequestError code txt)"

definition vni_taken :: "string \<Rightarrow> ucvni \<Rightarrow> ucvni dict \<Rightarrow> bool" where
  "vni_taken k u d = list_ex (\<lambda>(x, v). x \<noteq> k \<and> uv_ucvni_group v = uv_ucvni_group u \<and> uv_ucvni_id v = uv_ucvni_id u) d"

definition nautobot_server :: nautobot_ipam where
  "nautobot_server =
     \<lparr>namespaces_create = (\<lambda>name. bnd (reads namespaces) (\<lambda>d.
        if dget d name \<noteq> None then refuse 400 ''namespace with this name already exists.''
        else if list_ex (\<lambda>e. snd e = ''ns-'' @ name) d then refuse 500 ''server error''
        else updates (\<lambda>s. s\<lparr>namespaces := dput name (''ns-'' @ name) d\<rparr>))),
      namespaces_get = (\<lambda>name. reads (\<lambda>s. ns_id s name)),
      namespace_delete = (\<lambda>nid. updates (\<lambda>s. s\<lparr>namespaces := without_keys (\<lambda>n. ns_id s n = Some nid) (namespaces s)\<rparr>)),
      prefixes_filter = (\<lambda>nid. reads (\<lambda>s. map fst (filter (\<lambda>(x, _). map_option pf_namespace (prefix_at s x) = Some nid) (prefixes s)))),
      prefix_delete = (\<lambda>x. updates (\<lambda>s. s\<lparr>prefixes := without_keys (\<lambda>y. y = x) (prefixes s)\<rparr>)),
      prefixes_delete = (\<lambda>xs. updates (\<lambda>s. s\<lparr>prefixes := without_keys (\<lambda>y. y \<in> set xs) (prefixes s)\<rparr>)),
      prefixes_patch = (\<lambda>x p. bnd (reads (\<lambda>s. (prefix_at s x, ns_id s (pp_namespace p)))) (\<lambda>found.
        case found of
          (Some _, Some nid) \<Rightarrow> updates (\<lambda>s. s\<lparr>prefixes := dput x (prefix_row p nid) (prefixes s)\<rparr>)
        | (None, _) \<Rightarrow> refuse 404 ''Not found.''
        | _ \<Rightarrow> refuse 400 ''namespace'')),
      prefixes_create = (\<lambda>p. bnd (reads (\<lambda>s. (prefix_at s (pp_id p), ns_id s (pp_namespace p)))) (\<lambda>found.
        case found of
          (None, Some nid) \<Rightarrow> updates (\<lambda>s. s\<lparr>prefixes := dput (pp_id p) (prefix_row p nid) (prefixes s)\<rparr>)
        | _ \<Rightarrow> refuse 400 ''prefix'')),
      ucvnis_patch = (\<lambda>k u. bnd (reads ucvnis) (\<lambda>d.
        if dget d k = None then refuse 404 ''Not found.''
        else if vni_taken k u d then refuse 400 ''UCVNI with this Ucvni group and UCVNI_ID already exists''
        else updates (\<lambda>s. s\<lparr>ucvnis := dput k u d\<rparr>))),
      ucvnis_create = (\<lambda>k u. bnd (reads ucvnis) (\<lambda>d.
        if dget d k \<noteq> None then refuse 400 ''UCVNI with this Id already exists.''
        else if vni_taken k u d then refuse 400 ''UCVNI with this Ucvni group and UCVNI_ID already exists''
        else updates (\<lambda>s. s\<lparr>ucvnis := dput k u d\<rparr>))),
      ucvnis_delete = (\<lambda>ks. updates (\<lambda>s. s\<lparr>ucvnis := without_keys (\<lambda>y. y \<in> set ks) (ucvnis s)\<rparr>)),
      env_ucvni_group = Some ''fabric''\<rparr>"

lemma server_namespaces: "namespaces_served nautobot_server"
proof -
  have "nid \<notin> ran (dget d)" if "\<not> list_ex (\<lambda>e. snd e = nid) d" for nid :: string and d :: "string dict"
    using that by (force simp: ran_def list_ex_iff dget_def dest: map_of_SomeD)
  then show ?thesis
    unfolding namespaces_served_def nautobot_server_def refuse_def
    by (auto simp: same_tables_iff fun_eq_iff split: if_splits)
qed

lemma server_prefixes: "prefixes_served nautobot_server"
proof -
  have "set (map fst (filter (\<lambda>(x, _). map_option pf_namespace (dget d x) = Some nid) d)) =
      {x. \<exists>p. dget d x = Some p \<and> pf_namespace p = nid}" for d :: "ipam_prefix dict" and nid
    by (force simp: dget_def dest: map_of_SomeD)
  then show ?thesis
    unfolding prefixes_served_def nautobot_server_def refuse_def
    by (auto simp: same_tables_iff prefix_stored_def split: option.splits)
qed

lemma server_ucvnis: "ucvnis_served nautobot_server"
proof -
  have "\<not> contains ''this Id already exists'' ''UCVNI with this Ucvni group and UCVNI_ID already exists''" by code_simp
  then show ?thesis
    unfolding ucvnis_served_def nautobot_server_def refuse_def by (auto simp: same_tables_iff split: if_splits)
qed

definition example_network :: "string \<Rightarrow> json" where
  "example_network event_type =
     JObj [(''event_type'', JStr event_type), (''payload'', JObj [(''network'', JObj
       [(''id'', JStr ''11111111-2222-3333-4444-555555555555''), (''name'', JStr ''tenant-net''),
        (''project_id'', JStr ''aaaaaaaabbbbccccddddeeeeeeeeeeee''), (''router:external'', JBool False),
        (''provider:segmentation_id'', JNum 200010)])])]"

definition example_subnet :: json where
  "example_subnet =
     JObj [(''event_type'', JStr ''subnet.create.end''), (''payload'', JObj [(''subnet'', JObj
       [(''id'', JStr ''99999999-2222-3333-4444-555555555555''), (''name'', JStr ''tenant-subnet''),
        (''project_id'', JStr ''aaaaaaaabbbbccccddddeeeeeeeeeeee''), (''network_id'', JStr ''11111111-2222-3333-4444-555555555555''),
        (''cidr'', JStr ''10.0.0.0/24''), (''gateway_ip'', JStr ''10.0.0.1''), (''router:external'', JBool False),
        (''ip_version'', JNum 4), (''subnetpool_id'', JNull)])])]"

definition example_ipam :: ipam where
  "example_ipam =
     \<lparr>namespaces = [(''Global'', ''ns-0'')],
      prefixes = [(''p0'', \<lparr>pf_prefix = JStr ''192.0.2.0/24'', pf_status = ''Active'', pf_namespace = ''ns-0'', pf_tenant = ''t0''\<rparr>)],
      ucvnis = []\<rparr>"

definition example_net :: neutron_network where
  "example_net = \<lparr>nn_id = ''11111111-2222-3333-4444-555555555555'', nn_name = JStr ''tenant-net'',
     nn_project_id = ''aaaaaaaabbbbccccddddeeeeeeeeeeee'', nn_provider_segmentation_id = Some 200010, nn_is_router_external = Some False\<rparr>"

definition example_sub :: neutron_subnet where
  "example_sub = \<lparr>nsn_id = ''99999999-2222-3333-4444-555555555555'', nsn_network_id = ''11111111-2222-3333-4444-555555555555'',
     nsn_project_id = ''aaaaaaaabbbbccccddddeeeeeeeeeeee'', nsn_cidr = JStr ''10.0.0.0/24''\<rparr>"

definition result_is :: "int \<Rightarrow> (exn + int) \<times> 's \<Rightarrow> bool" where
  "result_is n r = (case fst r of Inl _ \<Rightarrow> False | Inr m \<Rightarrow> m = n)"

lemma result_isE: "result_is n r \<Longrightarrow> r = (Inr n, snd r)"
  by (cases r) (auto simp: result_is_def split: sum.splits)

lemma example_ipam_sound: "ipam_sound example_ipam"
  by (auto simp: ipam_sound_def example_ipam_def dget_def ran_def split: if_splits)

lemma example_uuids:
  "py_uuid (JStr ''11111111-2222-3333-4444-555555555555'') = Inr 0x11111111222233334444555555555555"
  "py_uuid (JStr ''99999999-2222-3333-4444-555555555555'') = Inr 0x99999999222233334444555555555555"
  "py_uuid (JStr ''aaaaaaaabbbbccccddddeeeeeeeeeeee'') = Inr 0xaaaaaaaabbbbccccddddeeeeeeeeeeee"
  "py_uuid (JStr ''aaaaaaaa-bbbb-cccc-dddd-eeeeeeeeeeee'') = Inr 0xaaaaaaaabbbbccccddddeeeeeeeeeeee"
  "uuid_str 0x11111111222233334444555555555555 = ''11111111-2222-3333-4444-555555555555''"
  "uuid_str 0x99999999222233334444555555555555 = ''99999999-2222-3333-4444-555555555555''"
  "uuid_str 0xaaaaaaaabbbbccccddddeeeeeeeeeeee = ''aaaaaaaa-bbbb-cccc-dddd-eeeeeeeeeeee''"
  by code_simp+

lemmas run_ipam = result_is_def resync_neutron_main_def sync_neutron_to_nautobot_def sync_network_to_nautobot_def
  ensure_nautobot_ipam_namespace_exists_def sync_network_ucvni_def update_nautobot_ucvni_def create_nautobot_ucvni_def ucvni_group_name_or_env_def
  sync_subnet_to_nautobot_def update_nautobot_prefix_def create_nautobot_prefix_def subnet_payload_def
  handle_network_create_or_update_def handle_subnet_create_or_update_def handle_network_delete_def delete_nautobot_ipam_namespace_def
  delete_nautobot_prefixes_in_namespace_def network_from_event_dict_def subnet_from_event_dict_def
  nautobot_server_def refuse_def vni_taken_def prefix_row_def dget_def without_keys_def

lemma example_resync: "result_is 0 (resync_neutron_main nautobot_server [example_net] [example_sub] example_ipam)"
  by (simp add: run_ipam example_net_def example_sub_def example_ipam_def example_uuids Let_def network_external_map_def
      count_result_def new_result_def log_sync_result_def del: dget_without dget_dput)

theorem resync_complete_witness:
  "network_current nautobot_server (snd (resync_neutron_main nautobot_server [example_net] [example_sub] example_ipam)) example_net"
proof -
  have "canonical_uuid (nn_id example_net)" by code_simp
  then show ?thesis
    using resync_complete [OF server_namespaces server_prefixes server_ucvnis _ _ _ result_isE [OF example_resync]] by simp
qed

definition example_life :: "(exn + int) \<times> ipam" where
  "example_life = andthen (handle_network_create_or_update nautobot_server (example_network ''network.create.end'') None)
      (andthen (map_act (handle_subnet_create_or_update nautobot_server) [example_subnet])
        (handle_network_delete nautobot_server (example_network ''network.delete.end''))) example_ipam"

lemma example_life_returns: "result_is 0 example_life"
  by (simp add: example_life_def run_ipam example_network_def example_subnet_def example_ipam_def example_uuids Let_def del: dget_without dget_dput)

theorem network_lifecycle_witness: "same_tables example_ipam (snd example_life)"
proof -
  define ev where "ev t = \<lparr>ne_event_type = JStr t, ne_network_uuid = 0x11111111222233334444555555555555, ne_network_name = JStr ''tenant-net'',
    ne_tenant_id = 0xaaaaaaaabbbbccccddddeeeeeeeeeeee, ne_external = False, ne_provider_segmentation_id = 200010\<rparr>" for t
  define se where "se = \<lparr>se_event_type = JStr ''subnet.create.end'', se_subnet_uuid = 0x99999999222233334444555555555555, se_subnet_name = JStr ''tenant-subnet'',
    se_tenant_uuid = 0xaaaaaaaabbbbccccddddeeeeeeeeeeee, se_network_uuid = 0x11111111222233334444555555555555, se_cidr = JStr ''10.0.0.0/24'',
    se_gateway_ip = JStr ''10.0.0.1'', se_external = False, se_ip_version = JNum 4, se_subnetpool_id = None\<rparr>"
  have e: "network_from_event_dict (example_network t) = Inr (ev t)" for t
    unfolding ev_def by (simp add: network_from_event_dict_def example_network_def dget_def example_uuids)
  have d: "subnet_from_event_dict example_subnet = Inr se"
    unfolding se_def by (simp add: subnet_from_event_dict_def example_subnet_def dget_def example_uuids)
  have s: "ns_id example_ipam (uuid_str 0x11111111222233334444555555555555) = None" "ucvni_at example_ipam (uuid_str 0x11111111222233334444555555555555) = None"
    "prefix_at example_ipam (uuid_str 0x99999999222233334444555555555555) = None" by code_simp+
  have n: "ne_network_uuid (ev t) = 0x11111111222233334444555555555555" for t by (simp add: ev_def)
  have m: "se_subnet_uuid se = 0x99999999222233334444555555555555" "se_network_uuid se = 0x11111111222233334444555555555555" "\<not> se_external se"
    by (simp_all add: se_def)
  show ?thesis
    using network_lifecycle [OF server_namespaces server_prefixes server_ucvnis e [of "''network.create.end''"] e [of "''network.delete.end''"],
        where s = example_ipam and ds = "[example_subnet]" and g = None and r = 0 and s' = "snd example_life",
        unfolded n, OF refl example_ipam_sound s(1,2)]
      result_isE [OF example_life_returns] d m s(3) unfolding example_life_def by simp
qed

end
