(* ===== verification/Portgroup_Name.thy ===== *)
theory Portgroup_Name
  imports Json
begin

text \<open>
  \<open>ironic_understack/portgroup_name_middleware.py\<close>: the WSGI middleware in front of Ironic's API that refuses
  port groups whose name Undersync could not read a port channel number from.

  The request is its method, path and body; \<open>json.loads\<close> is a parameter that returns nothing for a body
  it cannot decode.  The answer is either to forward the request to Ironic or a 400 response.
\<close>

section \<open>Definitions\<close>

definition PORT_CHANNEL_MIN :: int where "PORT_CHANNEL_MIN = 100"

definition PORT_CHANNEL_MAX :: int where "PORT_CHANNEL_MAX = 998"

text \<open>\<open>^.+-port-channel(\d+)$\<close>, answering the captured digits.\<close>

definition PORTGROUP_NAME_PATTERN :: "string \<Rightarrow> string option" where
  "PORTGROUP_NAME_PATTERN name =
     (let t = chomp name;
          number = rev (takeWhile is_digit (rev t));
          before = rev (dropWhile is_digit (rev t)) in
      if number \<noteq> [] \<and> suffix ''-port-channel'' before \<and> length before > length ''-port-channel'' \<and> CHR 10 \<notin> set before
      then Some number else None)"

text \<open>\<open>Inr None\<close> is \<open>(True, None)\<close>, \<open>Inr (Some msg)\<close> is \<open>(False, msg)\<close>.\<close>

definition validate_portgroup_name :: "json option \<Rightarrow> exn + string option" where
  "validate_portgroup_name name =
     (case name of
        None \<Rightarrow> Inr (Some ''Portgroup name is required and cannot be empty.'')
      | Some v \<Rightarrow>
          if \<not> json_truthy v then Inr (Some ''Portgroup name is required and cannot be empty.'')
          else (case v of
              JStr t \<Rightarrow>
                (case PORTGROUP_NAME_PATTERN t of
                   None \<Rightarrow> Inr (Some (''Portgroup name '' @ t @ '' must match format''))
                 | Some number \<Rightarrow>
                     let port_channel_num = the (digits number) in
                     if \<not> (PORT_CHANNEL_MIN \<le> port_channel_num \<and> port_channel_num \<le> PORT_CHANNEL_MAX)
                     then Inr (Some (''Portgroup name '' @ t @ '' has invalid port-channel number'')) else Inr None)
            | _ \<Rightarrow> Inl (TypeError ''expected string or bytes-like object'')))"

record request =
  rq_method :: string
  rq_path_info :: string
  rq_body :: string

datatype answer = Forward | Refuse string

definition is_portgroup_request :: "request \<Rightarrow> bool" where
  "is_portgroup_request req = sublist ''/portgroups'' (rq_path_info req)"

definition is_portgroup_patch :: "string \<Rightarrow> bool" where
  "is_portgroup_patch path = (let p = rstrip_char CHR ''/'' path in
     prefix ''/v1/portgroups/'' p \<and> length p > length ''/v1/portgroups/'' \<and> CHR ''/'' \<notin> set (drop (length ''/v1/portgroups/'') p))"

definition validate_create :: "(string \<Rightarrow> json option) \<Rightarrow> request \<Rightarrow> exn + answer" where
  "validate_create loads req =
     (case loads (rq_body req) of
        None \<Rightarrow> Inr Forward
      | Some (JObj body) \<Rightarrow>
          sbnd (validate_portgroup_name (dget body ''name'')) (\<lambda>error_msg.
            case error_msg of Some msg \<Rightarrow> Inr (Refuse msg) | None \<Rightarrow> Inr Forward)
      | Some _ \<Rightarrow> Inl (AttributeError ''get''))"

fun validate_ops :: "json list \<Rightarrow> exn + answer" where
  "validate_ops [] = Inr Forward"
| "validate_ops (op # ops) =
     (case op of
        JObj d \<Rightarrow>
          if dget d ''path'' = Some (JStr ''/name'') \<and> dget d ''op'' \<in> {Some (JStr ''add''), Some (JStr ''replace'')} then
            sbnd (validate_portgroup_name (dget d ''value'')) (\<lambda>error_msg.
              case error_msg of Some msg \<Rightarrow> Inr (Refuse msg) | None \<Rightarrow> validate_ops ops)
          else validate_ops ops
      | _ \<Rightarrow> Inl (AttributeError ''get''))"

text \<open>Iterating over an object yields its keys, over a text its characters: neither has \<open>get\<close>.\<close>

definition validate_patch :: "(string \<Rightarrow> json option) \<Rightarrow> request \<Rightarrow> exn + answer" where
  "validate_patch loads req =
     (case loads (rq_body req) of
        None \<Rightarrow> Inr Forward
      | Some (JList ops) \<Rightarrow> validate_ops ops
      | Some (JObj d) \<Rightarrow> if d = [] then Inr Forward else Inl (AttributeError ''get'')
      | Some (JStr t) \<Rightarrow> if t = [] then Inr Forward else Inl (AttributeError ''get'')
      | Some _ \<Rightarrow> Inl (TypeError ''object is not iterable''))"

definition portgroup_middleware :: "(string \<Rightarrow> json option) \<Rightarrow> request \<Rightarrow> exn + answer" where
  "portgroup_middleware loads req =
     (if \<not> is_portgroup_request req then Inr Forward
      else if rq_method req = ''POST'' \<and> rstrip_char CHR ''/'' (rq_path_info req) = ''/v1/portgroups'' then validate_create loads req
      else if rq_method req = ''PATCH'' \<and> is_portgroup_patch (rq_path_info req) then validate_patch loads req
      else Inr Forward)"

section \<open>The names let through\<close>

definition good_name :: "string \<Rightarrow> bool" where
  "good_name t \<longleftrightarrow> (\<exists>node number nl. t = node @ ''-port-channel'' @ number @ nl \<and> nl \<in> {[], [CHR 10]} \<and> node \<noteq> [] \<and> CHR 10 \<notin> set node \<and>
     number \<noteq> [] \<and> list_all is_digit number \<and> 100 \<le> the (digits number) \<and> the (digits number) \<le> 998)"

lemma chomp_nl: "(\<exists>nl \<in> {[], [CHR 10]}. t = u @ nl) \<and> (u = [] \<or> last u \<noteq> CHR 10) \<Longrightarrow> chomp t = u"
  by (auto simp: chomp_def)

lemma chomp_cases: "t = chomp t \<or> t = chomp t @ [CHR 10]"
proof (cases "t \<noteq> [] \<and> last t = CHR 10")
  case True
  then have "butlast t @ [CHR 10] = t" by (metis append_butlast_last_id)
  then show ?thesis unfolding chomp_def if_P [OF True] by (rule disjI2 [OF sym])
next
  case False
  show ?thesis unfolding chomp_def if_not_P [OF False] by simp
qed

lemma pattern_iff:
  "PORTGROUP_NAME_PATTERN t = Some number \<longleftrightarrow> (\<exists>node nl. t = node @ ''-port-channel'' @ number @ nl \<and> nl \<in> {[], [CHR 10]} \<and>
     node \<noteq> [] \<and> CHR 10 \<notin> set node \<and> number \<noteq> [] \<and> list_all is_digit number)"
  (is "_ \<longleftrightarrow> ?R")
proof
  assume p: "PORTGROUP_NAME_PATTERN t = Some number"
  define before where "before = rev (dropWhile is_digit (rev (chomp t)))"
  have n: "number = rev (takeWhile is_digit (rev (chomp t)))" "number \<noteq> []" and b: "suffix ''-port-channel'' before"
    "length before > length ''-port-channel''" "CHR 10 \<notin> set before"
    using p by (auto simp: PORTGROUP_NAME_PATTERN_def before_def Let_def split: if_splits)
  have c: "chomp t = before @ number" unfolding before_def n(1) by (metis rev_append rev_rev_ident takeWhile_dropWhile_id)
  obtain node where node: "before = node @ ''-port-channel''" using b(1) by (auto simp: suffix_def)
  have "list_all is_digit number" unfolding n(1) by (auto simp: list_all_iff dest: set_takeWhileD)
  moreover have "node \<noteq> []" "CHR 10 \<notin> set node" using b(2,3) unfolding node by auto
  moreover obtain nl where "t = node @ ''-port-channel'' @ number @ nl" "nl \<in> {[], [CHR 10]}"
    using chomp_cases [of t] unfolding c node by (metis append.assoc append_Nil2 insertI1 insertI2)
  ultimately show ?R using n(2) by blast
next
  assume ?R
  then obtain node nl where t: "t = node @ ''-port-channel'' @ number @ nl" "nl \<in> {[], [CHR 10]}"
    and n: "node \<noteq> []" "CHR 10 \<notin> set node" "number \<noteq> []" "list_all is_digit number" by blast
  have "\<not> is_digit CHR 10" by code_simp
  then have "last number \<noteq> CHR 10" using n(3,4) by (metis last_in_set list_all_iff)
  then have c: "chomp t = node @ ''-port-channel'' @ number" using t n(3) by (intro chomp_nl) auto
  have l: "\<not> is_digit CHR ''l''" by code_simp
  have d: "rev (chomp t) = rev number @ CHR ''l'' # rev (node @ ''-port-channe'')" unfolding c by simp
  have "takeWhile is_digit (rev (chomp t)) = rev number" "dropWhile is_digit (rev (chomp t)) = CHR ''l'' # rev (node @ ''-port-channe'')"
    unfolding d using n(4) l by (simp_all add: takeWhile_append dropWhile_append list_all_iff)
  then show "PORTGROUP_NAME_PATTERN t = Some number" using n by (simp add: PORTGROUP_NAME_PATTERN_def Let_def suffix_def)
qed

lemma validate_iff: "validate_portgroup_name v = Inr None \<longleftrightarrow> (\<exists>t. v = Some (JStr t) \<and> good_name t)"
proof (cases "\<exists>t. v = Some (JStr t) \<and> t \<noteq> []")
  case True
  then obtain t where v: "v = Some (JStr t)" "t \<noteq> []" by blast
  have "good_name t \<longleftrightarrow> (\<exists>number. PORTGROUP_NAME_PATTERN t = Some number \<and> 100 \<le> the (digits number) \<and> the (digits number) \<le> 998)"
    unfolding good_name_def pattern_iff by blast
  then show ?thesis using v
    by (auto simp: validate_portgroup_name_def Let_def PORT_CHANNEL_MIN_def PORT_CHANNEL_MAX_def split: option.split)
next
  case False
  then show ?thesis by (auto simp: validate_portgroup_name_def good_name_def split: option.split json.split)
qed



end
