(* ===== verification/Nautobot_Dcim.thy ===== *)
theory Nautobot_Dcim
  imports Portgroup_Name
begin

text \<open>
  \<open>understack_workflows/oslo_event/ironic_port.py\<close>, \<open>oslo_event/ironic_portgroup.py\<close> and the dispatch of
  \<open>main/openstack_oslo_event.py\<close>: ports and port groups of Ironic become interfaces of Nautobot, cabled to the
  switch interfaces they are plugged into.

  Nautobot is reached through the record \<open>nautobot_dcim\<close>, each field a request on the tables \<open>dcim\<close>.  An
  interface has a dictionary of attributes; a record the client fetched (\<open>iface\<close>) also carries the identifier of
  its cable.  \<open>stored_as\<close> is the form in which Nautobot keeps the value of an attribute, such as a MAC address.  \<open>Record.save\<close> sends the attributes that were assigned.  The contract \<open>dcim_served\<close> says what a
  request that returned has done; a refused creation may find that another run has created the interface meanwhile.
\<close>

section \<open>Nautobot's tables and client\<close>

record nb_cable =
  cb_termination_a_id :: json
  cb_termination_b_id :: json
  cb_status :: string

record dcim =
  nb_interfaces :: "(json \<times> json dict) list"
  nb_cables :: "nb_cable dict"
  nb_devices :: "(json \<times> json dict) list"

record iface =
  if_id :: json
  if_attrs :: "json dict"
  if_cable :: "string option"

record nautobot_dcim =
  interfaces_get_id :: "json \<Rightarrow> (dcim, iface option) act"
  interfaces_get_on :: "json \<Rightarrow> json \<Rightarrow> (dcim, iface option) act"
  interfaces_create :: "json dict \<Rightarrow> (dcim, iface) act"
  interface_save :: "json \<Rightarrow> json dict \<Rightarrow> (dcim, unit) act"
  interface_delete :: "json \<Rightarrow> (dcim, unit) act"
  cables_create :: "nb_cable \<Rightarrow> (dcim, unit) act"
  cable_details :: "string \<Rightarrow> (dcim, nb_cable) act"
  cable_save :: "string \<Rightarrow> nb_cable \<Rightarrow> (dcim, unit) act"
  cables_get_a :: "json \<Rightarrow> (dcim, string option) act"
  cable_delete :: "string \<Rightarrow> (dcim, unit) act"
  exn_text :: "exn \<Rightarrow> string"
  stored_as :: "string \<Rightarrow> json \<Rightarrow> json"

text \<open>\<open>v or w\<close>.\<close>

definition jor :: "json \<Rightarrow> json \<Rightarrow> json" where
  "jor v w = (if json_truthy v then v else w)"

section \<open>Events\<close>

text \<open>\<open>data["payload"]["ironic_object.data"]\<close>, checked.\<close>

definition ironic_payload :: "json \<Rightarrow> exn + json dict" where
  "ironic_payload data =
     sbnd (jobject ''get'' data) (\<lambda>d.
     let payload = jget_default d ''payload'' JNull in
     if payload = JNull then Inl (PyException ''Exception'' [''Invalid event. No payload''])
     else sbnd (jobject ''get'' payload) (\<lambda>p.
     let payload_data = jget_default p ''ironic_object.data'' JNull in
     if payload_data = JNull then Inl (PyException ''Exception'' [''Invalid event. No ironic_object.data in payload''])
     else jobject ''get'' payload_data))"

record IronicPortEvent =
  pe_uuid :: json
  pe_name :: json
  pe_address :: json
  pe_node_uuid :: json
  pe_physical_network :: json
  pe_pxe_enabled :: json
  pe_bios_name :: json
  pe_remote_port_id :: json
  pe_remote_switch_info :: json
  pe_remote_switch_id :: json

definition port_from_event_dict :: "json \<Rightarrow> exn + IronicPortEvent" where
  "port_from_event_dict data =
     sbnd (ironic_payload data) (\<lambda>d.
     let llc = jor (jget_default d ''local_link_connection'' JNull) (JObj []);
         extra = jor (jget_default d ''extra'' JNull) (JObj []) in
     sbnd (jitem (JObj d) ''uuid'') (\<lambda>uuid.
     sbnd (jitem (JObj d) ''address'') (\<lambda>address.
     sbnd (jitem (JObj d) ''node_uuid'') (\<lambda>node_uuid.
     sbnd (jobject ''get'' extra) (\<lambda>extra.
     sbnd (jobject ''get'' llc) (\<lambda>llc.
     Inr \<lparr>pe_uuid = uuid, pe_name = jor (jget_default d ''name'' JNull) (JStr []), pe_address = address, pe_node_uuid = node_uuid,
          pe_physical_network = jor (jget_default d ''physical_network'' JNull) (JStr []),
          pe_pxe_enabled = jor (jget_default d ''pxe_enabled'' JNull) (JBool False),
          pe_bios_name = jget_default extra ''bios_name'' JNull,
          pe_remote_port_id = jget_default llc ''port_id'' JNull,
          pe_remote_switch_info = jget_default llc ''switch_info'' JNull,
          pe_remote_switch_id = jget_default llc ''switch_id'' JNull\<rparr>))))))"

definition interface_name :: "IronicPortEvent \<Rightarrow> json" where
  "interface_name event =
     (if json_truthy (pe_bios_name event) then pe_bios_name event
      else if json_truthy (pe_name event) then pe_name event
      else pe_uuid event)"

record IronicPortgroupEvent =
  ge_uuid :: json
  ge_name :: json
  ge_node_uuid :: json
  ge_address :: json
  ge_mode :: json
  ge_properties :: json
  ge_standalone_ports_supported :: json

definition portgroup_from_event_dict :: "json \<Rightarrow> exn + IronicPortgroupEvent" where
  "portgroup_from_event_dict data =
     sbnd (ironic_payload data) (\<lambda>d.
     sbnd (jitem (JObj d) ''uuid'') (\<lambda>uuid.
     sbnd (jitem (JObj d) ''node_uuid'') (\<lambda>node_uuid.
     Inr \<lparr>ge_uuid = uuid, ge_name = jget_default d ''name'' JNull, ge_node_uuid = node_uuid,
          ge_address = jget_default d ''address'' JNull, ge_mode = jget_default d ''mode'' JNull,
          ge_properties = jor (jget_default d ''properties'' JNull) (JObj []),
          ge_standalone_ports_supported = jget_default d ''standalone_ports_supported'' (JBool True)\<rparr>)))"

text \<open>A name that is not a text is returned as it is: \<open>in\<close> or \<open>split\<close> raises, or finds no underscore.\<close>

definition lag_name :: "IronicPortgroupEvent \<Rightarrow> json" where
  "lag_name event =
     (if \<not> json_truthy (ge_name event) then ge_uuid event
      else (case ge_name event of
          JStr t \<Rightarrow> if CHR ''_'' \<in> set t then JStr (snd (split1 CHR ''_'' t)) else JStr t
        | v \<Rightarrow> v))"

section \<open>Interfaces\<close>

definition INTERFACE_TYPE :: string where
  "INTERFACE_TYPE = ''25gbase-x-sfp28''"

text \<open>
  Create the interface unless the lookup found it.  \<open>None\<close> is the early return of 1.  The two handlers differ in
  which exceptions they take for another run having created it.
\<close>

definition create_interface :: "nautobot_dcim \<Rightarrow> (exn \<Rightarrow> bool) \<Rightarrow> json \<Rightarrow> json dict \<Rightarrow> (dcim, iface option) act" where
  "create_interface nb racy uuid attrs =
     try_except (bnd (interfaces_create nb (attrs @ [(''id'', uuid)])) (\<lambda>intf. ret (Some intf)))
       (\<lambda>ex. if racy ex then interfaces_get_id nb uuid else ret None)"

definition save_attributes :: "nautobot_dcim \<Rightarrow> iface \<Rightarrow> json dict \<Rightarrow> (dcim, bool) act" where
  "save_attributes nb intf attrs =
     try_except (andthen (interface_save nb (if_id intf) (filter (\<lambda>(k, _). k \<noteq> ''id'') attrs)) (ret True)) (\<lambda>_. ret False)"

definition sync_interface :: "nautobot_dcim \<Rightarrow> (exn \<Rightarrow> bool) \<Rightarrow> json \<Rightarrow> json dict \<Rightarrow> (iface \<Rightarrow> (dcim, int) act) \<Rightarrow> (dcim, int) act" where
  "sync_interface nb racy uuid attrs k =
     bnd (interfaces_get_id nb uuid) (\<lambda>found.
     bnd (case found of Some intf \<Rightarrow> ret (Some intf) | None \<Rightarrow> create_interface nb racy uuid attrs) (\<lambda>intf.
       case intf of
         None \<Rightarrow> ret 1
       | Some intf \<Rightarrow> bnd (save_attributes nb intf attrs) (\<lambda>saved. if saved then k intf else ret 1)))"

definition create_cable :: "nautobot_dcim \<Rightarrow> iface \<Rightarrow> IronicPortEvent \<Rightarrow> (dcim, int) act" where
  "create_cable nb switch_intf event =
     try_except
       (andthen (cables_create nb \<lparr>cb_termination_a_id = pe_uuid event, cb_termination_b_id = if_id switch_intf, cb_status = ''Connected''\<rparr>) (ret 0))
       (\<lambda>_. ret 1)"

definition update_existing_cable :: "nautobot_dcim \<Rightarrow> string \<Rightarrow> iface \<Rightarrow> IronicPortEvent \<Rightarrow> (dcim, int) act" where
  "update_existing_cable nb cable switch_intf event =
     bnd (cable_details nb cable) (\<lambda>c.
       if cb_termination_a_id c = pe_uuid event \<and> cb_termination_b_id c = if_id switch_intf \<or>
          cb_termination_b_id c = pe_uuid event \<and> cb_termination_a_id c = if_id switch_intf
       then ret 0
       else andthen
         (cable_save nb cable \<lparr>cb_termination_a_id = pe_uuid event, cb_termination_b_id = if_id switch_intf, cb_status = ''Connected''\<rparr>) (ret 0))"

definition handle_cable_management :: "nautobot_dcim \<Rightarrow> iface \<Rightarrow> IronicPortEvent \<Rightarrow> (dcim, int) act" where
  "handle_cable_management nb server_intf event =
     bnd (interfaces_get_on nb (pe_remote_switch_info event) (pe_remote_port_id event)) (\<lambda>switch_intf.
       case switch_intf of
         None \<Rightarrow> ret 1
       | Some switch_intf \<Rightarrow>
           (case if_cable server_intf of
              Some cable \<Rightarrow> update_existing_cable nb cable switch_intf event
            | None \<Rightarrow> create_cable nb switch_intf event))"

definition port_attrs :: "IronicPortEvent \<Rightarrow> json dict" where
  "port_attrs event = [(''name'', interface_name event), (''type'', JStr INTERFACE_TYPE), (''status'', JStr ''Active''),
     (''mac_address'', pe_address event), (''device'', pe_node_uuid event)]"

definition handle_port_create_update :: "nautobot_dcim \<Rightarrow> json \<Rightarrow> (dcim, int) act" where
  "handle_port_create_update nb event_data =
     bnd (of_sum (port_from_event_dict event_data)) (\<lambda>event.
       sync_interface nb (\<lambda>ex. contains ''unique set'' (py_lower (exn_text nb ex))) (pe_uuid event) (port_attrs event)
         (\<lambda>intf. if json_truthy (pe_remote_port_id event) \<and> json_truthy (pe_remote_switch_info event)
                 then handle_cable_management nb intf event else ret 0))"

definition handle_port_delete :: "nautobot_dcim \<Rightarrow> json \<Rightarrow> (dcim, int) act" where
  "handle_port_delete nb event_data =
     bnd (of_sum (port_from_event_dict event_data)) (\<lambda>event.
     bnd (interfaces_get_id nb (pe_uuid event)) (\<lambda>intf.
       case intf of
         None \<Rightarrow> ret 0
       | Some intf \<Rightarrow>
           bnd (cables_get_a nb (if_id intf)) (\<lambda>existing_cable.
           andthen (case existing_cable of None \<Rightarrow> ret () | Some cable \<Rightarrow> cable_delete nb cable)
           (andthen (interface_delete nb (if_id intf)) (ret 0)))))"

definition lag_attrs :: "IronicPortgroupEvent \<Rightarrow> json dict" where
  "lag_attrs event = [(''name'', lag_name event), (''device'', ge_node_uuid event), (''type'', JStr ''lag''), (''status'', JStr ''Active'')] @
     (if json_truthy (ge_address event) then [(''mac_address'', ge_address event)] else []) @
     (if json_truthy (ge_mode event) then [(''description'', JStr (''Bond mode: '' @ json_str (ge_mode event)))] else [])"

definition handle_portgroup_create_update :: "nautobot_dcim \<Rightarrow> json \<Rightarrow> (dcim, int) act" where
  "handle_portgroup_create_update nb event_data =
     bnd (of_sum (portgroup_from_event_dict event_data)) (\<lambda>event.
       sync_interface nb
         (\<lambda>ex. (case ex of RequestError code _ \<Rightarrow> code = 400 | _ \<Rightarrow> False) \<and> contains ''unique set'' (py_lower (exn_text nb ex)))
         (ge_uuid event) (lag_attrs event) (\<lambda>_. ret 0))"

definition handle_portgroup_delete :: "nautobot_dcim \<Rightarrow> json \<Rightarrow> (dcim, int) act" where
  "handle_portgroup_delete nb event_data =
     bnd (of_sum (portgroup_from_event_dict event_data)) (\<lambda>event.
     bnd (interfaces_get_id nb (ge_uuid event)) (\<lambda>lag_intf.
       case lag_intf of
         None \<Rightarrow> ret 0
       | Some lag_intf \<Rightarrow> try_except (andthen (interface_delete nb (if_id lag_intf)) (ret 0)) (\<lambda>_. ret 1)))"

section \<open>Dispatch\<close>

datatype event_handler =
    HandlePortCreateUpdate | HandlePortDelete | HandlePortgroupCreateUpdate | HandlePortgroupDelete
  | HandleNodeEvent | HandleNodeDeleteEvent | HandleProvisionEnd
  | HandleProjectCreated | HandleProjectUpdated | HandleProjectDeleted
  | HandleVolumeTypeAccessAdded | HandleVolumeTypeAccessRemoved

definition event_handlers :: "(string \<times> event_handler list) list" where
  "event_handlers =
     [(''baremetal.port.create.end'', [HandlePortCreateUpdate]),
      (''baremetal.port.update.end'', [HandlePortCreateUpdate]),
      (''baremetal.port.delete.end'', [HandlePortDelete]),
      (''baremetal.portgroup.create.end'', [HandlePortgroupCreateUpdate]),
      (''baremetal.portgroup.update.end'', [HandlePortgroupCreateUpdate]),
      (''baremetal.portgroup.delete.end'', [HandlePortgroupDelete]),
      (''baremetal.node.update.end'', [HandleNodeEvent]),
      (''baremetal.node.delete.end'', [HandleNodeDeleteEvent]),
      (''baremetal.node.provision_set.end'', [HandleProvisionEnd, HandleNodeEvent]),
      (''identity.project.created'', [HandleProjectCreated]),
      (''identity.project.updated'', [HandleProjectUpdated]),
      (''identity.project.deleted'', [HandleProjectDeleted]),
      (''volume_type_project.access.add'', [HandleVolumeTypeAccessAdded]),
      (''volume_type_project.access.remove'', [HandleVolumeTypeAccessRemoved])]"

definition validate_event :: "json \<Rightarrow> exn + string" where
  "validate_event event =
     sbnd (jobject ''get'' event) (\<lambda>d.
     let event_type = jget_default d ''event_type'' JNull in
     if \<not> json_truthy event_type then Inl (ValueError ''Event must contain event_type field'')
     else (case event_type of JStr t \<Rightarrow> Inr t | _ \<Rightarrow> Inl (ValueError ''Event type must be a string'')))"

text \<open>The handlers run in order; the exit code is that of the last one that returned an integer, 8 if one raised.\<close>

fun run_handlers :: "(event_handler \<Rightarrow> json \<Rightarrow> ('s, int option) act) \<Rightarrow> json \<Rightarrow> event_handler list \<Rightarrow> int \<Rightarrow> 's \<Rightarrow> int \<times> 's" where
  "run_handlers run event [] last_ret s = (last_ret, s)"
| "run_handlers run event (h # hs) last_ret s =
     (case run h event s of
        (Inl _, s') \<Rightarrow> (8, s')
      | (Inr r, s') \<Rightarrow> run_handlers run event hs (case r of Some n \<Rightarrow> n | None \<Rightarrow> last_ret) s')"

text \<open>
  \<open>main\<close> on what \<open>read_event\<close> answered (\<open>None\<close> if it raised) and whether the clients could be set up; an event that is not
  an object makes \<open>validate_event\<close> raise an \<open>AttributeError\<close>, which nothing catches.
\<close>

definition oslo_event_main ::
  "(event_handler \<Rightarrow> json \<Rightarrow> ('s, int option) act) \<Rightarrow> bool \<Rightarrow> json option \<Rightarrow> ('s, int) act" where
  "oslo_event_main run clients event s =
     (case event of
        None \<Rightarrow> (Inr 5, s)
      | Some event \<Rightarrow>
          (case validate_event event of
             Inl (ValueError _) \<Rightarrow> (Inr 5, s)
           | Inl ex \<Rightarrow> (Inl ex, s)
           | Inr event_type \<Rightarrow>
               (case map_of event_handlers event_type of
                  None \<Rightarrow> (Inr 6, s)
                | Some hs \<Rightarrow> if \<not> clients then (Inr 7, s)
                    else (case run_handlers run event hs 0 s of (code, s') \<Rightarrow> (Inr code, s')))))"

section \<open>What Nautobot promises\<close>

abbreviation iface_at :: "dcim \<Rightarrow> json \<Rightarrow> json dict option" where
  "iface_at s \<equiv> map_of (nb_interfaces s)"

abbreviation cable_at :: "dcim \<Rightarrow> string \<Rightarrow> nb_cable option" where
  "cable_at s \<equiv> dget (nb_cables s)"

definition terminates :: "nb_cable \<Rightarrow> json \<Rightarrow> bool" where
  "terminates c x \<longleftrightarrow> cb_termination_a_id c = x \<or> cb_termination_b_id c = x"

definition connects :: "nb_cable \<Rightarrow> json \<Rightarrow> json \<Rightarrow> bool" where
  "connects c x y \<longleftrightarrow> cb_termination_a_id c = x \<and> cb_termination_b_id c = y \<or> cb_termination_b_id c = x \<and> cb_termination_a_id c = y"

text \<open>A record as the tables have it, and the interface of a name on a device given by name or identifier.\<close>

definition fetched :: "dcim \<Rightarrow> iface \<Rightarrow> bool" where
  "fetched s r \<longleftrightarrow> iface_at s (if_id r) = Some (if_attrs r) \<and>
     (case if_cable r of
        None \<Rightarrow> \<forall>c cb. cable_at s c = Some cb \<longrightarrow> \<not> terminates cb (if_id r)
      | Some c \<Rightarrow> \<exists>cb. cable_at s c = Some cb \<and> terminates cb (if_id r))"

definition device_named :: "dcim \<Rightarrow> json \<Rightarrow> json \<Rightarrow> bool" where
  "device_named s d name = (case map_of (nb_devices s) d of None \<Rightarrow> False | Some a \<Rightarrow> dget a ''name'' = Some name)"

definition named_on :: "dcim \<Rightarrow> json \<Rightarrow> json \<Rightarrow> json \<Rightarrow> bool" where
  "named_on s dev name x \<longleftrightarrow>
     (\<exists>a d. iface_at s x = Some a \<and> dget a ''name'' = Some name \<and> dget a ''device'' = Some d \<and> (d = dev \<or> device_named s d dev))"

definition same_dcim :: "dcim \<Rightarrow> dcim \<Rightarrow> bool" where
  "same_dcim s s' \<longleftrightarrow> iface_at s' = iface_at s \<and> cable_at s' = cable_at s \<and> map_of (nb_devices s') = map_of (nb_devices s)"

text \<open>Only the row of one interface may differ; only the cables may differ.\<close>

definition only_interface :: "json \<Rightarrow> dcim \<Rightarrow> dcim \<Rightarrow> bool" where
  "only_interface x s s' \<longleftrightarrow> (\<forall>y. y \<noteq> x \<longrightarrow> iface_at s' y = iface_at s y) \<and> cable_at s' = cable_at s \<and> map_of (nb_devices s') = map_of (nb_devices s)"

definition only_cables :: "dcim \<Rightarrow> dcim \<Rightarrow> bool" where
  "only_cables s s' \<longleftrightarrow> iface_at s' = iface_at s \<and> map_of (nb_devices s') = map_of (nb_devices s)"

definition has_attrs :: "nautobot_dcim \<Rightarrow> json dict \<Rightarrow> json dict \<Rightarrow> bool" where
  "has_attrs nb attrs a \<longleftrightarrow> (\<forall>k v. dget attrs k = Some v \<and> k \<noteq> ''id'' \<longrightarrow> dget a k = Some (stored_as nb k v))"

definition reads_served :: "nautobot_dcim \<Rightarrow> bool" where
  "reads_served nb \<longleftrightarrow>
     (\<forall>x s r s'. interfaces_get_id nb x s = (r, s') \<longrightarrow> same_dcim s s' \<and>
        (case r of Inl _ \<Rightarrow> True | Inr None \<Rightarrow> iface_at s x = None | Inr (Some i) \<Rightarrow> if_id i = x \<and> fetched s i)) \<and>
     (\<forall>dev name s r s'. interfaces_get_on nb dev name s = (r, s') \<longrightarrow> same_dcim s s' \<and>
        (\<forall>i. r = Inr (Some i) \<longrightarrow> fetched s i \<and> named_on s dev name (if_id i))) \<and>
     (\<forall>c s r s'. cable_details nb c s = (r, s') \<longrightarrow> same_dcim s s' \<and> (\<forall>cb. r = Inr cb \<longrightarrow> cable_at s c = Some cb)) \<and>
     (\<forall>x s r s'. cables_get_a nb x s = (r, s') \<longrightarrow> same_dcim s s' \<and>
        (\<forall>c. r = Inr (Some c) \<longrightarrow> (\<exists>cb. cable_at s c = Some cb \<and> cb_termination_a_id cb = x)))"

definition interfaces_served :: "nautobot_dcim \<Rightarrow> bool" where
  "interfaces_served nb \<longleftrightarrow>
     (\<forall>attrs x s r s'. dget attrs ''id'' = Some x \<and> interfaces_create nb attrs s = (r, s') \<longrightarrow> only_interface x s s' \<and>
        (\<forall>i. r = Inr i \<longrightarrow> iface_at s x = None \<and> if_id i = x \<and> fetched s' i \<and> has_attrs nb attrs (if_attrs i))) \<and>
     (\<forall>x attrs s r s'. interface_save nb x attrs s = (r, s') \<longrightarrow>
        (case r of
           Inl _ \<Rightarrow> same_dcim s s'
         | Inr _ \<Rightarrow> only_interface x s s' \<and>
             (\<exists>a a'. iface_at s x = Some a \<and> iface_at s' x = Some a' \<and>
                (\<forall>k. dget a' k = (case dget attrs k of None \<Rightarrow> dget a k | Some v \<Rightarrow> Some (stored_as nb k v)))))) \<and>
     (\<forall>x s r s'. interface_delete nb x s = (r, s') \<longrightarrow>
        (case r of
           Inl _ \<Rightarrow> same_dcim s s'
         | Inr _ \<Rightarrow> iface_at s' = (iface_at s)(x := None) \<and> map_of (nb_devices s') = map_of (nb_devices s) \<and>
             (\<forall>c cb. cable_at s c = Some cb \<and> \<not> terminates cb x \<longrightarrow> cable_at s' c = Some cb)))"

definition cables_served :: "nautobot_dcim \<Rightarrow> bool" where
  "cables_served nb \<longleftrightarrow>
     (\<forall>cb s r s'. cables_create nb cb s = (r, s') \<longrightarrow>
        (case r of Inl _ \<Rightarrow> same_dcim s s'
         | Inr _ \<Rightarrow> only_cables s s' \<and> (\<exists>c. cable_at s c = None \<and> cable_at s' = (cable_at s)(c \<mapsto> cb)))) \<and>
     (\<forall>c cb s r s'. cable_save nb c cb s = (r, s') \<longrightarrow>
        (case r of Inl _ \<Rightarrow> same_dcim s s' | Inr _ \<Rightarrow> only_cables s s' \<and> cable_at s' = (cable_at s)(c \<mapsto> cb))) \<and>
     (\<forall>c s r s'. cable_delete nb c s = (r, s') \<longrightarrow>
        (case r of Inl _ \<Rightarrow> same_dcim s s' | Inr _ \<Rightarrow> only_cables s s' \<and> cable_at s' = (cable_at s)(c := None)))"

lemmas reads_contract =
  reads_served_def [THEN iffD1, THEN conjunct1, rule_format]
  reads_served_def [THEN iffD1, THEN conjunct2, THEN conjunct1, rule_format]
  reads_served_def [THEN iffD1, THEN conjunct2, THEN conjunct2, THEN conjunct1, rule_format]
  reads_served_def [THEN iffD1, THEN conjunct2, THEN conjunct2, THEN conjunct2, rule_format]

lemmas interfaces_contract =
  interfaces_served_def [THEN iffD1, THEN conjunct1, rule_format]
  interfaces_served_def [THEN iffD1, THEN conjunct2, THEN conjunct1, rule_format]
  interfaces_served_def [THEN iffD1, THEN conjunct2, THEN conjunct2, rule_format]

lemmas cables_contract =
  cables_served_def [THEN iffD1, THEN conjunct1, rule_format]
  cables_served_def [THEN iffD1, THEN conjunct2, THEN conjunct1, rule_format]
  cables_served_def [THEN iffD1, THEN conjunct2, THEN conjunct2, rule_format]

lemma fetched_same: "same_dcim s s' \<Longrightarrow> fetched s i \<Longrightarrow> fetched s' i"
  by (auto simp: same_dcim_def fetched_def split: option.splits)

section \<open>Ports follow their events\<close>

text \<open>The record the handlers go on with: found, created, or created by another run meanwhile.\<close>

lemma interface_found:
  assumes "reads_served nb" "interfaces_served nb" "dget attrs ''id'' = None"
    and "bnd (interfaces_get_id nb x) (\<lambda>found. case found of Some intf \<Rightarrow> ret (Some intf) | None \<Rightarrow> create_interface nb racy x attrs) s = (Inr (Some i), s')"
  shows "if_id i = x \<and> fetched s' i \<and> only_interface x s s'"
proof -
  obtain found s1 where g: "interfaces_get_id nb x s = (Inr found, s1)"
    and k: "(case found of Some intf \<Rightarrow> ret (Some intf) | None \<Rightarrow> create_interface nb racy x attrs) s1 = (Inr (Some i), s')"
    using assms(4) unfolding bnd_Inr by blast
  note r = reads_contract(1) [OF assms(1) g]
  show ?thesis
  proof (cases found)
    case (Some j)
    then show ?thesis using k r fetched_same [of s s'] by (auto simp: only_interface_def same_dcim_def)
  next
    case None
    have d: "dget (attrs @ [(''id'', x)]) ''id'' = Some x" using assms(3) by (simp add: dget_def map_add_def)
    obtain r2 s2 where c: "interfaces_create nb (attrs @ [(''id'', x)]) s1 = (r2, s2)" by force
    note cr = interfaces_contract(1) [OF assms(2) conjI [OF d c]]
    show ?thesis
    proof (cases r2)
      case (Inr j)
      then show ?thesis using k None c r cr by (auto simp: create_interface_def only_interface_def same_dcim_def)
    next
      case (Inl ex)
      then have g2: "interfaces_get_id nb x s2 = (Inr (Some i), s')"
        using k None c by (auto simp: create_interface_def split: if_splits)
      then have "same_dcim s2 s'" "if_id i = x" "fetched s2 i" using reads_contract(1) [OF assms(1) g2] by auto
      then show ?thesis using r cr fetched_same [of s2 s'] by (auto simp: only_interface_def same_dcim_def)
    qed
  qed
qed

lemma has_attrsI:
  assumes "\<forall>k. dget a' k = (case dget (filter (\<lambda>(k, _). k \<noteq> ''id'') attrs) k of None \<Rightarrow> dget a k | Some v \<Rightarrow> Some (stored_as nb k v))"
  shows "has_attrs nb attrs a'"
proof -
  have "dget (filter (\<lambda>(k, _). k \<noteq> ''id'') attrs) k = dget attrs k" if "k \<noteq> ''id''" for k
    using that by (induction attrs) (auto simp: dget_def)
  then show ?thesis using assms by (auto simp: has_attrs_def)
qed

text \<open>Saving leaves the attributes as assigned, and hands the rest of the handler the record with its cable.\<close>

lemma sync_interface_saved:
  assumes "reads_served nb" "interfaces_served nb" "dget attrs ''id'' = None"
    and "sync_interface nb racy x attrs k s = (Inr 0, s')"
  obtains i s1 where "k i s1 = (Inr 0, s')" "only_interface x s s1" "if_id i = x"
    "\<exists>a. iface_at s1 x = Some a \<and> has_attrs nb attrs a"
    "case if_cable i of None \<Rightarrow> \<forall>c cb. cable_at s1 c = Some cb \<longrightarrow> \<not> terminates cb x | Some c \<Rightarrow> \<exists>cb. cable_at s1 c = Some cb \<and> terminates cb x"
proof -
  obtain intf s0 where f: "bnd (interfaces_get_id nb x) (\<lambda>found. case found of Some intf \<Rightarrow> ret (Some intf) | None \<Rightarrow> create_interface nb racy x attrs) s = (Inr intf, s0)"
    and k: "(case intf of None \<Rightarrow> ret 1 | Some intf \<Rightarrow> bnd (save_attributes nb intf attrs) (\<lambda>saved. if saved then k intf else ret 1)) s0 = (Inr 0, s')"
    using assms(4) unfolding sync_interface_def bnd_Inr by blast
  obtain i where i: "intf = Some i" using k by (cases intf) simp_all
  note found = interface_found [OF assms(1-3) f [unfolded i]]
  obtain s1 where sv: "interface_save nb (if_id i) (filter (\<lambda>(k, _). k \<noteq> ''id'') attrs) s0 = (Inr (), s1)" and k1: "k i s1 = (Inr 0, s')"
    using k unfolding i by (auto simp: save_attributes_def split: sum.splits prod.splits if_splits)
  have x: "if_id i = x" using found by simp
  obtain a a' where a: "only_interface x s0 s1" "iface_at s1 x = Some a'"
      "\<forall>k. dget a' k = (case dget (filter (\<lambda>(k, _). k \<noteq> ''id'') attrs) k of None \<Rightarrow> dget a k | Some v \<Rightarrow> Some (stored_as nb k v))"
    using interfaces_contract(2) [OF assms(2) sv] unfolding x by auto
  have "cable_at s1 = cable_at s0" using a(1) by (simp add: only_interface_def)
  then show thesis using that [OF k1 _ x] found a has_attrsI [OF a(3)]
    by (auto simp: only_interface_def fetched_def split: option.splits)
qed

lemma cable_managed:
  assumes "reads_served nb" "cables_served nb" "handle_cable_management nb i ev s = (Inr 0, s')"
    and "case if_cable i of None \<Rightarrow> \<forall>c cb. cable_at s c = Some cb \<longrightarrow> \<not> terminates cb (pe_uuid ev)
      | Some c \<Rightarrow> \<exists>cb. cable_at s c = Some cb \<and> terminates cb (pe_uuid ev)"
  shows "only_cables s s' \<and>
    (\<exists>sw c cb. named_on s' (pe_remote_switch_info ev) (pe_remote_port_id ev) sw \<and> cable_at s' c = Some cb \<and> connects cb (pe_uuid ev) sw) \<and>
    (\<forall>c cb. cable_at s c = Some cb \<and> \<not> terminates cb (pe_uuid ev) \<longrightarrow> cable_at s' c = Some cb)"
proof -
  obtain found s1 where g: "interfaces_get_on nb (pe_remote_switch_info ev) (pe_remote_port_id ev) s = (Inr found, s1)"
    and k: "(case found of None \<Rightarrow> ret 1 | Some sw \<Rightarrow> (case if_cable i of Some c \<Rightarrow> update_existing_cable nb c sw ev | None \<Rightarrow> create_cable nb sw ev)) s1 = (Inr 0, s')"
    using assms(3) unfolding handle_cable_management_def bnd_Inr by blast
  obtain sw where sw: "found = Some sw" using k by (cases found) simp_all
  have s1: "same_dcim s s1" "named_on s (pe_remote_switch_info ev) (pe_remote_port_id ev) (if_id sw)"
    using reads_contract(2) [OF assms(1) g] sw by simp_all
  let ?cb = "\<lparr>cb_termination_a_id = pe_uuid ev, cb_termination_b_id = if_id sw, cb_status = ''Connected''\<rparr>"
  have n: "named_on t (pe_remote_switch_info ev) (pe_remote_port_id ev) (if_id sw)" if "only_cables s1 t" for t
    using s1 that by (simp add: named_on_def device_named_def only_cables_def same_dcim_def)
  have new: "connects ?cb (pe_uuid ev) (if_id sw)" by (simp add: connects_def)
  show ?thesis
  proof (cases "if_cable i")
    case None
    then have "cables_create nb ?cb s1 = (Inr (), s')"
      using k by (auto simp: sw create_cable_def split: sum.splits prod.splits)
    from cables_contract(1) [OF assms(2) this] obtain c where c: "only_cables s1 s'" "cable_at s1 c = None" "cable_at s' = (cable_at s1)(c \<mapsto> ?cb)"
      by auto
    then show ?thesis using n [OF c(1)] new s1(1) by (auto simp: only_cables_def same_dcim_def)
  next
    case (Some c)
    obtain cb s2 where d: "cable_details nb c s1 = (Inr cb, s2)"
      and u: "(if connects cb (pe_uuid ev) (if_id sw) then ret 0 else andthen (cable_save nb c ?cb) (ret 0)) s2 = (Inr (0 :: int), s')"
      using k unfolding sw Some option.case update_existing_cable_def connects_def bnd_Inr by blast
    have s2: "same_dcim s1 s2" "cable_at s1 c = Some cb" using reads_contract(3) [OF assms(1) d] by simp_all
    have t: "terminates cb (pe_uuid ev)" using assms(4) Some s1(1) s2(2) by (auto simp: same_dcim_def)
    show ?thesis
    proof (cases "connects cb (pe_uuid ev) (if_id sw)")
      case True
      then have s': "s' = s2" using u by simp
      then have "only_cables s1 s'" using s2(1) by (simp add: only_cables_def same_dcim_def)
      then show ?thesis using n True s' s2 s1(1) by (auto simp: only_cables_def same_dcim_def)
    next
      case False
      then have "cable_save nb c ?cb s2 = (Inr (), s')" using u by (auto split: sum.splits prod.splits)
      from cables_contract(2) [OF assms(2) this] have c: "only_cables s2 s'" "cable_at s' = (cable_at s2)(c \<mapsto> ?cb)" by simp_all
      then have "only_cables s1 s'" using s2(1) by (simp add: only_cables_def same_dcim_def)
      then show ?thesis using n new c s2 s1(1) t by (auto simp: only_cables_def same_dcim_def)
    qed
  qed
qed


text \<open>Deleting a port removes its interface and no cable of another interface.\<close>

lemma port_deleted:
  assumes "reads_served nb" "interfaces_served nb" "cables_served nb"
    and "port_from_event_dict d = Inr ev" "handle_port_delete nb d s = (Inr r, s')"
  shows "r = 0 \<and> iface_at s' = (iface_at s)(pe_uuid ev := None) \<and>
    (\<forall>c cb. cable_at s c = Some cb \<and> \<not> terminates cb (pe_uuid ev) \<longrightarrow> cable_at s' c = Some cb)"
proof -
  obtain found s1 where g: "interfaces_get_id nb (pe_uuid ev) s = (Inr found, s1)"
    and k: "(case found of None \<Rightarrow> ret 0 | Some intf \<Rightarrow> bnd (cables_get_a nb (if_id intf)) (\<lambda>existing_cable.
        andthen (case existing_cable of None \<Rightarrow> ret () | Some cable \<Rightarrow> cable_delete nb cable)
        (andthen (interface_delete nb (if_id intf)) (ret 0)))) s1 = (Inr r, s')"
    using assms(4,5) unfolding handle_port_delete_def by (auto split: sum.splits prod.splits)
  note gr = reads_contract(1) [OF assms(1) g]
  show ?thesis
  proof (cases found)
    case None
    then have "r = 0" "s' = s1" using k by simp_all
    then show ?thesis using gr None by (auto simp: same_dcim_def)
  next
    case (Some i)
    have x: "if_id i = pe_uuid ev" using gr Some by simp
    obtain c s2 s3 where c: "cables_get_a nb (pe_uuid ev) s1 = (Inr c, s2)"
        "(case c of None \<Rightarrow> ret () | Some cable \<Rightarrow> cable_delete nb cable) s2 = (Inr (), s3)"
        "interface_delete nb (pe_uuid ev) s3 = (Inr (), s')" and r: "r = 0"
      using k unfolding Some option.case x bnd_Inr andthen_Inr_unit by auto
    have s2: "same_dcim s1 s2" "\<forall>y. c = Some y \<longrightarrow> (\<exists>cb. cable_at s1 y = Some cb \<and> terminates cb (pe_uuid ev))"
      using reads_contract(4) [OF assms(1) c(1)] by (auto simp: terminates_def)
    have "iface_at s3 = iface_at s2 \<and> (\<forall>y cb. cable_at s2 y = Some cb \<and> \<not> terminates cb (pe_uuid ev) \<longrightarrow> cable_at s3 y = Some cb)"
    proof (cases c)
      case None
      then show ?thesis using c(2) by simp
    next
      case (Some y)
      then show ?thesis using c(2) cables_contract(3) [OF assms(3), of y s2 "Inr ()" s3] s2 by (auto simp: only_cables_def same_dcim_def)
    qed
    then show ?thesis using interfaces_contract(3) [OF assms(2) c(3)] s2(1) gr r by (auto simp: same_dcim_def)
  qed
qed

section \<open>Port groups\<close>

lemma split1_append: "c \<in> set u \<Longrightarrow> snd (split1 c (u @ v)) = snd (split1 c u) @ v"
  by (induction u) (auto split: prod.split)

lemma lag_name_guarded:
  assumes "ge_name ev = JStr t" "good_name t"
  obtains w number nl where "lag_name ev = JStr (w @ ''-port-channel'' @ number @ nl)" "nl \<in> {[], [CHR 10]}"
    "100 \<le> the (digits number)" "the (digits number) \<le> 998" "CHR ''_'' \<notin> set t \<Longrightarrow> w @ ''-port-channel'' @ number @ nl = t"
proof -
  obtain node number nl where t: "t = node @ ''-port-channel'' @ number @ nl" "nl \<in> {[], [CHR 10]}" "node \<noteq> []" "list_all is_digit number"
      and n: "100 \<le> the (digits number)" "the (digits number) \<le> 998" using assms(2) by (auto simp: good_name_def)
  have "\<not> is_digit CHR ''_''" by code_simp
  then have u: "CHR ''_'' \<notin> set (''-port-channel'' @ number @ nl)" using t(2,4) by (auto simp: list_all_iff)
  show thesis
  proof (cases "CHR ''_'' \<in> set node")
    case True
    then show thesis using that [of "snd (split1 CHR ''_'' node)" number nl] t n assms(1) split1_append [OF True, of "''-port-channel'' @ number @ nl"]
      by (simp add: lag_name_def)
  next
    case False
    then have "CHR ''_'' \<notin> set t" using u t(1) by auto
    then show thesis using that [of node number nl] t n assms(1) by (simp add: lag_name_def)
  qed
qed

text \<open>
  A port group whose name the middleware lets through becomes, when its handler reports success, an interface of
  type \<open>lag\<close> on its node whose name still ends in \<open>-port-channelN\<close> with \<open>N\<close> from 100 to 998, and which is the
  whole name of the port group, node name included, unless that contains an underscore.  No other interface changes.
\<close>

lemma lag_synced:
  assumes "reads_served nb" "interfaces_served nb"
    and "portgroup_from_event_dict d = Inr ev" "ge_name ev = JStr t" "validate_portgroup_name (Some (JStr t)) = Inr None"
    and "handle_portgroup_create_update nb d s = (Inr 0, s')"
  shows "\<exists>a w number nl. iface_at s' (ge_uuid ev) = Some a \<and> dget a ''type'' = Some (stored_as nb ''type'' (JStr ''lag'')) \<and>
    dget a ''device'' = Some (stored_as nb ''device'' (ge_node_uuid ev)) \<and>
    dget a ''name'' = Some (stored_as nb ''name'' (JStr (w @ ''-port-channel'' @ number @ nl))) \<and> nl \<in> {[], [CHR 10]} \<and>
    100 \<le> the (digits number) \<and> the (digits number) \<le> 998 \<and> (CHR ''_'' \<notin> set t \<longrightarrow> w @ ''-port-channel'' @ number @ nl = t) \<and>
    (\<forall>y. y \<noteq> ge_uuid ev \<longrightarrow> iface_at s' y = iface_at s y)"
proof -
  have at: "dget (lag_attrs ev) ''id'' = None" by (simp add: lag_attrs_def dget_def)
  have "good_name t" using assms(5) validate_iff by blast
  then obtain w number nl where n: "lag_name ev = JStr (w @ ''-port-channel'' @ number @ nl)" "nl \<in> {[], [CHR 10]}"
      "100 \<le> the (digits number)" "the (digits number) \<le> 998" "CHR ''_'' \<notin> set t \<Longrightarrow> w @ ''-port-channel'' @ number @ nl = t"
    by (rule lag_name_guarded [OF assms(4)]) blast
  have "sync_interface nb (\<lambda>ex. (case ex of RequestError code _ \<Rightarrow> code = 400 | _ \<Rightarrow> False) \<and> contains ''unique set'' (py_lower (exn_text nb ex)))
      (ge_uuid ev) (lag_attrs ev) (\<lambda>_. ret 0) s = (Inr 0, s')"
    using assms(3,6) by (simp add: handle_portgroup_create_update_def)
  then obtain i s1 where i: "only_interface (ge_uuid ev) s s1" "\<exists>a. iface_at s1 (ge_uuid ev) = Some a \<and> has_attrs nb (lag_attrs ev) a"
    and k: "ret (0 :: int) s1 = (Inr 0, s')"
    by (rule sync_interface_saved [OF assms(1,2) at]) blast
  from i(2) obtain a where a: "iface_at s1 (ge_uuid ev) = Some a" "has_attrs nb (lag_attrs ev) a" by blast
  have "dget a ''type'' = Some (stored_as nb ''type'' (JStr ''lag''))" "dget a ''device'' = Some (stored_as nb ''device'' (ge_node_uuid ev))"
    "dget a ''name'' = Some (stored_as nb ''name'' (lag_name ev))"
    using a(2) by (simp_all add: has_attrs_def lag_attrs_def dget_def)
  then show ?thesis using a(1) n i(1) k by (auto simp: only_interface_def)
qed

section \<open>Dispatch\<close>

text \<open>An event without a handler runs nothing; Neutron's events have none, though their handlers exist.\<close>

lemma event_unhandled:
  "map_of event_handlers t = None \<Longrightarrow> t \<noteq> [] \<Longrightarrow> oslo_event_main run clients (Some (JObj ((''event_type'', JStr t) # d))) s = (Inr 6, s)"
  by (simp add: oslo_event_main_def validate_event_def jget_default_def dget_def)

lemma neutron_events_unhandled:
  "\<forall>t \<in> set [''network.create.end'', ''network.update.end'', ''network.delete.end'', ''subnet.create.end'', ''subnet.update.end'', ''subnet.delete.end''].
     map_of event_handlers t = None"
  by code_simp

text \<open>The code of a handler is lost when a later one returns another.\<close>

lemma first_code_lost:
  "run HandleProvisionEnd ev s = (Inr (Some 1), s1) \<Longrightarrow> run HandleNodeEvent ev s1 = (Inr (Some 0), s2) \<Longrightarrow>
   ev = JObj ((''event_type'', JStr ''baremetal.node.provision_set.end'') # d) \<Longrightarrow> oslo_event_main run True (Some ev) s = (Inr 0, s2)"
  by (simp add: oslo_event_main_def validate_event_def jget_default_def dget_def event_handlers_def)

section \<open>A Nautobot\<close>

definition cable_of :: "dcim \<Rightarrow> json \<Rightarrow> string option" where
  "cable_of s x = (case filter (\<lambda>(c, cb). terminates cb x \<and> cable_at s c = Some cb) (nb_cables s) of [] \<Rightarrow> None | (c, _) # _ \<Rightarrow> Some c)"

definition fetch :: "dcim \<Rightarrow> json \<Rightarrow> iface option" where
  "fetch s x = map_option (\<lambda>a. \<lparr>if_id = x, if_attrs = a, if_cable = cable_of s x\<rparr>) (iface_at s x)"

definition on_device :: "dcim \<Rightarrow> json \<Rightarrow> json \<Rightarrow> json \<Rightarrow> bool" where
  "on_device s dev name x = (case iface_at s x of None \<Rightarrow> False | Some a \<Rightarrow> dget a ''name'' = Some name \<and>
     (case dget a ''device'' of None \<Rightarrow> False | Some d \<Rightarrow> d = dev \<or> device_named s d dev))"

definition put_attrs :: "json dict \<Rightarrow> json dict \<Rightarrow> json dict" where
  "put_attrs attrs a = foldr (\<lambda>(k, v). dput k v) attrs a"

definition new_interface_id :: "json dict \<Rightarrow> json" where
  "new_interface_id attrs = (case dget attrs ''id'' of Some x \<Rightarrow> x | None \<Rightarrow> JStr (''new-'' @ json_str (jget_default attrs ''name'' JNull)))"

definition name_taken :: "dcim \<Rightarrow> json dict \<Rightarrow> bool" where
  "name_taken s attrs = list_ex (\<lambda>x. case iface_at s x of None \<Rightarrow> False
     | Some a \<Rightarrow> dget a ''device'' = dget attrs ''device'' \<and> dget a ''name'' = dget attrs ''name'') (map fst (nb_interfaces s))"

definition dcim_server :: nautobot_dcim where
  "dcim_server =
     \<lparr>interfaces_get_id = (\<lambda>x. reads (\<lambda>s. fetch s x)),
      interfaces_get_on = (\<lambda>dev name. reads (\<lambda>s. case filter (on_device s dev name) (map fst (nb_interfaces s)) of [] \<Rightarrow> None | x # _ \<Rightarrow> fetch s x)),
      interfaces_create = (\<lambda>attrs. bnd (reads (\<lambda>s. s)) (\<lambda>s. let x = new_interface_id attrs in
        if iface_at s x \<noteq> None \<or> name_taken s attrs then raise_exn (RequestError 400 ''The fields device, name must make a unique set.'')
        else andthen (updates (\<lambda>s. s\<lparr>nb_interfaces := dput x attrs (nb_interfaces s)\<rparr>)) (reads (\<lambda>s. the (fetch s x))))),
      interface_save = (\<lambda>x attrs. bnd (reads nb_interfaces) (\<lambda>d.
        case map_of d x of
          None \<Rightarrow> raise_exn (RequestError 404 ''Not found.'')
        | Some a \<Rightarrow> updates (\<lambda>s. s\<lparr>nb_interfaces := dput x (put_attrs attrs a) d\<rparr>))),
      interface_delete = (\<lambda>x. updates (\<lambda>s. s\<lparr>nb_interfaces := filter (\<lambda>e. fst e \<noteq> x) (nb_interfaces s)\<rparr>)),
      cables_create = (\<lambda>cb. bnd (reads nb_cables) (\<lambda>d. let c = ''cable-'' @ json_str (cb_termination_a_id cb) in
        if dget d c \<noteq> None then raise_exn (RequestError 400 ''cable'') else updates (\<lambda>s. s\<lparr>nb_cables := dput c cb d\<rparr>))),
      cable_details = (\<lambda>c. bnd (reads nb_cables) (\<lambda>d. case dget d c of None \<Rightarrow> raise_exn (RequestError 404 ''Not found.'') | Some cb \<Rightarrow> ret cb)),
      cable_save = (\<lambda>c cb. updates (\<lambda>s. s\<lparr>nb_cables := dput c cb (nb_cables s)\<rparr>)),
      cables_get_a = (\<lambda>x. reads (\<lambda>s. case filter (\<lambda>(c, cb). cb_termination_a_id cb = x \<and> cable_at s c = Some cb) (nb_cables s) of [] \<Rightarrow> None | (c, _) # _ \<Rightarrow> Some c)),
      cable_delete = (\<lambda>c. updates (\<lambda>s. s\<lparr>nb_cables := filter (\<lambda>e. fst e \<noteq> c) (nb_cables s)\<rparr>)),
      exn_text = (\<lambda>ex. case ex of RequestError _ t \<Rightarrow> t | _ \<Rightarrow> []),
      stored_as = (\<lambda>_ v. v)\<rparr>"

lemma fetch_fetched: "fetch s x = Some i \<Longrightarrow> if_id i = x \<and> fetched s i"
proof -
  assume f: "fetch s x = Some i"
  have "(c, cb) \<in> set (nb_cables s)" if "cable_at s c = Some cb" for c cb using that by (simp add: dget_def map_of_SomeD)
  then have "case cable_of s x of None \<Rightarrow> \<forall>c cb. cable_at s c = Some cb \<longrightarrow> \<not> terminates cb x | Some c \<Rightarrow> \<exists>cb. cable_at s c = Some cb \<and> terminates cb x"
    by (auto simp: cable_of_def filter_empty_conv split: list.splits dest!: filter_ConsD)
  then show ?thesis using f by (auto simp: fetch_def fetched_def split: option.splits)
qed

lemma fetch_None: "fetch s x = None \<longleftrightarrow> iface_at s x = None"
  by (simp add: fetch_def)

lemma on_device_iff: "on_device s dev name x \<longleftrightarrow> named_on s dev name x"
  by (auto simp: on_device_def named_on_def split: option.splits)

lemma dget_put_attrs: "dget (put_attrs attrs a) k = (case dget attrs k of None \<Rightarrow> dget a k | Some v \<Rightarrow> Some v)"
  by (induction attrs) (auto simp: put_attrs_def dget_def)

lemma map_of_without: "map_of (filter (\<lambda>e. fst e \<noteq> x) d) = (map_of d)(x := None)"
  by (induction d) (auto simp: fun_eq_iff)

lemma server_reads: "reads_served dcim_server"
proof -
  have "named_on s dev name (if_id i) \<and> fetched s i"
    if "(case filter (on_device s dev name) (map fst (nb_interfaces s)) of [] \<Rightarrow> None | x # _ \<Rightarrow> fetch s x) = Some i" for s dev name i
    using that fetch_fetched by (auto simp: on_device_iff split: list.splits dest!: filter_ConsD)
  then show ?thesis
    unfolding reads_served_def dcim_server_def
    by (auto simp: same_dcim_def fetch_None split: option.splits list.splits dest: fetch_fetched dest!: filter_ConsD)
qed

lemma server_interfaces: "interfaces_served dcim_server"
  unfolding interfaces_served_def
proof (intro conjI allI impI)
  fix attrs x s r s' assume a: "dget attrs ''id'' = Some x \<and> interfaces_create dcim_server attrs s = (r, s')"
  show "only_interface x s s'" using a by (auto simp: dcim_server_def only_interface_def new_interface_id_def Let_def split: if_splits)
  fix i assume "r = Inr i"
  then have n: "iface_at s x = None" "s' = s\<lparr>nb_interfaces := dput x attrs (nb_interfaces s)\<rparr>" "fetch s' x = Some i"
    using a by (auto simp: dcim_server_def fetch_def new_interface_id_def Let_def split: if_splits)
  show "iface_at s x = None" by (fact n(1))
  show "if_id i = x" "fetched s' i" using fetch_fetched [OF n(3)] by simp_all
  have "if_attrs i = attrs" using n(2,3) by (auto simp: fetch_def)
  then show "has_attrs dcim_server attrs (if_attrs i)" by (simp add: has_attrs_def dcim_server_def)
next
  fix x attrs s r s' assume "interface_save dcim_server x attrs s = (r, s')"
  then show "case r of Inl _ \<Rightarrow> same_dcim s s'
      | Inr _ \<Rightarrow> only_interface x s s' \<and> (\<exists>a a'. iface_at s x = Some a \<and> iface_at s' x = Some a' \<and>
          (\<forall>k. dget a' k = (case dget attrs k of None \<Rightarrow> dget a k | Some v \<Rightarrow> Some (stored_as dcim_server k v))))"
    by (auto simp: dcim_server_def same_dcim_def only_interface_def dget_put_attrs split: option.splits)
next
  fix x s r s' assume "interface_delete dcim_server x s = (r, s')"
  then show "case r of Inl _ \<Rightarrow> same_dcim s s'
      | Inr _ \<Rightarrow> iface_at s' = (iface_at s)(x := None) \<and> map_of (nb_devices s') = map_of (nb_devices s) \<and>
          (\<forall>c cb. cable_at s c = Some cb \<and> \<not> terminates cb x \<longrightarrow> cable_at s' c = Some cb)"
    by (auto simp: dcim_server_def map_of_without)
qed

lemma server_cables: "cables_served dcim_server"
proof -
  have w: "dget (filter (\<lambda>e. fst e \<noteq> c) d) = (dget d)(c := None)" for c and d :: "nb_cable dict"
    using map_of_without [of c d] by (simp add: dget_def fun_eq_iff)
  show ?thesis
    unfolding cables_served_def dcim_server_def
    by (auto simp: same_dcim_def only_cables_def dget_dput Let_def w split: if_splits)
qed

definition example_port_event :: json where
  "example_port_event =
     JObj [(''event_type'', JStr ''baremetal.port.create.end''), (''payload'', JObj [(''ironic_object.data'', JObj
       [(''uuid'', JStr ''p1''), (''name'', JStr ''n1-eno1''), (''address'', JStr ''AA:BB:CC:00:00:01''), (''node_uuid'', JStr ''n1''),
        (''physical_network'', JStr ''f20-1-network''), (''pxe_enabled'', JBool True), (''extra'', JObj [(''bios_name'', JStr ''NIC.Slot.1-1'')]),
        (''local_link_connection'', JObj [(''port_id'', JStr ''Ethernet1/1''), (''switch_info'', JStr ''f20-1-1.iad3''), (''switch_id'', JStr ''00:00:00:00:00:01'')])])])]"

definition example_port :: IronicPortEvent where
  "example_port = \<lparr>pe_uuid = JStr ''p1'', pe_name = JStr ''n1-eno1'', pe_address = JStr ''AA:BB:CC:00:00:01'', pe_node_uuid = JStr ''n1'',
     pe_physical_network = JStr ''f20-1-network'', pe_pxe_enabled = JBool True, pe_bios_name = JStr ''NIC.Slot.1-1'',
     pe_remote_port_id = JStr ''Ethernet1/1'', pe_remote_switch_info = JStr ''f20-1-1.iad3'', pe_remote_switch_id = JStr ''00:00:00:00:00:01''\<rparr>"

definition example_dcim :: dcim where
  "example_dcim = \<lparr>nb_interfaces = [(JStr ''s1'', [(''name'', JStr ''Ethernet1/1''), (''device'', JStr ''d1'')])], nb_cables = [],
     nb_devices = [(JStr ''d1'', [(''name'', JStr ''f20-1-1.iad3'')])]\<rparr>"

lemmas run_dcim = handle_port_create_update_def handle_portgroup_create_update_def sync_interface_def create_interface_def save_attributes_def
  handle_cable_management_def create_cable_def port_attrs_def lag_attrs_def dcim_server_def fetch_def cable_of_def put_attrs_def
  new_interface_id_def name_taken_def on_device_def device_named_def terminates_def dget_def Let_def

lemma example_port_event_read: "port_from_event_dict example_port_event = Inr example_port"
  by (simp add: port_from_event_dict_def ironic_payload_def example_port_event_def example_port_def jget_default_def dget_def jor_def)

lemma example_port_sync: "handle_port_create_update dcim_server example_port_event example_dcim =
    (Inr 0, snd (handle_port_create_update dcim_server example_port_event example_dcim))"
  using example_port_event_read by (simp add: run_dcim example_dcim_def example_port_def)


definition example_lag_event :: json where
  "example_lag_event =
     JObj [(''event_type'', JStr ''baremetal.portgroup.create.end''), (''payload'', JObj [(''ironic_object.data'', JObj
       [(''uuid'', JStr ''g1''), (''name'', JStr ''n1-port-channel101''), (''node_uuid'', JStr ''n1''), (''mode'', JStr ''802.3ad'')])])]"

definition example_lag :: IronicPortgroupEvent where
  "example_lag = \<lparr>ge_uuid = JStr ''g1'', ge_name = JStr ''n1-port-channel101'', ge_node_uuid = JStr ''n1'', ge_address = JNull,
     ge_mode = JStr ''802.3ad'', ge_properties = JObj [], ge_standalone_ports_supported = JBool True\<rparr>"

lemma example_lag_event_read: "portgroup_from_event_dict example_lag_event = Inr example_lag"
  by (simp add: portgroup_from_event_dict_def ironic_payload_def example_lag_event_def example_lag_def jget_default_def dget_def jor_def)

lemma example_lag_sync: "handle_portgroup_create_update dcim_server example_lag_event example_dcim =
    (Inr 0, snd (handle_portgroup_create_update dcim_server example_lag_event example_dcim))"
  using example_lag_event_read by (simp add: run_dcim example_dcim_def example_lag_def)

lemma lag_synced_example:
  "\<exists>a. iface_at (snd (handle_portgroup_create_update dcim_server example_lag_event example_dcim)) (JStr ''g1'') = Some a \<and>
     dget a ''type'' = Some (JStr ''lag'')"
proof -
  have n: "ge_name example_lag = JStr ''n1-port-channel101''" by (simp add: example_lag_def)
  have v: "validate_portgroup_name (Some (JStr ''n1-port-channel101'')) = Inr None" by code_simp
  show ?thesis
    using lag_synced [OF server_reads server_interfaces example_lag_event_read n v example_lag_sync]
    by (auto simp: example_lag_def dcim_server_def)
qed

end
