(* ===== verification/Nautobot_Interfaces.thy ===== *)
theory Nautobot_Interfaces
  imports Nautobot_Dcim
begin

text \<open>
  \<open>understack_workflows/oslo_event/nautobot_device_interface_sync.py\<close>: the interfaces of a device of Nautobot follow the
  ports of its node in Ironic, with the management interface of its controller and the cables to the switches.

  The requests to Nautobot beyond those of \<open>nautobot_dcim\<close>, the reads from Ironic and the element the iteration of a set
  yields first are fields of \<open>nautobot_sync\<close>, which the synchronisation of devices uses as well.
\<close>

section \<open>Nautobot's and Ironic's answers\<close>

record nb_device =
  dv_id :: json
  dv_attrs :: "json dict"

record ironic_port =
  ip_uuid :: string
  ip_name :: "string option"
  ip_address :: "string option"
  ip_bios_name :: "string option"
  ip_pxe_enabled :: "bool option"
  ip_physical_network :: "string option"
  ip_port_id :: "string option"
  ip_switch_info :: "string option"
  ip_switch_id :: "string option"

record ironic_node =
  nd_properties :: "json dict"
  nd_traits :: "string list"
  nd_provision_state :: string
  nd_lessee :: json
  nd_extra :: "json dict"

record nautobot_sync =
  ny_dcim :: nautobot_dcim
  interfaces_get_named :: "json \<Rightarrow> json \<Rightarrow> (dcim, iface option) act"
  interfaces_filter :: "json \<Rightarrow> (dcim, iface list) act"
  ip_addresses_get :: "json \<Rightarrow> (dcim, string option) act"
  ip_addresses_create :: "json \<Rightarrow> (dcim, string option) act"
  ip_to_interface_get :: "string \<Rightarrow> (dcim, json option option) act"
  ip_to_interface_create :: "string \<Rightarrow> json \<Rightarrow> (dcim, unit) act"
  devices_get_id :: "json \<Rightarrow> (dcim, nb_device option) act"
  devices_get_name :: "json \<Rightarrow> (dcim, nb_device option) act"
  devices_create :: "json dict \<Rightarrow> (dcim, nb_device) act"
  device_save :: "json \<Rightarrow> json dict \<Rightarrow> (dcim, unit) act"
  device_delete :: "json \<Rightarrow> (dcim, unit) act"
  ironic_get_node :: "json \<Rightarrow> (dcim, ironic_node) act"
  ironic_get_node_inventory :: "json \<Rightarrow> (dcim, json dict) act"
  ironic_list_ports :: "json \<Rightarrow> (dcim, ironic_port list) act"
  first_of_set :: "(json \<times> json) list \<Rightarrow> json \<times> json"

section \<open>Interfaces of a node\<close>

definition INTERFACE_TYPE_MAP :: "string dict" where
  "INTERFACE_TYPE_MAP = [(''slot'', ''25gbase-x-sfp28''), (''embedded'', ''25gbase-x-sfp28''), (''integrated'', ''25gbase-x-sfp28'')]"

definition get_interface_type :: "string \<Rightarrow> string" where
  "get_interface_type name =
     (case filter (\<lambda>(key, _). contains key (py_lower name)) INTERFACE_TYPE_MAP of [] \<Rightarrow> ''other'' | (_, iface_type) # _ \<Rightarrow> iface_type)"

definition get_interface_description :: "string \<Rightarrow> string" where
  "get_interface_description name =
     (if contains ''idrac'' (py_lower name) then ''Dedicated iDRAC interface''
      else (case rsplit1 CHR ''.'' name of
          [pre, suf] \<Rightarrow>
            (case dget [(''nic.integrated'', ''Integrated NIC''), (''nic.embedded'', ''Embedded NIC''), (''nic.slot'', ''NIC in Slot'')] (py_lower pre) of
               None \<Rightarrow> []
             | Some pre \<Rightarrow>
                 (case split_on CHR ''-'' suf of
                    [nic, port] \<Rightarrow> pre @ '' '' @ nic @ '' Port '' @ port
                  | [nic, port, part] \<Rightarrow> pre @ '' '' @ nic @ '' Port '' @ port @ '' Partition '' @ part
                  | _ \<Rightarrow> []))
        | _ \<Rightarrow> []))"

fun inventory_entries :: "json list \<Rightarrow> (string \<times> json) list \<Rightarrow> exn + json dict" where
  "inventory_entries [] d = Inr d"
| "inventory_entries (i # is) d =
     sbnd (jin ''mac_address'' i) (\<lambda>m. sbnd (if m then jin ''name'' i else Inr False) (\<lambda>n.
       if n then
         sbnd (sbnd (jitem i ''mac_address'') (jstring ''lower'')) (\<lambda>mac. sbnd (jitem i ''name'') (\<lambda>name.
           inventory_entries is (dput (py_lower mac) name d)))
       else inventory_entries is d))"

definition build_interface_map_from_inventory :: "json dict \<Rightarrow> exn + json dict" where
  "build_interface_map_from_inventory inventory =
     sbnd (jobject ''get'' (jget_default inventory ''inventory'' (JObj []))) (\<lambda>inv.
     sbnd (jiter (jget_default inv ''interfaces'' (JList []))) (\<lambda>interfaces. inventory_entries interfaces []))"

record InterfaceInfo =
  ii_uuid :: string
  ii_name :: string
  ii_mac_address :: string
  ii_device_uuid :: json
  ii_description :: string
  ii_interface_type :: string
  ii_enabled :: bool
  ii_mgmt_only :: bool
  ii_pxe_enabled :: bool
  ii_switch_port_id :: "string option"
  ii_switch_info :: "string option"
  ii_switch_id :: "string option"
  ii_physical_network :: "string option"

text \<open>The name of the interface; one that is not a text has no \<open>lower\<close>.\<close>

definition port_interface_name :: "json dict \<Rightarrow> ironic_port \<Rightarrow> exn + string" where
  "port_interface_name inventory_map port =
     (let inv_name = jget_default inventory_map (py_lower (py_or (ip_address port) [])) (JStr []) in
      if truthy (ip_bios_name port) then Inr (the (ip_bios_name port))
      else if json_truthy inv_name then jstring ''lower'' inv_name
      else Inr (py_or (ip_name port) (ip_uuid port)))"

definition build_interface :: "json \<Rightarrow> json dict \<Rightarrow> ironic_port \<Rightarrow> exn + InterfaceInfo" where
  "build_interface node_uuid inventory_map port =
     sbnd (port_interface_name inventory_map port) (\<lambda>name.
     Inr \<lparr>ii_uuid = ip_uuid port, ii_name = name, ii_mac_address = py_upper (py_lower (py_or (ip_address port) [])), ii_device_uuid = node_uuid,
       ii_description = get_interface_description name, ii_interface_type = get_interface_type name, ii_enabled = True,
       ii_mgmt_only = False, ii_pxe_enabled = (ip_pxe_enabled port = Some True), ii_switch_port_id = ip_port_id port,
       ii_switch_info = ip_switch_info port, ii_switch_id = ip_switch_id port, ii_physical_network = ip_physical_network port\<rparr>)"

definition build_interfaces_from_ports :: "json \<Rightarrow> ironic_port list \<Rightarrow> json dict \<Rightarrow> exn + InterfaceInfo list" where
  "build_interfaces_from_ports node_uuid ports inventory_map = smap (build_interface node_uuid inventory_map) ports"

definition interface_attrs :: "InterfaceInfo \<Rightarrow> json dict" where
  "interface_attrs i =
     [(''id'', JStr (ii_uuid i)), (''name'', JStr (ii_name i)), (''type'', JStr (ii_interface_type i)), (''status'', JStr ''Active''),
      (''mac_address'', JStr (ii_mac_address i)), (''device'', ii_device_uuid i), (''enabled'', JBool (ii_enabled i)),
      (''mgmt_only'', JBool (ii_mgmt_only i))] @
     (if ii_description i \<noteq> [] then [(''description'', JStr (ii_description i))] else [])"

definition create_nautobot_interface :: "nautobot_sync \<Rightarrow> InterfaceInfo \<Rightarrow> (dcim, iface option) act" where
  "create_nautobot_interface ny interface =
     try_except (bnd (interfaces_create (ny_dcim ny) (interface_attrs interface)) (\<lambda>i. ret (Some i)))
       (\<lambda>ex. if contains ''unique'' (py_lower (exn_text (ny_dcim ny) ex))
             then interfaces_get_id (ny_dcim ny) (JStr (ii_uuid interface)) else raise_exn ex)"

definition delete_nautobot_interface :: "nautobot_sync \<Rightarrow> iface \<Rightarrow> (dcim, unit) act" where
  "delete_nautobot_interface ny intf =
     andthen (case if_cable intf of None \<Rightarrow> ret () | Some c \<Rightarrow> try_except (cable_delete (ny_dcim ny) c) (\<lambda>_. ret ()))
       (interface_delete (ny_dcim ny) (if_id intf))"

definition is_iface_name :: "iface \<Rightarrow> string \<Rightarrow> bool" where
  "is_iface_name intf name = (dget (if_attrs intf) ''name'' = Some (JStr name))"

definition cleanup_stale_interfaces :: "nautobot_sync \<Rightarrow> json \<Rightarrow> string list \<Rightarrow> (dcim, unit) act" where
  "cleanup_stale_interfaces ny node_uuid valid_interface_ids =
     bnd (interfaces_filter ny node_uuid) (\<lambda>existing_interfaces.
       for_each (\<lambda>intf.
         if is_iface_name intf ''iDRAC'' then ret ()
         else when_act (if_id intf \<notin> set (map JStr valid_interface_ids))
           (try_except (delete_nautobot_interface ny intf) (\<lambda>_. ret ()))) existing_interfaces)"

text \<open>\<open>record.k = v\<close> under a condition, as an entry of the assignments that \<open>save\<close> sends.\<close>

definition assign_if :: "bool \<Rightarrow> string \<Rightarrow> 'v \<Rightarrow> 'v dict" where
  "assign_if b k v = (if b then [(k, v)] else [])"

lemma assign_if_Nil [simp]: "assign_if b k v = [] \<longleftrightarrow> \<not> b"
  by (simp add: assign_if_def)

lemma dget_assign_if [simp]:
  "dget (assign_if b k v @ d) j = (if b \<and> j = k then Some v else dget d j)"
  "dget (assign_if b k v) j = (if b \<and> j = k then Some v else None)"
  by (simp_all add: assign_if_def dget_def)

text \<open>The attributes \<open>_update_nautobot_interface\<close> assigns, in order.\<close>

definition interface_changes :: "InterfaceInfo \<Rightarrow> json dict \<Rightarrow> json dict" where
  "interface_changes i a =
     assign_if (ii_name i \<noteq> [] \<and> dget a ''name'' \<noteq> Some (JStr (ii_name i))) ''name'' (JStr (ii_name i)) @
     assign_if (ii_mac_address i \<noteq> [] \<and> dget a ''mac_address'' \<noteq> Some (JStr (ii_mac_address i))) ''mac_address'' (JStr (ii_mac_address i)) @
     assign_if (ii_interface_type i \<noteq> [] \<and> dget a ''type'' \<noteq> Some (JStr (ii_interface_type i))) ''type'' (JStr (ii_interface_type i)) @
     assign_if (ii_description i \<noteq> [] \<and> dget a ''description'' \<noteq> Some (JStr (ii_description i))) ''description'' (JStr (ii_description i)) @
     assign_if (dget a ''mgmt_only'' \<noteq> Some (JBool (ii_mgmt_only i))) ''mgmt_only'' (JBool (ii_mgmt_only i))"

definition update_nautobot_interface :: "nautobot_sync \<Rightarrow> InterfaceInfo \<Rightarrow> iface \<Rightarrow> (dcim, unit) act" where
  "update_nautobot_interface ny interface intf =
     andthen
       (when_act (ii_name interface \<noteq> [] \<and> \<not> is_iface_name intf (ii_name interface))
         (bnd (interfaces_get_named ny (ii_device_uuid interface) (JStr (ii_name interface))) (\<lambda>existing.
            case existing of
              None \<Rightarrow> ret ()
            | Some other \<Rightarrow> when_act (if_id other \<noteq> JStr (ii_uuid interface)) (delete_nautobot_interface ny other))))
       (let changes = interface_changes interface (if_attrs intf) in
        when_act (changes \<noteq> []) (interface_save (ny_dcim ny) (if_id intf) changes))"

definition usable :: "string option \<Rightarrow> bool" where
  "usable x = (truthy x \<and> x \<noteq> Some ''None'')"

definition sync_cable :: "nautobot_sync \<Rightarrow> InterfaceInfo \<Rightarrow> iface \<Rightarrow> (dcim, unit) act" where
  "sync_cable ny interface intf =
     (if \<not> usable (ii_switch_info interface) \<or> \<not> usable (ii_switch_port_id interface) then ret ()
      else bnd (interfaces_get_on (ny_dcim ny) (JStr (the (ii_switch_info interface))) (JStr (the (ii_switch_port_id interface)))) (\<lambda>switch_intf.
        case switch_intf of
          None \<Rightarrow> ret ()
        | Some sw \<Rightarrow>
            let cable = \<lparr>cb_termination_a_id = JStr (ii_uuid interface), cb_termination_b_id = if_id sw, cb_status = ''Connected''\<rparr> in
            (case if_cable intf of
               Some c \<Rightarrow> bnd (cable_details (ny_dcim ny) c) (\<lambda>cb.
                 if {cb_termination_a_id cb, cb_termination_b_id cb} = {JStr (ii_uuid interface), if_id sw} then ret ()
                 else cable_save (ny_dcim ny) c cable)
             | None \<Rightarrow> try_except (cables_create (ny_dcim ny) cable) (\<lambda>_. ret ()))))"

definition assign_ip_to_interface :: "nautobot_sync \<Rightarrow> json \<Rightarrow> json \<Rightarrow> (dcim, unit) act" where
  "assign_ip_to_interface ny interface_id address =
     (if \<not> json_truthy address then ret ()
      else bnd (ip_addresses_get ny address) (\<lambda>existing_ip.
      bnd (case existing_ip of
             Some ip_id \<Rightarrow> ret (Some ip_id)
           | None \<Rightarrow> try_except (bnd (ip_addresses_create ny address) (\<lambda>ip_id. ret (if truthy ip_id then ip_id else None))) (\<lambda>_. ret None)) (\<lambda>ip_id.
        case ip_id of
          None \<Rightarrow> ret ()
        | Some ip_id \<Rightarrow> bnd (ip_to_interface_get ny ip_id) (\<lambda>existing_assoc.
            case existing_assoc of
              Some _ \<Rightarrow> ret ()
            | None \<Rightarrow> try_except (ip_to_interface_create ny ip_id interface_id) (\<lambda>_. ret ())))))"

definition idrac_attrs :: "json \<Rightarrow> string \<Rightarrow> json dict" where
  "idrac_attrs device_uuid mac_address =
     [(''device'', device_uuid), (''name'', JStr ''iDRAC''), (''type'', JStr ''1000base-t''), (''mac_address'', JStr mac_address),
      (''description'', JStr ''Dedicated iDRAC interface''), (''mgmt_only'', JBool True), (''enabled'', JBool True), (''status'', JStr ''Active'')]"

definition current_mac :: "iface \<Rightarrow> json" where
  "current_mac intf = (case jget_default (if_attrs intf) ''mac_address'' JNull of JStr m \<Rightarrow> JStr (if m \<noteq> [] then py_upper m else m) | v \<Rightarrow> v)"

definition sync_idrac_interface :: "nautobot_sync \<Rightarrow> json \<Rightarrow> string \<Rightarrow> json \<Rightarrow> (dcim, unit) act" where
  "sync_idrac_interface ny device_uuid bmc_mac bmc_ip =
     (if bmc_mac = [] then ret ()
      else let mac_address = py_upper bmc_mac in
      bnd (interfaces_get_named ny device_uuid (JStr ''iDRAC'')) (\<lambda>existing.
      bnd (case existing of
             Some i \<Rightarrow> andthen (when_act (current_mac i \<noteq> JStr mac_address)
                 (interface_save (ny_dcim ny) (if_id i) [(''mac_address'', JStr mac_address)])) (ret i)
           | None \<Rightarrow> interfaces_create (ny_dcim ny) (idrac_attrs device_uuid mac_address)) (\<lambda>idrac.
        when_act (json_truthy bmc_ip \<and> json_truthy (if_id idrac)) (assign_ip_to_interface ny (if_id idrac) bmc_ip))))"

definition sync_one_interface :: "nautobot_sync \<Rightarrow> InterfaceInfo \<Rightarrow> (dcim, unit) act" where
  "sync_one_interface ny interface =
     bnd (interfaces_get_id (ny_dcim ny) (JStr (ii_uuid interface))) (\<lambda>found.
     bnd (case found of
            None \<Rightarrow> create_nautobot_interface ny interface
          | Some intf \<Rightarrow> andthen (update_nautobot_interface ny interface intf) (ret (Some intf))) (\<lambda>intf.
       case intf of None \<Rightarrow> ret () | Some intf \<Rightarrow> sync_cable ny interface intf))"

definition sync_interfaces :: "nautobot_sync \<Rightarrow> json \<Rightarrow> json dict \<Rightarrow> ironic_port list \<Rightarrow> (dcim, unit) act" where
  "sync_interfaces ny node_uuid inventory ports =
     bnd (of_sum (build_interface_map_from_inventory inventory)) (\<lambda>inventory_map.
     bnd (of_sum (build_interfaces_from_ports node_uuid ports inventory_map)) (\<lambda>interfaces.
     andthen (for_each (sync_one_interface ny) interfaces)
     (bnd (of_sum (jobject ''get'' (jget_default inventory ''inventory'' (JObj [])))) (\<lambda>inv.
     let bmc_mac = jget_default inv ''bmc_mac'' JNull; bmc_ip = jget_default inv ''bmc_address'' JNull in
     andthen (when_act (json_truthy bmc_mac) (bnd (of_sum (jstring ''upper'' bmc_mac)) (\<lambda>mac. sync_idrac_interface ny node_uuid mac bmc_ip)))
     (cleanup_stale_interfaces ny node_uuid (map ii_uuid interfaces))))))"

definition sync_interfaces_from_data :: "nautobot_sync \<Rightarrow> json \<Rightarrow> json dict \<Rightarrow> ironic_port list \<Rightarrow> (dcim, int) act" where
  "sync_interfaces_from_data ny node_uuid inventory ports =
     (if \<not> json_truthy node_uuid then ret 1
      else try_except (andthen (sync_interfaces ny node_uuid inventory ports) (ret 0)) (\<lambda>_. ret 1))"

definition sync_interfaces_to_nautobot :: "nautobot_sync \<Rightarrow> json \<Rightarrow> (dcim, int) act" where
  "sync_interfaces_to_nautobot ny node_uuid =
     try_except
       (bnd (try_except (ironic_get_node_inventory ny node_uuid) (\<lambda>_. ret [])) (\<lambda>inventory.
        bnd (ironic_list_ports ny node_uuid) (\<lambda>ports.
          sync_interfaces_from_data ny node_uuid inventory ports)))
       (\<lambda>_. ret 1)"

definition node_uuid_of_interface_event :: "json \<Rightarrow> exn + json" where
  "node_uuid_of_interface_event event_data =
     sbnd (jobject ''get'' event_data) (\<lambda>d. Inr
       (case jget_default d ''payload'' (JObj []) of
          JObj p \<Rightarrow>
            (case jget_default p ''ironic_object.data'' (JObj []) of
               JObj i \<Rightarrow> jor (jget_default i ''node_uuid'' JNull) (jor (jget_default i ''uuid'' JNull) JNull)
             | _ \<Rightarrow> JNull)
        | _ \<Rightarrow> JNull))"

definition handle_interface_sync_event :: "nautobot_sync \<Rightarrow> json \<Rightarrow> (dcim, int) act" where
  "handle_interface_sync_event ny event_data =
     bnd (of_sum (node_uuid_of_interface_event event_data)) (\<lambda>node_uuid.
       if node_uuid = JNull then ret 1 else sync_interfaces_to_nautobot ny node_uuid)"

section \<open>The interfaces of a device\<close>

definition holds_name :: "dcim \<Rightarrow> json \<Rightarrow> json \<Rightarrow> json \<Rightarrow> bool" where
  "holds_name s dev name x \<longleftrightarrow> (\<exists>a. iface_at s x = Some a \<and> dget a ''device'' = Some dev \<and> dget a ''name'' = Some name)"

text \<open>Lookups on a device, creation under an identifier Nautobot chooses, and the requests about addresses.\<close>

definition lookups_served :: "nautobot_sync \<Rightarrow> bool" where
  "lookups_served ny \<longleftrightarrow>
     (\<forall>dev name s r s'. interfaces_get_named ny dev name s = (r, s') \<longrightarrow> same_dcim s s' \<and>
        (\<forall>i. r = Inr (Some i) \<longrightarrow> fetched s i \<and> holds_name s dev name (if_id i))) \<and>
     (\<forall>dev s r s'. interfaces_filter ny dev s = (r, s') \<longrightarrow> same_dcim s s' \<and>
        (\<forall>is. r = Inr is \<longrightarrow> (\<forall>i \<in> set is. fetched s i \<and> dget (if_attrs i) ''device'' = Some dev) \<and>
           (\<forall>x a. iface_at s x = Some a \<and> dget a ''device'' = Some dev \<longrightarrow> x \<in> if_id ` set is))) \<and>
     (\<forall>attrs s i s'. dget attrs ''id'' = None \<and> interfaces_create (ny_dcim ny) attrs s = (Inr i, s') \<longrightarrow>
        iface_at s (if_id i) = None \<and> only_interface (if_id i) s s' \<and> iface_at s' (if_id i) = Some (if_attrs i) \<and> has_attrs (ny_dcim ny) attrs (if_attrs i)) \<and>
     (\<forall>D a i x. keeps (\<lambda>s. iface_at s = D) (ip_addresses_get ny a) \<and> keeps (\<lambda>s. iface_at s = D) (ip_addresses_create ny a) \<and>
        keeps (\<lambda>s. iface_at s = D) (ip_to_interface_get ny i) \<and> keeps (\<lambda>s. iface_at s = D) (ip_to_interface_create ny i x))"

lemmas lookups_contract =
  lookups_served_def [THEN iffD1, THEN conjunct1, rule_format]
  lookups_served_def [THEN iffD1, THEN conjunct2, THEN conjunct1, rule_format]
  lookups_served_def [THEN iffD1, THEN conjunct2, THEN conjunct2, THEN conjunct1, rule_format]
  lookups_served_def [THEN iffD1, THEN conjunct2, THEN conjunct2, THEN conjunct2, rule_format]

text \<open>A Nautobot that carries out deletions and the creations that break no uniqueness.\<close>

definition serving :: "nautobot_sync \<Rightarrow> bool" where
  "serving ny \<longleftrightarrow>
     (\<forall>x s. iface_at s x \<noteq> None \<longrightarrow> (\<exists>s'. interface_delete (ny_dcim ny) x s = (Inr (), s'))) \<and>
     (\<forall>attrs x d n s. dget attrs ''id'' = Some x \<and> dget attrs ''device'' = Some d \<and> dget attrs ''name'' = Some n \<and> iface_at s x = None \<and>
        (\<forall>y. \<not> holds_name s d n y) \<longrightarrow> (\<exists>i s'. interfaces_create (ny_dcim ny) attrs s = (Inr i, s')))"

definition verbatim :: "nautobot_dcim \<Rightarrow> bool" where
  "verbatim nb \<longleftrightarrow> stored_as nb = (\<lambda>k v. v)"

text \<open>The interface as its port describes it.\<close>

definition shows_interface :: "InterfaceInfo \<Rightarrow> json dict \<Rightarrow> bool" where
  "shows_interface i a \<longleftrightarrow>
     (ii_name i \<noteq> [] \<longrightarrow> dget a ''name'' = Some (JStr (ii_name i))) \<and>
     (ii_mac_address i \<noteq> [] \<longrightarrow> dget a ''mac_address'' = Some (JStr (ii_mac_address i))) \<and>
     (ii_interface_type i \<noteq> [] \<longrightarrow> dget a ''type'' = Some (JStr (ii_interface_type i))) \<and>
     (ii_description i \<noteq> [] \<longrightarrow> dget a ''description'' = Some (JStr (ii_description i))) \<and>
     dget a ''mgmt_only'' = Some (JBool (ii_mgmt_only i))"

text \<open>On the device, the name of a port is not held by another interface.\<close>

definition no_clash :: "json \<Rightarrow> InterfaceInfo list \<Rightarrow> dcim \<Rightarrow> bool" where
  "no_clash u is s \<longleftrightarrow> (\<forall>i \<in> set is. \<forall>x. holds_name s u (JStr (ii_name i)) x \<longrightarrow> x = JStr (ii_uuid i))"

lemma interface_changes_shown:
  assumes "\<forall>k. dget a' k = (case dget (interface_changes i a) k of None \<Rightarrow> dget a k | Some v \<Rightarrow> Some v)"
  shows "shows_interface i a'"
  using assms unfolding shows_interface_def interface_changes_def by auto

lemma interface_changes_Nil: "interface_changes i a = [] \<Longrightarrow> shows_interface i a"
  by (auto simp: interface_changes_def shows_interface_def)

lemma interface_attrs_shown: "verbatim nb \<Longrightarrow> has_attrs nb (interface_attrs i) a \<Longrightarrow> shows_interface i a \<and> dget a ''device'' = Some (ii_device_uuid i)"
  by (auto simp: has_attrs_def interface_attrs_def shows_interface_def dget_def verbatim_def)

text \<open>Updating an interface whose name nobody else holds changes only its own row.\<close>

lemma update_interface_shown:
  assumes "interfaces_served (ny_dcim ny)" "lookups_served ny" "verbatim (ny_dcim ny)" "fetched s j" "if_id j = JStr (ii_uuid i)"
    and "\<forall>x. holds_name s (ii_device_uuid i) (JStr (ii_name i)) x \<longrightarrow> x = JStr (ii_uuid i)"
    and "update_nautobot_interface ny i j s = (Inr (), s')"
  shows "only_interface (if_id j) s s' \<and> (\<exists>a. iface_at s' (if_id j) = Some a \<and> shows_interface i a \<and> dget a ''device'' = dget (if_attrs j) ''device'')"
proof -
  let ?ch = "interface_changes i (if_attrs j)"
  obtain s1 where c: "when_act (ii_name i \<noteq> [] \<and> \<not> is_iface_name j (ii_name i))
         (bnd (interfaces_get_named ny (ii_device_uuid i) (JStr (ii_name i))) (\<lambda>existing. case existing of None \<Rightarrow> ret ()
            | Some other \<Rightarrow> when_act (if_id other \<noteq> JStr (ii_uuid i)) (delete_nautobot_interface ny other))) s = (Inr (), s1)"
    and u: "when_act (?ch \<noteq> []) (interface_save (ny_dcim ny) (if_id j) ?ch) s1 = (Inr (), s')"
    using assms(7) unfolding update_nautobot_interface_def Let_def andthen_Inr_unit by blast
  have same: "same_dcim s s1"
  proof (cases "ii_name i \<noteq> [] \<and> \<not> is_iface_name j (ii_name i)")
    case True
    then obtain e t where g: "interfaces_get_named ny (ii_device_uuid i) (JStr (ii_name i)) s = (Inr e, t)"
      and k: "(case e of None \<Rightarrow> ret () | Some other \<Rightarrow> when_act (if_id other \<noteq> JStr (ii_uuid i)) (delete_nautobot_interface ny other)) t = (Inr (), s1)"
      using c by (auto split: sum.splits prod.splits)
    note r = lookups_contract(1) [OF assms(2) g]
    have "s1 = t" using k r assms(6) by (cases e) auto
    then show ?thesis using r by simp
  next
    case False
    then have "s1 = s" using c unfolding when_act_apply if_not_P [OF False] by simp
    then show ?thesis by (simp add: same_dcim_def)
  qed
  have row: "iface_at s1 (if_id j) = Some (if_attrs j)" using same assms(4) by (simp add: same_dcim_def fetched_def)
  show ?thesis
  proof (cases "?ch = []")
    case True
    then show ?thesis using u row same interface_changes_Nil [OF True] by (auto simp: only_interface_def same_dcim_def)
  next
    case False
    then have "interface_save (ny_dcim ny) (if_id j) ?ch s1 = (Inr (), s')" using u by simp
    from interfaces_contract(2) [OF assms(1) this, unfolded assms(3) [unfolded verbatim_def]] row
    obtain a' where a': "only_interface (if_id j) s1 s'" "iface_at s' (if_id j) = Some a'"
      "\<forall>k. dget a' k = (case dget ?ch k of None \<Rightarrow> dget (if_attrs j) k | Some v \<Rightarrow> Some v)" by auto
    moreover have "dget ?ch ''device'' = None" by (simp add: interface_changes_def)
    ultimately show ?thesis using same interface_changes_shown [OF a'(3)] by (auto simp: only_interface_def same_dcim_def)
  qed
qed

lemma sync_cable_rows:
  assumes "reads_served (ny_dcim ny)" "cables_served (ny_dcim ny)"
  shows "keeps (\<lambda>s. iface_at s = D) (sync_cable ny i j)"
proof -
  have k: "keeps (\<lambda>s. iface_at s = D) (interfaces_get_on (ny_dcim ny) d n)" "keeps (\<lambda>s. iface_at s = D) (cable_details (ny_dcim ny) c)" for d n c
    unfolding keeps_def using reads_contract(2,3) [OF assms(1)] by (metis prod.collapse same_dcim_def)+
  have "iface_at (snd (cables_create (ny_dcim ny) cb s)) = iface_at s" "iface_at (snd (cable_save (ny_dcim ny) c cb s)) = iface_at s" for c cb s
    using cables_contract(1) [OF assms(2), of cb s "fst (cables_create (ny_dcim ny) cb s)" "snd (cables_create (ny_dcim ny) cb s)"]
      cables_contract(2) [OF assms(2), of c cb s "fst (cable_save (ny_dcim ny) c cb s)" "snd (cable_save (ny_dcim ny) c cb s)"]
    by (simp_all add: same_dcim_def only_cables_def split: sum.splits)
  then have k2: "keeps (\<lambda>s. iface_at s = D) (cables_create (ny_dcim ny) cb)" "keeps (\<lambda>s. iface_at s = D) (cable_save (ny_dcim ny) c cb)" for c cb
    by (simp_all add: keeps_def)
  show ?thesis unfolding sync_cable_def Let_def by (intro act_rules k k2)
qed

lemma sync_one_shown:
  assumes "reads_served (ny_dcim ny)" "interfaces_served (ny_dcim ny)" "cables_served (ny_dcim ny)" "lookups_served ny" "serving ny" "verbatim (ny_dcim ny)"
    and "\<forall>x. holds_name s (ii_device_uuid i) (JStr (ii_name i)) x \<longrightarrow> x = JStr (ii_uuid i)" "sync_one_interface ny i s = (Inr (), s')"
  shows "(\<forall>y. y \<noteq> JStr (ii_uuid i) \<longrightarrow> iface_at s' y = iface_at s y) \<and>
    (\<exists>a. iface_at s' (JStr (ii_uuid i)) = Some a \<and> shows_interface i a)"
proof -
  let ?x = "JStr (ii_uuid i)"
  obtain found s1 m s2 where g: "interfaces_get_id (ny_dcim ny) ?x s = (Inr found, s1)"
    and k: "(case found of None \<Rightarrow> create_nautobot_interface ny i | Some intf \<Rightarrow> andthen (update_nautobot_interface ny i intf) (ret (Some intf))) s1 = (Inr m, s2)"
    and cb: "(case m of None \<Rightarrow> ret () | Some intf \<Rightarrow> sync_cable ny i intf) s2 = (Inr (), s')"
    using assms(8) unfolding sync_one_interface_def bnd_Inr by blast
  note r = reads_contract(1) [OF assms(1) g]
  have nc: "\<forall>x. holds_name s1 (ii_device_uuid i) (JStr (ii_name i)) x \<longrightarrow> x = ?x" using assms(7) r by (simp add: holds_name_def same_dcim_def)
  have s': "iface_at s' = iface_at s2"
  proof (cases m)
    case (Some j)
    then show ?thesis using keepsD [OF sync_cable_rows [OF assms(1,3), of "iface_at s2" i j], of s2] cb by simp
  qed (use cb in simp)
  have "only_interface ?x s1 s2 \<and> (\<exists>a. iface_at s2 ?x = Some a \<and> shows_interface i a)"
  proof (cases found)
    case (Some j)
    then have j: "fetched s1 j" "if_id j = ?x" using r fetched_same by auto
    have "update_nautobot_interface ny i j s1 = (Inr (), s2)" using k unfolding Some option.case andthen_Inr_unit by simp
    from update_interface_shown [OF assms(2,4,6) j nc this] show ?thesis using j(2) by auto
  next
    case None
    have at: "dget (interface_attrs i) ''id'' = Some ?x" "dget (interface_attrs i) ''device'' = Some (ii_device_uuid i)"
      "dget (interface_attrs i) ''name'' = Some (JStr (ii_name i))" by (simp_all add: interface_attrs_def dget_def)
    have n: "iface_at s1 ?x = None" using r None by (simp add: same_dcim_def)
    then have "\<not> holds_name s1 (ii_device_uuid i) (JStr (ii_name i)) y" for y using nc by (auto simp: holds_name_def)
    then obtain j t where cr: "interfaces_create (ny_dcim ny) (interface_attrs i) s1 = (Inr j, t)"
      using assms(5) at n unfolding serving_def by metis
    then have "s2 = t" using k None by (simp add: create_nautobot_interface_def)
    then show ?thesis using interfaces_contract(1) [OF assms(2) conjI [OF at(1) cr]] interface_attrs_shown [OF assms(6)]
      by (auto simp: fetched_def)
  qed
  then show ?thesis using s' r by (auto simp: only_interface_def same_dcim_def)
qed

lemma clash_kept:
  assumes "no_clash u all s" "distinct (map ii_name all)" "i \<in> set all" "ii_name i \<noteq> []"
    and "\<forall>y. y \<noteq> JStr (ii_uuid i) \<longrightarrow> iface_at s' y = iface_at s y" "iface_at s' (JStr (ii_uuid i)) = Some a" "shows_interface i a"
  shows "no_clash u all s'"
  unfolding no_clash_def
proof (intro ballI allI impI)
  fix k x assume k: "k \<in> set all" "holds_name s' u (JStr (ii_name k)) x"
  show "x = JStr (ii_uuid k)"
  proof (cases "x = JStr (ii_uuid i)")
    case True
    then have "ii_name k = ii_name i" using k(2) assms(4,6,7) by (auto simp: holds_name_def shows_interface_def)
    then have "k = i" using assms(2,3) k(1) by (metis distinct_map inj_onD)
    then show ?thesis using True by simp
  next
    case False
    then have "holds_name s u (JStr (ii_name k)) x" using k(2) assms(5) by (simp add: holds_name_def)
    then show ?thesis using assms(1) k(1) by (auto simp: no_clash_def)
  qed
qed

text \<open>The contracts of all the requests the synchronisation of interfaces makes.\<close>

definition nautobot_ok :: "nautobot_sync \<Rightarrow> bool" where
  "nautobot_ok ny \<longleftrightarrow> reads_served (ny_dcim ny) \<and> interfaces_served (ny_dcim ny) \<and> cables_served (ny_dcim ny) \<and> lookups_served ny \<and> serving ny \<and>
     verbatim (ny_dcim ny)"

lemma sync_all_shown:
  assumes ok: "nautobot_ok ny" and all: "distinct (map ii_name all)" "\<forall>i \<in> set all. ii_device_uuid i = u \<and> ii_name i \<noteq> []"
  shows "set xs \<subseteq> set all \<Longrightarrow> distinct (map ii_uuid xs) \<Longrightarrow> no_clash u all s \<Longrightarrow> for_each (sync_one_interface ny) xs s = (Inr (), s') \<Longrightarrow>
    (\<forall>y. y \<notin> (JStr \<circ> ii_uuid) ` set xs \<longrightarrow> iface_at s' y = iface_at s y) \<and>
    (\<forall>i \<in> set xs. \<exists>a. iface_at s' (JStr (ii_uuid i)) = Some a \<and> shows_interface i a)"
proof (induction xs arbitrary: s)
  case (Cons i xs)
  obtain s1 where st: "sync_one_interface ny i s = (Inr (), s1)" "for_each (sync_one_interface ny) xs s1 = (Inr (), s')"
    using Cons.prems(4) unfolding for_each.simps andthen_Inr_unit by blast
  have i: "i \<in> set all" "ii_device_uuid i = u" "ii_name i \<noteq> []" using Cons.prems(1) all(2) by auto
  have "\<forall>x. holds_name s (ii_device_uuid i) (JStr (ii_name i)) x \<longrightarrow> x = JStr (ii_uuid i)" using Cons.prems(3) i by (simp add: no_clash_def)
  from sync_one_shown [OF _ _ _ _ _ _ this st(1)] ok obtain a where a: "\<forall>y. y \<noteq> JStr (ii_uuid i) \<longrightarrow> iface_at s1 y = iface_at s y"
      "iface_at s1 (JStr (ii_uuid i)) = Some a" "shows_interface i a" by (auto simp: nautobot_ok_def)
  have "no_clash u all s1" by (rule clash_kept [OF Cons.prems(3) all(1) i(1,3) a])
  from Cons.IH [OF _ _ this st(2)] Cons.prems(1,2)
  have IH: "\<forall>y. y \<notin> (JStr \<circ> ii_uuid) ` set xs \<longrightarrow> iface_at s' y = iface_at s1 y"
      "\<forall>i \<in> set xs. \<exists>a. iface_at s' (JStr (ii_uuid i)) = Some a \<and> shows_interface i a" by simp_all
  moreover have "JStr (ii_uuid i) \<notin> (JStr \<circ> ii_uuid) ` set xs" using Cons.prems(2) by auto
  ultimately have "iface_at s' (JStr (ii_uuid i)) = Some a" using a(2) by simp
  then show ?case using IH a by simp
qed simp

lemma upper_char_again: "upper_char (upper_char c) = upper_char c"
proof (cases "97 \<le> (of_char c :: nat) \<and> (of_char c :: nat) \<le> 122")
  case True
  then have "(of_char c - 32 :: nat) < 256" by linarith
  then have "of_char (upper_char c) = (of_char c - 32 :: nat)" using True by (simp add: upper_char_def Let_def)
  then have "\<not> (97 \<le> (of_char (upper_char c) :: nat))" using True by linarith
  then show ?thesis by (simp add: upper_char_def [of "upper_char c"])
next
  case False
  then have "upper_char c = c" by (auto simp: upper_char_def Let_def)
  then show ?thesis by simp
qed

lemma py_upper_again [simp]: "py_upper (py_upper t) = py_upper t"
  by (simp add: py_upper_def upper_char_again)

text \<open>The management interface: found or created under a new identifier, with the controller's address.\<close>

lemma idrac_synced:
  assumes ok: "nautobot_ok ny" and "mac \<noteq> []" "sync_idrac_interface ny u mac ip s = (Inr (), s')"
  obtains x a m where "\<forall>y. y \<noteq> x \<longrightarrow> iface_at s' y = iface_at s y" "iface_at s x = None \<or> holds_name s u (JStr ''iDRAC'') x"
    "iface_at s' x = Some a" "dget a ''device'' = Some u" "dget a ''name'' = Some (JStr ''iDRAC'')"
    "dget a ''mac_address'' = Some (JStr m)" "py_upper m = py_upper mac"
proof -
  have c: "lookups_served ny" "interfaces_served (ny_dcim ny)" and v: "stored_as (ny_dcim ny) = (\<lambda>k v. v)"
    using ok by (simp_all add: nautobot_ok_def verbatim_def)
  obtain e s1 i s2 where g: "interfaces_get_named ny u (JStr ''iDRAC'') s = (Inr e, s1)"
    and k: "(case e of Some i \<Rightarrow> andthen (when_act (current_mac i \<noteq> JStr (py_upper mac)) (interface_save (ny_dcim ny) (if_id i) [(''mac_address'', JStr (py_upper mac))])) (ret i)
        | None \<Rightarrow> interfaces_create (ny_dcim ny) (idrac_attrs u (py_upper mac))) s1 = (Inr i, s2)"
    and a: "when_act (json_truthy ip \<and> json_truthy (if_id i)) (assign_ip_to_interface ny (if_id i) ip) s2 = (Inr (), s')"
    using assms(2,3) unfolding sync_idrac_interface_def if_not_P [OF assms(2)] Let_def bnd_Inr by blast
  note r = lookups_contract(1) [OF c(1) g]
  have "keeps (\<lambda>t. iface_at t = iface_at s2) (when_act (json_truthy ip \<and> json_truthy (if_id i)) (assign_ip_to_interface ny (if_id i) ip))"
    unfolding assign_ip_to_interface_def using lookups_contract(4) [OF c(1)] by (intro act_rules) simp_all
  then have s': "iface_at s' = iface_at s2" using a by (auto simp: keeps_def dest!: spec [of _ s2])
  show thesis
  proof (cases e)
    case None
    then have "interfaces_create (ny_dcim ny) (idrac_attrs u (py_upper mac)) s1 = (Inr i, s2)" using k by simp
    moreover have "dget (idrac_attrs u (py_upper mac)) ''id'' = None" by (simp add: idrac_attrs_def dget_def)
    ultimately have "iface_at s1 (if_id i) = None" "only_interface (if_id i) s1 s2" "iface_at s2 (if_id i) = Some (if_attrs i)"
      "has_attrs (ny_dcim ny) (idrac_attrs u (py_upper mac)) (if_attrs i)" using lookups_contract(3) [OF c(1)] by blast+
    then show thesis using that [of "if_id i" "if_attrs i" "py_upper mac"] r s'
      by (simp add: only_interface_def same_dcim_def has_attrs_def idrac_attrs_def dget_def v)
  next
    case (Some j)
    have j: "fetched s j" "holds_name s u (JStr ''iDRAC'') (if_id j)" using r Some by auto
    then have row: "iface_at s1 (if_id j) = Some (if_attrs j)" "dget (if_attrs j) ''device'' = Some u" "dget (if_attrs j) ''name'' = Some (JStr ''iDRAC'')"
      using r by (auto simp: fetched_def holds_name_def same_dcim_def)
    show thesis
    proof (cases "current_mac j = JStr (py_upper mac)")
      case True
      then obtain m where "dget (if_attrs j) ''mac_address'' = Some (JStr m)" "py_upper m = py_upper mac"
        by (auto simp: current_mac_def jget_default_def py_upper_def split: option.splits json.splits if_splits)
      moreover have "s2 = s1" using k Some True by simp
      ultimately show thesis using that [of "if_id j" "if_attrs j" m] j row r s' by (simp add: same_dcim_def)
    next
      case False
      then have sv: "interface_save (ny_dcim ny) (if_id j) [(''mac_address'', JStr (py_upper mac))] s1 = (Inr (), s2)"
        using k Some by (auto split: sum.splits prod.splits)
      from interfaces_contract(2) [OF c(2) sv, unfolded v] row obtain a' where a': "only_interface (if_id j) s1 s2" "iface_at s2 (if_id j) = Some a'"
        "\<forall>k. dget a' k = (case dget [(''mac_address'', JStr (py_upper mac))] k of None \<Rightarrow> dget (if_attrs j) k | Some v \<Rightarrow> Some v)" by auto
      then show thesis using that [of "if_id j" a' "py_upper mac"] j row r s' by (simp add: only_interface_def same_dcim_def dget_def)
    qed
  qed
qed

lemma stale_deleted:
  assumes ok: "nautobot_ok ny" and "fetched t j"
  shows "\<exists>s'. try_except (delete_nautobot_interface ny j) (\<lambda>_. ret ()) s = (Inr (), s') \<and> iface_at s' = (iface_at s)(if_id j := None)"
proof -
  have c: "cables_served (ny_dcim ny)" "interfaces_served (ny_dcim ny)" "serving ny" using ok by (simp_all add: nautobot_ok_def)
  obtain s1 where s1: "(case if_cable j of None \<Rightarrow> ret () | Some c \<Rightarrow> try_except (cable_delete (ny_dcim ny) c) (\<lambda>_. ret ())) s = (Inr (), s1)"
      "iface_at s1 = iface_at s"
  proof (cases "if_cable j")
    case (Some x)
    obtain r t where t: "cable_delete (ny_dcim ny) x s = (r, t)" by force
    then have "iface_at t = iface_at s"
      using cables_contract(3) [OF c(1) t] by (auto simp: only_cables_def same_dcim_def split: sum.splits)
    then show thesis using that [of t] t Some by (auto split: sum.split)
  qed (use that in simp)
  obtain r s2 where d: "interface_delete (ny_dcim ny) (if_id j) s1 = (r, s2)" by force
  have "iface_at s2 = (iface_at s)(if_id j := None)"
  proof (cases r)
    case (Inl e)
    then have "iface_at s1 (if_id j) = None" using c(3) d by (metis Inl_Inr_False Pair_inject serving_def)
    then show ?thesis using interfaces_contract(3) [OF c(2) d] Inl s1(2) by (auto simp: same_dcim_def)
  next
    case (Inr x)
    then show ?thesis using interfaces_contract(3) [OF c(2) d] s1(2) by simp
  qed
  then show ?thesis using s1 d by (auto simp: delete_nautobot_interface_def split: sum.split)
qed

lemma stale_loop:
  assumes ok: "nautobot_ok ny"
  shows "\<forall>j \<in> set js. \<exists>t. fetched t j \<Longrightarrow>
    \<exists>s'. for_each (\<lambda>intf. if is_iface_name intf ''iDRAC'' then ret () else when_act (if_id intf \<notin> V)
           (try_except (delete_nautobot_interface ny intf) (\<lambda>_. ret ()))) js s = (Inr (), s') \<and>
      iface_at s' = (\<lambda>x. if \<exists>j \<in> set js. if_id j = x \<and> \<not> is_iface_name j ''iDRAC'' \<and> x \<notin> V then None else iface_at s x)"
proof (induction js arbitrary: s)
  case (Cons j js)
  obtain t where "fetched t j" using Cons.prems by auto
  from stale_deleted [OF ok this, of s] obtain s1 where s1: "try_except (delete_nautobot_interface ny j) (\<lambda>_. ret ()) s = (Inr (), s1)"
    "iface_at s1 = (iface_at s)(if_id j := None)" by blast
  show ?case
  proof (cases "is_iface_name j ''iDRAC'' \<or> if_id j \<in> V")
    case True
    obtain s' where "for_each (\<lambda>intf. if is_iface_name intf ''iDRAC'' then ret () else when_act (if_id intf \<notin> V)
           (try_except (delete_nautobot_interface ny intf) (\<lambda>_. ret ()))) js s = (Inr (), s')"
        "iface_at s' = (\<lambda>x. if \<exists>j \<in> set js. if_id j = x \<and> \<not> is_iface_name j ''iDRAC'' \<and> x \<notin> V then None else iface_at s x)"
      using Cons.IH [of s] Cons.prems by auto
    then show ?thesis using True by (auto simp: fun_eq_iff simp del: try_except_apply)
  next
    case False
    obtain s' where "for_each (\<lambda>intf. if is_iface_name intf ''iDRAC'' then ret () else when_act (if_id intf \<notin> V)
           (try_except (delete_nautobot_interface ny intf) (\<lambda>_. ret ()))) js s1 = (Inr (), s')"
        "iface_at s' = (\<lambda>x. if \<exists>j \<in> set js. if_id j = x \<and> \<not> is_iface_name j ''iDRAC'' \<and> x \<notin> V then None else iface_at s1 x)"
      using Cons.IH [of s1] Cons.prems by auto
    then show ?thesis using False s1 by (auto simp: fun_eq_iff simp del: try_except_apply)
  qed
qed simp

lemma cleanup_rows:
  assumes ok: "nautobot_ok ny" and "cleanup_stale_interfaces ny u ids s = (Inr (), s')"
  shows "iface_at s' = (\<lambda>x. case iface_at s x of None \<Rightarrow> None
    | Some a \<Rightarrow> if dget a ''device'' = Some u \<and> dget a ''name'' \<noteq> Some (JStr ''iDRAC'') \<and> x \<notin> JStr ` set ids then None else Some a)"
proof -
  have l: "lookups_served ny" using ok by (simp add: nautobot_ok_def)
  obtain js s1 where f: "interfaces_filter ny u s = (Inr js, s1)"
    and k: "for_each (\<lambda>intf. if is_iface_name intf ''iDRAC'' then ret () else when_act (if_id intf \<notin> JStr ` set ids)
           (try_except (delete_nautobot_interface ny intf) (\<lambda>_. ret ()))) js s1 = (Inr (), s')"
    using assms(2) unfolding cleanup_stale_interfaces_def bnd_Inr set_map by blast
  note c = lookups_contract(2) [OF l f]
  have fj: "\<forall>j \<in> set js. \<exists>t. fetched t j" using c by blast
  have d: "iface_at s' = (\<lambda>x. if \<exists>j \<in> set js. if_id j = x \<and> \<not> is_iface_name j ''iDRAC'' \<and> x \<notin> JStr ` set ids then None else iface_at s1 x)"
    using stale_loop [OF ok fj, of "JStr ` set ids" s1] k by (auto simp del: try_except_apply)
  have "(\<exists>j \<in> set js. if_id j = x \<and> \<not> is_iface_name j ''iDRAC'' \<and> x \<notin> JStr ` set ids) \<longleftrightarrow>
      (\<exists>a. iface_at s x = Some a \<and> dget a ''device'' = Some u \<and> dget a ''name'' \<noteq> Some (JStr ''iDRAC'') \<and> x \<notin> JStr ` set ids)" for x
  proof
    assume "\<exists>j \<in> set js. if_id j = x \<and> \<not> is_iface_name j ''iDRAC'' \<and> x \<notin> JStr ` set ids"
    then obtain j where j: "j \<in> set js" "if_id j = x" "\<not> is_iface_name j ''iDRAC''" "x \<notin> JStr ` set ids" by blast
    then have "fetched s j" "dget (if_attrs j) ''device'' = Some u" using c by blast+
    then show "\<exists>a. iface_at s x = Some a \<and> dget a ''device'' = Some u \<and> dget a ''name'' \<noteq> Some (JStr ''iDRAC'') \<and> x \<notin> JStr ` set ids"
      using j by (auto simp: fetched_def is_iface_name_def)
  next
    assume "\<exists>a. iface_at s x = Some a \<and> dget a ''device'' = Some u \<and> dget a ''name'' \<noteq> Some (JStr ''iDRAC'') \<and> x \<notin> JStr ` set ids"
    then obtain a where a: "iface_at s x = Some a" "dget a ''device'' = Some u" "dget a ''name'' \<noteq> Some (JStr ''iDRAC'')" "x \<notin> JStr ` set ids" by blast
    then obtain j where j: "j \<in> set js" "x = if_id j" using c by blast
    then have "if_attrs j = a" using c a(1) by (auto simp: fetched_def)
    then show "\<exists>j \<in> set js. if_id j = x \<and> \<not> is_iface_name j ''iDRAC'' \<and> x \<notin> JStr ` set ids"
      using j a by (auto simp: is_iface_name_def)
  qed
  then show ?thesis using d c by (auto simp: fun_eq_iff same_dcim_def split: option.split)
qed

lemma built_for_node: "build_interfaces_from_ports u ports m = Inr is \<Longrightarrow> \<forall>i \<in> set is. ii_device_uuid i = u"
proof
  fix i assume b: "build_interfaces_from_ports u ports m = Inr is" and "i \<in> set is"
  then have "map (build_interface u m) ports = map Inr is" by (simp add: build_interfaces_from_ports_def smap_Inr)
  then have "Inr i \<in> build_interface u m ` set ports" using \<open>i \<in> set is\<close> by (metis image_eqI list.set_map)
  then show "ii_device_uuid i = u" by (auto simp: build_interface_def sbnd_def split: sum.splits)
qed

lemma sync_interfaces_run:
  assumes "build_interface_map_from_inventory inventory = Inr m" "build_interfaces_from_ports u ports m = Inr is"
    and "sync_interfaces_from_data ny u inventory ports s = (Inr 0, s')"
  obtains s1 s2 where "for_each (sync_one_interface ny) is s = (Inr (), s1)" "cleanup_stale_interfaces ny u (map ii_uuid is) s2 = (Inr (), s')"
    "s2 = s1 \<or> (\<exists>mac ip. mac \<noteq> [] \<and> sync_idrac_interface ny u mac ip s1 = (Inr (), s2))"
proof -
  have "andthen (sync_interfaces ny u inventory ports) (ret (0 :: int)) s = (Inr 0, s')"
    using assms(3) by (auto simp: sync_interfaces_from_data_def split: if_splits sum.splits prod.splits)
  then have "sync_interfaces ny u inventory ports s = (Inr (), s')" by (auto split: sum.splits prod.splits)
  then obtain s1 inv s2 where r: "for_each (sync_one_interface ny) is s = (Inr (), s1)" "cleanup_stale_interfaces ny u (map ii_uuid is) s2 = (Inr (), s')"
      "when_act (json_truthy (jget_default inv ''bmc_mac'' JNull)) (bnd (of_sum (jstring ''upper'' (jget_default inv ''bmc_mac'' JNull)))
        (\<lambda>mac. sync_idrac_interface ny u mac (jget_default inv ''bmc_address'' JNull))) s1 = (Inr (), s2)"
    using assms(2) unfolding sync_interfaces_def assms(1) Let_def by (auto simp del: when_act_apply split: sum.splits prod.splits)
  have "s2 = s1 \<or> (\<exists>mac ip. mac \<noteq> [] \<and> sync_idrac_interface ny u mac ip s1 = (Inr (), s2))"
    using r(3) by (cases "jget_default inv ''bmc_mac'' JNull") (auto split: if_splits)
  then show thesis using that r(1,2) by blast
qed


section \<open>A Nautobot and an Ironic\<close>

definition named_here :: "dcim \<Rightarrow> json \<Rightarrow> json \<Rightarrow> json \<Rightarrow> bool" where
  "named_here s dev name x = (case iface_at s x of None \<Rightarrow> False | Some a \<Rightarrow> dget a ''device'' = Some dev \<and> dget a ''name'' = Some name)"

definition on_this_device :: "dcim \<Rightarrow> json \<Rightarrow> json \<Rightarrow> bool" where
  "on_this_device s dev x = (case iface_at s x of None \<Rightarrow> False | Some a \<Rightarrow> dget a ''device'' = Some dev)"

definition fetch_device :: "dcim \<Rightarrow> json \<Rightarrow> nb_device option" where
  "fetch_device s x = map_option (\<lambda>a. \<lparr>dv_id = x, dv_attrs = a\<rparr>) (map_of (nb_devices s) x)"

definition sync_server :: "ironic_node \<Rightarrow> json dict \<Rightarrow> ironic_port list \<Rightarrow> nautobot_sync" where
  "sync_server node inventory ports =
     \<lparr>ny_dcim = dcim_server,
      interfaces_get_named = (\<lambda>dev name. reads (\<lambda>s. case filter (named_here s dev name) (map fst (nb_interfaces s)) of [] \<Rightarrow> None | x # _ \<Rightarrow> fetch s x)),
      interfaces_filter = (\<lambda>dev. reads (\<lambda>s. map (\<lambda>x. the (fetch s x)) (filter (on_this_device s dev) (map fst (nb_interfaces s))))),
      ip_addresses_get = (\<lambda>_. ret None), ip_addresses_create = (\<lambda>_. ret (Some ''ip-1'')), ip_to_interface_get = (\<lambda>_. ret None),
      ip_to_interface_create = (\<lambda>_ _. ret ()),
      devices_get_id = (\<lambda>x. reads (\<lambda>s. fetch_device s x)),
      devices_get_name = (\<lambda>name. reads (\<lambda>s. case filter (\<lambda>x. device_named s x name) (map fst (nb_devices s)) of [] \<Rightarrow> None | x # _ \<Rightarrow> fetch_device s x)),
      devices_create = (\<lambda>attrs. bnd (reads nb_devices) (\<lambda>d.
        case dget attrs ''id'' of
          None \<Rightarrow> raise_exn (RequestError 400 ''id'')
        | Some x \<Rightarrow> if map_of d x \<noteq> None then raise_exn (RequestError 400 ''id'')
            else andthen (updates (\<lambda>s. s\<lparr>nb_devices := dput x attrs d\<rparr>)) (ret \<lparr>dv_id = x, dv_attrs = attrs\<rparr>))),
      device_save = (\<lambda>x changes. bnd (reads nb_devices) (\<lambda>d.
        case map_of d x of
          None \<Rightarrow> raise_exn (RequestError 404 ''Not found.'')
        | Some a \<Rightarrow> updates (\<lambda>s. s\<lparr>nb_devices := dput x (put_attrs changes a) d\<rparr>))),
      device_delete = (\<lambda>x. updates (\<lambda>s. s\<lparr>nb_devices := filter (\<lambda>e. fst e \<noteq> x) (nb_devices s)\<rparr>)),
      ironic_get_node = (\<lambda>_. ret node), ironic_get_node_inventory = (\<lambda>_. ret inventory), ironic_list_ports = (\<lambda>_. ret ports),
      first_of_set = hd\<rparr>"

lemma named_here_iff: "named_here s dev name x \<longleftrightarrow> holds_name s dev name x"
  by (auto simp: named_here_def holds_name_def split: option.splits)

lemma server_lookups: "lookups_served (sync_server node inventory ports)"
proof -
  have n: "(case filter (named_here s dev name) (map fst (nb_interfaces s)) of [] \<Rightarrow> None | x # _ \<Rightarrow> fetch s x) = Some i \<Longrightarrow>
      fetched s i \<and> holds_name s dev name (if_id i)" for s dev name i
    using fetch_fetched by (auto simp: named_here_iff split: list.splits dest!: filter_ConsD)
  have f: "fetch s x = Some (the (fetch s x))" if "on_this_device s dev x" for s dev x
    using that by (auto simp: on_this_device_def fetch_def split: option.splits)
  have k: "x \<in> fst ` set (nb_interfaces s)" if "iface_at s x = Some a" for s x a using map_of_SomeD [OF that] by force
  show ?thesis
    unfolding lookups_served_def
  proof (intro conjI allI impI)
    fix dev name s r s' assume g: "interfaces_get_named (sync_server node inventory ports) dev name s = (r, s')"
    show "same_dcim s s'" using g by (auto simp: sync_server_def same_dcim_def)
    show "fetched s i" "holds_name s dev name (if_id i)" if "r = Inr (Some i)" for i using g that n by (auto simp: sync_server_def)
  next
    fix dev s r s' assume g: "interfaces_filter (sync_server node inventory ports) dev s = (r, s')"
    show "same_dcim s s'" using g by (auto simp: sync_server_def same_dcim_def)
    fix js assume r: "r = Inr js"
    have js: "js = map (\<lambda>x. the (fetch s x)) (filter (on_this_device s dev) (map fst (nb_interfaces s)))" using g r by (auto simp: sync_server_def)
    show "\<forall>i \<in> set js. fetched s i \<and> dget (if_attrs i) ''device'' = Some dev"
    proof
      fix i assume "i \<in> set js"
      then obtain x where x: "on_this_device s dev x" "fetch s x = Some i" using f by (auto simp: js)
      then show "fetched s i \<and> dget (if_attrs i) ''device'' = Some dev"
        using fetch_fetched [OF x(2)] by (auto simp: on_this_device_def fetched_def)
    qed
    show "x \<in> if_id ` set js" if "iface_at s x = Some a \<and> dget a ''device'' = Some dev" for x a
    proof -
      have "on_this_device s dev x" using that by (simp add: on_this_device_def)
      then have "the (fetch s x) \<in> set js" using k that by (auto simp: js)
      moreover have "if_id (the (fetch s x)) = x" using that by (auto simp: fetch_def)
      ultimately show ?thesis by (metis image_eqI)
    qed
  next
    fix attrs s i s' assume c: "dget attrs ''id'' = None \<and> interfaces_create (ny_dcim (sync_server node inventory ports)) attrs s = (Inr i, s')"
    let ?x = "new_interface_id attrs"
    have n: "iface_at s ?x = None" "s' = s\<lparr>nb_interfaces := dput ?x attrs (nb_interfaces s)\<rparr>" "fetch s' ?x = Some i"
      using c by (auto simp: sync_server_def dcim_server_def fetch_def Let_def split: if_splits)
    then have i: "if_id i = ?x" "if_attrs i = attrs" by (auto simp: fetch_def)
    show "iface_at s (if_id i) = None" "only_interface (if_id i) s s'" "iface_at s' (if_id i) = Some (if_attrs i)"
      "has_attrs (ny_dcim (sync_server node inventory ports)) attrs (if_attrs i)"
      using n i by (simp_all add: only_interface_def has_attrs_def sync_server_def dcim_server_def)
  qed (simp_all add: sync_server_def)
qed

lemma server_serving: "serving (sync_server node inventory ports)"
  unfolding serving_def
proof (intro conjI allI impI)
  show "\<exists>s'. interface_delete (ny_dcim (sync_server node inventory ports)) x s = (Inr (), s')" for x s
    by (simp add: sync_server_def dcim_server_def)
  fix attrs x d n s
  assume a: "dget attrs ''id'' = Some x \<and> dget attrs ''device'' = Some d \<and> dget attrs ''name'' = Some n \<and> iface_at s x = None \<and> (\<forall>y. \<not> holds_name s d n y)"
  then have "\<not> name_taken s attrs" by (auto simp: name_taken_def list_ex_iff holds_name_def split: option.splits)
  then show "\<exists>i s'. interfaces_create (ny_dcim (sync_server node inventory ports)) attrs s = (Inr i, s')"
    using a by (simp add: sync_server_def dcim_server_def new_interface_id_def)
qed

lemma sync_server_ok: "nautobot_ok (sync_server node inventory ports)"
  using server_reads server_interfaces server_cables server_lookups server_serving
  unfolding nautobot_ok_def verbatim_def by (simp add: sync_server_def) (simp add: dcim_server_def)

definition example_node :: ironic_node where
  "example_node = \<lparr>nd_properties = [], nd_traits = [], nd_provision_state = ''active'', nd_lessee = JNull, nd_extra = []\<rparr>"

definition example_inventory :: "json dict" where
  "example_inventory = [(''inventory'', JObj [(''system_vendor'', JObj [(''manufacturer'', JStr ''Dell''), (''serial_number'', JStr ''A1'')]),
     (''bmc_mac'', JStr ''aa'')])]"

definition example_nic :: ironic_port where
  "example_nic = \<lparr>ip_uuid = ''p1'', ip_name = None, ip_address = Some ''bb'', ip_bios_name = Some ''eno1'', ip_pxe_enabled = None,
     ip_physical_network = None, ip_port_id = None, ip_switch_info = None, ip_switch_id = None\<rparr>"

definition example_sync :: nautobot_sync where
  "example_sync = sync_server example_node example_inventory [example_nic]"

definition example_devices :: dcim where
  "example_devices = \<lparr>nb_interfaces = [(JStr ''x9'', [(''name'', JStr ''eth9''), (''device'', JStr ''n1'')])], nb_cables = [],
     nb_devices = [(JStr ''n0'', [(''name'', JStr ''Dell-A1''), (''location'', JStr ''l1''), (''rack'', JStr ''r1''), (''position'', JNum 12)])]\<rparr>"

definition code_is :: "int \<Rightarrow> (exn + int) \<times> 's \<Rightarrow> bool" where
  "code_is n r = (case fst r of Inl _ \<Rightarrow> False | Inr m \<Rightarrow> m = n)"

lemma code_isE: "code_is n r \<Longrightarrow> r = (Inr n, snd r)"
  by (cases r) (auto simp: code_is_def split: sum.splits)

definition example_iface :: InterfaceInfo where
  "example_iface = \<lparr>ii_uuid = ''p1'', ii_name = ''eno1'', ii_mac_address = ''BB'', ii_device_uuid = JStr ''n1'', ii_description = [],
     ii_interface_type = ''other'', ii_enabled = True, ii_mgmt_only = False, ii_pxe_enabled = False, ii_switch_port_id = None,
     ii_switch_info = None, ii_switch_id = None, ii_physical_network = None\<rparr>"

lemma example_built:
  "build_interface_map_from_inventory example_inventory = Inr []" "build_interfaces_from_ports (JStr ''n1'') [example_nic] [] = Inr [example_iface]"
proof -
  show "build_interface_map_from_inventory example_inventory = Inr []"
    by (simp add: build_interface_map_from_inventory_def example_inventory_def jget_default_def dget_def)
  have "get_interface_description ''eno1'' = []" "get_interface_type ''eno1'' = ''other''" "py_upper (py_lower ''bb'') = ''BB''" by code_simp+
  then show "build_interfaces_from_ports (JStr ''n1'') [example_nic] [] = Inr [example_iface]"
    by (simp add: build_interfaces_from_ports_def build_interface_def port_interface_name_def example_nic_def example_iface_def)
qed

lemma example_interfaces: "code_is 0 (sync_interfaces_from_data example_sync (JStr ''n1'') example_inventory [example_nic] example_devices)"
  by code_simp


text \<open>
  When a stale interface holds the name of a new port, the creation is refused as not unique, the port is skipped and the stale interface
  deleted at the end: the synchronisation reports success and the port has no interface.
\<close>

definition clash_devices :: dcim where
  "clash_devices = example_devices\<lparr>nb_interfaces := [(JStr ''x9'', [(''name'', JStr ''eno1''), (''device'', JStr ''n1'')])]\<rparr>"

lemma clash_skips_port:
  "code_is 0 (sync_interfaces_from_data example_sync (JStr ''n1'') example_inventory [example_nic] clash_devices) \<and>
   iface_at (snd (sync_interfaces_from_data example_sync (JStr ''n1'') example_inventory [example_nic] clash_devices)) (JStr ''p1'') = None"
  by code_simp

end
