(* ===== verification/Nautobot_Device.thy ===== *)
theory Nautobot_Device
  imports Nautobot_Interfaces Py_Uuid
begin

text \<open>
  \<open>understack_workflows/oslo_event/nautobot_device_sync.py\<close> and \<open>ironic/provision_state_mapper.py\<close>: a node of
  Ironic becomes a device of Nautobot, with the interfaces of its ports.

  A device is its dictionary of attributes, with the name of its status and the identifiers of its location, rack and tenant,
  which is what the code compares.
\<close>

section \<open>Provision states\<close>

definition STATUS_MAP :: "string dict" where
  "STATUS_MAP =
     [(''active'', ''Active''), (''enroll'', ''Planned''), (''available'', ''Available''), (''deploy failed'', ''Quarantine''),
      (''error'', ''Quarantine''), (''rescue'', ''Quarantine''), (''rescue failed'', ''Quarantine''), (''unrescueing'', ''Quarantine''),
      (''manageable'', ''Staged''), (''inspecting'', ''Provisioning''), (''deploying'', ''Provisioning''), (''cleaning'', ''Quarantine''),
      (''clean failed'', ''Quarantine''), (''deleting'', ''Decommissioning'')]"

definition ALL_IRONIC_STATES :: "string list" where
  "ALL_IRONIC_STATES =
     [''enroll'', ''verifying'', ''manageable'', ''inspecting'', ''inspect wait'', ''inspect failed'', ''cleaning'', ''clean wait'',
      ''clean failed'', ''available'', ''deploying'', ''wait call-back'', ''deploy failed'', ''active'', ''deleting'', ''error'', ''adopting'',
      ''rescuing'', ''rescue wait'', ''rescue failed'', ''rescue'', ''unrescuing'', ''unrescue failed'', ''servicing'', ''service wait'',
      ''service failed'']"

definition translate_to_nautobot :: "string \<Rightarrow> exn + string option" where
  "translate_to_nautobot provision_state =
     (case dget STATUS_MAP provision_state of
        Some status \<Rightarrow> Inr (Some status)
      | None \<Rightarrow> if provision_state \<in> set ALL_IRONIC_STATES then Inr None else Inl (ValueError (''Unknown provision_state='' @ provision_state)))"

section \<open>The device of a node\<close>

definition RETRY_ATTEMPTS :: nat where
  "RETRY_ATTEMPTS = 5"

text \<open>A connection error of \<open>requests\<close> is the exception \<open>Foreign ''ConnectionError''\<close>.\<close>

definition is_retryable_error :: "exn \<Rightarrow> bool" where
  "is_retryable_error ex = (case ex of
      Foreign name \<Rightarrow> name = ''ConnectionError''
    | RequestError code _ \<Rightarrow> code \<in> {502, 503, 504}
    | _ \<Rightarrow> False)"

text \<open>Absent values are \<open>JNull\<close> or \<open>None\<close>.\<close>

record DeviceInfo =
  di_uuid :: json
  di_name :: "string option"
  di_serial_number :: json
  di_manufacturer :: "string option"
  di_model :: "string option"
  di_memory_mb :: "int option"
  di_cpus :: "int option"
  di_cpu_arch :: json
  di_local_gb :: "int option"
  di_traits :: "string list"
  di_location_id :: json
  di_rack_id :: json
  di_position :: json
  di_face :: json
  di_status :: "string option"
  di_role :: string
  di_tenant_id :: "string option"
  di_custom_fields :: "json dict"
  di_external_cmdb_id :: "string option"

definition new_device_info :: "json \<Rightarrow> DeviceInfo" where
  "new_device_info uuid =
     \<lparr>di_uuid = uuid, di_name = None, di_serial_number = JNull, di_manufacturer = None, di_model = None, di_memory_mb = None,
      di_cpus = None, di_cpu_arch = JNull, di_local_gb = None, di_traits = [], di_location_id = JNull, di_rack_id = JNull, di_position = JNull,
      di_face = JNull, di_status = None, di_role = ''server'', di_tenant_id = None, di_custom_fields = [], di_external_cmdb_id = None\<rparr>"

definition device_manufacturer :: "string \<Rightarrow> exn + string" where
  "device_manufacturer name =
     (if contains ''DELL'' (py_upper name) then Inr ''Dell''
      else if contains ''HP'' (py_upper name) then Inr ''HPE''
      else Inl (ValueError (''Server manufacturer '' @ name @ '' not supported'')))"

definition opt_int :: "json dict \<Rightarrow> string \<Rightarrow> exn + int option" where
  "opt_int d k = (let v = jget_default d k JNull in if json_truthy v then sbnd (jint v) (\<lambda>n. Inr (Some n)) else Inr None)"

definition tenant_of_lessee :: "json \<Rightarrow> string option" where
  "tenant_of_lessee lessee =
     (if \<not> json_truthy lessee then None
      else (case lessee of
          JStr t \<Rightarrow> (case py_uuid lessee of Inr i \<Rightarrow> Some (uuid_str i) | Inl _ \<Rightarrow> None)
        | v \<Rightarrow> Some (json_str v)))"

definition populate_from_node :: "DeviceInfo \<Rightarrow> ironic_node \<Rightarrow> exn + DeviceInfo" where
  "populate_from_node info node =
     sbnd (opt_int (nd_properties node) ''memory_mb'') (\<lambda>memory_mb.
     sbnd (opt_int (nd_properties node) ''cpus'') (\<lambda>cpus.
     sbnd (opt_int (nd_properties node) ''local_gb'') (\<lambda>local_gb.
     sbnd (translate_to_nautobot (nd_provision_state node)) (\<lambda>status.
     let cmdb = jget_default (nd_extra node) ''external_cmdb_id'' JNull in
     Inr (info\<lparr>di_memory_mb := memory_mb, di_cpus := cpus, di_cpu_arch := jget_default (nd_properties node) ''cpu_arch'' JNull,
               di_local_gb := local_gb, di_traits := nd_traits node, di_status := status, di_tenant_id := tenant_of_lessee (nd_lessee node),
               di_external_cmdb_id := (if json_truthy cmdb then Some (json_str cmdb) else None)\<rparr>)))))"

definition populate_from_inventory :: "DeviceInfo \<Rightarrow> json dict \<Rightarrow> exn + DeviceInfo" where
  "populate_from_inventory info inventory =
     (if inventory = [] then Inr info
      else sbnd (jobject ''get'' (jget_default inventory ''inventory'' (JObj []))) (\<lambda>inv.
      sbnd (jobject ''get'' (jget_default inv ''system_vendor'' (JObj []))) (\<lambda>system_vendor.
      let vendor = jget_default system_vendor ''manufacturer'' JNull;
          product_name = jget_default system_vendor ''product_name'' JNull;
          serial = jget_default system_vendor ''serial_number'' JNull in
      sbnd (if json_truthy vendor then sbnd (sbnd (jstring ''upper'' vendor) device_manufacturer) (\<lambda>m. Inr (Some m)) else Inr (di_manufacturer info)) (\<lambda>manufacturer.
      Inr (info\<lparr>di_manufacturer := manufacturer,
                di_model := (if json_truthy product_name \<and> product_name \<noteq> JStr ''System'' then Some (sub_parens (json_str product_name)) else di_model info),
                di_serial_number := (if json_truthy serial then serial else di_serial_number info)\<rparr>)))))"

definition generate_device_name :: "DeviceInfo \<Rightarrow> DeviceInfo" where
  "generate_device_name info =
     (if truthy (di_manufacturer info) \<and> json_truthy (di_serial_number info)
      then info\<lparr>di_name := Some (the (di_manufacturer info) @ ''-'' @ json_str (di_serial_number info))\<rparr> else info)"

text \<open>The attribute of a record, \<open>None\<close> when it has none.\<close>

definition attr :: "json dict \<Rightarrow> string \<Rightarrow> json" where
  "attr a k = jget_default a k JNull"

fun switch_locations :: "nautobot_sync \<Rightarrow> ironic_port list \<Rightarrow> (json \<times> json) list \<Rightarrow> (dcim, (json \<times> json) list) act" where
  "switch_locations ny [] locations = ret locations"
| "switch_locations ny (port # ports) locations =
     (if \<not> usable (ip_switch_info port) then switch_locations ny ports locations
      else bnd (devices_get_name ny (JStr (the (ip_switch_info port)))) (\<lambda>device.
        case device of
          Some dev \<Rightarrow>
            if json_truthy (attr (dv_attrs dev) ''location'') \<and> json_truthy (attr (dv_attrs dev) ''rack'')
            then switch_locations ny ports (List.insert (attr (dv_attrs dev) ''location'', attr (dv_attrs dev) ''rack'') locations)
            else switch_locations ny ports locations
        | None \<Rightarrow> switch_locations ny ports locations))"

definition set_location_from_switches :: "nautobot_sync \<Rightarrow> DeviceInfo \<Rightarrow> ironic_port list \<Rightarrow> (dcim, DeviceInfo) act" where
  "set_location_from_switches ny info ports =
     try_except
       (bnd (switch_locations ny ports []) (\<lambda>locations.
          if locations = [] then ret info
          else (case first_of_set ny locations of (location_id, rack_id) \<Rightarrow> ret (info\<lparr>di_location_id := location_id, di_rack_id := rack_id\<rparr>))))
       (\<lambda>ex. if is_retryable_error ex then raise_exn ex else ret info)"

definition fetch_node_details :: "nautobot_sync \<Rightarrow> json \<Rightarrow> (dcim, DeviceInfo \<times> json dict \<times> ironic_port list) act" where
  "fetch_node_details ny node_uuid =
     bnd (ironic_get_node ny node_uuid) (\<lambda>node.
     bnd (try_except (ironic_get_node_inventory ny node_uuid) (\<lambda>ex. case ex of NotFound _ \<Rightarrow> ret [] | _ \<Rightarrow> raise_exn ex)) (\<lambda>inventory.
     bnd (ironic_list_ports ny node_uuid) (\<lambda>ports.
     bnd (of_sum (populate_from_node (new_device_info node_uuid) node)) (\<lambda>info.
     bnd (of_sum (populate_from_inventory info inventory)) (\<lambda>info.
     bnd (set_location_from_switches ny (generate_device_name info) ports) (\<lambda>info.
     ret (info, inventory, ports)))))))"

definition opt_json :: "string option \<Rightarrow> json" where
  "opt_json x = (case x of None \<Rightarrow> JNull | Some t \<Rightarrow> JStr t)"

definition device_attrs :: "DeviceInfo \<Rightarrow> json dict" where
  "device_attrs info =
     [(''id'', di_uuid info), (''name'', if truthy (di_name info) then opt_json (di_name info) else di_uuid info), (''status'', JStr ''Planned''),
      (''role'', JObj [(''name'', JStr (di_role info))]),
      (''device_type'', JObj [(''manufacturer'', JObj [(''name'', opt_json (di_manufacturer info))]), (''model'', opt_json (di_model info))]),
      (''location'', di_location_id info)]"

definition create_nautobot_device :: "nautobot_sync \<Rightarrow> DeviceInfo \<Rightarrow> (dcim, nb_device) act" where
  "create_nautobot_device ny info =
     (if \<not> json_truthy (di_location_id info) then raise_exn (ValueError ''Cannot create device without location'')
      else devices_create ny (device_attrs info))"

definition device_custom_fields :: "json dict \<Rightarrow> json dict" where
  "device_custom_fields a = (case attr a ''custom_fields'' of JObj d \<Rightarrow> d | _ \<Rightarrow> [])"

text \<open>The custom fields after the merge, and whether one was assigned.\<close>

definition merge_custom_fields :: "DeviceInfo \<Rightarrow> json dict \<Rightarrow> json dict \<times> bool" where
  "merge_custom_fields info cf =
     (let new_value = jor (opt_json (di_external_cmdb_id info)) JNull;
          start = (if new_value \<noteq> jor (attr cf ''external_cmdb_id'') JNull then (dput ''external_cmdb_id'' new_value cf, True) else (cf, False)) in
      fold (\<lambda>(k, v) (d, updated). if attr d k \<noteq> v then (dput k v d, True) else (d, updated)) (di_custom_fields info) start)"

text \<open>The attributes \<open>_update_nautobot_device\<close> assigns, in order.\<close>

definition device_changes :: "DeviceInfo \<Rightarrow> json dict \<Rightarrow> json dict" where
  "device_changes info a =
     assign_if (truthy (di_status info) \<and> attr a ''status'' \<noteq> opt_json (di_status info)) ''status'' (opt_json (di_status info)) @
     assign_if (truthy (di_name info) \<and> attr a ''name'' \<noteq> opt_json (di_name info)) ''name'' (opt_json (di_name info)) @
     assign_if (json_truthy (di_serial_number info) \<and> attr a ''serial'' \<noteq> di_serial_number info) ''serial'' (di_serial_number info) @
     assign_if (json_truthy (di_location_id info) \<and> attr a ''location'' \<noteq> di_location_id info) ''location'' (di_location_id info) @
     assign_if (json_truthy (di_rack_id info) \<and> attr a ''rack'' \<noteq> di_rack_id info) ''rack'' (di_rack_id info) @
     assign_if (di_position info \<noteq> JNull \<and> attr a ''position'' \<noteq> di_position info) ''position'' (di_position info) @
     assign_if (di_position info \<noteq> JNull \<and> attr a ''face'' \<noteq> jor (di_face info) (JStr ''front'')) ''face'' (jor (di_face info) (JStr ''front'')) @
     assign_if (truthy (di_tenant_id info) \<and> attr a ''tenant'' \<noteq> opt_json (di_tenant_id info)) ''tenant'' (opt_json (di_tenant_id info)) @
     (case merge_custom_fields info (device_custom_fields a) of (cf, cf_updated) \<Rightarrow> assign_if cf_updated ''custom_fields'' (JObj cf))"

definition update_nautobot_device :: "nautobot_sync \<Rightarrow> DeviceInfo \<Rightarrow> nb_device \<Rightarrow> (dcim, bool) act" where
  "update_nautobot_device ny info device =
     (let changes = device_changes info (dv_attrs device) in
      if changes \<noteq> [] then andthen (device_save ny (dv_id device) changes) (ret True) else ret False)"

definition preserve_location_from_device :: "DeviceInfo \<Rightarrow> nb_device \<Rightarrow> DeviceInfo" where
  "preserve_location_from_device info device =
     (let a = dv_attrs device;
          info1 = (if json_truthy (attr a ''location'') \<and> \<not> json_truthy (di_location_id info) then info\<lparr>di_location_id := attr a ''location''\<rparr> else info);
          info2 = (if json_truthy (attr a ''rack'') \<and> \<not> json_truthy (di_rack_id info1) then info1\<lparr>di_rack_id := attr a ''rack''\<rparr> else info1);
          info3 = (if attr a ''position'' \<noteq> JNull then info2\<lparr>di_position := attr a ''position''\<rparr> else info2) in
      if json_truthy (attr a ''face'') then info3\<lparr>di_face := attr a ''face''\<rparr> else info3)"

definition delete_old_device_by_name :: "nautobot_sync \<Rightarrow> DeviceInfo \<Rightarrow> (dcim, DeviceInfo) act" where
  "delete_old_device_by_name ny info =
     (if \<not> truthy (di_name info) then ret info
      else bnd (devices_get_name ny (opt_json (di_name info))) (\<lambda>device.
        case device of
          None \<Rightarrow> ret info
        | Some dev \<Rightarrow> andthen (device_delete ny (dv_id dev)) (ret (preserve_location_from_device info dev))))"

definition find_or_create_nautobot_device :: "nautobot_sync \<Rightarrow> DeviceInfo \<Rightarrow> (dcim, nb_device \<times> DeviceInfo) act" where
  "find_or_create_nautobot_device ny info =
     bnd (devices_get_id ny (di_uuid info)) (\<lambda>device.
       case device of
         Some dev \<Rightarrow> ret (dev, info)
       | None \<Rightarrow>
           bnd (delete_old_device_by_name ny info) (\<lambda>info.
             if \<not> json_truthy (di_location_id info) then raise_exn (DeviceNotReadyError ''No location yet (awaiting inspection)'')
             else bnd (create_nautobot_device ny info) (\<lambda>dev. ret (dev, info))))"

definition sync_device_body :: "nautobot_sync \<Rightarrow> json \<Rightarrow> bool \<Rightarrow> (dcim, int) act" where
  "sync_device_body ny node_uuid with_interfaces =
     bnd (fetch_node_details ny node_uuid) (\<lambda>(info, inventory, ports).
     bnd (find_or_create_nautobot_device ny info) (\<lambda>(device, info).
     andthen (update_nautobot_device ny info device)
     (andthen (if with_interfaces then sync_interfaces_from_data ny node_uuid inventory ports else ret 0) (ret 0))))"

definition sync_device_once :: "nautobot_sync \<Rightarrow> json \<Rightarrow> bool \<Rightarrow> (dcim, int) act" where
  "sync_device_once ny node_uuid with_interfaces =
     (if \<not> json_truthy node_uuid then ret 1
      else try_except (sync_device_body ny node_uuid with_interfaces)
        (\<lambda>ex. case ex of DeviceNotReadyError _ \<Rightarrow> ret 1 | _ \<Rightarrow> if is_retryable_error ex then raise_exn ex else ret 1))"

text \<open>\<open>tenacity.retry\<close>: attempt again after a retryable exception, \<open>n\<close> more times; the last exception is raised.\<close>

fun with_retries :: "nat \<Rightarrow> ('s, 'a) act \<Rightarrow> ('s, 'a) act" where
  "with_retries 0 m = m"
| "with_retries (Suc n) m = try_except m (\<lambda>ex. if is_retryable_error ex then with_retries n m else raise_exn ex)"

definition sync_device_to_nautobot :: "nautobot_sync \<Rightarrow> json \<Rightarrow> bool \<Rightarrow> (dcim, int) act" where
  "sync_device_to_nautobot ny node_uuid with_interfaces = with_retries (RETRY_ATTEMPTS - 1) (sync_device_once ny node_uuid with_interfaces)"

definition extract_node_uuid_from_event :: "json \<Rightarrow> exn + json" where
  "extract_node_uuid_from_event event_data =
     sbnd (jobject ''get'' event_data) (\<lambda>d.
     let nested = (\<lambda>v. case v of JObj i \<Rightarrow> jor (attr i ''uuid'') JNull | _ \<Rightarrow> JNull);
         first = (case jget_default d ''payload'' (JObj []) of JObj p \<Rightarrow> nested (jget_default p ''ironic_object.data'' (JObj [])) | _ \<Rightarrow> JNull) in
     Inr (if first \<noteq> JNull then first else nested (jget_default d ''ironic_object'' (JObj []))))"

definition handle_node_event :: "nautobot_sync \<Rightarrow> json \<Rightarrow> (dcim, int) act" where
  "handle_node_event ny event_data =
     bnd (of_sum (extract_node_uuid_from_event event_data)) (\<lambda>node_uuid.
       if node_uuid = JNull then ret 1 else sync_device_to_nautobot ny node_uuid True)"

definition delete_device_from_nautobot :: "nautobot_sync \<Rightarrow> json \<Rightarrow> (dcim, int) act" where
  "delete_device_from_nautobot ny node_uuid =
     (if \<not> json_truthy node_uuid then ret 1
      else try_except
        (bnd (devices_get_id ny node_uuid) (\<lambda>device.
           case device of None \<Rightarrow> ret 0 | Some dev \<Rightarrow> andthen (device_delete ny (dv_id dev)) (ret 0)))
        (\<lambda>_. ret 1))"

definition handle_node_delete_event :: "nautobot_sync \<Rightarrow> json \<Rightarrow> (dcim, int) act" where
  "handle_node_delete_event ny event_data =
     bnd (of_sum (extract_node_uuid_from_event event_data)) (\<lambda>node_uuid.
       if node_uuid = JNull then ret 1 else delete_device_from_nautobot ny node_uuid)"

section \<open>What Nautobot and Ironic promise about devices\<close>

abbreviation device_at :: "dcim \<Rightarrow> json \<Rightarrow> json dict option" where
  "device_at s \<equiv> map_of (nb_devices s)"

definition only_device :: "json \<Rightarrow> dcim \<Rightarrow> dcim \<Rightarrow> bool" where
  "only_device x s s' \<longleftrightarrow> (\<forall>y. y \<noteq> x \<longrightarrow> device_at s' y = device_at s y)"

text \<open>A request that failed may have been carried out: its answer may have been lost.\<close>

definition devices_served :: "nautobot_sync \<Rightarrow> bool" where
  "devices_served ny \<longleftrightarrow>
     (\<forall>x s r s'. devices_get_id ny x s = (r, s') \<longrightarrow> device_at s' = device_at s \<and>
        (case r of Inl _ \<Rightarrow> True | Inr None \<Rightarrow> device_at s x = None | Inr (Some d) \<Rightarrow> dv_id d = x \<and> device_at s x = Some (dv_attrs d))) \<and>
     (\<forall>name s r s'. devices_get_name ny name s = (r, s') \<longrightarrow> device_at s' = device_at s \<and>
        (\<forall>d. r = Inr (Some d) \<longrightarrow> device_at s (dv_id d) = Some (dv_attrs d) \<and> device_named s (dv_id d) name) \<and>
        (r = Inr None \<longrightarrow> (\<forall>x. \<not> device_named s x name))) \<and>
     (\<forall>attrs x s r s'. dget attrs ''id'' = Some x \<and> devices_create ny attrs s = (r, s') \<longrightarrow> only_device x s s' \<and>
        (\<forall>d. r = Inr d \<longrightarrow> dv_id d = x \<and> device_at s x = None \<and> device_at s' x = Some (dv_attrs d) \<and>
           (\<forall>k \<in> {''name'', ''status'', ''location''}. dget (dv_attrs d) k = dget attrs k))) \<and>
     (\<forall>x changes s r s'. device_save ny x changes s = (r, s') \<longrightarrow> only_device x s s' \<and>
        (\<forall>u. r = Inr u \<longrightarrow> (\<exists>a a'. device_at s x = Some a \<and> device_at s' x = Some a' \<and>
           (\<forall>k. dget a' k = (case dget changes k of None \<Rightarrow> dget a k | Some v \<Rightarrow> Some v))))) \<and>
     (\<forall>x s r s'. device_delete ny x s = (r, s') \<longrightarrow> only_device x s s' \<and> (\<forall>u. r = Inr u \<longrightarrow> device_at s' x = None))"

lemmas devices_contract =
  devices_served_def [THEN iffD1, THEN conjunct1, rule_format]
  devices_served_def [THEN iffD1, THEN conjunct2, THEN conjunct1, rule_format]
  devices_served_def [THEN iffD1, THEN conjunct2, THEN conjunct2, THEN conjunct1, rule_format]
  devices_served_def [THEN iffD1, THEN conjunct2, THEN conjunct2, THEN conjunct2, THEN conjunct1, rule_format]
  devices_served_def [THEN iffD1, THEN conjunct2, THEN conjunct2, THEN conjunct2, THEN conjunct2, rule_format]

text \<open>The requests about interfaces, cables and addresses leave the devices alone.\<close>

definition keeps_devices :: "(dcim, 'a) act \<Rightarrow> bool" where
  "keeps_devices m \<longleftrightarrow> (\<forall>D. keeps (\<lambda>s. device_at s = D) m)"

definition interfaces_apart :: "nautobot_sync \<Rightarrow> bool" where
  "interfaces_apart ny \<longleftrightarrow>
     (\<forall>x. keeps_devices (interfaces_get_id (ny_dcim ny) x)) \<and> (\<forall>d n. keeps_devices (interfaces_get_on (ny_dcim ny) d n)) \<and>
     (\<forall>a. keeps_devices (interfaces_create (ny_dcim ny) a)) \<and> (\<forall>x a. keeps_devices (interface_save (ny_dcim ny) x a)) \<and>
     (\<forall>x. keeps_devices (interface_delete (ny_dcim ny) x)) \<and> (\<forall>c. keeps_devices (cables_create (ny_dcim ny) c)) \<and>
     (\<forall>c. keeps_devices (cable_details (ny_dcim ny) c)) \<and> (\<forall>c cb. keeps_devices (cable_save (ny_dcim ny) c cb)) \<and>
     (\<forall>c. keeps_devices (cable_delete (ny_dcim ny) c)) \<and> (\<forall>d n. keeps_devices (interfaces_get_named ny d n)) \<and>
     (\<forall>d. keeps_devices (interfaces_filter ny d)) \<and> (\<forall>a. keeps_devices (ip_addresses_get ny a)) \<and> (\<forall>a. keeps_devices (ip_addresses_create ny a)) \<and>
     (\<forall>i. keeps_devices (ip_to_interface_get ny i)) \<and> (\<forall>i x. keeps_devices (ip_to_interface_create ny i x))"

lemma sync_interfaces_keeps:
  assumes "interfaces_apart ny"
  shows "keeps (\<lambda>s. device_at s = D) (sync_interfaces_from_data ny node_uuid inventory ports)"
proof -
  have k: "keeps (\<lambda>s. device_at s = D) (interfaces_get_id (ny_dcim ny) x)" "keeps (\<lambda>s. device_at s = D) (interfaces_get_on (ny_dcim ny) x y)"
    "keeps (\<lambda>s. device_at s = D) (interfaces_create (ny_dcim ny) a)" "keeps (\<lambda>s. device_at s = D) (interface_save (ny_dcim ny) x a)"
    "keeps (\<lambda>s. device_at s = D) (interface_delete (ny_dcim ny) x)" "keeps (\<lambda>s. device_at s = D) (cables_create (ny_dcim ny) cb)"
    "keeps (\<lambda>s. device_at s = D) (cable_details (ny_dcim ny) c)" "keeps (\<lambda>s. device_at s = D) (cable_save (ny_dcim ny) c cb)"
    "keeps (\<lambda>s. device_at s = D) (cable_delete (ny_dcim ny) c)" "keeps (\<lambda>s. device_at s = D) (interfaces_get_named ny x y)"
    "keeps (\<lambda>s. device_at s = D) (interfaces_filter ny x)" "keeps (\<lambda>s. device_at s = D) (ip_addresses_get ny x)"
    "keeps (\<lambda>s. device_at s = D) (ip_addresses_create ny x)" "keeps (\<lambda>s. device_at s = D) (ip_to_interface_get ny c)"
    "keeps (\<lambda>s. device_at s = D) (ip_to_interface_create ny c x)" for x y a c cb
    using assms by (simp_all add: interfaces_apart_def keeps_devices_def)
  show ?thesis
    unfolding sync_interfaces_from_data_def sync_interfaces_def sync_one_interface_def create_nautobot_interface_def update_nautobot_interface_def
      delete_nautobot_interface_def sync_cable_def sync_idrac_interface_def assign_ip_to_interface_def cleanup_stale_interfaces_def Let_def
    by (intro act_rules k)
qed

section \<open>A device as Ironic describes its node\<close>

text \<open>Nothing is left to change in the attributes \<open>a\<close>.\<close>

definition device_current :: "DeviceInfo \<Rightarrow> json dict \<Rightarrow> bool" where
  "device_current info a \<longleftrightarrow>
     (truthy (di_status info) \<longrightarrow> attr a ''status'' = opt_json (di_status info)) \<and>
     (truthy (di_name info) \<longrightarrow> attr a ''name'' = opt_json (di_name info)) \<and>
     (json_truthy (di_serial_number info) \<longrightarrow> attr a ''serial'' = di_serial_number info) \<and>
     (json_truthy (di_location_id info) \<longrightarrow> attr a ''location'' = di_location_id info) \<and>
     (json_truthy (di_rack_id info) \<longrightarrow> attr a ''rack'' = di_rack_id info) \<and>
     (di_position info \<noteq> JNull \<longrightarrow> attr a ''position'' = di_position info \<and> attr a ''face'' = jor (di_face info) (JStr ''front'')) \<and>
     (truthy (di_tenant_id info) \<longrightarrow> attr a ''tenant'' = opt_json (di_tenant_id info)) \<and>
     jor (attr (device_custom_fields a) ''external_cmdb_id'') JNull = jor (opt_json (di_external_cmdb_id info)) JNull"

lemma merge_plain: "di_custom_fields info = [] \<Longrightarrow> merge_custom_fields info cf =
    (if jor (opt_json (di_external_cmdb_id info)) JNull \<noteq> jor (attr cf ''external_cmdb_id'') JNull
     then (dput ''external_cmdb_id'' (jor (opt_json (di_external_cmdb_id info)) JNull) cf, True) else (cf, False))"
  by (simp add: merge_custom_fields_def Let_def)

lemma device_changes_Nil: "di_custom_fields info = [] \<Longrightarrow> device_changes info a = [] \<longleftrightarrow> device_current info a"
  by (auto simp: device_changes_def device_current_def merge_plain)

lemma jor_jor [simp]: "jor (jor v JNull) JNull = jor v JNull"
  by (simp add: jor_def)

lemma attr_dput [simp]: "attr (dput k v a) j = (if j = k then v else attr a j)"
  by (simp add: attr_def jget_default_def dget_dput)

text \<open>Once the changes are stored, nothing is left to change.\<close>

lemma changes_stored:
  assumes "di_custom_fields info = []" "\<forall>k. attr a' k = (case dget (device_changes info a) k of None \<Rightarrow> attr a k | Some v \<Rightarrow> v)"
  shows "device_current info a'"
proof -
  note c = assms(2) [rule_format]
  have cf: "device_custom_fields a' = fst (merge_custom_fields info (device_custom_fields a))"
    using c [of "''custom_fields''"] by (auto simp: device_custom_fields_def device_changes_def merge_plain [OF assms(1)] split: if_splits)
  then have "jor (attr (device_custom_fields a') ''external_cmdb_id'') JNull = jor (opt_json (di_external_cmdb_id info)) JNull"
    by (simp add: merge_plain [OF assms(1)])
  moreover have "truthy (di_status info) \<longrightarrow> attr a' ''status'' = opt_json (di_status info)"
    "truthy (di_name info) \<longrightarrow> attr a' ''name'' = opt_json (di_name info)"
    "json_truthy (di_serial_number info) \<longrightarrow> attr a' ''serial'' = di_serial_number info"
    "json_truthy (di_location_id info) \<longrightarrow> attr a' ''location'' = di_location_id info"
    "json_truthy (di_rack_id info) \<longrightarrow> attr a' ''rack'' = di_rack_id info"
    "di_position info \<noteq> JNull \<longrightarrow> attr a' ''position'' = di_position info"
    "di_position info \<noteq> JNull \<longrightarrow> attr a' ''face'' = jor (di_face info) (JStr ''front'')"
    "truthy (di_tenant_id info) \<longrightarrow> attr a' ''tenant'' = opt_json (di_tenant_id info)"
    unfolding c device_changes_def by (simp_all split: prod.split)
  ultimately show ?thesis unfolding device_current_def by blast
qed

lemma distinct_assign_if [simp]:
  "distinct (map fst (assign_if b k v @ d)) \<longleftrightarrow> (b \<longrightarrow> k \<notin> fst ` set d) \<and> distinct (map fst d)"
  "distinct (map fst (assign_if b k v))"
  "j \<in> fst ` set (assign_if b k v @ d) \<longleftrightarrow> b \<and> j = k \<or> j \<in> fst ` set d"
  "j \<in> fst ` set (assign_if b k v) \<longleftrightarrow> b \<and> j = k"
  by (auto simp: assign_if_def)

lemma device_changes_distinct: "distinct (map fst (device_changes info a))"
  unfolding device_changes_def by (simp del: map_append set_append split: prod.split)

lemma attr_fold_dput:
  "distinct (map fst d) \<Longrightarrow> attr (fold (\<lambda>(k, v). dput k v) d a) j = (case dget d j of None \<Rightarrow> attr a j | Some v \<Rightarrow> v)"
proof (induction d arbitrary: a)
  case (Cons e d)
  obtain k v where e: "e = (k, v)" by force
  have "dget d k = None" using Cons.prems e by (auto simp: dget_def map_of_eq_None_iff)
  then show ?case using Cons.IH [of "dput k v a"] Cons.prems e by (auto simp: dget_def split: option.split)
qed (simp add: dget_def)

interpretation dev: converging_patch device_changes "\<lambda>(k, v). dput k v" device_current "\<lambda>info. di_custom_fields info = []"
proof unfold_locales
  fix info :: DeviceInfo and a assume i: "di_custom_fields info = []"
  show "device_changes info a = [] \<longleftrightarrow> device_current info a" by (rule device_changes_Nil [OF i])
  show "device_current info (fold (\<lambda>(k, v). dput k v) (device_changes info a) a)"
    by (rule changes_stored [where a = a, OF i]) (simp add: attr_fold_dput [OF device_changes_distinct])
qed

section \<open>One attempt\<close>

definition described :: "json \<Rightarrow> ironic_node \<Rightarrow> json dict \<Rightarrow> exn + DeviceInfo" where
  "described u node inventory =
     sbnd (populate_from_node (new_device_info u) node) (\<lambda>info.
     sbnd (populate_from_inventory info inventory) (\<lambda>info. Inr (generate_device_name info)))"

definition ironic_answers :: "nautobot_sync \<Rightarrow> json \<Rightarrow> ironic_node \<Rightarrow> json dict \<Rightarrow> ironic_port list \<Rightarrow> bool" where
  "ironic_answers ny u node inventory ports \<longleftrightarrow>
     (\<forall>s. ironic_get_node ny u s = (Inr node, s) \<and> ironic_get_node_inventory ny u s = (Inr inventory, s) \<and> ironic_list_ports ny u s = (Inr ports, s))"

text \<open>Devices other than the node's own and those of its name are as they were.\<close>

definition bears :: "string option \<Rightarrow> dcim \<Rightarrow> json \<Rightarrow> bool" where
  "bears name s x \<longleftrightarrow> truthy name \<and> device_named s x (opt_json name)"

definition others_apart :: "string option \<Rightarrow> json \<Rightarrow> dcim \<Rightarrow> dcim \<Rightarrow> bool" where
  "others_apart name u s s' \<longleftrightarrow> (\<forall>x. x \<noteq> u \<and> \<not> bears name s x \<longrightarrow> device_at s' x = device_at s x)"

lemma apart_only: "others_apart name u s0 s \<Longrightarrow> only_device u s s' \<Longrightarrow> others_apart name u s0 s'"
  by (simp add: others_apart_def only_device_def)

lemma apart_same: "others_apart name u s0 s \<Longrightarrow> device_at s' = device_at s \<Longrightarrow> others_apart name u s0 s'"
  by (simp add: others_apart_def)

lemma apart_bearer:
  assumes "others_apart name u s0 s" "bears name s x" "only_device x s s'"
  shows "others_apart name u s0 s'"
  unfolding others_apart_def
proof (intro allI impI)
  fix y assume y: "y \<noteq> u \<and> \<not> bears name s0 y"
  then have d: "device_at s y = device_at s0 y" using assms(1) by (simp add: others_apart_def)
  then have "y \<noteq> x" using y assms(2) by (auto simp: bears_def device_named_def)
  then show "device_at s' y = device_at s0 y" using d assms(3) by (simp add: only_device_def)
qed

lemma keeps_apart_same: "(\<And>s r s'. m s = (r, s') \<Longrightarrow> device_at s' = device_at s) \<Longrightarrow> keeps (others_apart name u s0) m"
  by (auto simp: keeps_def intro: apart_same) (metis apart_same prod.collapse)

lemma keeps_apart_only: "(\<And>s r s'. m s = (r, s') \<Longrightarrow> only_device u s s') \<Longrightarrow> keeps (others_apart name u s0) m"
  unfolding keeps_def by (metis apart_only prod.collapse)

lemma switch_locations_keeps: "devices_served ny \<Longrightarrow> keeps (others_apart name u s0) (switch_locations ny ports locations)"
proof (induction ports arbitrary: locations)
  case (Cons p ports)
  have "keeps (others_apart name u s0) (devices_get_name ny n)" for n
    using devices_contract(2) [OF Cons.prems] by (intro keeps_apart_same) blast
  then show ?case unfolding switch_locations.simps using Cons by (intro act_rules) simp_all
qed simp

lemma delete_old_keeps:
  assumes "devices_served ny"
  shows "keeps (others_apart (di_name info) u s0) (delete_old_device_by_name ny info)"
  unfolding keeps_def
proof (intro allI impI)
  fix s assume a: "others_apart (di_name info) u s0 s"
  show "others_apart (di_name info) u s0 (snd (delete_old_device_by_name ny info s))"
  proof (cases "truthy (di_name info)")
    case False
    then show ?thesis using a by (simp add: delete_old_device_by_name_def)
  next
    case t: True
    obtain r s1 where g: "devices_get_name ny (opt_json (di_name info)) s = (r, s1)" by force
    note c = devices_contract(2) [OF assms g]
    have a1: "others_apart (di_name info) u s0 s1" using a c apart_same by blast
    show ?thesis
    proof (cases "\<exists>d. r = Inr (Some d)")
      case False
      then show ?thesis using t g a1 by (auto simp: delete_old_device_by_name_def split: sum.split option.split)
    next
      case True
      then obtain d where d: "r = Inr (Some d)" by blast
      obtain r2 s2 where x: "device_delete ny (dv_id d) s1 = (r2, s2)" by force
      have "bears (di_name info) s1 (dv_id d)" using c d t by (auto simp: bears_def device_named_def)
      then have "others_apart (di_name info) u s0 s2" using apart_bearer [OF a1] devices_contract(5) [OF assms x] by blast
      then show ?thesis using t g d x by (simp add: delete_old_device_by_name_def split: sum.split)
    qed
  qed
qed

text \<open>What the device record and its description have in common when the device was found or created.\<close>

definition same_node :: "DeviceInfo \<Rightarrow> DeviceInfo \<Rightarrow> bool" where
  "same_node i j \<longleftrightarrow> di_uuid i = di_uuid j \<and> di_name i = di_name j \<and> di_serial_number i = di_serial_number j \<and> di_status i = di_status j \<and>
     di_tenant_id i = di_tenant_id j \<and> di_external_cmdb_id i = di_external_cmdb_id j \<and> di_custom_fields i = di_custom_fields j"

lemma preserve_same: "same_node (preserve_location_from_device info d) info"
  by (simp add: preserve_location_from_device_def same_node_def Let_def)

lemma delete_old_same: "delete_old_device_by_name ny info s = (Inr info', s') \<Longrightarrow> same_node info' info"
  using preserve_same by (auto simp: delete_old_device_by_name_def same_node_def split: if_splits sum.splits prod.splits option.splits)

lemma create_device_keeps:
  assumes "devices_served ny"
  shows "keeps (others_apart name (di_uuid info) s0) (create_nautobot_device ny info)"
  unfolding create_nautobot_device_def
proof (intro act_rules keeps_apart_only)
  fix s r s' assume "devices_create ny (device_attrs info) s = (r, s')"
  then show "only_device (di_uuid info) s s'"
    using devices_contract(3) [OF assms, of "device_attrs info" "di_uuid info"] by (simp add: device_attrs_def dget_def)
qed

lemma find_or_create_found:
  assumes "devices_served ny" "find_or_create_nautobot_device ny info s = (Inr (d, info'), s')"
  shows "dv_id d = di_uuid info \<and> device_at s' (di_uuid info) = Some (dv_attrs d) \<and> same_node info' info"
proof -
  obtain found s1 where g: "devices_get_id ny (di_uuid info) s = (Inr found, s1)"
    and k: "(case found of Some dev \<Rightarrow> ret (dev, info) | None \<Rightarrow> bnd (delete_old_device_by_name ny info) (\<lambda>info.
        if \<not> json_truthy (di_location_id info) then raise_exn (DeviceNotReadyError ''No location yet (awaiting inspection)'')
        else bnd (create_nautobot_device ny info) (\<lambda>dev. ret (dev, info)))) s1 = (Inr (d, info'), s')"
    using assms(2) unfolding find_or_create_nautobot_device_def bnd_Inr by blast
  note c = devices_contract(1) [OF assms(1) g]
  show ?thesis
  proof (cases found)
    case (Some dev)
    then show ?thesis using c k by (simp add: same_node_def)
  next
    case None
    obtain i s2 where o: "delete_old_device_by_name ny info s1 = (Inr i, s2)"
      and k2: "(if \<not> json_truthy (di_location_id i) then raise_exn (DeviceNotReadyError ''No location yet (awaiting inspection)'')
        else bnd (create_nautobot_device ny i) (\<lambda>dev. ret (dev, i))) s2 = (Inr (d, info'), s')"
      using k unfolding None option.case bnd_Inr by blast
    have n: "same_node i info" by (rule delete_old_same [OF o])
    have cr: "devices_create ny (device_attrs i) s2 = (Inr d, s')" "info' = i"
      using k2 by (auto simp: create_nautobot_device_def split: if_splits sum.splits prod.splits)
    have "dget (device_attrs i) ''id'' = Some (di_uuid info)" using n by (simp add: device_attrs_def dget_def same_node_def)
    from devices_contract(3) [OF assms(1) conjI [OF this cr(1)]] show ?thesis using cr(2) n by simp
  qed
qed

definition shows_node :: "DeviceInfo \<Rightarrow> json dict \<Rightarrow> bool" where
  "shows_node info a \<longleftrightarrow>
     (truthy (di_status info) \<longrightarrow> attr a ''status'' = opt_json (di_status info)) \<and>
     (truthy (di_name info) \<longrightarrow> attr a ''name'' = opt_json (di_name info)) \<and>
     (json_truthy (di_serial_number info) \<longrightarrow> attr a ''serial'' = di_serial_number info) \<and>
     (truthy (di_tenant_id info) \<longrightarrow> attr a ''tenant'' = opt_json (di_tenant_id info)) \<and>
     jor (attr (device_custom_fields a) ''external_cmdb_id'') JNull = jor (opt_json (di_external_cmdb_id info)) JNull"

lemma current_shows: "device_current i a \<Longrightarrow> same_node i j \<Longrightarrow> shows_node j a"
  by (simp add: device_current_def shows_node_def same_node_def)

lemma update_device_only:
  assumes "devices_served ny" "update_nautobot_device ny info d s = (r, s')"
  shows "only_device (dv_id d) s s'"
  using assms(2) devices_contract(4) [OF assms(1), of "dv_id d" "device_changes info (dv_attrs d)" s]
  by (auto simp: update_nautobot_device_def Let_def only_device_def split: if_splits sum.splits prod.splits)

lemma update_device_current:
  assumes "devices_served ny" "di_custom_fields info = []" "device_at s (dv_id d) = Some (dv_attrs d)"
    and "update_nautobot_device ny info d s = (Inr b, s')"
  shows "\<exists>a. device_at s' (dv_id d) = Some a \<and> device_current info a"
proof (cases "device_changes info (dv_attrs d) = []")
  case True
  then have "s' = s" using assms(4) by (simp add: update_nautobot_device_def)
  then show ?thesis using assms(3) True device_changes_Nil [OF assms(2)] by simp
next
  case False
  then have "device_save ny (dv_id d) (device_changes info (dv_attrs d)) s = (Inr (), s')"
    using assms(4) by (auto simp: update_nautobot_device_def Let_def split: sum.splits prod.splits)
  from devices_contract(4) [OF assms(1) this] assms(3) obtain a' where a': "device_at s' (dv_id d) = Some a'"
    "\<forall>k. dget a' k = (case dget (device_changes info (dv_attrs d)) k of None \<Rightarrow> dget (dv_attrs d) k | Some v \<Rightarrow> Some v)" by auto
  then have "\<forall>k. attr a' k = (case dget (device_changes info (dv_attrs d)) k of None \<Rightarrow> attr (dv_attrs d) k | Some v \<Rightarrow> v)"
    by (auto simp: attr_def jget_default_def split: option.split)
  then show ?thesis using a'(1) changes_stored [OF assms(2)] by blast
qed

lemma set_location_same: "set_location_from_switches ny info ports s = (Inr info', s') \<Longrightarrow> same_node info' info"
  by (auto simp: set_location_from_switches_def same_node_def split: if_splits sum.splits prod.splits)

lemma populate_node_plain: "populate_from_node i node = Inr j \<Longrightarrow> di_uuid j = di_uuid i \<and> di_custom_fields j = di_custom_fields i"
  by (auto simp: populate_from_node_def sbnd_Inr Let_def)

lemma populate_inventory_plain: "populate_from_inventory i inventory = Inr j \<Longrightarrow> di_uuid j = di_uuid i \<and> di_custom_fields j = di_custom_fields i"
proof -
  assume p: "populate_from_inventory i inventory = Inr j"
  show ?thesis
  proof (cases "inventory = []")
    case True
    then show ?thesis using p by (simp add: populate_from_inventory_def)
  next
    case False
    then show ?thesis using p unfolding populate_from_inventory_def if_not_P [OF False] sbnd_Inr Let_def by clarsimp
  qed
qed

lemma described_plain: "described u node inventory = Inr i \<Longrightarrow> di_uuid i = u \<and> di_custom_fields i = []"
proof -
  assume "described u node inventory = Inr i"
  then obtain j k where "populate_from_node (new_device_info u) node = Inr j" "populate_from_inventory j inventory = Inr k" "i = generate_device_name k"
    unfolding described_def sbnd_Inr by blast
  then show ?thesis using populate_node_plain populate_inventory_plain by (fastforce simp: generate_device_name_def new_device_info_def)
qed

lemma fetch_described:
  assumes "ironic_answers ny u node inventory ports"
  shows "fetch_node_details ny u s = (case described u node inventory of
      Inl e \<Rightarrow> (Inl e, s)
    | Inr i \<Rightarrow> bnd (set_location_from_switches ny i ports) (\<lambda>info. ret (info, inventory, ports)) s)"
  using assms unfolding ironic_answers_def fetch_node_details_def described_def
  by (cases "populate_from_node (new_device_info u) node"; cases "populate_from_inventory (projr (populate_from_node (new_device_info u) node)) inventory") auto

lemma set_location_keeps:
  "devices_served ny \<Longrightarrow> keeps (others_apart name u s0) (set_location_from_switches ny info ports)"
  unfolding set_location_from_switches_def by (intro act_rules switch_locations_keeps)

lemma find_or_create_keeps:
  assumes "devices_served ny"
  shows "keeps (others_apart (di_name info) (di_uuid info) s0) (find_or_create_nautobot_device ny info)"
  unfolding keeps_def
proof (intro allI impI)
  fix s assume a: "others_apart (di_name info) (di_uuid info) s0 s"
  obtain r s1 where g: "devices_get_id ny (di_uuid info) s = (r, s1)" by force
  have a1: "others_apart (di_name info) (di_uuid info) s0 s1" using a devices_contract(1) [OF assms g] apart_same by blast
  obtain r2 s2 where o: "delete_old_device_by_name ny info s1 = (r2, s2)" by force
  have a2: "others_apart (di_name info) (di_uuid info) s0 s2" using keepsD [OF delete_old_keeps [OF assms] a1] o by simp
  have "others_apart (di_name info) (di_uuid info) s0 (snd (create_nautobot_device ny i s2))" if "r2 = Inr i" for i
    using keepsD [OF create_device_keeps [OF assms], of _ i s0 s2] a2 delete_old_same [of ny info s1 i s2] o that by (simp add: same_node_def)
  then show "others_apart (di_name info) (di_uuid info) s0 (snd (find_or_create_nautobot_device ny info s))"
    using a1 a2 g o by (auto simp: find_or_create_nautobot_device_def split: sum.split option.split prod.split if_split)
qed

lemma interfaces_keep_apart: "interfaces_apart ny \<Longrightarrow> keeps (others_apart name u s0) (sync_interfaces_from_data ny v inventory ports)"
  using sync_interfaces_keeps [of ny _ v inventory ports] unfolding keeps_def by (metis apart_same)

text \<open>An attempt for a node that Ironic describes, in the order of its calls.\<close>

lemma fetch_bnd:
  assumes "ironic_answers ny u node inventory ports" "described u node inventory = Inr i"
  shows "bnd (fetch_node_details ny u) k = bnd (set_location_from_switches ny i ports) (\<lambda>info. k (info, inventory, ports))"
  by (simp add: fun_eq_iff fetch_described [OF assms(1)] assms(2) split: sum.split prod.split)

lemma once_unfold:
  assumes "ironic_answers ny u node inventory ports" "described u node inventory = Inr i" "json_truthy u"
  shows "sync_device_once ny u wi = try_except
    (bnd (set_location_from_switches ny i ports) (\<lambda>info. bnd (find_or_create_nautobot_device ny info) (\<lambda>(device, info).
      andthen (update_nautobot_device ny info device)
      (andthen (if wi then sync_interfaces_from_data ny u inventory ports else ret 0) (ret 0)))))
    (\<lambda>ex. case ex of DeviceNotReadyError _ \<Rightarrow> ret 1 | _ \<Rightarrow> if is_retryable_error ex then raise_exn ex else ret 1)"
  using assms(3) unfolding sync_device_once_def sync_device_body_def fetch_bnd [OF assms(1,2)] by simp

lemma update_keeps_apart: "devices_served ny \<Longrightarrow> dv_id d = u \<Longrightarrow> keeps (others_apart name u s0) (update_nautobot_device ny info d)"
  using update_device_only by (intro keeps_apart_only) blast

lemma once_keeps:
  assumes "devices_served ny" "interfaces_apart ny" "ironic_answers ny u node inventory ports" "described u node inventory = Inr i" "json_truthy u"
  shows "keeps (others_apart (di_name i) u s0) (sync_device_once ny u wi)"
proof -
  let ?I = "others_apart (di_name i) u s0"
  have tail: "?I (snd (bnd (find_or_create_nautobot_device ny info) (\<lambda>(device, info). andthen (update_nautobot_device ny info device)
      (andthen (if wi then sync_interfaces_from_data ny u inventory ports else ret 0) (ret (0 :: int)))) s))"
    if "same_node info i" "?I s" for info s
  proof -
    have n: "di_name info = di_name i" "di_uuid info = u" using that(1) described_plain [OF assms(4)] by (simp_all add: same_node_def)
    obtain r s1 where f: "find_or_create_nautobot_device ny info s = (r, s1)" by force
    have s1: "?I s1" using keepsD [OF find_or_create_keeps [OF assms(1)], of info s0 s] that(2) f n by simp
    have "?I (snd (andthen (update_nautobot_device ny info' d) (andthen (if wi then sync_interfaces_from_data ny u inventory ports else ret 0) (ret (0 :: int))) s1))"
      if "r = Inr (d, info')" for d info'
    proof -
      have "dv_id d = u" using find_or_create_found [OF assms(1), of info s d info' s1] f that n by simp
      then have "keeps ?I (andthen (update_nautobot_device ny info' d) (andthen (if wi then sync_interfaces_from_data ny u inventory ports else ret 0) (ret (0 :: int))))"
        by (intro act_rules update_keeps_apart interfaces_keep_apart assms)
      from keepsD [OF this s1] show ?thesis .
    qed
    then show ?thesis using f s1 by (auto split: sum.split prod.split)
  qed
  show ?thesis
    unfolding once_unfold [OF assms(3-5)] keeps_def
  proof (intro allI impI)
    fix s assume "?I s"
    obtain r s1 where l: "set_location_from_switches ny i ports s = (r, s1)" by force
    have s1: "?I s1" using keepsD [OF set_location_keeps [OF assms(1), of _ _ _ i ports] \<open>?I s\<close>] l by simp
    let ?m = "bnd (set_location_from_switches ny i ports) (\<lambda>info. bnd (find_or_create_nautobot_device ny info) (\<lambda>(device, info).
      andthen (update_nautobot_device ny info device)
      (andthen (if wi then sync_interfaces_from_data ny u inventory ports else ret 0) (ret (0 :: int)))))"
    have "?I (snd (?m s))"
    proof (cases r)
      case (Inl e)
      then show ?thesis using l s1 by simp
    next
      case (Inr info)
      then show ?thesis using l tail [OF set_location_same [OF l [unfolded Inr]] s1] by (simp only: bnd_def) simp
    qed
    then show "?I (snd (try_except ?m (\<lambda>ex. case ex of DeviceNotReadyError _ \<Rightarrow> ret 1 | _ \<Rightarrow> if is_retryable_error ex then raise_exn ex else ret 1) s))"
      unfolding try_except_apply by (cases "?m s") (auto split: sum.split exn.split)
  qed
qed

lemma once_run:
  assumes "interfaces_apart ny" "ironic_answers ny u node inventory ports" "described u node inventory = Inr i" "sync_device_once ny u wi s = (Inr 0, s')"
  obtains info s1 d info' s2 b s3 where "set_location_from_switches ny i ports s = (Inr info, s1)"
    "find_or_create_nautobot_device ny info s1 = (Inr (d, info'), s2)" "update_nautobot_device ny info' d s2 = (Inr b, s3)" "device_at s' = device_at s3"
proof -
  have u: "json_truthy u" using assms(4) by (auto simp: sync_device_once_def split: if_splits)
  obtain info s1 d info' s2 b s3 c where run: "set_location_from_switches ny i ports s = (Inr info, s1)"
      "find_or_create_nautobot_device ny info s1 = (Inr (d, info'), s2)" "update_nautobot_device ny info' d s2 = (Inr b, s3)"
      "(if wi then sync_interfaces_from_data ny u inventory ports else ret 0) s3 = (Inr c, s')"
    using assms(4) unfolding once_unfold [OF assms(2,3) u] try_except_apply
    by (auto split: sum.splits exn.splits if_splits prod.splits)
  moreover have "device_at s' = device_at s3"
    using keepsD [OF sync_interfaces_keeps [OF assms(1), of "device_at s3" u inventory ports], of s3] run(4) by (auto split: if_splits)
  ultimately show thesis using that by blast
qed

lemma once_success:
  assumes "devices_served ny" "interfaces_apart ny" "ironic_answers ny u node inventory ports" "sync_device_once ny u wi s = (Inr 0, s')"
  shows "\<exists>i a. described u node inventory = Inr i \<and> device_at s' u = Some a \<and> shows_node i a"
proof -
  obtain i where i: "described u node inventory = Inr i"
    using assms(4) by (auto simp: sync_device_once_def sync_device_body_def fetch_described [OF assms(3)] split: sum.splits exn.splits if_splits prod.splits)
  obtain info s1 d info' s2 b s3 where run: "set_location_from_switches ny i ports s = (Inr info, s1)"
      "find_or_create_nautobot_device ny info s1 = (Inr (d, info'), s2)" "update_nautobot_device ny info' d s2 = (Inr b, s3)" "device_at s' = device_at s3"
    by (rule once_run [OF assms(2,3) i assms(4)])
  have n: "same_node info i" "same_node info' info" using set_location_same [OF run(1)] find_or_create_found [OF assms(1) run(2)] by simp_all
  have d: "dv_id d = u" "device_at s2 u = Some (dv_attrs d)"
    using find_or_create_found [OF assms(1) run(2)] n(1) described_plain [OF i] by (simp_all add: same_node_def)
  have "di_custom_fields info' = []" using n described_plain [OF i] by (simp add: same_node_def)
  from update_device_current [OF assms(1) this _ run(3)] d obtain a where a: "device_at s3 u = Some a" "device_current info' a" by auto
  have "shows_node i a" using current_shows [OF a(2)] n by (simp add: same_node_def)
  then show ?thesis using i a(1) run(4) by auto
qed

lemma with_retries_last:
  assumes "keeps I m" "I s" "with_retries n m s = (Inr v, s')"
  shows "\<exists>t. I t \<and> m t = (Inr v, s')"
  using assms(2,3)
proof (induction n arbitrary: s)
  case (Suc n)
  obtain r t where t: "m s = (r, t)" by force
  have "I t" using keepsD [OF assms(1) Suc.prems(1)] t by simp
  then show ?case using Suc t by (cases r) (auto split: if_splits)
qed auto


text \<open>Run again on what it left, the update sends nothing.\<close>

lemma update_device_again:
  assumes "devices_served ny" "di_custom_fields info = []" "device_at s (dv_id d) = Some (dv_attrs d)"
    and "update_nautobot_device ny info d s = (Inr b, s')" "device_at s' (dv_id d) = Some a"
  shows "update_nautobot_device ny info \<lparr>dv_id = dv_id d, dv_attrs = a\<rparr> s' = (Inr False, s')"
  using update_device_current [OF assms(1-4)] assms(5) dev.ops_Nil_iff [OF assms(2)] by (simp add: update_nautobot_device_def)

section \<open>Repeated attempts\<close>

definition counting :: "('s, 'a) act \<Rightarrow> ('s \<times> nat, 'a) act" where
  "counting m = (\<lambda>(s, n). case m s of (r, s') \<Rightarrow> (r, (s', n + 1)))"

lemma counted:
  "\<exists>k. with_retries n (counting m) (s, c) = (fst (with_retries n m s), (snd (with_retries n m s), c + k)) \<and> 1 \<le> k \<and> k \<le> n + 1 \<and>
     (\<forall>ex. fst (with_retries n m s) = Inl ex \<and> is_retryable_error ex \<longrightarrow> k = n + 1)"
proof (induction n arbitrary: s c)
  case 0
  show ?case by (rule exI [of _ 1]) (simp add: counting_def split: prod.split)
next
  case (Suc n)
  obtain r t where m: "m s = (r, t)" by force
  show ?case
  proof (cases "\<exists>ex. r = Inl ex \<and> is_retryable_error ex")
    case True
    then have w: "with_retries (Suc n) m s = with_retries n m t" "with_retries (Suc n) (counting m) (s, c) = with_retries n (counting m) (t, c + 1)"
      using m by (auto simp: counting_def)
    obtain k where k: "with_retries n (counting m) (t, c + 1) = (fst (with_retries n m t), (snd (with_retries n m t), c + 1 + k))" "1 \<le> k" "k \<le> n + 1"
      "\<forall>ex. fst (with_retries n m t) = Inl ex \<and> is_retryable_error ex \<longrightarrow> k = n + 1" using Suc.IH [of t "c + 1"] by blast
    show ?thesis unfolding w by (rule exI [of _ "k + 1"]) (use k in auto)
  next
    case False
    then have "with_retries (Suc n) m s = (r, t)" "with_retries (Suc n) (counting m) (s, c) = (r, (t, c + 1))"
      using m by (auto simp: counting_def split: sum.split)
    then show ?thesis using False by (intro exI [of _ 1]) auto
  qed
qed

lemma only_retryable_raised:
  "try_except m (\<lambda>ex. case ex of DeviceNotReadyError _ \<Rightarrow> ret 1 | _ \<Rightarrow> if is_retryable_error ex then raise_exn ex else ret 1) s = (Inl ex, s') \<Longrightarrow>
   is_retryable_error ex"
  by (cases "m s") (auto split: sum.splits exn.splits if_splits)

lemma once_raises_retryable: "sync_device_once ny u wi s = (Inl ex, s') \<Longrightarrow> is_retryable_error ex"
proof (cases "json_truthy u")
  case True
  assume "sync_device_once ny u wi s = (Inl ex, s')"
  then show ?thesis using True only_retryable_raised [of "sync_device_body ny u wi" s ex s'] by (simp add: sync_device_once_def)
qed (simp add: sync_device_once_def)

lemma retries_raise: "(\<And>s ex s'. m s = (Inl ex, s') \<Longrightarrow> is_retryable_error ex) \<Longrightarrow> with_retries n m s = (Inl ex, s') \<Longrightarrow> is_retryable_error ex"
proof (induction n arbitrary: s)
  case (Suc n)
  then show ?case by (auto split: sum.splits prod.splits if_splits)
qed simp


section \<open>Re-enrollment\<close>

lemma set_location_devices: "devices_served ny \<Longrightarrow> set_location_from_switches ny info ports s = (r, s') \<Longrightarrow> device_at s' = device_at s"
proof -
  assume d: "devices_served ny" "set_location_from_switches ny info ports s = (r, s')"
  have "keeps (\<lambda>t. device_at t = D) (switch_locations ny ports locations)" for D locations
  proof (induction ports arbitrary: locations)
    case (Cons p ports)
    have "keeps (\<lambda>t. device_at t = D) (devices_get_name ny n)" for n
      unfolding keeps_def using devices_contract(2) [OF d(1)] by (metis prod.collapse)
    then show ?case unfolding switch_locations.simps using Cons by (intro act_rules) simp_all
  qed simp
  then have "keeps (\<lambda>t. device_at t = device_at s) (set_location_from_switches ny info ports)"
    unfolding set_location_from_switches_def by (intro act_rules)
  then show ?thesis using d(2) by (auto simp: keeps_def dest!: spec [of _ s])
qed

lemma set_location_place:
  "set_location_from_switches ny info ports s = (Inr info', s') \<Longrightarrow> di_position info' = di_position info \<and> di_face info' = di_face info"
  by (auto simp: set_location_from_switches_def split: if_splits sum.splits prod.splits)

lemma no_switch_no_location:
  "\<forall>p \<in> set ports. \<not> usable (ip_switch_info p) \<Longrightarrow> set_location_from_switches ny info ports s = (Inr info, s)"
proof -
  assume "\<forall>p \<in> set ports. \<not> usable (ip_switch_info p)"
  then have "switch_locations ny ports [] = ret []" by (induction ports) simp_all
  then show ?thesis by (simp add: set_location_from_switches_def)
qed

lemma described_no_place: "described u node inventory = Inr i \<Longrightarrow> di_position i = JNull \<and> di_location_id i = JNull \<and> di_rack_id i = JNull \<and> di_face i = JNull"
proof -
  assume "described u node inventory = Inr i"
  then obtain j k where j: "populate_from_node (new_device_info u) node = Inr j" and k: "populate_from_inventory j inventory = Inr k" and i: "i = generate_device_name k"
    unfolding described_def sbnd_Inr by blast
  have "di_position j = JNull \<and> di_location_id j = JNull \<and> di_rack_id j = JNull \<and> di_face j = JNull"
    using j by (auto simp: populate_from_node_def sbnd_Inr Let_def new_device_info_def)
  moreover have "di_position k = di_position j \<and> di_location_id k = di_location_id j \<and> di_rack_id k = di_rack_id j \<and> di_face k = di_face j"
  proof (cases "inventory = []")
    case True
    then show ?thesis using k by (simp add: populate_from_inventory_def)
  next
    case False
    then show ?thesis using k unfolding populate_from_inventory_def if_not_P [OF False] sbnd_Inr Let_def by clarsimp
  qed
  ultimately show ?thesis by (simp add: i generate_device_name_def)
qed

text \<open>The one device that bears the name is taken over: its place is noted, then it is deleted.\<close>

lemma old_device_taken:
  assumes "devices_served ny" "truthy (di_name info)" "device_at s old = Some a" "device_named s old (opt_json (di_name info))"
    and "\<forall>x. device_named s x (opt_json (di_name info)) \<longrightarrow> x = old" "delete_old_device_by_name ny info s = (Inr info', s')"
  shows "info' = preserve_location_from_device info \<lparr>dv_id = old, dv_attrs = a\<rparr> \<and> device_at s' old = None"
proof -
  obtain found s1 where g: "devices_get_name ny (opt_json (di_name info)) s = (Inr found, s1)"
    and k: "(case found of None \<Rightarrow> ret info | Some dev \<Rightarrow> andthen (device_delete ny (dv_id dev)) (ret (preserve_location_from_device info dev))) s1 = (Inr info', s')"
    using assms(2,6) unfolding delete_old_device_by_name_def by (auto split: sum.splits prod.splits)
  note c = devices_contract(2) [OF assms(1) g]
  obtain dev where d: "found = Some dev" using c assms(4) by (cases found) auto
  then have dev: "dev = \<lparr>dv_id = old, dv_attrs = a\<rparr>" using c assms(3,5) by auto
  have "device_delete ny old s1 = (Inr (), s')" "info' = preserve_location_from_device info dev"
    using k unfolding d dev by (auto split: sum.splits prod.splits)
  then show ?thesis using devices_contract(5) [OF assms(1)] dev by blast
qed

text \<open>A device that was not found is created from the description, with the place of the old one.\<close>

lemma created_in_place:
  assumes "devices_served ny" "truthy (di_name info)" "device_at s (di_uuid info) = None" "device_at s old = Some a"
    and "device_named s old (opt_json (di_name info))" "\<forall>x. device_named s x (opt_json (di_name info)) \<longrightarrow> x = old"
    and "find_or_create_nautobot_device ny info s = (Inr (d, info'), s')"
  shows "info' = preserve_location_from_device info \<lparr>dv_id = old, dv_attrs = a\<rparr> \<and> json_truthy (di_location_id info') \<and> device_at s' old = None"
proof -
  obtain found t where g: "devices_get_id ny (di_uuid info) s = (Inr found, t)"
    and k: "(case found of Some dev \<Rightarrow> ret (dev, info) | None \<Rightarrow> bnd (delete_old_device_by_name ny info) (\<lambda>info.
        if \<not> json_truthy (di_location_id info) then raise_exn (DeviceNotReadyError ''No location yet (awaiting inspection)'')
        else bnd (create_nautobot_device ny info) (\<lambda>dev. ret (dev, info)))) t = (Inr (d, info'), s')"
    using assms(7) unfolding find_or_create_nautobot_device_def bnd_Inr by blast
  note c = devices_contract(1) [OF assms(1) g]
  have f: "found = None" using c assms(3) by (auto split: option.splits)
  obtain j t2 where o: "delete_old_device_by_name ny info t = (Inr j, t2)"
    and k2: "(if \<not> json_truthy (di_location_id j) then raise_exn (DeviceNotReadyError ''No location yet (awaiting inspection)'')
        else bnd (create_nautobot_device ny j) (\<lambda>dev. ret (dev, j))) t2 = (Inr (d, info'), s')"
    using k unfolding f option.case bnd_Inr by blast
  have j: "j = preserve_location_from_device info \<lparr>dv_id = old, dv_attrs = a\<rparr>" "device_at t2 old = None"
    using old_device_taken [OF assms(1,2) _ _ _ o, of old a] assms(4,5,6) c by (simp_all add: device_named_def)
  have l: "json_truthy (di_location_id j)" and cr: "devices_create ny (device_attrs j) t2 = (Inr d, s')" "info' = j"
    using k2 by (auto simp: create_nautobot_device_def split: if_splits sum.splits prod.splits)
  have "dget (device_attrs j) ''id'' = Some (di_uuid info)" using delete_old_same [OF o] by (simp add: device_attrs_def dget_def same_node_def)
  from devices_contract(3) [OF assms(1) conjI [OF this cr(1)]] have "only_device (di_uuid info) t2 s'" by simp
  moreover have "old \<noteq> di_uuid info" using assms(3,4) by auto
  ultimately show ?thesis using j l cr(2) by (simp add: only_device_def)
qed

text \<open>
  C37: When a node is enrolled again under a new identifier and an attempt to synchronise it succeeds, the old device of
  its name is gone and the new one stands where the old one stood: at its position and on its face of the rack, and, unless the switches
  it is plugged into say otherwise, in its location and rack.
\<close>

theorem reenrolled_device_keeps_place:
  assumes "devices_served ny" "interfaces_apart ny" "ironic_answers ny u node inventory ports" "described u node inventory = Inr i"
    and "truthy (di_name i)" "device_at s u = None" "device_at s old = Some a" "device_named s old (opt_json (di_name i))"
    and "\<forall>x. device_named s x (opt_json (di_name i)) \<longrightarrow> x = old" "sync_device_once ny u wi s = (Inr 0, s')"
  shows "device_at s' old = None \<and> (\<exists>b. device_at s' u = Some b \<and>
    (attr a ''position'' \<noteq> JNull \<longrightarrow> attr b ''position'' = attr a ''position'' \<and> attr b ''face'' = jor (attr a ''face'') (JStr ''front'')) \<and>
    ((\<forall>p \<in> set ports. \<not> usable (ip_switch_info p)) \<longrightarrow>
      attr b ''location'' = attr a ''location'' \<and> (json_truthy (attr a ''rack'') \<longrightarrow> attr b ''rack'' = attr a ''rack'')))"
proof -
  have ne: "old \<noteq> u" using assms(6,7) by auto
  obtain info s1 d info' s2 b s3 where run: "set_location_from_switches ny i ports s = (Inr info, s1)"
      "find_or_create_nautobot_device ny info s1 = (Inr (d, info'), s2)" "update_nautobot_device ny info' d s2 = (Inr b, s3)" "device_at s' = device_at s3"
    by (rule once_run [OF assms(2-4,10)])
  have s1: "device_at s1 = device_at s" by (rule set_location_devices [OF assms(1) run(1)])
  have n: "same_node info i" by (rule set_location_same [OF run(1)])
  have iu: "di_uuid info = u" "di_name info = di_name i" using n described_plain [OF assms(4)] by (simp_all add: same_node_def)
  have nm: "device_named s1 x v = device_named s x v" for x v by (simp add: device_named_def s1)
  note j = created_in_place [OF assms(1) _ _ _ _ _ run(2), of old a, unfolded iu s1 nm, OF assms(5-9), THEN conjunct1]
    created_in_place [OF assms(1) _ _ _ _ _ run(2), of old a, unfolded iu s1 nm, OF assms(5-9), THEN conjunct2, THEN conjunct1]
    created_in_place [OF assms(1) _ _ _ _ _ run(2), of old a, unfolded iu s1 nm, OF assms(5-9), THEN conjunct2, THEN conjunct2]
  have d: "dv_id d = u" "device_at s2 u = Some (dv_attrs d)" "di_custom_fields info' = []"
    using find_or_create_found [OF assms(1) run(2)] n described_plain [OF assms(4)] by (simp_all add: same_node_def)
  from update_device_current [OF assms(1) d(3) _ run(3)] d obtain e where e: "device_at s3 u = Some e" "device_current info' e" by auto
  have s3: "device_at s3 old = None" using update_device_only [OF assms(1) run(3)] d(1) j(3) ne by (simp add: only_device_def)
  have p: "di_position info' = (if attr a ''position'' \<noteq> JNull then attr a ''position'' else JNull)"
    "jor (di_face info') (JStr ''front'') = jor (attr a ''face'') (JStr ''front'')"
    using set_location_place [OF run(1)] described_no_place [OF assms(4)]
    by (auto simp: j(1) preserve_location_from_device_def Let_def jor_def)
  have q: "di_location_id info' = attr a ''location'' \<and> (json_truthy (attr a ''rack'') \<longrightarrow> di_rack_id info' = attr a ''rack'')"
    if "\<forall>p \<in> set ports. \<not> usable (ip_switch_info p)"
    using no_switch_no_location [OF that, of ny i s] run(1) described_no_place [OF assms(4)] j(2)
    by (auto simp: j(1) preserve_location_from_device_def Let_def split: if_splits)
  show ?thesis using e s3 run(4) p q j(2) by (auto simp: device_current_def)
qed

section \<open>A Nautobot and an Ironic\<close>

lemma server_devices: "devices_served (sync_server node inventory ports)"
proof -
  have n: "(case filter (\<lambda>x. device_named s x name) (map fst (nb_devices s)) of [] \<Rightarrow> None | x # _ \<Rightarrow> fetch_device s x) = Some d \<Longrightarrow>
      device_at s (dv_id d) = Some (dv_attrs d) \<and> device_named s (dv_id d) name" for s name d
    by (auto simp: fetch_device_def split: list.splits dest!: filter_ConsD)
  have m: "\<not> device_named s x name" if "(case filter (\<lambda>x. device_named s x name) (map fst (nb_devices s)) of [] \<Rightarrow> None | x # _ \<Rightarrow> fetch_device s x) = None" for s name x
  proof
    assume d: "device_named s x name"
    then have "x \<in> fst ` set (nb_devices s)" by (force simp: device_named_def split: option.splits dest: map_of_SomeD)
    then obtain y ys where f: "filter (\<lambda>x. device_named s x name) (map fst (nb_devices s)) = y # ys"
      using d by (cases "filter (\<lambda>x. device_named s x name) (map fst (nb_devices s))") (auto simp: filter_empty_conv)
    have "device_named s y name" using filter_ConsD [OF f] by simp
    then show False using that f by (auto simp: fetch_device_def device_named_def split: option.splits)
  qed
  show ?thesis
    unfolding devices_served_def
  proof (intro conjI allI impI)
    fix name s r s' assume g: "devices_get_name (sync_server node inventory ports) name s = (r, s')"
    show "device_at s' = device_at s" using g by (auto simp: sync_server_def)
    show "device_at s (dv_id d) = Some (dv_attrs d)" "device_named s (dv_id d) name" if "r = Inr (Some d)" for d
      using g that n by (auto simp: sync_server_def)
    show "\<not> device_named s x name" if "r = Inr None" for x by (rule m) (use g that in \<open>auto simp: sync_server_def\<close>)
  qed (auto simp: sync_server_def fetch_device_def only_device_def dget_put_attrs map_of_without split: option.splits if_splits)
qed

lemma server_apart: "interfaces_apart (sync_server node inventory ports)"
proof -
  have "keeps (\<lambda>s. device_at s = D) (interface_delete dcim_server x)" "keeps (\<lambda>s. device_at s = D) (interfaces_create dcim_server a)"
    "keeps (\<lambda>s. device_at s = D) (interface_save dcim_server x a)" "keeps (\<lambda>s. device_at s = D) (cables_create dcim_server cb)"
    "keeps (\<lambda>s. device_at s = D) (cable_details dcim_server c)" "keeps (\<lambda>s. device_at s = D) (cable_save dcim_server c cb)"
    "keeps (\<lambda>s. device_at s = D) (cable_delete dcim_server c)" "keeps (\<lambda>s. device_at s = D) (interfaces_get_id dcim_server x)"
    "keeps (\<lambda>s. device_at s = D) (interfaces_get_on dcim_server x y)" for D x y a c cb
    by (auto simp: keeps_def dcim_server_def Let_def split: option.splits)
  then show ?thesis by (simp add: interfaces_apart_def keeps_devices_def sync_server_def)
qed

lemma server_ironic: "ironic_answers (sync_server node inventory ports) u node inventory ports"
  by (simp add: ironic_answers_def sync_server_def)

definition example_info :: DeviceInfo where
  "example_info = (new_device_info (JStr ''n1''))\<lparr>di_status := Some ''Active'', di_manufacturer := Some ''Dell'', di_serial_number := JStr ''A1'', di_name := Some ''Dell-A1''\<rparr>"

lemma example_described: "described (JStr ''n1'') example_node example_inventory = Inr example_info"
proof -
  have "contains ''DELL'' (py_upper ''Dell'')" by code_simp
  then show ?thesis
    by (simp add: described_def populate_from_node_def populate_from_inventory_def generate_device_name_def example_node_def example_inventory_def
        example_info_def new_device_info_def opt_int_def jget_default_def dget_def translate_to_nautobot_def STATUS_MAP_def tenant_of_lessee_def
        device_manufacturer_def Let_def)
qed

lemma example_once: "code_is 0 (sync_device_once example_sync (JStr ''n1'') True example_devices)"
  by code_simp

lemma example_sync_returns: "code_is 0 (sync_device_to_nautobot example_sync (JStr ''n1'') True example_devices)"
  by code_simp


theorem reenrolled_device_keeps_place_witness:
  "device_at (snd (sync_device_once example_sync (JStr ''n1'') True example_devices)) (JStr ''n0'') = None \<and>
   (\<exists>b. device_at (snd (sync_device_once example_sync (JStr ''n1'') True example_devices)) (JStr ''n1'') = Some b \<and>
     attr b ''position'' = JNum 12 \<and> attr b ''location'' = JStr ''l1'' \<and> attr b ''rack'' = JStr ''r1'')"
proof -
  have s: "ironic_answers example_sync (JStr ''n1'') example_node example_inventory [example_nic]" unfolding example_sync_def by (rule server_ironic)
  have d: "devices_served example_sync" "interfaces_apart example_sync" unfolding example_sync_def by (rule server_devices server_apart)+
  have n: "truthy (di_name example_info)" "opt_json (di_name example_info) = JStr ''Dell-A1''" by (simp_all add: example_info_def opt_json_def)
  let ?a = "[(''name'', JStr ''Dell-A1''), (''location'', JStr ''l1''), (''rack'', JStr ''r1''), (''position'', JNum 12)]"
  have a: "device_at example_devices (JStr ''n1'') = None" "device_at example_devices (JStr ''n0'') = Some ?a"
    by (simp_all add: example_devices_def)
  have b: "device_named example_devices x (JStr ''Dell-A1'') \<longleftrightarrow> x = JStr ''n0''" for x
    by (simp add: device_named_def example_devices_def dget_def)
  have at: "attr ?a ''position'' = JNum 12" "attr ?a ''location'' = JStr ''l1''" "attr ?a ''rack'' = JStr ''r1''"
    by (simp_all add: attr_def jget_default_def dget_def)
  have p: "\<forall>p \<in> set [example_nic]. \<not> usable (ip_switch_info p)" by (simp add: example_nic_def usable_def)
  show ?thesis
    using reenrolled_device_keeps_place [OF d s example_described n(1) a, unfolded n(2) b, OF refl _ code_isE [OF example_once]] at p by auto
qed

text \<open>Leaving rescue mode is spelt in one way in the list of states and in another in the table of their statuses.\<close>

lemma unrescuing_untranslated: "translate_to_nautobot ''unrescuing'' = Inr None \<and> translate_to_nautobot ''unrescueing'' = Inr (Some ''Quarantine'')"
  by code_simp

end
