(* ===== verification/Netapp_Storage.thy ===== *)
theory Netapp_Storage
  imports Py_Uuid "HOL-Library.Char_ord" "HOL-Library.List_Lexorder"
begin

text \<open>
  Storage of a project on the NetApp clusters: \<open>understack_workflows/netapp/config.py\<close>, the SVM and volume parts
  of \<open>netapp/client.py\<close>, \<open>netapp/svm_service.py\<close>, \<open>netapp/volume_service.py\<close> and \<open>netapp/manager.py\<close>, and the event handlers
  \<open>oslo_event/keystone_project.py\<close>, \<open>oslo_event/cinder_volume_type.py\<close> and \<open>oslo_event/ironic_node.py\<close>.

  The SDK keeps one connection for the whole process, in \<open>netapp_ontap.config.CONNECTION\<close>; constructing a manager for a backend
  switches it.  It is part of the state, and every request goes to the cluster it names.  The calls of the SDK are
  parameters (\<open>ontap_sdk\<close>); \<open>ontap_served\<close> says what a request that returned has done and that a refused one
  has changed nothing, and nothing is assumed about which requests are refused unless a lemma says so.  A volume is identified
  by its SVM and its name.

  The files that \<open>save_output\<close> writes are a dictionary, and writing them succeeds.
\<close>

section \<open>State and SDK\<close>

record NetAppConfig =
  nc_section :: string
  nc_hostname :: string
  nc_username :: string
  nc_password :: string
  nc_nic_slot_prefix :: string

record SvmSpec =
  ss_name :: string
  ss_aggregate_name :: string
  ss_language :: string
  ss_allowed_protocols :: "string list"

definition root_volume_name :: "SvmSpec \<Rightarrow> string" where
  "root_volume_name spec = map (\<lambda>c. if c = CHR ''-'' then CHR ''_'' else c) (ss_name spec) @ ''_root''"

record VolumeSpec =
  vs_name :: string
  vs_svm_name :: string
  vs_aggregate_name :: string
  vs_size :: string

text \<open>What the tables of a cluster keep.\<close>

record volume_row =
  vo_aggregate :: string
  vo_size :: json
  vo_snapshot_policy :: json
  vo_autosize :: json

record cluster =
  svms :: "SvmSpec dict"
  volumes :: "((string \<times> string) \<times> volume_row) list"

record netapp =
  connection :: "string option"
  clusters :: "string \<Rightarrow> cluster"
  outputs :: "string dict"
  connectors :: "(json \<times> string) list"

text \<open>Records the SDK returns; an optional field may be missing in them.\<close>

record svm_record =
  sr_name :: string
  sr_uuid :: string
  sr_state :: "string option"

record volume_record =
  vr_svm :: string
  vr_name :: string
  vr_uuid :: string
  vr_size :: "int option"
  vr_state :: "string option"

record aggregate_record =
  ag_name :: "string option"
  ag_state :: "string option"
  ag_used_percent :: "int option"

type_synonym conn = "string option"

record ontap_sdk =
  connection_host :: "string \<Rightarrow> string option"
  host_connection :: "NetAppConfig \<Rightarrow> exn + unit"
  svm_find :: "conn \<Rightarrow> string \<Rightarrow> (netapp, svm_record option) act"
  svm_post :: "conn \<Rightarrow> SvmSpec \<Rightarrow> (netapp, unit) act"
  svm_get :: "conn \<Rightarrow> string \<Rightarrow> (netapp, svm_record) act"
  svm_delete :: "conn \<Rightarrow> svm_record \<Rightarrow> (netapp, unit) act"
  volume_collection :: "conn \<Rightarrow> string \<Rightarrow> string \<Rightarrow> (netapp, volume_record list) act"
  volume_patch :: "conn \<Rightarrow> volume_record \<Rightarrow> json dict \<Rightarrow> (netapp, unit) act"
  volume_post :: "conn \<Rightarrow> VolumeSpec \<Rightarrow> (netapp, unit) act"
  volume_refresh :: "conn \<Rightarrow> VolumeSpec \<Rightarrow> (netapp, volume_record) act"
  volume_get :: "conn \<Rightarrow> string \<Rightarrow> (netapp, volume_record) act"
  volume_delete :: "conn \<Rightarrow> volume_record \<Rightarrow> bool \<Rightarrow> (netapp, unit) act"
  volume_find :: "conn \<Rightarrow> string \<Rightarrow> string \<Rightarrow> (netapp, volume_record option) act"
  aggregate_collection :: "conn \<Rightarrow> (netapp, aggregate_record list) act"

definition on_conn :: "(conn \<Rightarrow> (netapp, 'a) act) \<Rightarrow> (netapp, 'a) act" where
  "on_conn f = bnd (reads connection) f"

definition save_output :: "string \<Rightarrow> string \<Rightarrow> (netapp, unit) act" where
  "save_output name value = updates (\<lambda>s. s\<lparr>outputs := dput name value (outputs s)\<rparr>)"

definition py_bool :: "bool \<Rightarrow> string" where
  "py_bool b = (if b then ''True'' else ''False'')"

text \<open>\<open>except NetAppManagerError: raise\<close> followed by \<open>except Exception as e: raise ... from e\<close>, and \<open>except NetAppRestError\<close>.\<close>

definition reraise_or_wrap :: "netapp_class \<Rightarrow> string \<Rightarrow> exn \<Rightarrow> exn" where
  "reraise_or_wrap c msg ex = (case ex of NetAppManagerError _ _ \<Rightarrow> ex | _ \<Rightarrow> NetAppManagerError c msg)"

definition wrap_rest_error :: "netapp_class \<Rightarrow> string \<Rightarrow> exn \<Rightarrow> exn" where
  "wrap_rest_error c msg ex = (case ex of NetAppRestError _ _ \<Rightarrow> NetAppManagerError c msg | _ \<Rightarrow> ex)"

section \<open>Configuration\<close>

text \<open>What \<open>configparser\<close> makes of the file; reading an option may itself fail, on a bad interpolation.\<close>

datatype ini_file = NoFile | Unparsable | Sections "(string \<times> (exn + string) dict) list"

definition ini_get :: "(exn + string) dict \<Rightarrow> string \<Rightarrow> exn + string" where
  "ini_get options k = (case dget options k of None \<Rightarrow> Inl (Foreign ''NoOptionError'') | Some v \<Rightarrow> v)"

definition required_option :: "(exn + string) dict \<Rightarrow> string \<Rightarrow> exn + string" where
  "required_option options k = (case ini_get options k of
      Inl ex \<Rightarrow> Inl (if ex = Foreign ''NoOptionError'' then NetAppManagerError ConfigurationError ''Missing required configuration'' else ex)
    | Inr v \<Rightarrow> Inr v)"

definition parse_config :: "string \<Rightarrow> (exn + string) dict \<Rightarrow> exn + NetAppConfig" where
  "parse_config section options =
     sbnd (required_option options ''netapp_server_hostname'') (\<lambda>hostname.
     sbnd (required_option options ''netapp_login'') (\<lambda>username.
     sbnd (required_option options ''netapp_password'') (\<lambda>password.
     sbnd (case ini_get options ''netapp_nic_slot_prefix'' of
             Inl ex \<Rightarrow> if ex = Foreign ''NoOptionError'' then Inr ''e4'' else Inl ex
           | Inr v \<Rightarrow> Inr v) (\<lambda>nic_slot_prefix.
     Inr \<lparr>nc_section = section, nc_hostname = hostname, nc_username = username, nc_password = password,
          nc_nic_slot_prefix = nic_slot_prefix\<rparr>))))"

definition validate_config :: "NetAppConfig \<Rightarrow> exn + unit" where
  "validate_config cfg =
     (if [] \<in> set (map strip [nc_hostname cfg, nc_username cfg, nc_password cfg])
      then Inl (NetAppManagerError ConfigurationError ''Configuration validation failed'') else Inr ())"

definition load_config :: "string \<times> (exn + string) dict \<Rightarrow> exn + NetAppConfig" where
  "load_config e = sbnd (parse_config (fst e) (snd e)) (\<lambda>cfg. sbnd (validate_config cfg) (\<lambda>_. Inr cfg))"

definition get_all_backends :: "ini_file \<Rightarrow> exn + NetAppConfig list" where
  "get_all_backends file = (case file of
      NoFile \<Rightarrow> Inl (NetAppManagerError ConfigurationError ''Configuration file not found'')
    | Unparsable \<Rightarrow> Inl (NetAppManagerError ConfigurationError ''Failed to parse configuration file'')
    | Sections ss \<Rightarrow>
        if ss = [] then Inl (NetAppManagerError ConfigurationError ''No sections found in configuration file'')
        else smap load_config ss)"

section \<open>The connection\<close>

text \<open>
  A new connection is made when there is none or when the present one goes to another host.  The manager does this first
  and the client it constructs does it again, turning an error into a configuration error.
\<close>

definition needs_connection :: "ontap_sdk \<Rightarrow> NetAppConfig \<Rightarrow> netapp \<Rightarrow> bool" where
  "needs_connection sd cfg s = (case connection s of
      None \<Rightarrow> True
    | Some h \<Rightarrow> (case connection_host sd h of None \<Rightarrow> False | Some host \<Rightarrow> host \<noteq> nc_hostname cfg))"

definition connect :: "ontap_sdk \<Rightarrow> NetAppConfig \<Rightarrow> (netapp, unit) act" where
  "connect sd cfg =
     bnd (reads (needs_connection sd cfg)) (\<lambda>needed.
       when_act needed (andthen (of_sum (host_connection sd cfg)) (updates (\<lambda>s. s\<lparr>connection := Some (nc_hostname cfg)\<rparr>))))"

definition setup_connection :: "ontap_sdk \<Rightarrow> NetAppConfig \<Rightarrow> (netapp, unit) act" where
  "setup_connection sd cfg =
     try_except (connect sd cfg) (\<lambda>_. raise_exn (NetAppManagerError ConfigurationError ''Configuration error''))"

definition setup_manager :: "ontap_sdk \<Rightarrow> NetAppConfig \<Rightarrow> (netapp, unit) act" where
  "setup_manager sd cfg = andthen (connect sd cfg) (setup_connection sd cfg)"

section \<open>The client\<close>

record SvmResult =
  sv_name :: string
  sv_uuid :: string
  sv_state :: string

record VolumeResult =
  vl_name :: string
  vl_uuid :: string
  vl_size :: int
  vl_state :: string
  vl_svm_name :: string

record AggregateResult =
  ar_name :: string
  ar_state :: "string option"
  ar_used_percent :: "int option"

definition or_unknown :: "string option \<Rightarrow> string" where
  "or_unknown t = (case t of None \<Rightarrow> ''unknown'' | Some v \<Rightarrow> v)"

definition svm_result :: "svm_record \<Rightarrow> SvmResult" where
  "svm_result r = \<lparr>sv_name = sr_name r, sv_uuid = sr_uuid r, sv_state = or_unknown (sr_state r)\<rparr>"

definition SVM_ROOT_VOLUME_SIZE_BYTES :: int where
  "SVM_ROOT_VOLUME_SIZE_BYTES = 1024 ^ 3"

definition SVM_ROOT_VOLUME_AUTOSIZE_MAXIMUM_BYTES :: int where
  "SVM_ROOT_VOLUME_AUTOSIZE_MAXIMUM_BYTES = 2 * 1024 ^ 3"

definition root_volume_settings :: "json dict" where
  "root_volume_settings =
     [(''size'', JNum SVM_ROOT_VOLUME_SIZE_BYTES), (''snapshot_policy'', JObj [(''name'', JStr ''none'')]),
      (''autosize'', JObj [(''mode'', JStr ''grow''), (''maximum'', JNum SVM_ROOT_VOLUME_AUTOSIZE_MAXIMUM_BYTES)])]"

definition configure_svm_root_volume :: "ontap_sdk \<Rightarrow> SvmSpec \<Rightarrow> (netapp, unit) act" where
  "configure_svm_root_volume sd spec =
     on_conn (\<lambda>c. bnd (volume_collection sd c (ss_name spec) (root_volume_name spec)) (\<lambda>vs.
       case vs of
         [] \<Rightarrow> raise_exn (NetAppManagerError SvmOperationError ''SVM root volume was not found after SVM creation'')
       | root_volume # _ \<Rightarrow> volume_patch sd c root_volume root_volume_settings))"

definition client_create_svm :: "ontap_sdk \<Rightarrow> SvmSpec \<Rightarrow> (netapp, SvmResult) act" where
  "client_create_svm sd spec =
     try_except
       (on_conn (\<lambda>c. andthen (svm_post sd c spec) (bnd (svm_get sd c (ss_name spec)) (\<lambda>svm.
          andthen (configure_svm_root_volume sd spec) (ret (svm_result svm))))))
       (\<lambda>ex. raise_exn (wrap_rest_error SvmOperationError ''NetApp SVM creation failed'' ex))"

definition client_delete_svm :: "ontap_sdk \<Rightarrow> string \<Rightarrow> (netapp, bool) act" where
  "client_delete_svm sd svm_name =
     try_except (on_conn (\<lambda>c. bnd (svm_get sd c svm_name) (\<lambda>svm. andthen (svm_delete sd c svm) (ret True)))) (\<lambda>_. ret False)"

definition client_find_svm :: "ontap_sdk \<Rightarrow> string \<Rightarrow> (netapp, SvmResult option) act" where
  "client_find_svm sd svm_name =
     try_except (on_conn (\<lambda>c. bnd (svm_find sd c svm_name) (\<lambda>svm. ret (map_option svm_result svm)))) (\<lambda>ex.
       case ex of
         NetAppRestError status _ \<Rightarrow>
           if status = 404 then ret None else raise_exn (NetAppManagerError SvmOperationError ''NetApp SVM lookup failed'')
       | _ \<Rightarrow> raise_exn (NetAppManagerError SvmOperationError ''Unexpected SVM lookup failure''))"

text \<open>\<open>int (getattr (volume, 'size', default))\<close>.\<close>

definition volume_size_or :: "string \<Rightarrow> volume_record \<Rightarrow> exn + int" where
  "volume_size_or t v = (case vr_size v of
      Some n \<Rightarrow> Inr n
    | None \<Rightarrow> (case py_int t of None \<Rightarrow> Inl (ValueError ''invalid literal for int()'') | Some n \<Rightarrow> Inr n))"

definition volume_result :: "string \<Rightarrow> string \<Rightarrow> volume_record \<Rightarrow> exn + VolumeResult" where
  "volume_result default_size svm_name v =
     sbnd (volume_size_or default_size v) (\<lambda>size.
     Inr \<lparr>vl_name = vr_name v, vl_uuid = vr_uuid v, vl_size = size, vl_state = or_unknown (vr_state v), vl_svm_name = svm_name\<rparr>)"

definition client_create_volume :: "ontap_sdk \<Rightarrow> VolumeSpec \<Rightarrow> (netapp, VolumeResult) act" where
  "client_create_volume sd spec =
     try_except
       (on_conn (\<lambda>c. andthen (volume_post sd c spec) (bnd (volume_refresh sd c spec) (\<lambda>volume.
          of_sum (volume_result (vs_size spec) (vs_svm_name spec) volume)))))
       (\<lambda>ex. raise_exn (wrap_rest_error VolumeOperationError ''NetApp Volume creation failed'' ex))"

definition client_delete_volume :: "ontap_sdk \<Rightarrow> string \<Rightarrow> bool \<Rightarrow> (netapp, bool) act" where
  "client_delete_volume sd volume_name force =
     try_except (on_conn (\<lambda>c. bnd (volume_get sd c volume_name) (\<lambda>volume. andthen (volume_delete sd c volume force) (ret True)))) (\<lambda>_. ret False)"

definition client_find_volume :: "ontap_sdk \<Rightarrow> string \<Rightarrow> string \<Rightarrow> (netapp, VolumeResult option) act" where
  "client_find_volume sd volume_name svm_name =
     try_except (on_conn (\<lambda>c. bnd (volume_find sd c volume_name svm_name) (\<lambda>volume.
       case volume of None \<Rightarrow> ret None | Some v \<Rightarrow> bnd (of_sum (volume_result ''unknown'' svm_name v)) (\<lambda>r. ret (Some r))))) (\<lambda>_. ret None)"

definition client_get_aggregates :: "ontap_sdk \<Rightarrow> (netapp, AggregateResult list) act" where
  "client_get_aggregates sd =
     try_except (on_conn (\<lambda>c. bnd (aggregate_collection sd c) (\<lambda>aggregates.
       ret (map (\<lambda>a. \<lparr>ar_name = the (ag_name a), ar_state = ag_state a, ar_used_percent = ag_used_percent a\<rparr>)
              (filter (\<lambda>a. truthy (ag_name a)) aggregates)))))
       (\<lambda>ex. raise_exn (wrap_rest_error PlainManagerError ''NetApp Aggregate retrieval failed'' ex))"

section \<open>Services\<close>

definition get_svm_name :: "json \<Rightarrow> string" where
  "get_svm_name project_id = ''os-'' @ json_str project_id"

definition svm_exists :: "ontap_sdk \<Rightarrow> json \<Rightarrow> (netapp, bool) act" where
  "svm_exists sd project_id =
     try_except (bnd (client_find_svm sd (get_svm_name project_id)) (\<lambda>r. ret (r \<noteq> None))) (\<lambda>_. ret False)"

definition svm_spec :: "json \<Rightarrow> string \<Rightarrow> SvmSpec" where
  "svm_spec project_id aggregate_name =
     \<lparr>ss_name = get_svm_name project_id, ss_aggregate_name = aggregate_name, ss_language = ''c.utf_8'', ss_allowed_protocols = [''nvme'']\<rparr>"

definition create_svm :: "ontap_sdk \<Rightarrow> json \<Rightarrow> string \<Rightarrow> (netapp, string) act" where
  "create_svm sd project_id aggregate_name =
     bnd (svm_exists sd project_id) (\<lambda>found.
       if found then raise_exn (NetAppManagerError SvmOperationError ''SVM already exists'')
       else try_except (bnd (client_create_svm sd (svm_spec project_id aggregate_name)) (\<lambda>r. ret (sv_name r)))
              (\<lambda>ex. raise_exn (reraise_or_wrap SvmOperationError ''SVM creation'' ex)))"

definition delete_svm :: "ontap_sdk \<Rightarrow> json \<Rightarrow> (netapp, bool) act" where
  "delete_svm sd project_id = try_except (client_delete_svm sd (get_svm_name project_id)) (\<lambda>_. ret False)"

definition get_volume_name :: "json \<Rightarrow> exn + string" where
  "get_volume_name volume_type_id = sbnd (jstring ''replace'' volume_type_id) (\<lambda>t. Inr (''vol_'' @ filter (\<lambda>c. c \<noteq> CHR ''-'') t))"

definition volume_exists :: "ontap_sdk \<Rightarrow> json \<Rightarrow> (netapp, bool) act" where
  "volume_exists sd project_id =
     bnd (of_sum (get_volume_name project_id)) (\<lambda>volume_name.
       try_except (bnd (client_find_volume sd volume_name (get_svm_name project_id)) (\<lambda>r. ret (r \<noteq> None))) (\<lambda>_. ret False))"

definition create_volume :: "ontap_sdk \<Rightarrow> json \<Rightarrow> json \<Rightarrow> string \<Rightarrow> string \<Rightarrow> (netapp, string) act" where
  "create_volume sd project_id volume_type_id volume_size aggregate_name =
     bnd (of_sum (get_volume_name volume_type_id)) (\<lambda>volume_name.
       let spec = \<lparr>vs_name = volume_name, vs_svm_name = get_svm_name project_id, vs_aggregate_name = aggregate_name, vs_size = volume_size\<rparr> in
       try_except (bnd (client_create_volume sd spec) (\<lambda>r. ret (vl_name r)))
         (\<lambda>ex. raise_exn (reraise_or_wrap VolumeOperationError ''Volume creation'' ex)))"

definition service_delete_volume :: "ontap_sdk \<Rightarrow> json \<Rightarrow> bool \<Rightarrow> (netapp, bool) act" where
  "service_delete_volume sd volume_type_id force =
     bnd (of_sum (get_volume_name volume_type_id)) (\<lambda>volume_name.
       try_except (client_delete_volume sd volume_name force) (\<lambda>_. ret False))"

section \<open>The manager\<close>

definition eligible_aggregates :: "AggregateResult list \<Rightarrow> AggregateResult list" where
  "eligible_aggregates = filter (\<lambda>a. ar_state a = Some ''online'' \<and> ar_used_percent a \<noteq> None)"

definition usage_key :: "AggregateResult \<Rightarrow> int \<times> string" where
  "usage_key a = (the (ar_used_percent a), ar_name a)"

text \<open>\<open>min (xs, key=...)\<close>: the first of the smallest.\<close>

fun min_by :: "('a \<Rightarrow> 'k :: linorder) \<Rightarrow> 'a \<Rightarrow> 'a list \<Rightarrow> 'a" where
  "min_by k x [] = x"
| "min_by k x (y # ys) = (if k y < k x then min_by k y ys else min_by k x ys)"

definition select_aggregate_name :: "ontap_sdk \<Rightarrow> (netapp, string) act" where
  "select_aggregate_name sd =
     bnd (client_get_aggregates sd) (\<lambda>aggregates.
       if aggregates = [] then raise_exn (NetAppManagerError PlainManagerError ''No NetApp aggregates are available'')
       else case eligible_aggregates aggregates of
         [] \<Rightarrow> raise_exn (NetAppManagerError PlainManagerError ''No eligible NetApp aggregates are available'')
       | a # as \<Rightarrow> ret (ar_name (min_by usage_key a as)))"

definition manager_delete_volume :: "ontap_sdk \<Rightarrow> string \<Rightarrow> bool \<Rightarrow> (netapp, bool) act" where
  "manager_delete_volume sd volume_name force =
     (if take 4 volume_name = ''vol_'' then service_delete_volume sd (JStr (drop 4 volume_name)) force
      else try_except (client_delete_volume sd volume_name force) (\<lambda>_. ret False))"

definition manager_delete_svm :: "ontap_sdk \<Rightarrow> string \<Rightarrow> (netapp, bool) act" where
  "manager_delete_svm sd svm_name =
     (if take 3 svm_name = ''os-'' then delete_svm sd (JStr (drop 3 svm_name))
      else try_except (client_delete_svm sd svm_name) (\<lambda>_. ret False))"

text \<open>The results for the volume and for the SVM.\<close>

definition cleanup_project :: "ontap_sdk \<Rightarrow> json \<Rightarrow> (netapp, bool \<times> bool) act" where
  "cleanup_project sd project_id =
     bnd (try_except (volume_exists sd project_id) (\<lambda>_. ret True)) (\<lambda>volume_existed.
     bnd (try_except (svm_exists sd project_id) (\<lambda>_. ret True)) (\<lambda>svm_existed.
     bnd (if volume_existed then try_except (service_delete_volume sd project_id True) (\<lambda>_. ret False) else ret True) (\<lambda>delete_vol_result.
     bnd (if svm_existed
          then if delete_vol_result \<or> \<not> volume_existed then try_except (delete_svm sd project_id) (\<lambda>_. ret False) else ret False
          else ret True) (\<lambda>delete_svm_result.
     ret (delete_vol_result, delete_svm_result)))))"

section \<open>Project events\<close>

text \<open>What the handlers ask OpenStack for: the tags of a project, the extra specs of a volume type, a server's metadata.\<close>

record openstack =
  os_project_tags :: "json \<Rightarrow> exn + string list option"
  os_type_extra_specs :: "json \<Rightarrow> exn + string dict option"
  os_server_metadata :: "json \<Rightarrow> exn + string dict option"
  os_create_volume_connector :: "json \<Rightarrow> string \<Rightarrow> (netapp, unit) act"

definition SVM_PROJECT_TAG :: string where
  "SVM_PROJECT_TAG = ''UNDERSTACK_SVM''"

definition project_from_event_dict :: "json \<Rightarrow> exn + json" where
  "project_from_event_dict data =
     sbnd (jobject ''get'' data) (\<lambda>d.
     case jget d ''payload'' of
       None \<Rightarrow> Inl (PyException ''Invalid event. No payload'' [])
     | Some payload \<Rightarrow> sbnd (jobject ''get'' payload) (\<lambda>p.
         case jget p ''target'' of
           None \<Rightarrow> Inl (PyException ''no target information in payload'' [])
         | Some target \<Rightarrow> sbnd (jobject ''get'' target) (\<lambda>t.
             case jget t ''id'' of None \<Rightarrow> Inl (PyException ''no project_id found in payload'' []) | Some i \<Rightarrow> Inr i)))"

definition keystone_project_tags :: "openstack \<Rightarrow> json \<Rightarrow> exn + string list" where
  "keystone_project_tags os project_id =
     sbnd (os_project_tags os project_id) (\<lambda>tags. Inr (case tags of None \<Rightarrow> [] | Some ts \<Rightarrow> ts))"

definition is_project_svm_enabled :: "openstack \<Rightarrow> json \<Rightarrow> (netapp, bool) act" where
  "is_project_svm_enabled os project_id =
     bnd (of_sum (keystone_project_tags os project_id)) (\<lambda>tags.
     andthen (save_output ''project_tags'' (dumps_strings tags)) (ret (SVM_PROJECT_TAG \<in> set tags)))"

definition is_event :: "string \<Rightarrow> json \<Rightarrow> exn + bool" where
  "is_event t data = sbnd (jobject ''get'' data) (\<lambda>d. Inr (jget d ''event_type'' = Some (JStr t)))"

definition create_project_svm :: "ontap_sdk \<Rightarrow> json \<Rightarrow> (netapp, string) act" where
  "create_project_svm sd project_id = bnd (select_aggregate_name sd) (create_svm sd project_id)"

fun create_on_backends :: "ontap_sdk \<Rightarrow> json \<Rightarrow> NetAppConfig list \<Rightarrow> (netapp, string option) act" where
  "create_on_backends sd project_id [] = ret None"
| "create_on_backends sd project_id (b # bs) =
     andthen (setup_manager sd b) (bnd (create_project_svm sd project_id) (\<lambda>svm_name.
       if svm_name \<noteq> [] then andthen (save_output ''svm_created'' (py_bool True)) (ret (Some svm_name))
       else create_on_backends sd project_id bs))"

fun find_backend :: "ontap_sdk \<Rightarrow> json \<Rightarrow> NetAppConfig list \<Rightarrow> (netapp, NetAppConfig option) act" where
  "find_backend sd project_id [] = ret None"
| "find_backend sd project_id (b # bs) =
     andthen (setup_manager sd b) (bnd (svm_exists sd project_id) (\<lambda>found.
       if found then ret (Some b) else find_backend sd project_id bs))"

text \<open>
  The \<open>finally\<close> clause that two handlers share: when the body raised, neither the name nor the state of the SVM has been
  assigned.
\<close>

definition save_svm :: "string option \<Rightarrow> string \<Rightarrow> (netapp, unit) act" where
  "save_svm svm_name svm_state =
     andthen (save_output ''svm_name'' (if truthy svm_name then the svm_name else ''not_returned'')) (save_output ''svm_state'' svm_state)"

definition reporting_svm :: "(netapp, string option \<times> string) act \<Rightarrow> (netapp, int) act" where
  "reporting_svm body =
     bnd (try_except body (\<lambda>ex. andthen (save_svm None ''unknown'') (raise_exn ex))) (\<lambda>(svm_name, svm_state).
       andthen (save_svm svm_name svm_state) (ret 0))"

definition handle_project_created :: "openstack \<Rightarrow> ontap_sdk \<Rightarrow> ini_file \<Rightarrow> json \<Rightarrow> (netapp, int) act" where
  "handle_project_created os sd file event_data =
     bnd (of_sum (is_event ''identity.project.created'' event_data)) (\<lambda>ok.
     if \<not> ok then ret 1 else
     bnd (of_sum (project_from_event_dict event_data)) (\<lambda>project_id.
     bnd (is_project_svm_enabled os project_id) (\<lambda>project_is_svm_enabled.
     andthen (save_output ''svm_enabled'' (py_bool project_is_svm_enabled))
       (if \<not> project_is_svm_enabled then andthen (save_output ''svm_state'' ''nonexistent'') (ret 0)
        else reporting_svm
          (bnd (of_sum (get_all_backends file)) (\<lambda>backends.
           bnd (create_on_backends sd project_id backends) (\<lambda>svm_name.
           ret (svm_name, if svm_name \<noteq> None then ''created'' else ''unknown''))))))))"

definition update_project_svm :: "ontap_sdk \<Rightarrow> json \<Rightarrow> bool \<Rightarrow> NetAppConfig list \<Rightarrow> (netapp, string option \<times> string) act" where
  "update_project_svm sd project_id project_is_svm_enabled backends =
     bnd (find_backend sd project_id backends) (\<lambda>existing_manager.
       if \<not> project_is_svm_enabled \<and> existing_manager \<noteq> None
       then andthen (cleanup_project sd project_id) (ret (None, ''removed''))
       else if project_is_svm_enabled
       then if existing_manager \<noteq> None then andthen (save_output ''svm_created'' (py_bool False)) (ret (None, ''present''))
            else case backends of
              [] \<Rightarrow> raise_exn IndexError
            | first_backend # _ \<Rightarrow>
                andthen (setup_manager sd first_backend) (bnd (create_project_svm sd project_id) (\<lambda>svm_name.
                  andthen (save_output ''svm_created'' (py_bool True)) (ret (Some svm_name, ''created''))))
       else ret (None, ''unknown''))"

definition handle_project_updated :: "openstack \<Rightarrow> ontap_sdk \<Rightarrow> ini_file \<Rightarrow> json \<Rightarrow> (netapp, int) act" where
  "handle_project_updated os sd file event_data =
     bnd (of_sum (is_event ''identity.project.updated'' event_data)) (\<lambda>ok.
     if \<not> ok then ret 1 else
     bnd (of_sum (project_from_event_dict event_data)) (\<lambda>project_id.
     bnd (is_project_svm_enabled os project_id) (\<lambda>project_is_svm_enabled.
     andthen (save_output ''svm_enabled'' (py_bool project_is_svm_enabled))
       (reporting_svm
          (bnd (of_sum (get_all_backends file)) (update_project_svm sd project_id project_is_svm_enabled))))))"

definition handle_project_deleted :: "openstack \<Rightarrow> ontap_sdk \<Rightarrow> ini_file \<Rightarrow> json \<Rightarrow> (netapp, int) act" where
  "handle_project_deleted os sd file event_data =
     bnd (of_sum (is_event ''identity.project.deleted'' event_data)) (\<lambda>ok.
     if \<not> ok then ret 1 else
     bnd (of_sum (project_from_event_dict event_data)) (\<lambda>project_id.
     try_except
       (bnd (of_sum (get_all_backends file)) (\<lambda>backends.
        bnd (find_backend sd project_id backends) (\<lambda>svm_found.
          if svm_found \<noteq> None
          then andthen (cleanup_project sd project_id) (andthen (save_output ''svm_state'' ''removed'') (ret 0))
          else andthen (save_output ''svm_state'' ''nonexistent'') (ret 0))))
       (\<lambda>_. andthen (save_output ''svm_state'' ''unknown'') (ret 1))))"

section \<open>Volume type events\<close>

definition VOLUME_SIZE :: string where
  "VOLUME_SIZE = ''514GB''"

record CinderVolumeTypeAccessEvent =
  ca_project_id :: json
  ca_volume_type_id :: json

definition access_from_event_dict :: "json \<Rightarrow> exn + CinderVolumeTypeAccessEvent" where
  "access_from_event_dict data =
     sbnd (jobject ''get'' data) (\<lambda>d.
     sbnd (jobject ''get'' (jget_default d ''payload'' (JObj []))) (\<lambda>p.
     case jget p ''project_id'' of
       None \<Rightarrow> Inl (PyException ''no project_id in event payload'' [])
     | Some project_id \<Rightarrow>
         (case jget p ''volume_type_id'' of
            None \<Rightarrow> Inl (PyException ''no volume_type_id in event payload'' [])
          | Some volume_type_id \<Rightarrow> Inr \<lparr>ca_project_id = project_id, ca_volume_type_id = volume_type_id\<rparr>)))"

definition handle_volume_type_access_added :: "openstack \<Rightarrow> ontap_sdk \<Rightarrow> ini_file \<Rightarrow> json \<Rightarrow> (netapp, int) act" where
  "handle_volume_type_access_added os sd file event_data =
     bnd (of_sum (is_event ''volume_type_project.access.add'' event_data)) (\<lambda>ok.
     if \<not> ok then ret 1 else
     bnd (of_sum (access_from_event_dict event_data)) (\<lambda>event.
     bnd (of_sum (os_type_extra_specs os (ca_volume_type_id event))) (\<lambda>specs.
     let extra_specs = (case specs of None \<Rightarrow> [] | Some e \<Rightarrow> e);
         volume_size = (case dget extra_specs ''netapp:flexvol_size'' of None \<Rightarrow> VOLUME_SIZE | Some n \<Rightarrow> n) in
     bnd (of_sum (get_all_backends file)) (\<lambda>backends.
     bnd (find_backend sd (ca_project_id event) backends) (\<lambda>netapp_manager.
       if netapp_manager = None then andthen (save_output ''volume_created'' (py_bool False)) (ret 1)
       else bnd (case dget extra_specs ''netapp:aggregate_name'' of None \<Rightarrow> select_aggregate_name sd | Some a \<Rightarrow> ret a) (\<lambda>aggregate_name.
         bnd (create_volume sd (ca_project_id event) (ca_volume_type_id event) volume_size aggregate_name) (\<lambda>volume_name.
         andthen (save_output ''volume_created'' (py_bool True))
           (andthen (save_output ''volume_name'' volume_name) (ret 0)))))))))"

definition handle_volume_type_access_removed :: "ontap_sdk \<Rightarrow> ini_file \<Rightarrow> json \<Rightarrow> (netapp, int) act" where
  "handle_volume_type_access_removed sd file event_data =
     bnd (of_sum (is_event ''volume_type_project.access.remove'' event_data)) (\<lambda>ok.
     if \<not> ok then ret 1 else
     bnd (of_sum (access_from_event_dict event_data)) (\<lambda>event.
     try_except
       (bnd (of_sum (get_all_backends file)) (\<lambda>backends.
        bnd (find_backend sd (ca_project_id event) backends) (\<lambda>netapp_manager.
        bnd (if netapp_manager = None then ret False
             else bnd (of_sum (get_volume_name (ca_volume_type_id event))) (\<lambda>volume_name. manager_delete_volume sd volume_name False)) (\<lambda>deleted.
        andthen (save_output ''volume_deleted'' (py_bool deleted)) (ret (if deleted then 0 else 1))))))
       (\<lambda>_. ret 1)))"

section \<open>Provisioning events\<close>

record IronicProvisionSetEvent =
  ps_node_uuid :: json
  ps_event :: json
  ps_owner :: json
  ps_lessee :: json
  ps_instance_uuid :: json

definition provision_from_event_dict :: "json \<Rightarrow> exn + IronicProvisionSetEvent" where
  "provision_from_event_dict data =
     sbnd (jobject ''get'' data) (\<lambda>d.
     case jget d ''payload'' of
       None \<Rightarrow> Inl (ValueError ''Invalid event. No payload'')
     | Some payload \<Rightarrow> sbnd (jobject ''get'' payload) (\<lambda>p.
         case jget p ''ironic_object.data'' of
           None \<Rightarrow> Inl (ValueError ''Invalid event. No ironic_object.data in payload'')
         | Some i \<Rightarrow>
             sbnd (jitem i ''uuid'') (\<lambda>node_uuid. sbnd (jitem i ''event'') (\<lambda>event. sbnd (jitem i ''owner'') (\<lambda>owner.
             sbnd (jitem i ''lessee'') (\<lambda>lessee. sbnd (jitem i ''instance_uuid'') (\<lambda>instance_uuid.
             Inr \<lparr>ps_node_uuid = node_uuid, ps_event = event, ps_owner = owner, ps_lessee = lessee, ps_instance_uuid = instance_uuid\<rparr>)))))))"

definition lessee_undashed :: "IronicProvisionSetEvent \<Rightarrow> exn + string" where
  "lessee_undashed event = sbnd (py_uuid (ps_lessee event)) (\<lambda>i. Inr (hexn 32 i))"

definition extract_payload_data :: "json \<Rightarrow> exn + json" where
  "extract_payload_data event_data =
     sbnd (jobject ''get'' event_data) (\<lambda>d. Inr (case jget_default d ''payload'' (JObj []) of JObj p \<Rightarrow> jget_default p ''ironic_object.data'' JNull | _ \<Rightarrow> JNull))"

definition instance_nqn :: "json \<Rightarrow> string" where
  "instance_nqn instance_id = ''nqn.2014-08.org.nvmexpress:uuid:'' @ json_str instance_id"

definition create_volume_connector :: "openstack \<Rightarrow> IronicProvisionSetEvent \<Rightarrow> (netapp, unit) act" where
  "create_volume_connector os event =
     try_except (os_create_volume_connector os (ps_node_uuid event) (instance_nqn (ps_instance_uuid event)))
       (\<lambda>ex. if ex = Foreign ''ConflictException'' then ret () else raise_exn ex)"

text \<open>\<open>save_output\<close> of a decoded value: the file is opened before the write refuses what is not a string.\<close>

definition save_value :: "string \<Rightarrow> json \<Rightarrow> (netapp, unit) act" where
  "save_value name v = (case v of
      JStr t \<Rightarrow> save_output name t
    | _ \<Rightarrow> andthen (save_output name []) (raise_exn (TypeError ''write() argument must be str'')))"

definition handle_provision_end :: "openstack \<Rightarrow> json \<Rightarrow> (netapp, int) act" where
  "handle_provision_end os event_data =
     bnd (of_sum (extract_payload_data event_data)) (\<lambda>payload_data.
     if \<not> json_truthy payload_data then ret 1 else
     bnd (of_sum (jobject ''get'' payload_data)) (\<lambda>d.
     if \<not> json_truthy (jget_default d ''lessee'' JNull) \<or> \<not> json_truthy (jget_default d ''instance_uuid'' JNull) then ret 0 else
     bnd (of_sum (provision_from_event_dict event_data)) (\<lambda>event.
     bnd (of_sum (lessee_undashed event)) (\<lambda>project_id.
     bnd (is_project_svm_enabled os (JStr project_id)) (\<lambda>svm_enabled.
     bnd (of_sum (os_server_metadata os (ps_instance_uuid event))) (\<lambda>server.
     case server of
       None \<Rightarrow> andthen (save_output ''storage'' ''not-found'') (ret 1)
     | Some metadata \<Rightarrow>
         andthen (save_output ''storage''
           (if dget metadata ''storage'' = Some ''wanted'' then if svm_enabled then ''wanted'' else ''wanted-but-not-project'' else ''not-set''))
         (andthen (save_value ''node_uuid'' (ps_node_uuid event))
         (andthen (save_value ''instance_uuid'' (ps_instance_uuid event))
         (andthen (create_volume_connector os event) (ret 0))))))))))"

end
