(* ===== verification/Netapp_Projects.thy ===== *)
theory Netapp_Projects
  imports Netapp_Storage
begin

text \<open>
  What the project and volume type handlers do to the clusters, for the model of \<open>Netapp_Storage\<close>: where an SVM is
  created and with which settings, what the deletion of a project removes and what it leaves behind, and that taking access to
  a volume type away again removes the volume that giving it had created.
\<close>

section \<open>What the SDK promises\<close>

definition svm_at :: "netapp \<Rightarrow> string \<Rightarrow> string \<Rightarrow> SvmSpec option" where
  "svm_at s h = map_of (svms (clusters s h))"

definition vol_at :: "netapp \<Rightarrow> string \<Rightarrow> string \<times> string \<Rightarrow> volume_row option" where
  "vol_at s h = map_of (volumes (clusters s h))"

text \<open>Only the cluster \<open>h\<close> may have changed, and its tables are the given ones.\<close>

definition cluster_becomes :: "string \<Rightarrow> (string \<Rightarrow> SvmSpec option) \<Rightarrow> (string \<times> string \<Rightarrow> volume_row option) \<Rightarrow> netapp \<Rightarrow> netapp \<Rightarrow> bool" where
  "cluster_becomes h sv vo s s' \<longleftrightarrow> svm_at s' h = sv \<and> vol_at s' h = vo \<and> (\<forall>h'. h' \<noteq> h \<longrightarrow> clusters s' h' = clusters s h')"

definition stored :: "string \<Rightarrow> (string \<Rightarrow> SvmSpec option) \<Rightarrow> (string \<times> string \<Rightarrow> volume_row option) \<Rightarrow> netapp \<Rightarrow> netapp \<Rightarrow> bool" where
  "stored h sv vo s s' \<longleftrightarrow> cluster_becomes h sv vo s s' \<and> connection s' = connection s \<and> outputs s' = outputs s \<and> connectors s' = connectors s"

definition patched :: "json dict \<Rightarrow> volume_row \<Rightarrow> volume_row" where
  "patched d v = v\<lparr>vo_size := jget_default d ''size'' (vo_size v), vo_snapshot_policy := jget_default d ''snapshot_policy'' (vo_snapshot_policy v),
     vo_autosize := jget_default d ''autosize'' (vo_autosize v)\<rparr>"

definition svms_served :: "ontap_sdk \<Rightarrow> bool" where
  "svms_served sd \<longleftrightarrow>
     (\<forall>h n s r s'. svm_find sd (Some h) n s = (r, s') \<longrightarrow> s' = s \<and>
        (case r of Inr x \<Rightarrow> x = None \<longleftrightarrow> svm_at s h n = None | Inl ex \<Rightarrow> \<forall>t. ex = NetAppRestError 404 t \<longrightarrow> svm_at s h n = None)) \<and>
     (\<forall>h spec s r s'. svm_post sd (Some h) spec s = (r, s') \<longrightarrow>
        (case r of
           Inl _ \<Rightarrow> s' = s
         | Inr _ \<Rightarrow> svm_at s h (ss_name spec) = None \<and>
             (\<exists>v. stored h ((svm_at s h)(ss_name spec \<mapsto> spec)) ((vol_at s h)((ss_name spec, root_volume_name spec) \<mapsto> v)) s s'))) \<and>
     (\<forall>h n s r s'. svm_get sd (Some h) n s = (r, s') \<longrightarrow> s' = s \<and>
        (case r of Inr x \<Rightarrow> sr_name x = n \<and> svm_at s h n \<noteq> None | Inl _ \<Rightarrow> True)) \<and>
     (\<forall>h x s r s'. svm_delete sd (Some h) x s = (r, s') \<longrightarrow>
        (case r of
           Inl _ \<Rightarrow> s' = s
         | Inr _ \<Rightarrow> (\<forall>v. vol_at s h (sr_name x, v) \<noteq> None \<longrightarrow> Some v = map_option root_volume_name (svm_at s h (sr_name x))) \<and>
             stored h ((svm_at s h)(sr_name x := None)) (\<lambda>k. if fst k = sr_name x then None else vol_at s h k) s s'))"

definition volumes_served :: "ontap_sdk \<Rightarrow> bool" where
  "volumes_served sd \<longleftrightarrow>
     (\<forall>h svm n s r s'. volume_collection sd (Some h) svm n s = (r, s') \<longrightarrow> s' = s \<and>
        (case r of Inr vs \<Rightarrow> \<forall>v \<in> set vs. vr_svm v = svm \<and> vr_name v = n | Inl _ \<Rightarrow> True)) \<and>
     (\<forall>h v d s r s'. volume_patch sd (Some h) v d s = (r, s') \<longrightarrow>
        (case r of
           Inl _ \<Rightarrow> s' = s
         | Inr _ \<Rightarrow> stored h (svm_at s h)
             ((vol_at s h)((vr_svm v, vr_name v) := map_option (patched d) (vol_at s h (vr_svm v, vr_name v)))) s s')) \<and>
     (\<forall>h spec s r s'. volume_post sd (Some h) spec s = (r, s') \<longrightarrow>
        (case r of
           Inl _ \<Rightarrow> s' = s
         | Inr _ \<Rightarrow> vol_at s h (vs_svm_name spec, vs_name spec) = None \<and> svm_at s h (vs_svm_name spec) \<noteq> None \<and>
             (\<exists>v. vo_aggregate v = vs_aggregate_name spec \<and> vo_size v = JStr (vs_size spec) \<and>
               stored h (svm_at s h) ((vol_at s h)((vs_svm_name spec, vs_name spec) \<mapsto> v)) s s'))) \<and>
     (\<forall>h spec s r s'. volume_refresh sd (Some h) spec s = (r, s') \<longrightarrow> s' = s \<and>
        (case r of Inr v \<Rightarrow> vr_svm v = vs_svm_name spec \<and> vr_name v = vs_name spec | Inl _ \<Rightarrow> True)) \<and>
     (\<forall>h n s r s'. volume_get sd (Some h) n s = (r, s') \<longrightarrow> s' = s \<and>
        (case r of Inr v \<Rightarrow> vr_name v = n \<and> vol_at s h (vr_svm v, n) \<noteq> None | Inl _ \<Rightarrow> True)) \<and>
     (\<forall>h v f s r s'. volume_delete sd (Some h) v f s = (r, s') \<longrightarrow>
        (case r of Inl _ \<Rightarrow> s' = s | Inr _ \<Rightarrow> stored h (svm_at s h) ((vol_at s h)((vr_svm v, vr_name v) := None)) s s')) \<and>
     (\<forall>h n svm s r s'. volume_find sd (Some h) n svm s = (r, s') \<longrightarrow> s' = s \<and>
        (case r of Inr x \<Rightarrow> (x = None \<longleftrightarrow> vol_at s h (svm, n) = None) \<and> (\<forall>v. x = Some v \<longrightarrow> vr_size v \<noteq> None) | Inl _ \<Rightarrow> True)) \<and>
     (\<forall>c. pure_act (aggregate_collection sd c))"

definition ontap_served :: "ontap_sdk \<Rightarrow> bool" where
  "ontap_served sd \<longleftrightarrow> svms_served sd \<and> volumes_served sd \<and> (\<forall>h. connection_host sd h = Some h)"

text \<open>The clusters can be reached and answer lookups, and they carry out the deletions they can.\<close>

definition lookups_answered :: "ontap_sdk \<Rightarrow> bool" where
  "lookups_answered sd \<longleftrightarrow> (\<forall>cfg. host_connection sd cfg = Inr ()) \<and>
     (\<forall>h n s. \<exists>x s'. svm_find sd (Some h) n s = (Inr x, s')) \<and> (\<forall>h n svm s. \<exists>x s'. volume_find sd (Some h) n svm s = (Inr x, s'))"

definition deletions_done :: "ontap_sdk \<Rightarrow> bool" where
  "deletions_done sd \<longleftrightarrow>
     (\<forall>h n s. svm_at s h n \<noteq> None \<longrightarrow> (\<exists>x s'. svm_get sd (Some h) n s = (Inr x, s'))) \<and>
     (\<forall>h x s. (\<forall>v. vol_at s h (sr_name x, v) \<noteq> None \<longrightarrow> Some v = map_option root_volume_name (svm_at s h (sr_name x))) \<longrightarrow>
        (\<exists>u s'. svm_delete sd (Some h) x s = (Inr u, s'))) \<and>
     (\<forall>h svm n s. vol_at s h (svm, n) \<noteq> None \<longrightarrow> (\<exists>v s'. volume_get sd (Some h) n s = (Inr v, s'))) \<and>
     (\<forall>h v s. vol_at s h (vr_svm v, vr_name v) \<noteq> None \<longrightarrow> (\<exists>u s'. volume_delete sd (Some h) v True s = (Inr u, s')))"

lemmas svms_contract =
  svms_served_def [THEN iffD1, THEN conjunct1, rule_format]
  svms_served_def [THEN iffD1, THEN conjunct2, THEN conjunct1, rule_format]
  svms_served_def [THEN iffD1, THEN conjunct2, THEN conjunct2, THEN conjunct1, rule_format]
  svms_served_def [THEN iffD1, THEN conjunct2, THEN conjunct2, THEN conjunct2, rule_format]

lemmas volumes_contract =
  volumes_served_def [THEN iffD1, THEN conjunct1, rule_format]
  volumes_served_def [THEN iffD1, THEN conjunct2, THEN conjunct1, rule_format]
  volumes_served_def [THEN iffD1, THEN conjunct2, THEN conjunct2, THEN conjunct1, rule_format]
  volumes_served_def [THEN iffD1, THEN conjunct2, THEN conjunct2, THEN conjunct2, THEN conjunct1, rule_format]
  volumes_served_def [THEN iffD1, THEN conjunct2, THEN conjunct2, THEN conjunct2, THEN conjunct2, THEN conjunct1, rule_format]
  volumes_served_def [THEN iffD1, THEN conjunct2, THEN conjunct2, THEN conjunct2, THEN conjunct2, THEN conjunct2, THEN conjunct1, rule_format]
  volumes_served_def [THEN iffD1, THEN conjunct2, THEN conjunct2, THEN conjunct2, THEN conjunct2, THEN conjunct2, THEN conjunct2, THEN conjunct1, rule_format]
  volumes_served_def [THEN iffD1, THEN conjunct2, THEN conjunct2, THEN conjunct2, THEN conjunct2, THEN conjunct2, THEN conjunct2, THEN conjunct2, rule_format]

lemmas ontap_contract =
  ontap_served_def [THEN iffD1, THEN conjunct1]
  ontap_served_def [THEN iffD1, THEN conjunct2, THEN conjunct1]
  ontap_served_def [THEN iffD1, THEN conjunct2, THEN conjunct2, rule_format]

lemma at_simps [simp]:
  "svm_at (s\<lparr>connection := c\<rparr>) = svm_at s" "vol_at (s\<lparr>connection := c\<rparr>) = vol_at s"
  "svm_at (s\<lparr>outputs := u\<rparr>) = svm_at s" "vol_at (s\<lparr>outputs := u\<rparr>) = vol_at s"
  by (simp_all add: fun_eq_iff svm_at_def vol_at_def)

section \<open>Connections and lookups\<close>

lemma setup_manager_conn:
  assumes "ontap_served sd" "setup_manager sd cfg s = (Inr u, s')"
  shows "s' = s\<lparr>connection := Some (nc_hostname cfg)\<rparr>"
proof -
  have c: "connection_host sd h = Some h" for h by (rule ontap_contract(3) [OF assms(1)])
  have "connect sd cfg s = (Inr x, s1) \<Longrightarrow> s1 = s\<lparr>connection := Some (nc_hostname cfg)\<rparr>" for x s s1
    by (auto simp: connect_def needs_connection_def c split: if_splits option.splits sum.splits)
  note k = this
  obtain x s1 where "connect sd cfg s = (Inr x, s1)" "setup_connection sd cfg s1 = (Inr u, s')"
    using assms(2) unfolding setup_manager_def andthen_Inr by blast
  moreover have "\<exists>y. connect sd cfg s1 = (Inr y, s')"
    using calculation(2) by (auto simp: setup_connection_def split: sum.splits prod.splits)
  ultimately show ?thesis using k [of s x s1] k [of s1 _ s'] by auto
qed

lemma setup_manager_returns:
  assumes "ontap_served sd" "lookups_answered sd"
  shows "setup_manager sd cfg s = (Inr (), s\<lparr>connection := Some (nc_hostname cfg)\<rparr>)"
proof -
  have c: "connection_host sd h = Some h" for h by (rule ontap_contract(3) [OF assms(1)])
  have "connect sd cfg s = (Inr (), s\<lparr>connection := Some (nc_hostname cfg)\<rparr>)" for s
    using assms(2) by (auto simp: connect_def needs_connection_def c lookups_answered_def split: option.splits)
  then show ?thesis by (simp add: setup_manager_def setup_connection_def)
qed

lemma svm_exists_reads:
  assumes "ontap_served sd" "connection s = Some h"
  obtains e where "svm_exists sd p s = (Inr e, s)" "e \<Longrightarrow> svm_at s h (get_svm_name p) \<noteq> None"
    "lookups_answered sd \<Longrightarrow> e \<longleftrightarrow> svm_at s h (get_svm_name p) \<noteq> None"
proof -
  obtain r s' where r: "svm_find sd (Some h) (get_svm_name p) s = (r, s')" by force
  note k = svms_contract(1) [OF ontap_contract(1) [OF assms(1)] r]
  have "\<exists>e. svm_exists sd p s = (Inr e, s) \<and> (e \<longrightarrow> svm_at s h (get_svm_name p) \<noteq> None) \<and>
      (lookups_answered sd \<longrightarrow> e = (svm_at s h (get_svm_name p) \<noteq> None))"
  proof (cases r)
    case (Inl ex)
    then have "\<not> lookups_answered sd" using r by (auto simp: lookups_answered_def) (metis Inl_Inr_False fst_conv)
    with Inl k r assms(2) show ?thesis
      by (auto simp: svm_exists_def client_find_svm_def on_conn_def split: exn.split)
  next
    case (Inr x)
    with k r assms(2) show ?thesis
      by (intro exI [of _ "x \<noteq> None"]) (cases x; simp add: svm_exists_def client_find_svm_def on_conn_def)
  qed
  then show thesis using that by blast
qed

lemma volume_exists_reads:
  assumes "ontap_served sd" "lookups_answered sd" "connection s = Some h" "get_volume_name p = Inr n"
  shows "volume_exists sd p s = (Inr (vol_at s h (get_svm_name p, n) \<noteq> None), s)"
proof -
  obtain x s' where r: "volume_find sd (Some h) n (get_svm_name p) s = (Inr x, s')" using assms(2) unfolding lookups_answered_def by blast
  from volumes_contract(7) [OF ontap_contract(2) [OF assms(1)] this] show ?thesis
    using r assms(3,4) by (cases x)
      (auto simp: volume_exists_def client_find_volume_def on_conn_def volume_result_def volume_size_or_def)
qed

definition home :: "json \<Rightarrow> netapp \<Rightarrow> NetAppConfig list \<Rightarrow> NetAppConfig option" where
  "home p s = find (\<lambda>b. svm_at s (nc_hostname b) (get_svm_name p) \<noteq> None)"

lemma find_backend_home:
  assumes "ontap_served sd" "lookups_answered sd"
  shows "\<exists>c. find_backend sd p bs s = (Inr (home p s bs), s\<lparr>connection := c\<rparr>) \<and> (\<forall>b. home p s bs = Some b \<longrightarrow> c = Some (nc_hostname b))"
proof (induction bs arbitrary: s)
  case Nil
  show ?case by (intro exI [of _ "connection s"]) (simp add: home_def)
next
  case (Cons b bs)
  let ?s = "s\<lparr>connection := Some (nc_hostname b)\<rparr>"
  obtain e where e: "svm_exists sd p ?s = (Inr e, ?s)" "e \<longleftrightarrow> svm_at s (nc_hostname b) (get_svm_name p) \<noteq> None"
    using svm_exists_reads [OF assms(1), of ?s "nc_hostname b" p] assms(2) by (metis at_simps(1) netapp.select_convs(1) netapp.surjective netapp.update_convs(1))
  obtain c where "find_backend sd p bs ?s = (Inr (home p ?s bs), ?s\<lparr>connection := c\<rparr>)" "\<forall>b. home p ?s bs = Some b \<longrightarrow> c = Some (nc_hostname b)"
    using Cons by blast
  then show ?case using e setup_manager_returns [OF assms, of b s] by (auto simp: home_def)
qed

text \<open>Without assumptions on the lookups, a backend that is found is connected and has the SVM.\<close>

lemma find_backend_found:
  assumes "ontap_served sd" "find_backend sd p bs s = (Inr (Some b), s')"
  shows "b \<in> set bs \<and> s' = s\<lparr>connection := Some (nc_hostname b)\<rparr> \<and> svm_at s (nc_hostname b) (get_svm_name p) \<noteq> None"
  using assms(2)
proof (induction bs arbitrary: s)
  case (Cons a bs)
  then obtain u s1 where u: "setup_manager sd a s = (Inr u, s1)"
      and k: "bnd (svm_exists sd p) (\<lambda>found. if found then ret (Some a) else find_backend sd p bs) s1 = (Inr (Some b), s')"
    unfolding find_backend.simps andthen_Inr by blast
  have s1: "s1 = s\<lparr>connection := Some (nc_hostname a)\<rparr>" by (rule setup_manager_conn [OF assms(1) u])
  then have c: "connection s1 = Some (nc_hostname a)" by simp
  obtain e where e: "svm_exists sd p s1 = (Inr e, s1)" "e \<Longrightarrow> svm_at s1 (nc_hostname a) (get_svm_name p) \<noteq> None"
    using svm_exists_reads [OF assms(1) c, of p] by metis
  show ?case
  proof (cases e)
    case True
    then show ?thesis using e k s1 by auto
  next
    case False
    then have "find_backend sd p bs s1 = (Inr (Some b), s')" using e k by simp
    from Cons.IH [OF this] show ?thesis by (simp add: s1)
  qed
qed simp

section \<open>Removal\<close>

lemma bnd_run: "m s = (Inr x, s1) \<Longrightarrow> bnd m f s = f x s1"
  by simp

lemma try_raise_Inr: "try_except m (\<lambda>ex. raise_exn (f ex)) s = (Inr x, s') \<longleftrightarrow> m s = (Inr x, s')"
  by (auto split: sum.splits prod.splits)

lemma stored_refl: "stored h (svm_at s h) (vol_at s h) s s"
  by (simp add: stored_def cluster_becomes_def)

lemma stored_trans: "stored h sv vo s s1 \<Longrightarrow> stored h sv' vo' s1 s' \<Longrightarrow> stored h sv' vo' s s'"
  by (simp add: stored_def cluster_becomes_def)

lemma storedD:
  "stored h sv vo s s' \<Longrightarrow> svm_at s' h = sv" "stored h sv vo s s' \<Longrightarrow> vol_at s' h = vo" "stored h sv vo s s' \<Longrightarrow> connection s' = connection s"
  by (simp_all add: stored_def cluster_becomes_def)

lemma delete_project_volume:
  assumes "ontap_served sd" "deletions_done sd" "connection s = Some h" "get_volume_name p = Inr n"
    and "vol_at s h (get_svm_name p, n) \<noteq> None" "\<forall>x. vol_at s h (x, n) \<noteq> None \<longrightarrow> x = get_svm_name p"
  obtains s' where "service_delete_volume sd p True s = (Inr True, s')"
    "stored h (svm_at s h) ((vol_at s h)((get_svm_name p, n) := None)) s s'"
proof -
  obtain v t where v: "volume_get sd (Some h) n s = (Inr v, t)" using assms(2,5) unfolding deletions_done_def by blast
  from volumes_contract(5) [OF ontap_contract(2) [OF assms(1)] this]
  have v': "t = s" "vr_name v = n" "vol_at s h (vr_svm v, vr_name v) \<noteq> None" by simp_all
  then have k: "vr_svm v = get_svm_name p" using assms(6) by simp
  obtain u s' where d: "volume_delete sd (Some h) v True s = (Inr u, s')" using assms(2) v'(3) unfolding deletions_done_def by blast
  from volumes_contract(6) [OF ontap_contract(2) [OF assms(1)] this] have "stored h (svm_at s h) ((vol_at s h)((get_svm_name p, n) := None)) s s'"
    by (simp add: k v'(2))
  then show thesis using that v v' d assms(3,4) by (simp add: service_delete_volume_def client_delete_volume_def on_conn_def)
qed

lemma delete_svm_exact:
  assumes "ontap_served sd" "deletions_done sd" "connection s = Some h" "svm_at s h (get_svm_name p) = Some spec"
  shows "\<exists>r s'. delete_svm sd p s = (Inr r, s') \<and>
    (if \<forall>v. vol_at s h (get_svm_name p, v) \<noteq> None \<longrightarrow> v = root_volume_name spec
     then stored h ((svm_at s h)(get_svm_name p := None)) (\<lambda>k. if fst k = get_svm_name p then None else vol_at s h k) s s' else s' = s)"
proof -
  obtain x t where x: "svm_get sd (Some h) (get_svm_name p) s = (Inr x, t)" using assms(2,4) unfolding deletions_done_def by blast
  from svms_contract(3) [OF ontap_contract(1) [OF assms(1)] this] have x': "t = s" "sr_name x = get_svm_name p" by simp_all
  obtain r s' where d: "svm_delete sd (Some h) x s = (r, s')" by force
  note k = svms_contract(4) [OF ontap_contract(1) [OF assms(1)] d]
  show ?thesis
  proof (cases r)
    case (Inl e)
    then have "\<not> (\<forall>v. vol_at s h (sr_name x, v) \<noteq> None \<longrightarrow> Some v = map_option root_volume_name (svm_at s h (sr_name x)))"
      using assms(2) d unfolding deletions_done_def by (metis Inl_Inr_False prod.inject)
    then show ?thesis using Inl k x x' d assms(3,4) by (auto simp: delete_svm_def client_delete_svm_def on_conn_def)
  next
    case (Inr u)
    then show ?thesis using k x x' d assms(3,4) by (auto simp: delete_svm_def client_delete_svm_def on_conn_def)
  qed
qed

text \<open>What the removal of a project's storage leaves of the cluster.\<close>

definition only_project_volumes :: "netapp \<Rightarrow> string \<Rightarrow> string \<Rightarrow> string \<Rightarrow> bool" where
  "only_project_volumes s h svm n \<longleftrightarrow>
     (\<forall>v. vol_at s h (svm, v) \<noteq> None \<longrightarrow> v = n \<or> Some v = map_option root_volume_name (svm_at s h svm))"

definition svm_removed :: "string \<Rightarrow> string \<Rightarrow> netapp \<Rightarrow> netapp \<Rightarrow> bool" where
  "svm_removed h svm s s' \<longleftrightarrow> cluster_becomes h ((svm_at s h)(svm := None)) (\<lambda>k. if fst k = svm then None else vol_at s h k) s s'"

definition volume_removed :: "string \<Rightarrow> string \<Rightarrow> string \<Rightarrow> netapp \<Rightarrow> netapp \<Rightarrow> bool" where
  "volume_removed h svm n s s' \<longleftrightarrow> cluster_becomes h (svm_at s h) ((vol_at s h)((svm, n) := None)) s s'"

lemma becomes_simps [simp]:
  "cluster_becomes h sv vo (s\<lparr>connection := c\<rparr>) t = cluster_becomes h sv vo s t"
  "cluster_becomes h sv vo (s\<lparr>outputs := u\<rparr>) t = cluster_becomes h sv vo s t"
  "cluster_becomes h sv vo s (t\<lparr>outputs := u\<rparr>) = cluster_becomes h sv vo s t"
  by (simp_all add: cluster_becomes_def)

lemma removed_simps [simp]:
  "only_project_volumes (s\<lparr>connection := c\<rparr>) = only_project_volumes s" "only_project_volumes (s\<lparr>outputs := u\<rparr>) = only_project_volumes s"
  "svm_removed h svm (s\<lparr>connection := c\<rparr>) t = svm_removed h svm s t" "svm_removed h svm (s\<lparr>outputs := u\<rparr>) t = svm_removed h svm s t"
  "svm_removed h svm s (t\<lparr>outputs := u\<rparr>) = svm_removed h svm s t"
  "volume_removed h svm n (s\<lparr>connection := c\<rparr>) t = volume_removed h svm n s t"
  "volume_removed h svm n (s\<lparr>outputs := u\<rparr>) t = volume_removed h svm n s t"
  "volume_removed h svm n s (t\<lparr>outputs := u\<rparr>) = volume_removed h svm n s t"
  by (simp_all add: only_project_volumes_def svm_removed_def volume_removed_def fun_eq_iff cong: if_cong)

lemma cleanup_exact:
  assumes "ontap_served sd" "lookups_answered sd" "deletions_done sd" "connection s = Some h" "get_volume_name p = Inr n"
    and "svm_at s h (get_svm_name p) \<noteq> None" "\<forall>x. vol_at s h (x, n) \<noteq> None \<longrightarrow> x = get_svm_name p"
  obtains r s' where "cleanup_project sd p s = (Inr r, s')" "outputs s' = outputs s"
    "if only_project_volumes s h (get_svm_name p) n then svm_removed h (get_svm_name p) s s' else volume_removed h (get_svm_name p) n s s'"
proof -
  let ?svm = "get_svm_name p" and ?e = "vol_at s h (get_svm_name p, n) \<noteq> None"
  obtain e where "svm_exists sd p s = (Inr e, s)" "e \<longleftrightarrow> svm_at s h ?svm \<noteq> None"
    using svm_exists_reads [OF assms(1,4), of p] assms(2) by metis
  then have e: "svm_exists sd p s = (Inr True, s)" using assms(6) by simp
  obtain spec where spec: "svm_at s h ?svm = Some spec" using assms(6) by blast
  obtain s1 where s1: "(if ?e then try_except (service_delete_volume sd p True) (\<lambda>_. ret False) else ret True) s = (Inr True, s1)"
      "stored h (svm_at s h) ((vol_at s h)((?svm, n) := None)) s s1"
  proof (cases ?e)
    case True
    obtain t where "service_delete_volume sd p True s = (Inr True, t)" "stored h (svm_at s h) ((vol_at s h)((?svm, n) := None)) s t"
      by (rule delete_project_volume [OF assms(1,3,4,5) True assms(7)])
    then show ?thesis using that [of t] True by simp
  next
    case False
    then have "(vol_at s h)((?svm, n) := None) = vol_at s h" by auto
    with False show ?thesis using that stored_refl [of h s] by simp
  qed
  have c: "connection s1 = Some h" "svm_at s1 h ?svm = Some spec" using storedD [OF s1(2)] assms(4) spec by simp_all
  obtain r s' where d: "delete_svm sd p s1 = (Inr r, s')"
      "if \<forall>v. vol_at s1 h (?svm, v) \<noteq> None \<longrightarrow> v = root_volume_name spec
       then stored h ((svm_at s1 h)(?svm := None)) (\<lambda>k. if fst k = ?svm then None else vol_at s1 h k) s1 s' else s' = s1"
    using delete_svm_exact [OF assms(1,3) c] by blast
  have run: "cleanup_project sd p s = (Inr (True, r), s')"
  proof -
    have v: "try_except (volume_exists sd p) (\<lambda>_. ret True) s = (Inr ?e, s)" using volume_exists_reads [OF assms(1,2,4,5)] by simp
    have x: "try_except (svm_exists sd p) (\<lambda>_. ret True) s = (Inr True, s)" using e by simp
    have "try_except (delete_svm sd p) (\<lambda>_. ret False) s1 = (Inr r, s')" using d(1) by simp
    then show ?thesis unfolding cleanup_project_def bnd_run [of "try_except _ _" s, OF v]
      bnd_run [of "try_except _ _" s, OF x] bnd_run [of "if _ then _ else _" s, OF s1(1)] by simp
  qed
  have o: "only_project_volumes s h ?svm n \<longleftrightarrow> (\<forall>v. vol_at s1 h (?svm, v) \<noteq> None \<longrightarrow> v = root_volume_name spec)"
    unfolding only_project_volumes_def storedD(2) [OF s1(2)] by (auto simp: spec)
  have sv: "svm_at s1 h = svm_at s h" and vo: "(\<lambda>k. if fst k = ?svm then None else vol_at s1 h k) = (\<lambda>k. if fst k = ?svm then None else vol_at s h k)"
    unfolding storedD(1,2) [OF s1(2)] by auto
  show thesis
  proof (rule that [OF run])
    show "outputs s' = outputs s" using d(2) s1(2) by (auto simp: stored_def split: if_splits)
    show "if only_project_volumes s h ?svm n then svm_removed h ?svm s s' else volume_removed h ?svm n s s'"
      using d(2) s1(2) unfolding o sv vo svm_removed_def volume_removed_def by (auto simp: stored_def cluster_becomes_def split: if_splits)
  qed
qed

lemma cleanup_home:
  assumes "ontap_served sd" "lookups_answered sd" "deletions_done sd" "get_volume_name p = Inr n"
    and "\<forall>h x. vol_at s h (x, n) \<noteq> None \<longrightarrow> x = get_svm_name p" "home p s bs = Some b"
  obtains r s' where "cleanup_project sd p (s\<lparr>connection := Some (nc_hostname b)\<rparr>) = (Inr r, s')"
    "if only_project_volumes s (nc_hostname b) (get_svm_name p) n then svm_removed (nc_hostname b) (get_svm_name p) s s'
     else volume_removed (nc_hostname b) (get_svm_name p) n s s'"
proof -
  let ?s = "s\<lparr>connection := Some (nc_hostname b)\<rparr>"
  have x: "svm_at ?s (nc_hostname b) (get_svm_name p) \<noteq> None" using find_SomeD [OF assms(6) [unfolded home_def]] by simp
  have y: "\<forall>x. vol_at ?s (nc_hostname b) (x, n) \<noteq> None \<longrightarrow> x = get_svm_name p" using assms(5) by simp
  have c: "connection ?s = Some (nc_hostname b)" by simp
  obtain r t where t: "cleanup_project sd p ?s = (Inr r, t)" "outputs t = outputs ?s"
    "if only_project_volumes ?s (nc_hostname b) (get_svm_name p) n then svm_removed (nc_hostname b) (get_svm_name p) ?s t
     else volume_removed (nc_hostname b) (get_svm_name p) n ?s t"
    by (rule cleanup_exact [OF assms(1-3) c assms(4) x y])
  then show thesis using that [of r t] by (simp cong: if_cong)
qed


section \<open>Creation\<close>

definition least_used :: "aggregate_record list \<Rightarrow> string \<Rightarrow> bool" where
  "least_used xs a \<longleftrightarrow>
     (\<exists>x \<in> set xs. \<exists>n. ag_name x = Some a \<and> a \<noteq> [] \<and> ag_state x = Some ''online'' \<and> ag_used_percent x = Some n \<and>
       (\<forall>y \<in> set xs. \<forall>b m. ag_name y = Some b \<and> b \<noteq> [] \<and> ag_state y = Some ''online'' \<and> ag_used_percent y = Some m \<longrightarrow> (n, a) \<le> (m, b)))"

lemma min_by_least: "min_by k x xs \<in> set (x # xs) \<and> (\<forall>y \<in> set (x # xs). k (min_by k x xs) \<le> k y)"
proof (induction xs arbitrary: x)
  case (Cons z zs)
  show ?case using Cons [of x] Cons [of z] by (auto intro: order.trans less_imp_le)
qed simp

lemma select_least_used:
  assumes "ontap_served sd" "connection s = Some h" "select_aggregate_name sd s = (Inr a, s')"
  shows "s' = s \<and> (\<exists>xs. aggregate_collection sd (Some h) s = (Inr xs, s) \<and> least_used xs a)"
proof -
  obtain r t where r: "aggregate_collection sd (Some h) s = (r, t)" by force
  have t: "t = s" by (rule pure_actD [OF volumes_contract(8) [OF ontap_contract(2) [OF assms(1)]] r])
  show ?thesis
  proof (cases r)
    case (Inl ex)
    then show ?thesis using assms(2,3) r by (simp add: select_aggregate_name_def client_get_aggregates_def on_conn_def)
  next
    case (Inr xs)
    let ?as = "map (\<lambda>a. \<lparr>ar_name = the (ag_name a), ar_state = ag_state a, ar_used_percent = ag_used_percent a\<rparr>) (filter (\<lambda>a. truthy (ag_name a)) xs)"
    obtain z zs where z: "eligible_aggregates ?as = z # zs" "a = ar_name (min_by usage_key z zs)" "s' = s"
      using assms(2,3) r Inr t by (auto simp: select_aggregate_name_def client_get_aggregates_def on_conn_def split: if_splits list.splits)
    let ?m = "min_by usage_key z zs"
    have m: "?m \<in> set (eligible_aggregates ?as)" "\<forall>y \<in> set (eligible_aggregates ?as). usage_key ?m \<le> usage_key y"
      using min_by_least [of usage_key z zs] unfolding z(1) by blast+
    then obtain x where x: "x \<in> set xs" "truthy (ag_name x)" "ag_state x = Some ''online''" "ag_used_percent x \<noteq> None"
        "?m = \<lparr>ar_name = the (ag_name x), ar_state = ag_state x, ar_used_percent = ag_used_percent x\<rparr>"
      by (auto simp: eligible_aggregates_def)
    then obtain n where n: "ag_used_percent x = Some n" "ag_name x = Some a" "a \<noteq> []" using z(2) by (auto elim!: truthyE)
    have "(n, a) \<le> (k, b)" if "y \<in> set xs" "ag_name y = Some b" "b \<noteq> []" "ag_state y = Some ''online''" "ag_used_percent y = Some k" for y b k
    proof -
      have "\<lparr>ar_name = b, ar_state = Some ''online'', ar_used_percent = Some k\<rparr> \<in> set (eligible_aggregates ?as)"
        using that by (force simp: eligible_aggregates_def image_iff)
      from m(2) [rule_format, OF this] show ?thesis using x(5) n by (simp add: usage_key_def)
    qed
    then have "least_used xs a" using x n unfolding least_used_def by blast
    then show ?thesis using r Inr t z(3) by simp
  qed
qed

definition svm_placed :: "ontap_sdk \<Rightarrow> string \<Rightarrow> json \<Rightarrow> netapp \<Rightarrow> netapp \<Rightarrow> bool" where
  "svm_placed sd h p s s' \<longleftrightarrow> svm_at s h (get_svm_name p) = None \<and>
     (\<exists>t xs a v. clusters t = clusters s \<and> aggregate_collection sd (Some h) t = (Inr xs, t) \<and> least_used xs a \<and>
        cluster_becomes h ((svm_at s h)(get_svm_name p \<mapsto> svm_spec p a))
          ((vol_at s h)((get_svm_name p, root_volume_name (svm_spec p a)) \<mapsto> patched root_volume_settings v)) s s')"

lemma create_svm_placed:
  assumes "ontap_served sd" "connection s = Some h" "create_svm sd p a s = (Inr name, s')"
  obtains v where "name = get_svm_name p" "svm_at s h (get_svm_name p) = None"
    "stored h ((svm_at s h)(get_svm_name p \<mapsto> svm_spec p a)) ((vol_at s h)((get_svm_name p, root_volume_name (svm_spec p a)) \<mapsto> patched root_volume_settings v)) s s'"
proof -
  let ?sp = "svm_spec p a" and ?n = "get_svm_name p"
  have nm: "ss_name ?sp = ?n" by (simp add: svm_spec_def)
  obtain e where e: "svm_exists sd p s = (Inr e, s)" using svm_exists_reads [OF assms(1,2), of p] by metis
  have run: "bnd (client_create_svm sd ?sp) (\<lambda>r. ret (sv_name r)) s = (Inr name, s')"
    using assms(3) [unfolded create_svm_def bnd_run [of "svm_exists sd p", OF e]] by (cases e) (simp_all add: try_raise_Inr del: bnd_apply try_except_apply)
  then obtain s1 x s2 u where c: "svm_post sd (Some h) ?sp s = (Inr u, s1)" "svm_get sd (Some h) ?n s1 = (Inr x, s2)"
      "configure_svm_root_volume sd ?sp s2 = (Inr (), s')" "name = sr_name x"
    using assms(2) by (auto simp: client_create_svm_def on_conn_def nm svm_result_def split: sum.splits prod.splits)
  from svms_contract(2) [OF ontap_contract(1) [OF assms(1)] c(1)] obtain v where
    v: "svm_at s h ?n = None" "stored h ((svm_at s h)(?n \<mapsto> ?sp)) ((vol_at s h)((?n, root_volume_name ?sp) \<mapsto> v)) s s1" by (auto simp: nm)
  from svms_contract(3) [OF ontap_contract(1) [OF assms(1)] c(2)] have x: "s2 = s1" "sr_name x = ?n" by simp_all
  have h: "connection s1 = Some h" using storedD(3) [OF v(2)] assms(2) by simp
  obtain w ws t where w: "volume_collection sd (Some h) ?n (root_volume_name ?sp) s1 = (Inr (w # ws), t)"
      "volume_patch sd (Some h) w root_volume_settings t = (Inr (), s')"
    using c(3) h x by (auto simp: configure_svm_root_volume_def on_conn_def nm split: sum.splits prod.splits list.splits)
  from volumes_contract(1) [OF ontap_contract(2) [OF assms(1)] w(1)] have k: "t = s1" "vr_svm w = ?n" "vr_name w = root_volume_name ?sp" by simp_all
  from volumes_contract(2) [OF ontap_contract(2) [OF assms(1)] w(2)] have "stored h ((svm_at s h)(?n \<mapsto> ?sp))
      ((vol_at s h)((?n, root_volume_name ?sp) \<mapsto> patched root_volume_settings v)) s1 s'"
    by (simp add: k storedD(1,2) [OF v(2)])
  from stored_trans [OF v(2) this] show thesis using that c(4) x(2) v(1) by simp
qed

lemma create_project_svm_placed:
  assumes "ontap_served sd" "connection s = Some h" "create_project_svm sd p s = (Inr name, s')"
  shows "name = get_svm_name p \<and> svm_placed sd h p s s' \<and> outputs s' = outputs s"
proof -
  obtain a t where a: "select_aggregate_name sd s = (Inr a, t)" "create_svm sd p a t = (Inr name, s')"
    using assms(3) unfolding create_project_svm_def bnd_Inr by blast
  from select_least_used [OF assms(1,2) a(1)] obtain xs where xs: "t = s" "aggregate_collection sd (Some h) s = (Inr xs, s)" "least_used xs a" by blast
  obtain v where "name = get_svm_name p" "svm_at s h (get_svm_name p) = None"
    "stored h ((svm_at s h)(get_svm_name p \<mapsto> svm_spec p a)) ((vol_at s h)((get_svm_name p, root_volume_name (svm_spec p a)) \<mapsto> patched root_volume_settings v)) s s'"
    by (rule create_svm_placed [OF assms(1,2) a(2) [unfolded xs(1)]])
  then show ?thesis using xs unfolding svm_placed_def stored_def by blast
qed

lemma placed_simps [simp]:
  "svm_placed sd h p (s\<lparr>connection := c\<rparr>) t = svm_placed sd h p s t" "svm_placed sd h p (s\<lparr>outputs := u\<rparr>) t = svm_placed sd h p s t"
  "svm_placed sd h p s (t\<lparr>outputs := u\<rparr>) = svm_placed sd h p s t"
  by (simp_all add: svm_placed_def)

lemma reporting_svm_Inr:
  assumes "reporting_svm m s = (Inr r, s')"
  obtains n st t w where "m s = (Inr (n, st), t)" "r = 0" "s' = t\<lparr>outputs := w\<rparr>" "dget w ''svm_state'' = Some st"
proof -
  obtain n st t where m: "m s = (Inr (n, st), t)" and k: "andthen (save_svm n st) (ret 0) t = (Inr r, s')"
    using assms unfolding reporting_svm_def bnd_Inr by (force split: sum.splits prod.splits)
  have "r = 0" "\<exists>w. s' = t\<lparr>outputs := w\<rparr> \<and> dget w ''svm_state'' = Some st"
    using k by (auto simp: save_svm_def save_output_def dget_dput intro!: exI)
  then show thesis using that m by blast
qed

lemma svm_enabled_run:
  "keystone_project_tags os p = Inr tags \<Longrightarrow>
   is_project_svm_enabled os p s = (Inr (SVM_PROJECT_TAG \<in> set tags), s\<lparr>outputs := dput ''project_tags'' (dumps_strings tags) (outputs s)\<rparr>)"
  by (simp add: is_project_svm_enabled_def save_output_def)

lemma create_first_placed:
  assumes "ontap_served sd" "andthen (setup_manager sd b) (bnd (create_project_svm sd p) f) s = (Inr y, s')"
  obtains t where "svm_placed sd (nc_hostname b) p s t" "outputs t = outputs s" "f (get_svm_name p) t = (Inr y, s')"
proof -
  obtain u s1 name t where r: "setup_manager sd b s = (Inr u, s1)" "create_project_svm sd p s1 = (Inr name, t)" "f name t = (Inr y, s')"
    using assms(2) unfolding andthen_Inr bnd_Inr by blast
  have s1: "s1 = s\<lparr>connection := Some (nc_hostname b)\<rparr>" by (rule setup_manager_conn [OF assms(1) r(1)])
  then have "connection s1 = Some (nc_hostname b)" by simp
  from create_project_svm_placed [OF assms(1) this r(2)] show thesis using that [of t] r(3) by (simp add: s1)
qed

text \<open>
  When the handler of a project creation returns, it reports success; a project with the storage tag has got
  an SVM on the first backend, where it had none, on the least used aggregate that is online, with its root volume sized, without snapshots
  and growing to at most the maximum, and nothing else on any cluster has changed.  Without the tag nothing has changed.
\<close>

lemma project_creation_places_svm:
  assumes "ontap_served sd" "get_all_backends file = Inr (b # bs)" "is_event ''identity.project.created'' d = Inr True"
    and "project_from_event_dict d = Inr p" "keystone_project_tags os p = Inr tags" "handle_project_created os sd file d s = (Inr r, s')"
  shows "r = 0 \<and>
    (if SVM_PROJECT_TAG \<in> set tags
     then svm_placed sd (nc_hostname b) p s s' \<and> dget (outputs s') ''svm_state'' = Some ''created''
     else clusters s' = clusters s \<and> dget (outputs s') ''svm_state'' = Some ''nonexistent'')"
proof (cases "SVM_PROJECT_TAG \<in> set tags")
  case False
  then show ?thesis using assms(3-6) by (auto simp: handle_project_created_def svm_enabled_run save_output_def dget_dput)
next
  case True
  define s0 where "s0 = s\<lparr>outputs := dput ''svm_enabled'' (py_bool True) (dput ''project_tags'' (dumps_strings tags) (outputs s))\<rparr>"
  have "reporting_svm (bnd (of_sum (get_all_backends file)) (\<lambda>backends. bnd (create_on_backends sd p backends) (\<lambda>svm_name.
      ret (svm_name, if svm_name \<noteq> None then ''created'' else ''unknown'')))) s0 = (Inr r, s')"
    using True assms(3-6) by (simp add: handle_project_created_def svm_enabled_run save_output_def s0_def)
  then obtain n st t w where t: "bnd (of_sum (get_all_backends file)) (\<lambda>backends. bnd (create_on_backends sd p backends) (\<lambda>svm_name.
      ret (svm_name, if svm_name \<noteq> None then ''created'' else ''unknown''))) s0 = (Inr (n, st), t)"
      "r = 0" "s' = t\<lparr>outputs := w\<rparr>" "dget w ''svm_state'' = Some st"
    by (rule reporting_svm_Inr)
  obtain x where x: "create_on_backends sd p (b # bs) s0 = (Inr x, t)" "st = (if x \<noteq> None then ''created'' else ''unknown'')"
    using t(1) assms(2) by (auto split: sum.splits prod.splits)
  obtain t0 where t0: "svm_placed sd (nc_hostname b) p s0 t0" "outputs t0 = outputs s0"
      "(if get_svm_name p \<noteq> [] then andthen (save_output ''svm_created'' (py_bool True)) (ret (Some (get_svm_name p)))
        else create_on_backends sd p bs) t0 = (Inr x, t)"
    by (rule create_first_placed [OF assms(1) x(1) [unfolded create_on_backends.simps]])
  have "get_svm_name p \<noteq> []" by (simp add: get_svm_name_def)
  then have "x = Some (get_svm_name p)" "t = t0\<lparr>outputs := dput ''svm_created'' (py_bool True) (outputs t0)\<rparr>"
    using t0(3) by (simp_all add: save_output_def)
  then show ?thesis using True t(2-4) x(2) t0(1) by (simp add: s0_def)
qed

lemma update_project_svm_exact:
  assumes "ontap_served sd" "lookups_answered sd" "deletions_done sd" "get_volume_name p = Inr n"
    and "\<forall>h x. vol_at s h (x, n) \<noteq> None \<longrightarrow> x = get_svm_name p" "update_project_svm sd p e (b0 # bs) s = (Inr (m, st), t)"
  shows "case home p s (b0 # bs) of
       None \<Rightarrow> if e then svm_placed sd (nc_hostname b0) p s t \<and> st = ''created'' else clusters t = clusters s
     | Some b \<Rightarrow> if e then clusters t = clusters s \<and> st = ''present''
         else if only_project_volumes s (nc_hostname b) (get_svm_name p) n then svm_removed (nc_hostname b) (get_svm_name p) s t
         else volume_removed (nc_hostname b) (get_svm_name p) n s t"
proof -
  obtain c where f: "find_backend sd p (b0 # bs) s = (Inr (home p s (b0 # bs)), s\<lparr>connection := c\<rparr>)"
      "\<forall>b. home p s (b0 # bs) = Some b \<longrightarrow> c = Some (nc_hostname b)"
    using find_backend_home [OF assms(1,2)] by blast
  note run = assms(6) [unfolded update_project_svm_def bnd_run [of "find_backend sd p (b0 # bs)", OF f(1)]]
  show ?thesis
  proof (cases "home p s (b0 # bs)")
    case None
    show ?thesis
    proof (cases e)
      case True
      then have "andthen (setup_manager sd b0) (bnd (create_project_svm sd p) (\<lambda>svm_name.
          andthen (save_output ''svm_created'' (py_bool True)) (ret (Some svm_name, ''created'')))) (s\<lparr>connection := c\<rparr>) = (Inr (m, st), t)"
        using run None by (simp del: andthen_apply bnd_apply)
      then obtain t0 where "svm_placed sd (nc_hostname b0) p (s\<lparr>connection := c\<rparr>) t0"
          "andthen (save_output ''svm_created'' (py_bool True)) (ret (Some (get_svm_name p), ''created'')) t0 = (Inr (m, st), t)"
        by (rule create_first_placed [OF assms(1)])
      then show ?thesis using True None by (auto simp: save_output_def)
    qed (use run None in \<open>auto\<close>)
  next
    case (Some b)
    show ?thesis
    proof (cases e)
      case False
      obtain v t1 where t1: "cleanup_project sd p (s\<lparr>connection := Some (nc_hostname b)\<rparr>) = (Inr v, t1)"
        "if only_project_volumes s (nc_hostname b) (get_svm_name p) n then svm_removed (nc_hostname b) (get_svm_name p) s t1
         else volume_removed (nc_hostname b) (get_svm_name p) n s t1"
        by (rule cleanup_home [OF assms(1-5) Some])
      have "t = t1" using run False Some f(2) t1(1) by simp
      then show ?thesis using t1(2) Some False by simp
    qed (use run Some in \<open>auto simp: save_output_def\<close>)
  qed
qed


section \<open>Volumes of a volume type\<close>

definition flexvol_size :: "string dict option \<Rightarrow> string" where
  "flexvol_size specs = (case dget (case specs of None \<Rightarrow> [] | Some e \<Rightarrow> e) ''netapp:flexvol_size'' of None \<Rightarrow> VOLUME_SIZE | Some n \<Rightarrow> n)"

definition volume_added :: "string \<Rightarrow> string \<Rightarrow> string \<Rightarrow> string \<Rightarrow> netapp \<Rightarrow> netapp \<Rightarrow> bool" where
  "volume_added h svm n sz s s' \<longleftrightarrow> svm_at s h svm \<noteq> None \<and>
     (\<exists>v. vo_size v = JStr sz \<and> cluster_becomes h (svm_at s h) ((vol_at s h)((svm, n) \<mapsto> v)) s s')"

lemma create_volume_added:
  assumes "ontap_served sd" "connection s = Some h" "get_volume_name vt = Inr n" "create_volume sd p vt sz a s = (Inr name, s')"
  shows "volume_added h (get_svm_name p) n sz s s'"
proof -
  let ?sp = "\<lparr>vs_name = n, vs_svm_name = get_svm_name p, vs_aggregate_name = a, vs_size = sz\<rparr>"
  have "bnd (client_create_volume sd ?sp) (\<lambda>r. ret (vl_name r)) s = (Inr name, s')"
    using assms(3,4) unfolding create_volume_def by (simp add: try_raise_Inr Let_def del: try_except_apply)
  then obtain u s1 v s2 where r: "volume_post sd (Some h) ?sp s = (Inr u, s1)" "volume_refresh sd (Some h) ?sp s1 = (Inr v, s2)" "s' = s2"
    using assms(2) by (auto simp: client_create_volume_def on_conn_def split: sum.splits prod.splits)
  have "s2 = s1" using volumes_contract(4) [OF ontap_contract(2) [OF assms(1)] r(2)] by simp
  then show ?thesis using volumes_contract(3) [OF ontap_contract(2) [OF assms(1)] r(1)] r(3) by (auto simp: volume_added_def stored_def)
qed

lemma access_added:
  assumes "ontap_served sd" "get_all_backends file = Inr backends" "is_event ''volume_type_project.access.add'' d = Inr True"
    and "access_from_event_dict d = Inr ev" "get_volume_name (ca_volume_type_id ev) = Inr n"
    and "os_type_extra_specs os (ca_volume_type_id ev) = Inr specs" "handle_volume_type_access_added os sd file d s = (Inr 0, s')"
  obtains b where "b \<in> set backends" "volume_added (nc_hostname b) (get_svm_name (ca_project_id ev)) n (flexvol_size specs) s s'"
proof -
  obtain x s1 where x: "find_backend sd (ca_project_id ev) backends s = (Inr x, s1)"
    using assms(2-4,6,7) by (auto simp: handle_volume_type_access_added_def Let_def split: sum.splits prod.splits)
  then obtain b where b: "x = Some b"
    using assms(2-4,6,7) by (cases x) (auto simp: handle_volume_type_access_added_def Let_def save_output_def)
  from find_backend_found [OF assms(1) x [unfolded b]] have s1: "b \<in> set backends" "s1 = s\<lparr>connection := Some (nc_hostname b)\<rparr>" by simp_all
  then have c: "connection s1 = Some (nc_hostname b)" by simp
  obtain a s2 where a: "(case dget (case specs of None \<Rightarrow> [] | Some e \<Rightarrow> e) ''netapp:aggregate_name'' of None \<Rightarrow> select_aggregate_name sd | Some a \<Rightarrow> ret a) s1 = (Inr a, s2)"
    using assms(2-4,6,7) x b by (auto simp: handle_volume_type_access_added_def Let_def split: sum.splits prod.splits)
  have s2: "s2 = s1" using a select_least_used [OF assms(1) c] by (auto split: option.splits)
  obtain name s3 where v: "create_volume sd (ca_project_id ev) (ca_volume_type_id ev) (flexvol_size specs) a s1 = (Inr name, s3)"
      "clusters s' = clusters s3"
    using assms(2-4,6,7) x b a s2
    by (auto simp: handle_volume_type_access_added_def Let_def flexvol_size_def save_output_def split: sum.splits prod.splits)
  have "volume_added (nc_hostname b) (get_svm_name (ca_project_id ev)) n (flexvol_size specs) s1 s3"
    by (rule create_volume_added [OF assms(1) c assms(5) v(1)])
  then show thesis using that s1 v(2)
    by (auto simp: volume_added_def cluster_becomes_def svm_at_def vol_at_def)
qed

lemma volume_name_again: "get_volume_name v = Inr n \<Longrightarrow> take 4 n = ''vol_'' \<and> get_volume_name (JStr (drop 4 n)) = Inr n"
  by (cases v) (auto simp: get_volume_name_def)

lemma manager_delete_volume_done:
  assumes "ontap_served sd" "connection s = Some h" "get_volume_name vt = Inr n" "manager_delete_volume sd n f s = (Inr True, s')"
  shows "\<exists>x. vol_at s h (x, n) \<noteq> None \<and> stored h (svm_at s h) ((vol_at s h)((x, n) := None)) s s'"
proof -
  have "client_delete_volume sd n f s = (Inr True, s')"
    using assms(4) volume_name_again [OF assms(3)] by (auto simp: manager_delete_volume_def service_delete_volume_def split: sum.splits prod.splits)
  then obtain v t u where v: "volume_get sd (Some h) n s = (Inr v, t)" "volume_delete sd (Some h) v f t = (Inr u, s')"
    using assms(2) by (auto simp: client_delete_volume_def on_conn_def split: sum.splits prod.splits)
  from volumes_contract(5) [OF ontap_contract(2) [OF assms(1)] v(1)] have k: "t = s" "vr_name v = n" "vol_at s h (vr_svm v, n) \<noteq> None" by simp_all
  from volumes_contract(6) [OF ontap_contract(2) [OF assms(1)] v(2)] show ?thesis using k by auto
qed

lemma access_removed:
  assumes "ontap_served sd" "get_all_backends file = Inr backends" "is_event ''volume_type_project.access.remove'' d = Inr True"
    and "access_from_event_dict d = Inr ev" "get_volume_name (ca_volume_type_id ev) = Inr n"
    and "handle_volume_type_access_removed sd file d s = (Inr 0, s')"
  obtains h x where "vol_at s h (x, n) \<noteq> None" "cluster_becomes h (svm_at s h) ((vol_at s h)((x, n) := None)) s s'"
proof -
  obtain y s1 where y: "find_backend sd (ca_project_id ev) backends s = (Inr y, s1)"
    using assms(2-4,6) by (auto simp: handle_volume_type_access_removed_def split: sum.splits prod.splits)
  then obtain b where b: "y = Some b"
    using assms(2-4,6) by (cases y) (auto simp: handle_volume_type_access_removed_def save_output_def)
  from find_backend_found [OF assms(1) y [unfolded b]] have s1: "s1 = s\<lparr>connection := Some (nc_hostname b)\<rparr>" by simp
  then have c: "connection s1 = Some (nc_hostname b)" by simp
  obtain s2 where m: "manager_delete_volume sd n False s1 = (Inr True, s2)" "clusters s' = clusters s2"
    using assms(2-6) y b by (auto simp: handle_volume_type_access_removed_def save_output_def split: sum.splits prod.splits if_splits)
  from manager_delete_volume_done [OF assms(1) c assms(5) m(1)] show thesis
    using that s1 m(2) by (auto simp: stored_def cluster_becomes_def svm_at_def vol_at_def)
qed


section \<open>A cluster that keeps these promises\<close>

definition on_cluster :: "conn \<Rightarrow> (cluster \<Rightarrow> cluster) \<Rightarrow> netapp \<Rightarrow> netapp" where
  "on_cluster c f s = s\<lparr>clusters := (clusters s)(the c := f (clusters s (the c)))\<rparr>"

definition ontap_server :: ontap_sdk where
  "ontap_server =
     \<lparr>connection_host = Some, host_connection = (\<lambda>_. Inr ()),
      svm_find = (\<lambda>c n s. (Inr (map_option (\<lambda>_. \<lparr>sr_name = n, sr_uuid = n, sr_state = Some ''running''\<rparr>) (svm_at s (the c) n)), s)),
      svm_post = (\<lambda>c spec s.
        if svm_at s (the c) (ss_name spec) \<noteq> None then (Inl (NetAppRestError 409 ''duplicate entry''), s)
        else (Inr (), on_cluster c (\<lambda>k. k\<lparr>svms := dput (ss_name spec) spec (svms k),
          volumes := dput (ss_name spec, root_volume_name spec)
            \<lparr>vo_aggregate = ss_aggregate_name spec, vo_size = JNum 0, vo_snapshot_policy = JNull, vo_autosize = JNull\<rparr> (volumes k)\<rparr>) s)),
      svm_get = (\<lambda>c n s.
        if svm_at s (the c) n = None then (Inl (NetAppRestError 404 ''entry does not exist''), s)
        else (Inr \<lparr>sr_name = n, sr_uuid = n, sr_state = Some ''running''\<rparr>, s)),
      svm_delete = (\<lambda>c x s.
        if list_all (\<lambda>(k, _). fst k = sr_name x \<longrightarrow> Some (snd k) = map_option root_volume_name (svm_at s (the c) (sr_name x))) (volumes (clusters s (the c)))
        then (Inr (), on_cluster c (\<lambda>k. k\<lparr>svms := filter (\<lambda>(n, _). n \<noteq> sr_name x) (svms k), volumes := filter (\<lambda>(n, _). fst n \<noteq> sr_name x) (volumes k)\<rparr>) s)
        else (Inl (NetAppRestError 409 ''the SVM has volumes''), s)),
      volume_collection = (\<lambda>c svm n s.
        (Inr (if vol_at s (the c) (svm, n) = None then [] else [\<lparr>vr_svm = svm, vr_name = n, vr_uuid = n, vr_size = None, vr_state = None\<rparr>]), s)),
      volume_patch = (\<lambda>c v d s.
        case vol_at s (the c) (vr_svm v, vr_name v) of
          None \<Rightarrow> (Inl (NetAppRestError 404 ''entry does not exist''), s)
        | Some w \<Rightarrow> (Inr (), on_cluster c (\<lambda>k. k\<lparr>volumes := dput (vr_svm v, vr_name v) (patched d w) (volumes k)\<rparr>) s)),
      volume_post = (\<lambda>c spec s.
        if vol_at s (the c) (vs_svm_name spec, vs_name spec) \<noteq> None \<or> svm_at s (the c) (vs_svm_name spec) = None
        then (Inl (NetAppRestError 409 ''refused''), s)
        else (Inr (), on_cluster c (\<lambda>k. k\<lparr>volumes := dput (vs_svm_name spec, vs_name spec)
          \<lparr>vo_aggregate = vs_aggregate_name spec, vo_size = JStr (vs_size spec), vo_snapshot_policy = JNull, vo_autosize = JNull\<rparr> (volumes k)\<rparr>) s)),
      volume_refresh = (\<lambda>c spec s.
        (Inr \<lparr>vr_svm = vs_svm_name spec, vr_name = vs_name spec, vr_uuid = vs_name spec, vr_size = Some 551903297536, vr_state = Some ''online''\<rparr>, s)),
      volume_get = (\<lambda>c n s.
        case find (\<lambda>(k, _). snd k = n) (volumes (clusters s (the c))) of
          None \<Rightarrow> (Inl (NetAppRestError 404 ''entry does not exist''), s)
        | Some (k, _) \<Rightarrow> (Inr \<lparr>vr_svm = fst k, vr_name = n, vr_uuid = n, vr_size = None, vr_state = Some ''online''\<rparr>, s)),
      volume_delete = (\<lambda>c v f s. (Inr (), on_cluster c (\<lambda>k. k\<lparr>volumes := filter (\<lambda>(n, _). n \<noteq> (vr_svm v, vr_name v)) (volumes k)\<rparr>) s)),
      volume_find = (\<lambda>c n svm s.
        (Inr (map_option (\<lambda>_. \<lparr>vr_svm = svm, vr_name = n, vr_uuid = n, vr_size = Some 1, vr_state = Some ''online''\<rparr>) (vol_at s (the c) (svm, n))), s)),
      aggregate_collection = (\<lambda>c s. (Inr
        [\<lparr>ag_name = Some ''aggr1'', ag_state = Some ''online'', ag_used_percent = Some 70\<rparr>,
         \<lparr>ag_name = Some ''aggr2'', ag_state = Some ''online'', ag_used_percent = Some 20\<rparr>,
         \<lparr>ag_name = Some ''aggr3'', ag_state = Some ''offline'', ag_used_percent = Some 5\<rparr>], s))\<rparr>"

lemma map_of_filter_keys: "map_of (filter (\<lambda>(k, _). P k) d) = (\<lambda>k. if P k then map_of d k else None)"
  by (induction d) (auto simp: fun_eq_iff)

lemma stored_on_cluster:
  "stored h (map_of (svms (f (clusters s h)))) (map_of (volumes (f (clusters s h)))) s (on_cluster (Some h) f s)"
  by (simp add: stored_def cluster_becomes_def on_cluster_def svm_at_def vol_at_def)

lemma stored_on_clusterI:
  "map_of (svms (f (clusters s h))) = sv \<Longrightarrow> map_of (volumes (f (clusters s h))) = vo \<Longrightarrow> stored h sv vo s (on_cluster (Some h) f s)"
  using stored_on_cluster [of h f s] by simp

lemma no_volumes_iff:
  "list_all (\<lambda>(k, _). fst k = n \<longrightarrow> Q (snd k)) (volumes (clusters s h)) \<longleftrightarrow> (\<forall>v. vol_at s h (n, v) \<noteq> None \<longrightarrow> Q v)"
proof -
  have "vol_at s h (n, v) \<noteq> None \<longleftrightarrow> (n, v) \<in> fst ` set (volumes (clusters s h))" for v
    unfolding vol_at_def by (simp add: map_of_eq_None_iff del: not_None_eq)
  then show ?thesis by (force simp: list_all_iff)
qed

lemma server_svms: "svms_served ontap_server"
  unfolding svms_served_def ontap_server_def
  by (auto simp: no_volumes_iff [where Q = "\<lambda>v. Some v = w" for w] map_of_filter_keys svm_at_def vol_at_def fun_eq_iff
      intro!: stored_on_clusterI exI split: if_splits)

lemma posted_volume:
  "\<exists>v. vo_aggregate v = a \<and> vo_size v = z \<and> stored h (map_of (svms (clusters s h))) ((map_of (volumes (clusters s h)))(k \<mapsto> v)) s
     (on_cluster (Some h) (\<lambda>c. c\<lparr>volumes := dput k \<lparr>vo_aggregate = a, vo_size = z, vo_snapshot_policy = x, vo_autosize = y\<rparr> (volumes c)\<rparr>) s)"
  by (intro exI [of _ "\<lparr>vo_aggregate = a, vo_size = z, vo_snapshot_policy = x, vo_autosize = y\<rparr>"])
    (auto intro: stored_on_clusterI)

lemma found_volume: "find (\<lambda>(k, _). snd k = n) d = Some ((a, b), v) \<Longrightarrow> \<exists>y. map_of d (a, n) = Some y"
  by (induction d) (auto split: if_splits)

lemma server_volumes: "volumes_served ontap_server"
  unfolding volumes_served_def ontap_server_def
  by (auto simp: map_of_filter_keys svm_at_def vol_at_def fun_eq_iff pure_act_def posted_volume found_volume
      intro!: stored_on_clusterI split: if_splits option.splits prod.splits)

lemma server_served: "ontap_served ontap_server"
  using server_svms server_volumes by (simp add: ontap_served_def ontap_server_def)

lemma server_answers: "lookups_answered ontap_server"
  by (simp add: lookups_answered_def ontap_server_def)

lemma server_deletes: "deletions_done ontap_server"
proof -
  have "\<exists>a b v. find (\<lambda>(k, _). snd k = n) d = Some ((a, b), v)" if "map_of d (x, n) = Some y" for d :: "((string \<times> string) \<times> volume_row) list" and x n y
    using that by (induction d) (auto split: if_splits)
  then show ?thesis unfolding deletions_done_def ontap_server_def
    by (force simp: no_volumes_iff [where Q = "\<lambda>v. Some v = w" for w] vol_at_def split: option.splits)
qed

text \<open>A project with the tag on two backends: its SVM has a volume of a volume type.\<close>

definition example_ini :: ini_file where
  "example_ini = Sections
     [(''west'', [(''netapp_server_hostname'', Inr ''west.example''), (''netapp_login'', Inr ''admin''), (''netapp_password'', Inr ''secret'')]),
      (''east'', [(''netapp_server_hostname'', Inr ''east.example''), (''netapp_login'', Inr ''admin''), (''netapp_password'', Inr ''secret''),
        (''netapp_nic_slot_prefix'', Inr ''e5'')])]"

definition example_backends :: "NetAppConfig list" where
  "example_backends =
     [\<lparr>nc_section = ''west'', nc_hostname = ''west.example'', nc_username = ''admin'', nc_password = ''secret'', nc_nic_slot_prefix = ''e4''\<rparr>,
      \<lparr>nc_section = ''east'', nc_hostname = ''east.example'', nc_username = ''admin'', nc_password = ''secret'', nc_nic_slot_prefix = ''e5''\<rparr>]"

definition empty_clusters :: netapp where
  "empty_clusters = \<lparr>connection = None, clusters = (\<lambda>_. \<lparr>svms = [], volumes = []\<rparr>), outputs = [], connectors = []\<rparr>"

definition project_event :: "string \<Rightarrow> json" where
  "project_event t = JObj [(''event_type'', JStr t), (''payload'', JObj [(''target'', JObj [(''id'', JStr ''p1'')])])]"

definition access_event :: "string \<Rightarrow> json" where
  "access_event t = JObj [(''event_type'', JStr t), (''payload'', JObj [(''project_id'', JStr ''p1''), (''volume_type_id'', JStr ''a-b'')])]"

definition example_openstack :: "string list \<Rightarrow> openstack" where
  "example_openstack tags =
     \<lparr>os_project_tags = (\<lambda>_. Inr (Some tags)), os_type_extra_specs = (\<lambda>_. Inr None), os_server_metadata = (\<lambda>_. Inr None),
      os_create_volume_connector = (\<lambda>_ _. ret ())\<rparr>"

lemma example_backends_loaded: "get_all_backends example_ini = Inr example_backends"
  by code_simp

text \<open>The project's SVM on the first backend, with volumes of the given names.\<close>

definition project_storage :: "string list \<Rightarrow> netapp" where
  "project_storage names = empty_clusters\<lparr>clusters := (clusters empty_clusters)(''west.example'' :=
     \<lparr>svms = [(''os-p1'', svm_spec (JStr ''p1'') ''aggr2'')],
      volumes = map (\<lambda>n. ((''os-p1'', n), \<lparr>vo_aggregate = ''aggr2'', vo_size = JNull, vo_snapshot_policy = JNull, vo_autosize = JNull\<rparr>)) names\<rparr>)\<rparr>"

lemma project_storage_at:
  "svm_at (project_storage names) h n = (if h = ''west.example'' \<and> n = ''os-p1'' then Some (svm_spec (JStr ''p1'') ''aggr2'') else None)"
  "vol_at (project_storage names) h (x, n) \<noteq> None \<longleftrightarrow> h = ''west.example'' \<and> x = ''os-p1'' \<and> n \<in> set names"
  by (auto simp: svm_at_def vol_at_def project_storage_def empty_clusters_def map_of_map_restrict map_of_eq_None_iff image_iff simp del: not_None_eq)

lemma example_names:
  "get_volume_name (JStr ''p1'') = Inr ''vol_p1''" "get_volume_name (JStr ''a-b'') = Inr ''vol_ab''" "get_svm_name (JStr ''p1'') = ''os-p1''"
  "root_volume_name (svm_spec (JStr ''p1'') a) = ''os_p1_root''"
  by (simp_all add: get_volume_name_def get_svm_name_def root_volume_name_def svm_spec_def)

lemma example_home: "home (JStr ''p1'') (project_storage names) example_backends = Some (hd example_backends)"
  "nc_hostname (hd example_backends) = ''west.example''"
  by (simp_all add: home_def example_backends_def project_storage_at example_names)

lemma example_event:
  "is_event ''identity.project.deleted'' (project_event ''identity.project.deleted'') = Inr True"
  "is_event ''identity.project.created'' (project_event ''identity.project.created'') = Inr True"
  "is_event ''identity.project.updated'' (project_event ''identity.project.updated'') = Inr True"
  "is_event ''volume_type_project.access.add'' (access_event ''volume_type_project.access.add'') = Inr True"
  "is_event ''volume_type_project.access.remove'' (access_event ''volume_type_project.access.remove'') = Inr True"
  "project_from_event_dict (project_event t) = Inr (JStr ''p1'')"
  "access_from_event_dict (access_event t) = Inr \<lparr>ca_project_id = JStr ''p1'', ca_volume_type_id = JStr ''a-b''\<rparr>"
  "keystone_project_tags (example_openstack tags) p = Inr tags"
  by (simp_all add: is_event_def project_event_def access_event_def project_from_event_dict_def access_from_event_dict_def
      jget_def jget_default_def dget_def keystone_project_tags_def example_openstack_def)


lemma project_creation_example:
  "fst (handle_project_created (example_openstack [SVM_PROJECT_TAG]) ontap_server example_ini (project_event ''identity.project.created'') empty_clusters) = Inr 0 \<and>
   svm_placed ontap_server ''west.example'' (JStr ''p1'') empty_clusters
     (snd (handle_project_created (example_openstack [SVM_PROJECT_TAG]) ontap_server example_ini (project_event ''identity.project.created'') empty_clusters))"
proof -
  let ?r = "handle_project_created (example_openstack [SVM_PROJECT_TAG]) ontap_server example_ini (project_event ''identity.project.created'') empty_clusters"
  have b: "get_all_backends example_ini = Inr (hd example_backends # tl example_backends)" by code_simp
  have "fst ?r = Inr 0" by code_simp
  then have "?r = (Inr 0, snd ?r)" by (simp add: prod_eq_iff)
  from project_creation_places_svm [OF server_served b example_event(2) example_event(6) example_event(8) this] \<open>fst ?r = Inr 0\<close>
  show ?thesis by (simp add: example_home)
qed



section \<open>Provisioning\<close>

text \<open>
  When the handler of a finished deployment returns 0 for an instance of a project, the output says whether the server wants
  storage and its project may have it, and the connector with the instance's NVMe name has been requested.
\<close>

lemma provision_end_storage:
  assumes "extract_payload_data d = Inr (JObj p)" "p \<noteq> []" "json_truthy (jget_default p ''lessee'' JNull)" "json_truthy (jget_default p ''instance_uuid'' JNull)"
    and "provision_from_event_dict d = Inr ev" "lessee_undashed ev = Inr t" "keystone_project_tags os (JStr t) = Inr tags"
    and "os_server_metadata os (ps_instance_uuid ev) = Inr (Some metadata)"
    and "\<And>i c s r s'. os_create_volume_connector os i c s = (r, s') \<Longrightarrow> outputs s' = outputs s"
    and "handle_provision_end os d s = (Inr 0, s')"
  shows "dget (outputs s') ''storage'' = Some (if dget metadata ''storage'' = Some ''wanted''
      then if SVM_PROJECT_TAG \<in> set tags then ''wanted'' else ''wanted-but-not-project'' else ''not-set'') \<and>
    (\<exists>s1. create_volume_connector os ev s1 = (Inr (), s'))"
proof -
  let ?w = "if dget metadata ''storage'' = Some ''wanted'' then if SVM_PROJECT_TAG \<in> set tags then ''wanted'' else ''wanted-but-not-project'' else ''not-set''"
  let ?o = "\<lambda>x y. dput ''instance_uuid'' y (dput ''node_uuid'' x (dput ''storage'' ?w (dput ''project_tags'' (dumps_strings tags) (outputs s))))"
  obtain x y where "create_volume_connector os ev (s\<lparr>outputs := ?o x y\<rparr>) = (Inr (), s')"
    using assms(1-8,10)
    by (auto simp: handle_provision_end_def svm_enabled_run save_output_def save_value_def split: sum.splits prod.splits json.splits)
  moreover have S: "dget (outputs (s\<lparr>outputs := ?o x y\<rparr>)) ''storage'' = Some ?w" by (simp add: dget_dput)
  ultimately obtain s1 where s1: "dget (outputs s1) ''storage'' = Some ?w" "create_volume_connector os ev s1 = (Inr (), s')"
    by blast
  have "outputs s' = outputs s1" using s1(2) assms(9) by (auto simp: create_volume_connector_def split: sum.splits prod.splits if_splits)
  then show ?thesis using s1 by auto
qed

end
