(* ===== verification/Spec2Isabelle.thy ===== *)
theory Spec2Isabelle
  imports Vrf Mech_Driver Palo_Alto Enroll_Fw Inspect_Node Nautobot_Ipam Nautobot_Device Netapp_Projects
begin

text \<open>
  Verification of the understack services (root theory).

  \<^bold>\<open>The program.\<close>  Understack runs OpenStack on bare metal.  Three of its Python packages hold most of
  its own logic.  \<open>src/python/neutron-understack\<close> plugs into Neutron: an ML2 mechanism driver and a trunk
  driver that bind baremetal ports to VLAN segments of a physical network, the handlers that connect
  routed networks to the network node, and router flavors (EVPN VRF, SVI, Palo Alto).
  \<open>src/python/understack-workflows\<close> holds the workflows that enroll hardware in Ironic: servers, network
  devices and firewalls, the handlers that keep Nautobot in step with OpenStack, and those that give projects storage.  \<open>src/python/ironic-understack\<close> extends Ironic's conductor and API: the hooks that run
  when a node is inspected, and a check of portgroup names.

  \<^bold>\<open>How the code is represented.\<close>  A Python call is an \<open>act\<close> of \<open>Prelude\<close>: a function of the state that
  returns a result or raises an \<open>exn\<close>, with the state as it was left.  A raise does not undo what was
  written before it.  A database table is a list of rows, its queries are filters of the list.  Every
  definition is total: the loops of the modelled code run over lists, so there is no fuel and nothing
  needs a bound; the one retry loop is a recursion on the number of attempts left.  Python integers are \<open>int\<close>, strings are ASCII.  Logging is left out.  Code
  outside the repository (Neutron's plugins and managers, OVN, openstacksdk, ironicclient, HTTP) is a
  parameter: a field of an environment record (\<open>flavor_env\<close>, \<open>net_env\<close>, \<open>svi_env\<close>, \<open>router_env\<close>,
  \<open>ironic_env\<close>, \<open>palo_env\<close>, \<open>wf_env\<close>, \<open>server_env\<close>, \<open>bmc_env\<close>, \<open>hook_env\<close>,
  \<open>nautobot_ipam\<close>, \<open>nautobot_dcim\<close>, \<open>nautobot_sync\<close>).  Where a theorem needs its documented behaviour, that is
  a named hypothesis (\<open>tm_ok\<close>, \<open>plugins_ok\<close>, \<open>ironic_ok\<close>, \<open>wf_ok\<close>, \<open>server_ok\<close>, \<open>hook_ok\<close>, \<open>nautobot_ok\<close>, \<open>devices_served\<close>), and the witnesses discharge it
  for a concrete environment.

  \<^bold>\<open>Shared theories.\<close>
  \<^item> \<open>Prelude\<close>: exceptions, acts, the judgements \<open>valid\<close>, \<open>keeps\<close>, \<open>returns\<close> (a call returns) and \<open>alike\<close> (two acts
    agree from the states of a precondition) with their rules, dictionaries and truthiness.
  \<^item> \<open>Py_Str\<close>, \<open>Py_Net\<close>, \<open>Py_Uuid\<close> and \<open>Json\<close>: the functions of Python's \<open>str\<close>, \<open>int\<close>, \<open>uuid\<close>, \<open>ipaddress\<close> and \<open>base64\<close> that the
    code uses, and decoded JSON with the operations on it.

  \<^bold>\<open>Neutron: router VNIs.\<close>
  \<^item> \<open>Vlan_Ranges\<close> models the range arithmetic of \<open>neutron_understack/utils.py\<close>; the locale
    \<open>range_normaliser\<close> is the contract of a merge and has both merge routines of the code as instances.
  \<^item> \<open>Vni_Db\<close> models \<open>l3_router/understack_vni_db.py\<close> over the table of \<open>db/understack_vni.py\<close>: range
    parsing, allocation (explicit, unused, reused), release and the foreign key.  Shown: exclusivity of VNIs
    in every reachable table, refinement of an abstract pool, that allocation succeeds exactly when a VNI is
    free, which VNI it takes, and the round trip of ranges through their text.  The locale \<open>vni_pool\<close> is what
    clients rely on.
  \<^item> \<open>Vrf\<close> models \<open>l3_router/vrf.py\<close> and \<open>evpn_compat.py\<close>: the router callbacks over \<open>vni_pool\<close>.  Shown: what
    the API shows after a create, create and delete are inverse, and refusals change nothing.

  \<^bold>\<open>Neutron: ports, trunks and uplinks.\<close>
  \<^item> \<open>Neutron_Db\<close> holds the tables the drivers share (\<open>world\<close>) and \<open>utils.py\<close>'s access to them with
    \<open>undersync.py\<close>'s requests as a log; \<open>Gateway_Trunk\<close> the search for the network node trunk in \<open>utils.py\<close>.
  \<^item> \<open>Trunk_Driver\<close> models \<open>trunk.py\<close>.  Shown: tenant subports avoid the shared VLAN ranges, a bound trunk's
    subports are wired, their teardown is complete and releases exactly what they used.  The locale
    \<open>net_operation\<close> (an operation that keeps the tables' keys) has the handlers as instances.
  \<^item> \<open>Svi\<close> models \<open>l3_router/svi.py\<close>: the address scope rules, characterised exactly.
  \<^item> \<open>Routers\<close> models \<open>routers.py\<close>: the uplink of a routed network, its cleanup, and the HA chassis group.
    Shown: one uplink per network, cleanup inverts creation, when OVN is changed at all.
  \<^item> \<open>Mech_Driver\<close> models \<open>neutron_understack_mech.py\<close> and \<open>undersync_mech.py\<close>.  Shown: the two-level binding,
    when a port is left unbound, the cleanup after unbinding, and that any sequence of hooks and events keeps
    every binding level on an existing segment.
  \<^item> \<open>Ironic_Client\<close> models \<open>ironic.py\<close> and \<open>Palo_Alto\<close> models \<open>l3_router/palo_alto.py\<close>, which uses it through
    the locale \<open>node_lifecycle\<close>: a router adopts exactly one node, a failure hands it back, deletion inverts
    creation.

  \<^bold>\<open>Workflows: enrollment.\<close>
  \<^item> \<open>Ironic_Workflow\<close> holds Ironic's nodes and ports as the workflows reach them through
    \<open>ironic/client.py\<close>, and \<open>transition\<close> of \<open>ironic_node.py\<close>.
  \<^item> \<open>Netdev_Reconciler\<close> models \<open>netdev_reconciler.py\<close>.  The locale \<open>converging_patch\<close> of \<open>Prelude\<close> (a patch computed from the
    difference to a target reaches it, and is empty there) has the port and the metadata patches as instances.
    \<open>Netdev_Enroll\<close> shows that \<open>enroll\<close> converges, is idempotent, refuses conflicts before writing, and writes
    ports only while the node is out of the pool.
  \<^item> \<open>Enroll_Fw\<close> models \<open>main/enroll_fw.py\<close> and \<open>firewall.py\<close>: a firewall in service only gets its metadata
    patched.
  \<^item> \<open>Raid\<close> models \<open>raid.py\<close>: the configuration is a function of the set of disks.
  \<^item> \<open>Redfish\<close> models \<open>bmc.py\<close> and \<open>bmc_credentials.py\<close>: the client of a server's management controller, whose
    methods act on a pair of the world and the \<open>Bmc\<close> object, and the password workflow.  \<open>accounts_ok\<close> is what an
    account service promises for safety, \<open>sessions_served\<close> and \<open>accounts_served\<close> what it takes for the workflow to
    succeed.  Shown: no other password changes, the account's own only to the production one, and it returns with
    the production password whenever a candidate is the present one.
  \<^item> \<open>Bmc_Config\<close> models the other \<open>bmc_*.py\<close> modules.  The updates of BIOS and controller settings are two more
    instances of \<open>converging_patch\<close>, and converge.
  \<^item> \<open>Server_Enroll\<close> models \<open>ironic_node.py\<close> and \<open>main/enroll_server.py\<close>, over both: only legal transitions are
    requested, a returned enrollment leaves the node available with its steady boot interface, and the
    controller's root account with the standard password.

  \<^bold>\<open>Ironic: inspection.\<close>
  \<^item> \<open>Switch_Names\<close> models \<open>inspected_port.py\<close> and \<open>vlan_group_name_convention.py\<close>: switch names, the VLAN
    group of a switch (a list of its pairs, characterised exactly) and the natural order in which the switches
    are compared (\<open>key_part\<close> is a \<open>linorder\<close>, so the library's sorting applies).
  \<^item> \<open>Inspection\<close> models the hooks of \<open>port_bios_name_hook.py\<close> and \<open>update_baremetal_ports.py\<close>.  The locale
    \<open>port_step\<close> is the contract of a loop body that treats one port at a time; both hooks are instances.  Shown:
    after the hooks every port names the switch its LLDP record names, the node's switch traits are exact, and
    server enrollment finds the PXE port.
  \<^item> \<open>Inspect_Node\<close> models \<open>resource_class.py\<close>, \<open>node_name_check.py\<close>, \<open>chassis_model.py\<close> and the
    matcher of \<open>flavor\<close> specifications: the resource class is the first that fits, the traits the hook manages
    are exact and the rest untouched.
  \<^item> \<open>Portgroup_Name\<close> models the API middleware: a portgroup name reaches Ironic only when it is valid.

  \<^bold>\<open>Nautobot in step with OpenStack.\<close>  Nautobot's tables are the state, and a request of its client either returns
  with a documented effect or raises.
  \<^item> \<open>Nautobot_Ipam\<close> models \<open>oslo_event/neutron_network.py\<close>, \<open>oslo_event/neutron_subnet.py\<close> and
    \<open>main/resync_neutron_to_nautobot.py\<close>.  The locale \<open>upsert\<close> (update, and create when there is nothing to update) has the UCVNI and the
    prefix as instances.  Shown: a resynchronisation that exits with 0 leaves every network and subnet in Nautobot as
    Neutron has it, and deleting a network undoes all that it and its subnets had added.
  \<^item> \<open>Nautobot_Dcim\<close> models \<open>oslo_event/ironic_port.py\<close>, \<open>oslo_event/ironic_portgroup.py\<close> and the dispatch of
    \<open>main/openstack_oslo_event.py\<close>.  Shown: after a port event the interface has the event's attributes and is cabled to the
    switch port it names; what becomes of the port group names that the middleware lets through.
  \<^item> \<open>Nautobot_Interfaces\<close> models \<open>oslo_event/nautobot_device_interface_sync.py\<close>: after a synchronisation the device's
    interfaces are the ports of its node and the management interface.
  \<^item> \<open>Nautobot_Device\<close> models \<open>oslo_event/nautobot_device_sync.py\<close> and \<open>ironic/provision_state_mapper.py\<close>, with the device's changes as
    one more instance of \<open>converging_patch\<close>.  Shown: the device shows what Ironic knows of its node whatever requests had to be repeated,
    a node enrolled anew takes the place of the old device, and the number of attempts is bounded.

  \<^bold>\<open>Storage of projects.\<close>
  \<^item> \<open>Netapp_Storage\<close> models \<open>netapp/config.py\<close>, \<open>netapp/svm_service.py\<close>, \<open>netapp/volume_service.py\<close>, the SVM and volume operations of
    \<open>netapp/client.py\<close> and \<open>netapp/manager.py\<close>, and the handlers of \<open>oslo_event/keystone_project.py\<close>, \<open>oslo_event/cinder_volume_type.py\<close> and
    \<open>oslo_event/ironic_node.py\<close>.  The state is the tables of every cluster, the one connection of the process and the outputs written.
  \<^item> \<open>Netapp_Projects\<close> states what the SDK promises and shows where a project's SVM is created, that it follows the project's
    tag, exactly when the deletion of a project removes it, and that volumes of a volume type come and go with the access to it.

  \<^bold>\<open>Not modelled.\<close>  The Cisco ASA flavor sends commands to an appliance whose answers the code ignores.  The network configuration of
  an SVM (\<open>netapp/lif_service.py\<close>, \<open>netapp/route_service.py\<close>, \<open>main/netapp_configure_net.py\<close>) rests on the validation of pydantic models.
  \<open>bmc_disk.py\<close> computes with floating point capacities and has no caller.  Callback registration, option declarations, API descriptors,
  migrations and argument parsers are declarative.  The Nova and Cinder drivers are glue over classes of those
  projects.  The command line tools and maintenance scripts are run by hand and only read or call remote
  services.  Concurrency between workers (two sessions racing for a VNI, a node or a segment) is
  represented only where the code handles it: the constraint checked at \<open>flush\<close> and the lookups after a
  conflict.
\<close>

end
